(* ===== verification/Prelude.thy ===== *)
theory Prelude
  imports Main "HOL-Library.Sublist"
begin

text \<open>
  Shared infrastructure of the development.

  \<^item> \<open>em\<close>: computations that read and write a state and may raise, the shape of every Python
    method of the adapter. A raise keeps the state changes made before it, as in Python, so the
    state is outside the sum: \<open>'s \<Rightarrow> ('e + 'a) \<times> 's\<close>.
  \<^item> \<open>em_simps\<close>: the rewrite rules that run such a computation; \<open>adapter_defs\<close>: definitions of small
    helpers that proofs unfold together.
  \<^item> Generic lemmas on association lists, folds and options that several components use.
\<close>

named_theorems em_simps "evaluation rules of the state-and-exception combinators"
named_theorems adapter_defs "definitions of small helpers that proofs unfold together"

section \<open>State and exceptions\<close>

type_synonym ('s, 'e, 'a) em = "'s \<Rightarrow> ('e + 'a) \<times> 's"

definition returnE :: "'a \<Rightarrow> ('s, 'e, 'a) em" where
  "returnE x = (\<lambda>s. (Inr x, s))"

definition raiseE :: "'e \<Rightarrow> ('s, 'e, 'a) em" where
  "raiseE e = (\<lambda>s. (Inl e, s))"

definition bindE :: "('s, 'e, 'a) em \<Rightarrow> ('a \<Rightarrow> ('s, 'e, 'b) em) \<Rightarrow> ('s, 'e, 'b) em" where
  "bindE m f = (\<lambda>s. case m s of (Inl e, s') \<Rightarrow> (Inl e, s') | (Inr x, s') \<Rightarrow> f x s')"

definition thenE :: "('s, 'e, 'a) em \<Rightarrow> ('s, 'e, 'b) em \<Rightarrow> ('s, 'e, 'b) em" where
  "thenE m n = bindE m (\<lambda>_. n)"

text \<open>\<open>try: m except e: h e\<close>.\<close>

definition catchE :: "('s, 'e, 'a) em \<Rightarrow> ('e \<Rightarrow> ('s, 'e, 'a) em) \<Rightarrow> ('s, 'e, 'a) em" where
  "catchE m h = (\<lambda>s. case m s of (Inl e, s') \<Rightarrow> h e s' | (Inr x, s') \<Rightarrow> (Inr x, s'))"

text \<open>\<open>try: m except e: h e else: f x\<close>: what \<open>f\<close> raises is not caught.\<close>

definition tryE :: "('s, 'e, 'a) em \<Rightarrow> ('e \<Rightarrow> ('s, 'e, 'b) em) \<Rightarrow> ('a \<Rightarrow> ('s, 'e, 'b) em)
    \<Rightarrow> ('s, 'e, 'b) em" where
  "tryE m h f = (\<lambda>s. case m s of (Inl e, s') \<Rightarrow> h e s' | (Inr x, s') \<Rightarrow> f x s')"

definition getE :: "('s \<Rightarrow> 'a) \<Rightarrow> ('s, 'e, 'a) em" where
  "getE f = (\<lambda>s. (Inr (f s), s))"

definition modifyE :: "('s \<Rightarrow> 's) \<Rightarrow> ('s, 'e, unit) em" where
  "modifyE f = (\<lambda>s. (Inr (), f s))"

definition liftE :: "'e + 'a \<Rightarrow> ('s, 'e, 'a) em" where
  "liftE r = (\<lambda>s. (r, s))"

primrec forE :: "'x list \<Rightarrow> ('x \<Rightarrow> ('s, 'e, unit) em) \<Rightarrow> ('s, 'e, unit) em" where
  "forE [] f = returnE ()"
| "forE (x # xs) f = thenE (f x) (forE xs f)"

lemma bindE_apply [em_simps]:
  "bindE m f s = (case m s of (Inl e, s') \<Rightarrow> (Inl e, s') | (Inr x, s') \<Rightarrow> f x s')"
  by (simp add: bindE_def)

lemma thenE_apply [em_simps]:
  "thenE m n s = (case m s of (Inl e, s') \<Rightarrow> (Inl e, s') | (Inr x, s') \<Rightarrow> n s')"
  by (simp add: thenE_def bindE_def)

lemma catchE_apply [em_simps]:
  "catchE m h s = (case m s of (Inl e, s') \<Rightarrow> h e s' | (Inr x, s') \<Rightarrow> (Inr x, s'))"
  by (simp add: catchE_def)

lemma tryE_apply [em_simps]:
  "tryE m h f s = (case m s of (Inl e, s') \<Rightarrow> h e s' | (Inr x, s') \<Rightarrow> f x s')"
  by (simp add: tryE_def)

lemma returnE_apply [em_simps]: "returnE x s = (Inr x, s)"
  by (simp add: returnE_def)

lemma raiseE_apply [em_simps]: "raiseE e s = (Inl e, s)"
  by (simp add: raiseE_def)

lemma getE_apply [em_simps]: "getE f s = (Inr (f s), s)"
  by (simp add: getE_def)

lemma modifyE_apply [em_simps]: "modifyE f s = (Inr (), f s)"
  by (simp add: modifyE_def)

lemma liftE_apply [em_simps]: "liftE r s = (r, s)"
  by (simp add: liftE_def)

text \<open>Inversion of a computation that returned.\<close>

named_theorems em_returned "inversion of computations that returned a value"

lemma bindE_eq_Inr [em_returned]:
  "bindE m f s = (Inr y, s') \<longleftrightarrow> (\<exists>x s1. m s = (Inr x, s1) \<and> f x s1 = (Inr y, s'))"
  by (auto simp: bindE_def split: prod.splits sum.splits)

lemma thenE_eq_Inr [em_returned]:
  "thenE m n s = (Inr y, s') \<longleftrightarrow> (\<exists>x s1. m s = (Inr x, s1) \<and> n s1 = (Inr y, s'))"
  by (auto simp: thenE_def bindE_def split: prod.splits sum.splits)

lemma catchE_eq_Inr [em_returned]:
  "catchE m h s = (Inr y, s') \<longleftrightarrow> m s = (Inr y, s') \<or> (\<exists>e s1. m s = (Inl e, s1) \<and> h e s1 = (Inr y, s'))"
  by (auto simp: catchE_def split: prod.splits sum.splits)

lemma returnE_eq_Inr [em_returned]: "returnE x s = (Inr y, s') \<longleftrightarrow> y = x \<and> s' = s"
  by (auto simp: returnE_def)

lemma raiseE_eq_Inr [em_returned]: "raiseE e s = (Inr y, s') \<longleftrightarrow> False"
  by (simp add: raiseE_def)

lemma getE_eq_Inr [em_returned]: "getE f s = (Inr y, s') \<longleftrightarrow> y = f s \<and> s' = s"
  by (auto simp: getE_def)

lemma modifyE_eq_Inr [em_returned]: "modifyE f s = (Inr y, s') \<longleftrightarrow> s' = f s"
  by (auto simp: modifyE_def)

lemma liftE_eq_Inr [em_returned]: "liftE r s = (Inr y, s') \<longleftrightarrow> r = Inr y \<and> s' = s"
  by (auto simp: liftE_def)

text \<open>
  A state predicate that every step of a computation keeps. The rules follow the combinators, so
  that an invariant of a handler is proved call by call (\<open>keeps_rules\<close>).
\<close>

named_theorems keeps_rules "introduction rules for preserved state relations"

definition keeps :: "('s \<Rightarrow> 's \<Rightarrow> bool) \<Rightarrow> ('s, 'e, 'a) em \<Rightarrow> bool" where
  "keeps R m \<longleftrightarrow> (\<forall>s. R s (snd (m s)))"

lemma keepsI: "(\<And>s. R s (snd (m s))) \<Longrightarrow> keeps R m"
  by (simp add: keeps_def)

lemma keepsD: "keeps R m \<Longrightarrow> R s (snd (m s))"
  by (simp add: keeps_def)

lemma keepsD_eq: "keeps R m \<Longrightarrow> m s = (r, s') \<Longrightarrow> R s s'"
  by (metis keeps_def snd_conv)

lemma keeps_returnE [keeps_rules]: "reflp R \<Longrightarrow> keeps R (returnE x)"
  by (simp add: keeps_def returnE_def reflpD)

lemma keeps_raiseE [keeps_rules]: "reflp R \<Longrightarrow> keeps R (raiseE e)"
  by (simp add: keeps_def raiseE_def reflpD)

lemma keeps_getE [keeps_rules]: "reflp R \<Longrightarrow> keeps R (getE f)"
  by (simp add: keeps_def getE_def reflpD)

lemma keeps_liftE [keeps_rules]: "reflp R \<Longrightarrow> keeps R (liftE r)"
  by (simp add: keeps_def liftE_def reflpD)

lemma keeps_modifyE: "(\<And>s. R s (f s)) \<Longrightarrow> keeps R (modifyE f)"
  by (simp add: keeps_def modifyE_def)

lemma keeps_bindE [keeps_rules]:
  assumes "transp R" "keeps R m" "\<And>x. keeps R (f x)"
  shows "keeps R (bindE m f)"
proof (rule keepsI)
  fix s
  have "R s (snd (m s))" using assms(2) by (rule keepsD)
  moreover have "R (snd (m s)) (snd (f x (snd (m s))))" for x using assms(3) by (rule keepsD)
  ultimately show "R s (snd (bindE m f s))"
    using transpD [OF assms(1)] by (fastforce simp: bindE_def split: prod.splits sum.splits)
qed

lemma keeps_thenE [keeps_rules]:
  "transp R \<Longrightarrow> keeps R m \<Longrightarrow> keeps R n \<Longrightarrow> keeps R (thenE m n)"
  by (simp add: thenE_def keeps_bindE)

lemma keeps_tryE [keeps_rules]:
  assumes "transp R" "keeps R m" "\<And>e. keeps R (h e)" "\<And>x. keeps R (f x)"
  shows "keeps R (tryE m h f)"
proof (rule keepsI)
  fix s
  have "R s (snd (m s))" using assms(2) by (rule keepsD)
  moreover have "R (snd (m s)) (snd (f x (snd (m s))))" for x using assms(4) by (rule keepsD)
  moreover have "R (snd (m s)) (snd (h e (snd (m s))))" for e using assms(3) by (rule keepsD)
  ultimately show "R s (snd (tryE m h f s))"
    using transpD [OF assms(1)] by (fastforce simp: tryE_def split: prod.splits sum.splits)
qed

lemma catchE_tryE: "catchE m h = tryE m h returnE"
  by (auto simp: fun_eq_iff catchE_def tryE_def returnE_def split: prod.splits sum.splits)

lemma keeps_catchE [keeps_rules]:
  "transp R \<Longrightarrow> reflp R \<Longrightarrow> keeps R m \<Longrightarrow> (\<And>e. keeps R (h e)) \<Longrightarrow> keeps R (catchE m h)"
  by (simp add: catchE_tryE keeps_tryE keeps_returnE)

lemma keeps_forE [keeps_rules]:
  "transp R \<Longrightarrow> reflp R \<Longrightarrow> (\<And>x. keeps R (f x)) \<Longrightarrow> keeps R (forE xs f)"
  by (induction xs) (simp_all add: keeps_returnE keeps_thenE)

lemma keeps_if [keeps_rules]: "(b \<Longrightarrow> keeps R m) \<Longrightarrow> (\<not> b \<Longrightarrow> keeps R n) \<Longrightarrow> keeps R (if b then m else n)"
  by simp

lemma keeps_option [keeps_rules]:
  "(x = None \<Longrightarrow> keeps R m) \<Longrightarrow> (\<And>y. x = Some y \<Longrightarrow> keeps R (f y))
    \<Longrightarrow> keeps R (case x of None \<Rightarrow> m | Some y \<Rightarrow> f y)"
  by (cases x) auto

lemma keeps_sum [keeps_rules]:
  "(\<And>e. x = Inl e \<Longrightarrow> keeps R (g e)) \<Longrightarrow> (\<And>y. x = Inr y \<Longrightarrow> keeps R (f y))
    \<Longrightarrow> keeps R (case x of Inl e \<Rightarrow> g e | Inr y \<Rightarrow> f y)"
  by (cases x) auto

lemma keeps_prod [keeps_rules]: "(\<And>a b. p = (a, b) \<Longrightarrow> keeps R (f a b)) \<Longrightarrow> keeps R (case p of (a, b) \<Rightarrow> f a b)"
  by (cases p) auto

lemma keeps_let [keeps_rules]: "keeps R (f x) \<Longrightarrow> keeps R (let y = x in f y)"
  by simp

section \<open>Association lists (Python dictionaries in insertion order)\<close>

text \<open>\<open>d[k] = v\<close>: overwrites in place, else appends.\<close>

fun dict_set :: "'k \<Rightarrow> 'v \<Rightarrow> ('k \<times> 'v) list \<Rightarrow> ('k \<times> 'v) list" where
  "dict_set k v [] = [(k, v)]"
| "dict_set k v ((k', v') # d) = (if k = k' then (k, v) # d else (k', v') # dict_set k v d)"

text \<open>\<open>d.pop(k, None)\<close>.\<close>

definition dict_pop :: "'k \<Rightarrow> ('k \<times> 'v) list \<Rightarrow> ('k \<times> 'v) list" where
  "dict_pop k d = filter (\<lambda>(k', _). k' \<noteq> k) d"

lemma map_of_dict_set [simp]: "map_of (dict_set k v d) = (map_of d)(k \<mapsto> v)"
  by (induction k v d rule: dict_set.induct) auto

lemma map_of_dict_pop [simp]: "map_of (dict_pop k d) = (map_of d)(k := None)"
  by (induction d) (auto simp: dict_pop_def)

lemma set_keys_dict_set [simp]: "fst ` set (dict_set k v d) = insert k (fst ` set d)"
  by (induction k v d rule: dict_set.induct) auto

lemma set_keys_dict_pop [simp]: "fst ` set (dict_pop k d) = fst ` set d - {k}"
  by (auto simp: dict_pop_def image_iff)

lemma distinct_dict_set [simp]: "distinct (map fst d) \<Longrightarrow> distinct (map fst (dict_set k v d))"
  by (induction k v d rule: dict_set.induct) (auto simp del: set_map simp add: image_set [symmetric])

lemma distinct_dict_pop [simp]: "distinct (map fst d) \<Longrightarrow> distinct (map fst (dict_pop k d))"
  by (induction d) (auto simp: dict_pop_def)

section \<open>Lists\<close>

lemma filter_le_length_eq_iff: "length (filter P xs) = length xs \<longleftrightarrow> (\<forall>x \<in> set xs. P x)"
  by (metis filter_True filter_id_conv length_filter_less nat_neq_iff order.strict_iff_order)

lemma sum_list_map_filter_if:
  "sum_list (map f (filter P xs)) = (\<Sum>x\<leftarrow>xs. if P x then f x else (0::'a::monoid_add))"
  by (induction xs) auto

end
