(* ===== verification/PyValue.thy ===== *)
theory PyValue
  imports Complex_Main Prelude
begin

text \<open>
  The Python run-time values the adapter handles: wire dictionaries hold \<open>pyval\<close>s, and the code's
  \<open>int(...)\<close>, \<open>float(...)\<close>, \<open>str(...)\<close>, truth tests and string methods are the functions below, each
  with the exceptions CPython raises.

  \<^item> A finite float is the exact rational value of its IEEE double (\<open>Fin\<close>); \<open>to_double\<close> rounds to
    nearest, ties to even, with the subnormal and overflow ranges. The sign of zero is not kept.
  \<^item> \<open>str\<close> of a float is the shortest decimal that reads back as the same double, in CPython's fixed or
    exponent form.
  \<^item> Strings are sequences of 8-bit characters; case mapping and white space are the ASCII ones.
\<close>

section \<open>Exceptions\<close>

datatype exn_class =
    TypeError | ValueError | OverflowError | KeyError | IndexError | AttributeError | RuntimeError
  | TimeoutError | InvalidOperation \<comment> \<open>\<open>decimal.InvalidOperation\<close>, an \<open>ArithmeticError\<close>\<close>
  | ConvertError \<comment> \<open>a \<open>ValueError\<close>\<close>
  | OrderMapError \<comment> \<open>a \<open>ValueError\<close>\<close>
  | UnreadableEventError \<comment> \<open>a \<open>ValueError\<close>\<close>
  | VenueQueryUnavailable | ReconciliationUnavailableError
  | ChannelError | ChannelLaggedError | ChannelClosedError | NotConnectedError
  | GatewayError | AlreadyConnectedError | PollTransientError
  | ConfigError | GatewayConfigError | FrameError | InstrumentBuildError | FrontMonthError \<comment> \<open>\<open>ValueError\<close>s\<close>
  | AttachError | OSError | BlockingIOError \<comment> \<open>an \<open>OSError\<close>, as is \<open>TimeoutError\<close>\<close>
  | OtherException

datatype exn = Exn (exn_cls: exn_class) (exn_code: "string option") (exn_msg: string)

abbreviation exn_of :: "exn_class \<Rightarrow> string \<Rightarrow> exn" where
  "exn_of c m \<equiv> Exn c None m"

definition is_value_error :: "exn \<Rightarrow> bool" where
  "is_value_error e \<longleftrightarrow> exn_cls e \<in> {ValueError, ConvertError, OrderMapError, UnreadableEventError,
     ConfigError, GatewayConfigError, FrameError, InstrumentBuildError, FrontMonthError}"

definition is_os_error :: "exn \<Rightarrow> bool" where
  "is_os_error e \<longleftrightarrow> exn_cls e \<in> {OSError, TimeoutError, BlockingIOError}"

type_synonym 'a res = "exn + 'a"

definition bindR :: "'a res \<Rightarrow> ('a \<Rightarrow> 'b res) \<Rightarrow> 'b res" where
  "bindR r f = (case r of Inl e \<Rightarrow> Inl e | Inr x \<Rightarrow> f x)"

lemma bindR_simps [simp]: "bindR (Inl e) f = Inl e" "bindR (Inr x) f = f x"
  by (simp_all add: bindR_def)

lemma bindR_eq_Inr_iff: "bindR r f = Inr y \<longleftrightarrow> (\<exists>x. r = Inr x \<and> f x = Inr y)"
  by (cases r) auto

section \<open>Text\<close>

definition is_digit_char :: "char \<Rightarrow> bool" where
  "is_digit_char c \<longleftrightarrow> 48 \<le> (of_char c :: nat) \<and> (of_char c :: nat) \<le> 57"

definition digit_val :: "char \<Rightarrow> int" where
  "digit_val c = int (of_char c) - 48"

definition upper_char :: "char \<Rightarrow> char" where
  "upper_char c = (let n = (of_char c :: nat) in if 97 \<le> n \<and> n \<le> 122 then char_of (n - 32) else c)"

definition lower_char :: "char \<Rightarrow> char" where
  "lower_char c = (let n = (of_char c :: nat) in if 65 \<le> n \<and> n \<le> 90 then char_of (n + 32) else c)"

definition str_upper :: "string \<Rightarrow> string" where "str_upper = map upper_char"
definition str_lower :: "string \<Rightarrow> string" where "str_lower = map lower_char"

text \<open>Python's \<open>str.strip()\<close> also removes the separators 28 to 31; Rust's \<open>trim\<close> does not.\<close>

definition py_space :: "char \<Rightarrow> bool" where
  "py_space c \<longleftrightarrow> (let n = (of_char c :: nat) in n = 32 \<or> (9 \<le> n \<and> n \<le> 13) \<or> (28 \<le> n \<and> n \<le> 31))"

definition rs_space :: "char \<Rightarrow> bool" where
  "rs_space c \<longleftrightarrow> (let n = (of_char c :: nat) in n = 32 \<or> (9 \<le> n \<and> n \<le> 13))"

definition strip_with :: "(char \<Rightarrow> bool) \<Rightarrow> string \<Rightarrow> string" where
  "strip_with p s = rev (dropWhile p (rev (dropWhile p s)))"

abbreviation str_strip :: "string \<Rightarrow> string" where "str_strip \<equiv> strip_with py_space"
abbreviation rs_trim :: "string \<Rightarrow> string" where "rs_trim \<equiv> strip_with rs_space"

text \<open>\<open>pat in s\<close>.\<close>

fun str_contains :: "string \<Rightarrow> string \<Rightarrow> bool" where
  "str_contains pat [] = (pat = [])"
| "str_contains pat (c # s) = (take (length pat) (c # s) = pat \<or> str_contains pat s)"

definition str_removeprefix :: "string \<Rightarrow> string \<Rightarrow> string" where
  "str_removeprefix p s = (if take (length p) s = p then drop (length p) s else s)"

lemma strip_with_idem [simp]: "strip_with p (strip_with p s) = strip_with p s"
proof -
  let ?t = "rev (dropWhile p (rev (dropWhile p s)))"
  have "?t = [] \<or> \<not> p (hd ?t)"
  proof (cases "?t")
    case (Cons c t)
    have "prefix ?t (dropWhile p s)"
      by (metis suffix_dropWhile suffix_to_prefix rev_rev_ident)
    with Cons obtain r where r: "dropWhile p s = c # r" by (auto simp: prefix_def)
    then have "\<not> p c" by (simp add: dropWhile_eq_Cons_conv)
    with Cons show ?thesis by simp
  qed simp
  then have "dropWhile p ?t = ?t" by (simp only: dropWhile_eq_self_iff)
  moreover have "dropWhile p (rev ?t) = rev ?t"
    by (simp add: dropWhile_idem)
  ultimately show ?thesis by (simp add: strip_with_def)
qed

lemma str_contains_iff: "str_contains pat s \<longleftrightarrow> (\<exists>a b. s = a @ pat @ b)"
proof (induction s)
  case Nil
  then show ?case by auto
next
  case (Cons c s)
  have "take (length pat) (c # s) = pat \<longleftrightarrow> (\<exists>b. c # s = pat @ b)"
    by (metis append_eq_conv_conj append_take_drop_id)
  moreover have "(\<exists>a b. c # s = a @ pat @ b) \<longleftrightarrow> (\<exists>b. c # s = pat @ b) \<or> (\<exists>a b. s = a @ pat @ b)"
    by (auto simp: Cons_eq_append_conv)
  ultimately show ?case using Cons.IH by auto
qed

section \<open>Integers and text\<close>

fun digits_str :: "int \<Rightarrow> string" where
  "digits_str i = (if i < 10 then [char_of (48 + nat i)]
     else digits_str (i div 10) @ [char_of (48 + nat (i mod 10))])"

declare digits_str.simps [simp del]

definition int_str :: "int \<Rightarrow> string" where
  "int_str i = (if i < 0 then ''-'' @ digits_str (- i) else digits_str i)"

text \<open>Digits with single underscores between them, as \<open>int()\<close> and \<open>float()\<close> accept.\<close>

fun digits_from :: "int \<Rightarrow> bool \<Rightarrow> string \<Rightarrow> int option" where
  "digits_from acc prev [] = (if prev then Some acc else None)"
| "digits_from acc prev (c # s) =
     (if is_digit_char c then digits_from (10 * acc + digit_val c) True s
      else if c = CHR ''_'' \<and> prev then digits_from acc False s
      else None)"

definition split_sign :: "string \<Rightarrow> int \<times> string" where
  "split_sign s = (case s of CHR ''-'' # r \<Rightarrow> (-1, r) | CHR ''+'' # r \<Rightarrow> (1, r) | _ \<Rightarrow> (1, s))"

definition parse_int :: "string \<Rightarrow> int option" where
  "parse_int s = (let (sg, r) = split_sign (str_strip s) in map_option ((*) sg) (digits_from 0 False r))"

section \<open>Floats\<close>

datatype pyfloat = Fin rat | PInf | NInf | NaN

text \<open>\<open>p / q\<close> rounded to the nearest integer, ties to even (\<open>q > 0\<close>).\<close>

definition round_div :: "int \<Rightarrow> int \<Rightarrow> int" where
  "round_div p q =
     (let f = p div q; r = 2 * (p mod q)
      in if r < q then f else if q < r then f + 1 else if even f then f else f + 1)"

definition round_half_even :: "rat \<Rightarrow> int" where
  "round_half_even x = (let (p, q) = quotient_of x in round_div p q)"

text \<open>The number of base-\<open>b\<close> digits of \<open>n\<close>, less one.\<close>

function ilog :: "int \<Rightarrow> int \<Rightarrow> int" where
  "ilog b n = (if b < 2 \<or> n < b then 0 else 1 + ilog b (n div b))"
  by pat_completeness auto
termination
proof (relation "measure (\<lambda>(b, n). nat n)", goal_cases)
  case (2 b n)
  then have "n div b < n" by (simp add: int_div_less_self)
  with 2 show ?case by simp
qed simp

declare ilog.simps [simp del]

text \<open>\<open>x * b ^ k\<close> as a fraction, for an integer exponent of either sign.\<close>

definition shift_num :: "int \<Rightarrow> int \<Rightarrow> int \<Rightarrow> int" where
  "shift_num b k p = (if k \<ge> 0 then p * b ^ nat k else p)"

definition shift_den :: "int \<Rightarrow> int \<Rightarrow> int \<Rightarrow> int" where
  "shift_den b k q = (if k \<ge> 0 then q else q * b ^ nat (- k))"

definition scaled :: "int \<Rightarrow> int \<Rightarrow> int \<Rightarrow> rat" where
  "scaled b k m = of_int (shift_num b k m) / of_int (shift_den b k 1)"

text \<open>The exponent \<open>e\<close> with \<open>b ^ e \<le> p / q < b ^ (e + 1)\<close>, for positive \<open>p\<close> and \<open>q\<close>.\<close>

definition expo :: "int \<Rightarrow> int \<Rightarrow> int \<Rightarrow> int" where
  "expo b p q =
     (let k = ilog b p - ilog b q
      in if shift_num b k 1 * q \<le> p * shift_den b k 1 then k else k - 1)"

definition to_double :: "rat \<Rightarrow> pyfloat" where
  "to_double x =
     (if x = 0 then Fin 0
      else let (p, q) = quotient_of \<bar>x\<bar>; e = max (expo 2 p q) (-1022); k = 52 - e;
               m = round_div (shift_num 2 k p) (shift_den 2 k q)
           in if e \<ge> 1024 \<or> (e = 1023 \<and> m \<ge> 2 ^ 53) then (if x > 0 then PInf else NInf)
              else Fin (if x > 0 then scaled 2 (- k) m else - scaled 2 (- k) m))"

text \<open>The shortest decimal \<open>m * 10 ^ k\<close> that rounds to \<open>x > 0\<close>; 17 digits always suffice.\<close>

fun shortest_from :: "nat \<Rightarrow> int \<Rightarrow> rat \<Rightarrow> int \<times> int" where
  "shortest_from more n x =
     (let (p, q) = quotient_of x; k = n - 1 - expo 10 p q;
          m = round_div (shift_num 10 k p) (shift_den 10 k q)
      in case more of 0 \<Rightarrow> (m, - k)
         | Suc more' \<Rightarrow> if to_double (scaled 10 (- k) m) = Fin x then (m, - k)
                        else shortest_from more' (n + 1) x)"

definition strip_zeros :: "string \<Rightarrow> string" where
  "strip_zeros s = rev (dropWhile (\<lambda>c. c = CHR ''0'') (rev s))"

definition pos_repr :: "rat \<Rightarrow> string" where
  "pos_repr x =
     (let (m, k) = shortest_from 16 1 x; full = digits_str m;
          ds = strip_zeros full; n = int (length ds); pt = int (length full) + k
      in if -4 < pt \<and> pt \<le> 16 then
           (if pt \<le> 0 then ''0.'' @ replicate (nat (- pt)) CHR ''0'' @ ds
            else if n \<le> pt then ds @ replicate (nat (pt - n)) CHR ''0'' @ ''.0''
            else take (nat pt) ds @ ''.'' @ drop (nat pt) ds)
         else
           (let e = pt - 1; es = digits_str \<bar>e\<bar>
            in take 1 ds @ (if n > 1 then ''.'' @ drop 1 ds else []) @ ''e'' @
               (if e < 0 then ''-'' else ''+'') @ (if length es < 2 then ''0'' @ es else es)))"

definition float_repr :: "pyfloat \<Rightarrow> string" where
  "float_repr f = (case f of
       Fin x \<Rightarrow> (if x = 0 then ''0.0'' else if x < 0 then ''-'' @ pos_repr (- x) else pos_repr x)
     | PInf \<Rightarrow> ''inf'' | NInf \<Rightarrow> ''-inf'' | NaN \<Rightarrow> ''nan'')"

text \<open>\<open>f"{x:.pf}"\<close>: exact decimal rounding of the double's value, ties to even.\<close>

definition float_fixed :: "nat \<Rightarrow> pyfloat \<Rightarrow> string" where
  "float_fixed p f = (case f of
       Fin x \<Rightarrow>
         (let m = round_half_even (\<bar>x\<bar> * 10 ^ p); ds = digits_str m;
              pad = replicate (Suc p - length ds) CHR ''0'' @ ds;
              i = length pad - p
          in (if x < 0 then ''-'' else []) @ take i pad @ (if p = 0 then [] else ''.'' @ drop i pad))
     | PInf \<Rightarrow> ''inf'' | NInf \<Rightarrow> ''-inf'' | NaN \<Rightarrow> ''nan'')"

text \<open>The text form of a float: digits, an optional fraction, an optional exponent.\<close>

definition parse_decimal :: "string \<Rightarrow> rat option" where
  "parse_decimal s =
     (let isE = (\<lambda>c. c = CHR ''e'' \<or> c = CHR ''E'');
          mant = takeWhile (Not \<circ> isE) s; ex = dropWhile (Not \<circ> isE) s;
          ip = takeWhile (\<lambda>c. c \<noteq> CHR ''.'') mant; fp = drop 1 (dropWhile (\<lambda>c. c \<noteq> CHR ''.'') mant);
          iv = (if ip = [] then Some 0 else digits_from 0 False ip);
          fv = (if fp = [] then Some 0 else digits_from 0 False fp);
          fl = length (filter is_digit_char fp);
          ev = (if ex = [] then Some 0
                else let (sg, r) = split_sign (drop 1 ex) in map_option ((*) sg) (digits_from 0 False r))
      in case (iv, fv, ev) of
           (Some i, Some f, Some e) \<Rightarrow>
             (if ip = [] \<and> fp = [] then None
              else Some (scaled 10 (e - int fl) (i * 10 ^ fl + f)))
         | _ \<Rightarrow> None)"

definition parse_float :: "string \<Rightarrow> pyfloat option" where
  "parse_float s =
     (let (sg, r) = split_sign (str_strip s); l = str_lower r
      in if l = ''inf'' \<or> l = ''infinity'' then Some (if sg < 0 then NInf else PInf)
         else if l = ''nan'' then Some NaN
         else map_option (\<lambda>x. to_double (of_int sg * x)) (parse_decimal r))"

section \<open>Values\<close>

datatype pyval = PNone | PBool bool | PInt int | PFloat pyfloat | PStr string | PList "pyval list"

type_synonym pydict = "(string \<times> pyval) list"

text \<open>\<open>d.get(k)\<close>.\<close>

definition dget :: "pydict \<Rightarrow> string \<Rightarrow> pyval" where
  "dget d k = (case map_of d k of None \<Rightarrow> PNone | Some v \<Rightarrow> v)"

fun truthy :: "pyval \<Rightarrow> bool" where
  "truthy PNone = False"
| "truthy (PBool b) = b"
| "truthy (PInt i) = (i \<noteq> 0)"
| "truthy (PFloat f) = (f \<noteq> Fin 0)"
| "truthy (PStr s) = (s \<noteq> [])"
| "truthy (PList l) = (l \<noteq> [])"

text \<open>\<open>v or w\<close>.\<close>

definition py_or :: "pyval \<Rightarrow> pyval \<Rightarrow> pyval" where
  "py_or v w = (if truthy v then v else w)"

definition str_repr :: "string \<Rightarrow> string" where
  "str_repr s =
     (let quote = (if CHR 0x27 \<in> set s \<and> CHR 0x22 \<notin> set s then CHR 0x22 else CHR 0x27);
          hex = (\<lambda>n. if n < 10 then char_of (48 + n) else char_of (87 + n));
          esc = (\<lambda>c. let n = (of_char c :: nat) in
             if n = 92 then [CHR 0x5C, CHR 0x5C] else if n = 10 then [CHR 0x5C, CHR ''n'']
             else if n = 13 then [CHR 0x5C, CHR ''r''] else if n = 9 then [CHR 0x5C, CHR ''t'']
             else if c = quote then [CHR 0x5C, c]
             else if n < 32 \<or> n = 127 then [CHR 0x5C, CHR ''x'', hex (n div 16), hex (n mod 16)]
             else [c])
      in [quote] @ concat (map esc s) @ [quote])"

fun join_with :: "string \<Rightarrow> string list \<Rightarrow> string" where
  "join_with sep [] = []"
| "join_with sep [x] = x"
| "join_with sep (x # xs) = x @ sep @ join_with sep xs"

fun py_repr :: "pyval \<Rightarrow> string" where
  "py_repr PNone = ''None''"
| "py_repr (PBool b) = (if b then ''True'' else ''False'')"
| "py_repr (PInt i) = int_str i"
| "py_repr (PFloat f) = float_repr f"
| "py_repr (PStr s) = str_repr s"
| "py_repr (PList l) = ''['' @ join_with '', '' (map py_repr l) @ '']''"

definition py_str :: "pyval \<Rightarrow> string" where
  "py_str v = (case v of PStr s \<Rightarrow> s | _ \<Rightarrow> py_repr v)"

definition py_truncate :: "rat \<Rightarrow> int" where
  "py_truncate x = (if x < 0 then \<lceil>x\<rceil> else \<lfloor>x\<rfloor>)"

definition py_int :: "pyval \<Rightarrow> int res" where
  "py_int v = (case v of
       PBool b \<Rightarrow> Inr (if b then 1 else 0)
     | PInt i \<Rightarrow> Inr i
     | PFloat (Fin x) \<Rightarrow> Inr (py_truncate x)
     | PFloat NaN \<Rightarrow> Inl (exn_of ValueError ''cannot convert float NaN to integer'')
     | PFloat _ \<Rightarrow> Inl (exn_of OverflowError ''cannot convert float infinity to integer'')
     | PStr s \<Rightarrow> (case parse_int s of Some i \<Rightarrow> Inr i
         | None \<Rightarrow> Inl (exn_of ValueError (''invalid literal for int() with base 10: '' @ str_repr s)))
     | _ \<Rightarrow> Inl (exn_of TypeError ''int() argument must be a string, a bytes-like object or a real number''))"

definition py_float :: "pyval \<Rightarrow> pyfloat res" where
  "py_float v = (case v of
       PBool b \<Rightarrow> Inr (Fin (if b then 1 else 0))
     | PInt i \<Rightarrow> (case to_double (of_int i) of Fin x \<Rightarrow> Inr (Fin x)
         | _ \<Rightarrow> Inl (exn_of OverflowError ''int too large to convert to float''))
     | PFloat f \<Rightarrow> Inr f
     | PStr s \<Rightarrow> (case parse_float s of Some f \<Rightarrow> Inr f
         | None \<Rightarrow> Inl (exn_of ValueError (''could not convert string to float: '' @ str_repr s)))
     | _ \<Rightarrow> Inl (exn_of TypeError ''float() argument must be a string or a real number''))"

text \<open>\<open>i == v\<close> for an integer \<open>i\<close>: numbers compare by value, across types.\<close>

definition int_eq_val :: "int \<Rightarrow> pyval \<Rightarrow> bool" where
  "int_eq_val i v = (case v of
       PBool b \<Rightarrow> i = (if b then 1 else 0)
     | PInt j \<Rightarrow> i = j
     | PFloat (Fin x) \<Rightarrow> of_int i = x
     | _ \<Rightarrow> False)"

section \<open>Decimals\<close>

text \<open>
  \<open>decimal.Decimal\<close>: sign, coefficient and exponent, so that equal constructors are equal texts (the
  conversion to text is reversible) while \<open>==\<close> compares values. Construction is exact; arithmetic
  rounds to the default context's 28 digits, half even. Exponent limits are not modelled.
\<close>

datatype pydec = DFin bool int int | DInf | DNegInf | DNaN

definition decimal_parts :: "string \<Rightarrow> (int \<times> int) option" where
  "decimal_parts s =
     (let isE = (\<lambda>c. c = CHR ''e'' \<or> c = CHR ''E'');
          mant = takeWhile (Not \<circ> isE) s; ex = dropWhile (Not \<circ> isE) s;
          ip = takeWhile (\<lambda>c. c \<noteq> CHR ''.'') mant; fp = drop 1 (dropWhile (\<lambda>c. c \<noteq> CHR ''.'') mant);
          cv = digits_from 0 False (ip @ fp);
          ev = (if ex = [] then Some 0
                else let (sg, r) = split_sign (drop 1 ex) in map_option ((*) sg) (digits_from 0 False r))
      in case (cv, ev) of (Some c, Some e) \<Rightarrow> Some (c, e - int (length fp)) | _ \<Rightarrow> None)"

definition py_decimal :: "string \<Rightarrow> pydec res" where
  "py_decimal s =
     (let t = filter (\<lambda>c. c \<noteq> CHR ''_'') (str_strip s); (sg, r) = split_sign t; l = str_lower r
      in if l = ''inf'' \<or> l = ''infinity'' then Inr (if sg < 0 then DNegInf else DInf)
         else if (take 3 l = ''nan'' \<and> list_all is_digit_char (drop 3 l))
              \<or> (take 4 l = ''snan'' \<and> list_all is_digit_char (drop 4 l)) then Inr DNaN
         else (case decimal_parts r of
                 Some (c, e) \<Rightarrow> Inr (DFin (sg < 0) c e)
               | None \<Rightarrow> Inl (exn_of InvalidOperation ''[<class decimal.ConversionSyntax>]'')))"

fun dec_value :: "pydec \<Rightarrow> rat option" where
  "dec_value (DFin neg c e) = Some ((if neg then -1 else 1) * scaled 10 e c)"
| "dec_value _ = None"

text \<open>\<open>x == y\<close>: by value; a NaN equals nothing.\<close>

definition dec_eq :: "pydec \<Rightarrow> pydec \<Rightarrow> bool" where
  "dec_eq x y = (case (dec_value x, dec_value y) of
       (Some a, Some b) \<Rightarrow> a = b
     | _ \<Rightarrow> x = y \<and> x \<noteq> DNaN)"

definition dec_context :: "bool \<Rightarrow> int \<Rightarrow> int \<Rightarrow> pydec" where
  "dec_context neg c e =
     (if c < 10 ^ 28 then DFin neg c e
      else let k = ilog 10 c - 27; m = round_div c (10 ^ nat k)
           in if m = 10 ^ 28 then DFin neg (10 ^ 27) (e + k + 1) else DFin neg m (e + k))"

definition dec_of_int :: "int \<Rightarrow> pydec" where
  "dec_of_int n = DFin (n < 0) \<bar>n\<bar> 0"

definition dec_mult_int :: "pydec \<Rightarrow> int \<Rightarrow> pydec res" where
  "dec_mult_int d n = (case d of
       DFin neg c e \<Rightarrow> Inr (dec_context (neg \<noteq> (n < 0)) (c * \<bar>n\<bar>) e)
     | DNaN \<Rightarrow> Inr DNaN
     | DInf \<Rightarrow> (if n = 0 then Inl (exn_of InvalidOperation ''(+-)INF * 0'')
                else Inr (if n > 0 then DInf else DNegInf))
     | DNegInf \<Rightarrow> (if n = 0 then Inl (exn_of InvalidOperation ''(+-)INF * 0'')
                else Inr (if n > 0 then DNegInf else DInf)))"

text \<open>\<open>str(Decimal)\<close> and \<open>repr(Decimal)\<close>.\<close>

definition dec_str :: "pydec \<Rightarrow> string" where
  "dec_str d = (case d of
       DFin neg c e \<Rightarrow>
         (let ds = digits_str c; n = int (length ds); left = e + n;
              dot = (if e \<le> 0 \<and> left > -6 then left else 1);
              body = (if dot \<le> 0 then ''0.'' @ replicate (nat (- dot)) CHR ''0'' @ ds
                      else if n \<le> dot then ds @ replicate (nat (dot - n)) CHR ''0''
                      else take (nat dot) ds @ ''.'' @ drop (nat dot) ds);
              ex = left - dot
          in (if neg then ''-'' else []) @ body @
             (if ex = 0 then [] else ''E'' @ (if ex < 0 then ''-'' else ''+'') @ digits_str \<bar>ex\<bar>))
     | DInf \<Rightarrow> ''Infinity'' | DNegInf \<Rightarrow> ''-Infinity'' | DNaN \<Rightarrow> ''NaN'')"

definition dec_repr :: "pydec \<Rightarrow> string" where
  "dec_repr d = ''Decimal('' @ str_repr (dec_str d) @ '')''"

definition dec_int :: "pydec \<Rightarrow> int res" where
  "dec_int d = (case d of
       DFin neg c e \<Rightarrow> Inr (py_truncate ((if neg then -1 else 1) * scaled 10 e c))
     | DNaN \<Rightarrow> Inl (exn_of ValueError ''cannot convert NaN to integer'')
     | _ \<Rightarrow> Inl (exn_of OverflowError ''cannot convert Infinity to integer''))"

definition dec_float :: "pydec \<Rightarrow> pyfloat" where
  "dec_float d = (case d of
       DFin neg c e \<Rightarrow> to_double ((if neg then -1 else 1) * scaled 10 e c)
     | DInf \<Rightarrow> PInf | DNegInf \<Rightarrow> NInf | DNaN \<Rightarrow> NaN)"

section \<open>Float arithmetic\<close>

text \<open>Results are rounded to double; \<open>x / 0.0\<close> raises; \<open>round(x)\<close> rounds half to even.\<close>

fun float_neg :: "pyfloat \<Rightarrow> pyfloat" where
  "float_neg (Fin x) = Fin (- x)"
| "float_neg PInf = NInf"
| "float_neg NInf = PInf"
| "float_neg NaN = NaN"

fun float_add :: "pyfloat \<Rightarrow> pyfloat \<Rightarrow> pyfloat" where
  "float_add (Fin x) (Fin y) = to_double (x + y)"
| "float_add NaN _ = NaN"
| "float_add _ NaN = NaN"
| "float_add PInf NInf = NaN"
| "float_add NInf PInf = NaN"
| "float_add PInf _ = PInf"
| "float_add _ PInf = PInf"
| "float_add NInf _ = NInf"
| "float_add _ NInf = NInf"

definition float_sub :: "pyfloat \<Rightarrow> pyfloat \<Rightarrow> pyfloat" where
  "float_sub a b = float_add a (float_neg b)"

fun float_abs :: "pyfloat \<Rightarrow> pyfloat" where
  "float_abs (Fin x) = Fin \<bar>x\<bar>"
| "float_abs NInf = PInf"
| "float_abs f = f"

definition float_div :: "pyfloat \<Rightarrow> pyfloat \<Rightarrow> pyfloat res" where
  "float_div a b = (case (a, b) of
       (_, Fin y) \<Rightarrow> if y = 0 then Inl (exn_of OtherException ''float division by zero'')
         else Inr (case a of Fin x \<Rightarrow> to_double (x / y)
           | PInf \<Rightarrow> if y > 0 then PInf else NInf | NInf \<Rightarrow> if y > 0 then NInf else PInf | NaN \<Rightarrow> NaN)
     | (Fin x, NaN) \<Rightarrow> Inr NaN
     | (Fin x, _) \<Rightarrow> Inr (Fin 0)
     | _ \<Rightarrow> Inr NaN)"

definition py_round :: "pyfloat \<Rightarrow> int res" where
  "py_round f = (case f of
       Fin x \<Rightarrow> Inr (round_half_even x)
     | NaN \<Rightarrow> Inl (exn_of ValueError ''cannot convert float NaN to integer'')
     | _ \<Rightarrow> Inl (exn_of OverflowError ''cannot convert float infinity to integer''))"

text \<open>\<open>f <= 0\<close> (false for NaN).\<close>

fun float_nonpos :: "pyfloat \<Rightarrow> bool" where
  "float_nonpos (Fin x) = (x \<le> 0)"
| "float_nonpos NInf = True"
| "float_nonpos _ = False"

section \<open>Crossing into the extension\<close>

text \<open>The extension's \<open>i64\<close> arguments: PyO3 refuses a Python int outside the range.\<close>

definition to_i64 :: "int \<Rightarrow> int res" where
  "to_i64 i = (if - (2 ^ 63) \<le> i \<and> i < 2 ^ 63 then Inr i
     else Inl (exn_of OverflowError ''Python int too large to convert to C long''))"

end
