(* ===== verification/OrderPlant.thy ===== *)
theory OrderPlant
  imports PyValue
begin

text \<open>
  The order-plant lifecycle machine and trading policy: the rules of
  \<open>crates/rithmic-exec/src/plant.rs\<close> and the Python binding \<open>_order_plant.py\<close> the execution client
  holds. States cross the binding as their wire names, so the binding's \<open>state\<close> property is a lookup
  in the Python enum that could raise; \<open>policy_state_total\<close> shows that it never does.

  The machine's events are collected in \<open>plant_event\<close>; \<open>plant_run\<close> folds a sequence of them and
  \<open>plant_step\<close> is the same machine as a relation. The main result is that every way into a
  command-accepting state passes through one re-arm barrier (\<open>armed_run_decomp\<close>).
\<close>

section \<open>The rules (plant.rs)\<close>

datatype plant_state = Disconnected | Connecting | Live | Resyncing | Latched

definition plant_all :: "plant_state list" where
  "plant_all = [Disconnected, Connecting, Live, Resyncing, Latched]"

fun plant_as_str :: "plant_state \<Rightarrow> string" where
  "plant_as_str Disconnected = ''disconnected''"
| "plant_as_str Connecting = ''connecting''"
| "plant_as_str Live = ''live''"
| "plant_as_str Resyncing = ''resyncing''"
| "plant_as_str Latched = ''latched''"

definition plant_parse :: "string \<Rightarrow> plant_state option" where
  "plant_parse name = find (\<lambda>s. plant_as_str s = name) plant_all"

record plant_policy = pl_state :: plant_state

definition plant_new :: "plant_state \<Rightarrow> plant_policy" where
  "plant_new s = \<lparr>pl_state = s\<rparr>"

definition plant_latched :: "plant_policy \<Rightarrow> bool" where
  "plant_latched p \<longleftrightarrow> pl_state p = Latched"

definition plant_begin_connect :: "plant_policy \<Rightarrow> plant_policy" where
  "plant_begin_connect p = p\<lparr>pl_state := Connecting\<rparr>"

definition plant_disconnect :: "plant_policy \<Rightarrow> plant_policy" where
  "plant_disconnect p = p\<lparr>pl_state := Disconnected\<rparr>"

definition plant_latch :: "plant_policy \<Rightarrow> plant_policy" where
  "plant_latch p = p\<lparr>pl_state := Latched\<rparr>"

definition plant_resync_start :: "plant_policy \<Rightarrow> plant_policy" where
  "plant_resync_start p = (case pl_state p of
       Latched \<Rightarrow> p
     | Disconnected \<Rightarrow> p
     | Connecting \<Rightarrow> p\<lparr>pl_state := Latched\<rparr>
     | Live \<Rightarrow> p\<lparr>pl_state := Resyncing\<rparr>
     | Resyncing \<Rightarrow> p\<lparr>pl_state := Resyncing\<rparr>)"

definition plant_resync_complete :: "plant_policy \<Rightarrow> plant_policy" where
  "plant_resync_complete p = (if pl_state p = Resyncing then p\<lparr>pl_state := Live\<rparr> else p)"

definition plant_resync_failed :: "plant_policy \<Rightarrow> plant_policy" where
  "plant_resync_failed p = (if pl_state p \<noteq> Latched then p\<lparr>pl_state := Disconnected\<rparr> else p)"

definition plant_rearm :: "bool \<Rightarrow> plant_policy \<Rightarrow> bool \<times> plant_policy" where
  "plant_rearm poll_alive p =
     (if pl_state p = Latched then (False, p)
      else if pl_state p = Connecting \<and> poll_alive then (True, p\<lparr>pl_state := Live\<rparr>)
      else (False, p\<lparr>pl_state := Disconnected\<rparr>))"

definition plant_allow_submit :: "plant_policy \<Rightarrow> bool" where
  "plant_allow_submit p \<longleftrightarrow> pl_state p = Live"

definition plant_allow_modify :: "plant_policy \<Rightarrow> bool" where
  "plant_allow_modify p \<longleftrightarrow> pl_state p = Live"

definition plant_allow_cancel :: "plant_policy \<Rightarrow> bool" where
  "plant_allow_cancel p \<longleftrightarrow> pl_state p = Live \<or> pl_state p = Resyncing"

definition plant_reject_reason :: "string \<Rightarrow> plant_policy \<Rightarrow> string" where
  "plant_reject_reason action p =
     ''order plant '' @ plant_as_str (pl_state p) @ ''; '' @ action @ '' blocked''"

section \<open>The Python binding (_order_plant.py)\<close>

datatype order_plant_state = DISCONNECTED | CONNECTING | LIVE | RESYNCING | LATCHED

fun ops_value :: "order_plant_state \<Rightarrow> string" where
  "ops_value DISCONNECTED = ''disconnected''"
| "ops_value CONNECTING = ''connecting''"
| "ops_value LIVE = ''live''"
| "ops_value RESYNCING = ''resyncing''"
| "ops_value LATCHED = ''latched''"

text \<open>\<open>OrderPlantState(value)\<close>: the member with that value, else \<open>ValueError\<close>.\<close>

definition ops_of_value :: "string \<Rightarrow> order_plant_state res" where
  "ops_of_value v =
     (case find (\<lambda>s. ops_value s = v) [DISCONNECTED, CONNECTING, LIVE, RESYNCING, LATCHED] of
        Some s \<Rightarrow> Inr s
      | None \<Rightarrow> Inl (exn_of ValueError (str_repr v @ '' is not a valid OrderPlantState'')))"

record order_plant_policy = op_core :: plant_policy

definition policy_init :: "order_plant_state \<Rightarrow> order_plant_policy res" where
  "policy_init state =
     (case plant_parse (ops_value state) of
        Some s \<Rightarrow> Inr \<lparr>op_core = plant_new s\<rparr>
      | None \<Rightarrow> Inl (exn_of ValueError (''unknown order plant state '' @ str_repr (ops_value state))))"

definition policy_state :: "order_plant_policy \<Rightarrow> order_plant_state res" where
  "policy_state p = ops_of_value (plant_as_str (pl_state (op_core p)))"

definition policy_latched :: "order_plant_policy \<Rightarrow> bool" where
  "policy_latched p = plant_latched (op_core p)"

definition policy_begin_connect :: "order_plant_policy \<Rightarrow> order_plant_policy" where
  "policy_begin_connect p = p\<lparr>op_core := plant_begin_connect (op_core p)\<rparr>"

definition policy_disconnect :: "order_plant_policy \<Rightarrow> order_plant_policy" where
  "policy_disconnect p = p\<lparr>op_core := plant_disconnect (op_core p)\<rparr>"

definition policy_latch :: "order_plant_policy \<Rightarrow> order_plant_policy" where
  "policy_latch p = p\<lparr>op_core := plant_latch (op_core p)\<rparr>"

definition policy_resync_start :: "order_plant_policy \<Rightarrow> order_plant_policy" where
  "policy_resync_start p = p\<lparr>op_core := plant_resync_start (op_core p)\<rparr>"

definition policy_resync_complete :: "order_plant_policy \<Rightarrow> order_plant_policy" where
  "policy_resync_complete p = p\<lparr>op_core := plant_resync_complete (op_core p)\<rparr>"

definition policy_resync_failed :: "order_plant_policy \<Rightarrow> order_plant_policy" where
  "policy_resync_failed p = p\<lparr>op_core := plant_resync_failed (op_core p)\<rparr>"

definition policy_rearm :: "bool \<Rightarrow> order_plant_policy \<Rightarrow> bool \<times> order_plant_policy" where
  "policy_rearm poll_alive p =
     (case plant_rearm poll_alive (op_core p) of (ok, c) \<Rightarrow> (ok, p\<lparr>op_core := c\<rparr>))"

definition policy_allow_submit :: "order_plant_policy \<Rightarrow> bool" where
  "policy_allow_submit p = plant_allow_submit (op_core p)"

definition policy_allow_modify :: "order_plant_policy \<Rightarrow> bool" where
  "policy_allow_modify p = plant_allow_modify (op_core p)"

definition policy_allow_cancel :: "order_plant_policy \<Rightarrow> bool" where
  "policy_allow_cancel p = plant_allow_cancel (op_core p)"

definition policy_reject_reason :: "string \<Rightarrow> order_plant_policy \<Rightarrow> string" where
  "policy_reject_reason action p = plant_reject_reason action (op_core p)"

lemmas plant_defs = plant_new_def plant_latched_def plant_begin_connect_def plant_disconnect_def
  plant_latch_def plant_resync_start_def plant_resync_complete_def plant_resync_failed_def
  plant_rearm_def plant_allow_submit_def plant_allow_modify_def plant_allow_cancel_def

lemmas policy_defs = policy_latched_def policy_begin_connect_def policy_disconnect_def
  policy_latch_def policy_resync_start_def policy_resync_complete_def policy_resync_failed_def
  policy_rearm_def policy_allow_submit_def policy_allow_modify_def policy_allow_cancel_def

section \<open>The binding never fails\<close>

lemma plant_parse_as_str [simp]: "plant_parse (plant_as_str s) = Some s"
  by (cases s) (simp_all add: plant_parse_def plant_all_def)

lemma ops_of_value_ops_value [simp]: "ops_of_value (ops_value s) = Inr s"
  by (cases s) (simp_all add: ops_of_value_def)

text \<open>The plant state a Python member names.\<close>

fun ops_plant :: "order_plant_state \<Rightarrow> plant_state" where
  "ops_plant DISCONNECTED = Disconnected"
| "ops_plant CONNECTING = Connecting"
| "ops_plant LIVE = Live"
| "ops_plant RESYNCING = Resyncing"
| "ops_plant LATCHED = Latched"

lemma ops_value_as_str: "ops_value s = plant_as_str (ops_plant s)"
  by (cases s) simp_all

lemma policy_init_ok: "policy_init s = Inr \<lparr>op_core = plant_new (ops_plant s)\<rparr>"
  by (simp add: policy_init_def ops_value_as_str)

lemma policy_state_total: "\<exists>s. policy_state p = Inr s \<and> ops_plant s = pl_state (op_core p)"
proof -
  obtain s where "pl_state (op_core p) = ops_plant s"
    by (metis ops_plant.simps plant_state.exhaust)
  then show ?thesis by (simp add: policy_state_def flip: ops_value_as_str)
qed

section \<open>Event sequences\<close>

datatype plant_event =
    BeginConnect | Disconnect | Latch | Rearm bool | ResyncStart | ResyncComplete | ResyncFailed

fun plant_apply :: "plant_policy \<Rightarrow> plant_event \<Rightarrow> plant_policy" where
  "plant_apply p BeginConnect = plant_begin_connect p"
| "plant_apply p Disconnect = plant_disconnect p"
| "plant_apply p Latch = plant_latch p"
| "plant_apply p (Rearm alive) = snd (plant_rearm alive p)"
| "plant_apply p ResyncStart = plant_resync_start p"
| "plant_apply p ResyncComplete = plant_resync_complete p"
| "plant_apply p ResyncFailed = plant_resync_failed p"

definition plant_run :: "plant_policy \<Rightarrow> plant_event list \<Rightarrow> plant_policy" where
  "plant_run = foldl plant_apply"

lemma plant_run_simps [simp]:
  "plant_run p [] = p"
  "plant_run p (e # es) = plant_run (plant_apply p e) es"
  "plant_run p (es @ es') = plant_run (plant_run p es) es'"
  by (simp_all add: plant_run_def)

text \<open>
  The transition table the crate's own test pins, written as data. It is independent of the methods
  above and the machine implements exactly it.
\<close>

fun plant_expected :: "plant_state \<Rightarrow> plant_event \<Rightarrow> plant_state" where
  "plant_expected _ BeginConnect = Connecting"
| "plant_expected _ Disconnect = Disconnected"
| "plant_expected _ Latch = Latched"
| "plant_expected Connecting (Rearm True) = Live"
| "plant_expected Latched (Rearm _) = Latched"
| "plant_expected _ (Rearm _) = Disconnected"
| "plant_expected Live ResyncStart = Resyncing"
| "plant_expected Resyncing ResyncStart = Resyncing"
| "plant_expected Connecting ResyncStart = Latched"
| "plant_expected s ResyncStart = s"
| "plant_expected Resyncing ResyncComplete = Live"
| "plant_expected s ResyncComplete = s"
| "plant_expected Latched ResyncFailed = Latched"
| "plant_expected _ ResyncFailed = Disconnected"

lemma plant_apply_expected: "pl_state (plant_apply p e) = plant_expected (pl_state p) e"
  by (cases e; cases "pl_state p"; simp add: plant_defs split: bool.split)

inductive plant_step :: "plant_state \<Rightarrow> plant_event \<Rightarrow> plant_state \<Rightarrow> bool" where
  "plant_step (pl_state p) e (pl_state (plant_apply p e))"

inductive_simps plant_step_iff: "plant_step s e s'"

lemma plant_step_expected: "plant_step s e s' \<longleftrightarrow> s' = plant_expected s e"
proof
  show "plant_step s e s' \<Longrightarrow> s' = plant_expected s e"
    by (auto simp: plant_step_iff plant_apply_expected)
  assume "s' = plant_expected s e"
  then show "plant_step s e s'"
    using plant_step.intros [of "plant_new s" e] by (simp add: plant_apply_expected plant_new_def)
qed

definition armed :: "plant_state \<Rightarrow> bool" where
  "armed s \<longleftrightarrow> s = Live \<or> s = Resyncing"

lemma plant_expected_rearm [simp]:
  "plant_expected Connecting (Rearm alive) = (if alive then Live else Disconnected)"
  by (cases alive) simp_all

lemma plant_step_Connecting: "plant_step s e Connecting \<longleftrightarrow>
    e = BeginConnect \<or> s = Connecting \<and> e = ResyncComplete"
  by (cases e; cases s; auto simp: plant_step_expected split: if_splits)

lemma plant_step_armed: "plant_step s e s' \<Longrightarrow> armed s' \<longleftrightarrow>
    armed s \<and> e \<in> {ResyncStart, ResyncComplete} \<or> s = Connecting \<and> e = Rearm True"
  by (cases e; cases s; auto simp: plant_step_expected armed_def split: if_splits)

lemma plant_run_step: "plant_step (pl_state (plant_run p es)) e (pl_state (plant_run p (es @ [e])))"
  using plant_step.intros [of "plant_run p es" e] by simp

section \<open>Arming\<close>

lemma connecting_run_decomp:
  assumes "pl_state p \<noteq> Connecting" "pl_state (plant_run p es) = Connecting"
  shows "\<exists>a b. es = a @ BeginConnect # b \<and> set b \<subseteq> {BeginConnect, ResyncComplete}"
  using assms(2)
proof (induction es rule: rev_induct)
  case Nil
  with assms(1) show ?case by simp
next
  case (snoc e es)
  from plant_run_step [of p es e] snoc.prems
  consider "e = BeginConnect" | "pl_state (plant_run p es) = Connecting" "e = ResyncComplete"
    by (auto simp: plant_step_Connecting)
  then show ?case
  proof cases
    case 1
    have "es @ [e] = es @ BeginConnect # []" using 1 by simp
    moreover have "set [] \<subseteq> {BeginConnect, ResyncComplete}" by simp
    ultimately show ?thesis by blast
  next
    case 2
    then obtain a b where "es = a @ BeginConnect # b" "set b \<subseteq> {BeginConnect, ResyncComplete}"
      using snoc.IH by blast
    with 2 have "es @ [e] = a @ BeginConnect # (b @ [e])" "set (b @ [e]) \<subseteq> {BeginConnect, ResyncComplete}"
      by auto
    then show ?thesis by blast
  qed
qed

text \<open>The shape of every run that arms a plant: one barrier, undisturbed, then only resyncs.\<close>

definition arming_trace :: "plant_event list \<Rightarrow> bool" where
  "arming_trace es \<longleftrightarrow> (\<exists>a b c. es = a @ BeginConnect # b @ Rearm True # c
     \<and> set b \<subseteq> {BeginConnect, ResyncComplete} \<and> set c \<subseteq> {ResyncStart, ResyncComplete})"

lemma armed_run_decomp:
  assumes "pl_state p \<in> {Disconnected, Latched}" "armed (pl_state (plant_run p es))"
  shows "arming_trace es"
  using assms(2)
proof (induction es rule: rev_induct)
  case Nil
  with assms(1) show ?case by (auto simp: armed_def)
next
  case (snoc e es)
  from plant_step_armed [OF plant_run_step [of p es e]] snoc.prems
  consider "armed (pl_state (plant_run p es))" "e \<in> {ResyncStart, ResyncComplete}"
    | "pl_state (plant_run p es) = Connecting" "e = Rearm True"
    by auto
  then show ?case
  proof cases
    case 1
    then obtain a b c where "es = a @ BeginConnect # b @ Rearm True # c"
      "set b \<subseteq> {BeginConnect, ResyncComplete}" "set c \<subseteq> {ResyncStart, ResyncComplete}"
      using snoc.IH by (auto simp: arming_trace_def)
    with 1 have "es @ [e] = a @ BeginConnect # b @ Rearm True # (c @ [e])
      \<and> set b \<subseteq> {BeginConnect, ResyncComplete} \<and> set (c @ [e]) \<subseteq> {ResyncStart, ResyncComplete}"
      by auto
    then show ?thesis unfolding arming_trace_def by blast
  next
    case 2
    then obtain a b where "es = a @ BeginConnect # b" "set b \<subseteq> {BeginConnect, ResyncComplete}"
      using connecting_run_decomp [of p es] assms(1) by auto
    with 2 have "es @ [e] = a @ BeginConnect # b @ Rearm True # []
      \<and> set b \<subseteq> {BeginConnect, ResyncComplete} \<and> set [] \<subseteq> {ResyncStart, ResyncComplete}"
      by simp
    then show ?thesis unfolding arming_trace_def by blast
  qed
qed

lemma run_connecting_quiet:
  "pl_state p = Connecting \<Longrightarrow> set b \<subseteq> {BeginConnect, ResyncComplete}
    \<Longrightarrow> pl_state (plant_run p b) = Connecting"
  by (induction b arbitrary: p) (auto simp: plant_defs)

lemma run_armed_resyncs:
  "armed (pl_state p) \<Longrightarrow> set c \<subseteq> {ResyncStart, ResyncComplete} \<Longrightarrow> armed (pl_state (plant_run p c))"
proof (induction c arbitrary: p)
  case (Cons e c)
  then have "armed (pl_state (plant_apply p e))"
    using plant_step_armed [OF plant_step.intros [of p e]] by simp
  with Cons show ?case by simp
qed simp

lemma arming_trace_arms:
  assumes "arming_trace es"
  shows "armed (pl_state (plant_run p es))"
proof -
  from assms obtain a b c where es: "es = a @ BeginConnect # b @ Rearm True # c"
    and b: "set b \<subseteq> {BeginConnect, ResyncComplete}" and c: "set c \<subseteq> {ResyncStart, ResyncComplete}"
    by (auto simp: arming_trace_def)
  let ?q = "plant_run (plant_begin_connect (plant_run p a)) b"
  have "pl_state ?q = Connecting"
    by (rule run_connecting_quiet [OF _ b]) (simp add: plant_defs)
  then have "armed (pl_state (snd (plant_rearm True ?q)))" by (simp add: plant_defs armed_def)
  then show ?thesis using c by (simp add: es run_armed_resyncs)
qed

lemma allow_cancel_armed: "plant_allow_cancel p \<longleftrightarrow> armed (pl_state p)"
  by (simp add: plant_allow_cancel_def armed_def)

lemma allow_submit_armed: "plant_allow_submit p \<Longrightarrow> armed (pl_state p)"
  by (simp add: plant_allow_submit_def armed_def)

text \<open>
  C9: From a plant that is down or latched, the plant accepts a cancel after a sequence of lifecycle
  events exactly when that sequence contains a \<open>begin_connect\<close> followed by a successful re-arm with
  nothing but further \<open>begin_connect\<close>s and no-op resync completions between them (a latch, a
  disconnect, a failed or started resync or another re-arm inside the barrier defeats it), and after
  the re-arm only mid-session resyncs. Since submits and modifies need a plant that also accepts
  cancels, a latch can only be cleared by a full barrier.
\<close>

theorem plant_commands_need_barrier:
  assumes "pl_state p \<in> {Disconnected, Latched}"
  shows "(plant_allow_cancel (plant_run p es) \<longleftrightarrow> arming_trace es)
    \<and> (plant_allow_submit (plant_run p es) \<longrightarrow> arming_trace es)
    \<and> (plant_allow_modify (plant_run p es) \<longrightarrow> arming_trace es)"
  using armed_run_decomp [OF assms] arming_trace_arms [of es p]
  by (auto simp: allow_cancel_armed armed_def plant_allow_submit_def plant_allow_modify_def)

theorem plant_commands_need_barrier_witness:
  "plant_allow_submit (plant_run (plant_new Latched) [BeginConnect, ResyncComplete, Rearm True])
   \<and> arming_trace [BeginConnect, ResyncComplete, Rearm True]
   \<and> \<not> arming_trace [BeginConnect, Latch, Rearm True]"
proof -
  have p: "pl_state (plant_new Latched) \<in> {Disconnected, Latched}" by (simp add: plant_new_def)
  have 1: "plant_allow_submit (plant_run (plant_new Latched) [BeginConnect, ResyncComplete, Rearm True])"
    by (simp add: plant_defs)
  have 2: "\<not> plant_allow_cancel (plant_run (plant_new Latched) [BeginConnect, Latch, Rearm True])"
    by (simp add: plant_defs)
  show ?thesis
    using 1 2 plant_commands_need_barrier [OF p, of "[BeginConnect, ResyncComplete, Rearm True]"]
      plant_commands_need_barrier [OF p, of "[BeginConnect, Latch, Rearm True]"]
    by blast
qed

end
