(* ===== verification/Lru.thy ===== *)
theory Lru
  imports PyValue
begin

text \<open>
  The bounded recency map of \<open>crates/rithmic-exec/src/lru.rs\<close> and the two stores the execution client
  keeps on it (\<open>_orders.py\<close>): \<open>FillDedupStore\<close> (fill keys already emitted) and \<open>UntrackedStatusBook\<close>
  (the last published status per external order).

  The Rust structure is two maps kept in step (\<open>entries\<close> by key, \<open>by_recency\<close> by tick) and a clock. Its
  contract is the list of keys, most recent first (\<open>lru_keys\<close>), cut at the bound: \<open>recency_map\<close> states
  it as an interface, the theorems the clients use are proved once in it, and the stores interpret it.
  The tick counter is a natural number: it overflows \<open>u64\<close> only after \<open>2 ^ 64\<close> operations.
\<close>

section \<open>The Rust structure\<close>

record 'v lru =
  lru_entries :: "(string \<times> ('v \<times> nat)) list"
  lru_recency :: "(nat \<times> string) list"
  lru_clock :: nat
  lru_max :: nat

text \<open>\<open>BTreeMap::insert\<close>: the entries stay sorted by key.\<close>

definition bt_insert :: "nat \<Rightarrow> 'a \<Rightarrow> (nat \<times> 'a) list \<Rightarrow> (nat \<times> 'a) list" where
  "bt_insert k v m = insort_key fst (k, v) (dict_pop k m)"

definition lru_new :: "nat \<Rightarrow> 'v lru" where
  "lru_new n = \<lparr>lru_entries = [], lru_recency = [], lru_clock = 0, lru_max = n\<rparr>"

definition lru_touch :: "string \<Rightarrow> 'v lru \<Rightarrow> 'v lru" where
  "lru_touch k l =
     (let c = Suc (lru_clock l); l1 = l\<lparr>lru_clock := c\<rparr>
      in case map_of (lru_entries l) k of
           None \<Rightarrow> l1
         | Some (v, tick) \<Rightarrow>
             l1\<lparr>lru_entries := dict_set k (v, c) (lru_entries l),
                lru_recency := bt_insert c k (dict_pop tick (lru_recency l))\<rparr>)"

definition lru_has :: "string \<Rightarrow> 'v lru \<Rightarrow> bool \<times> 'v lru" where
  "lru_has k l =
     (let hit = map_of (lru_entries l) k \<noteq> None in (hit, if hit then lru_touch k l else l))"

definition lru_get :: "string \<Rightarrow> 'v lru \<Rightarrow> 'v option \<times> 'v lru" where
  "lru_get k l =
     (if map_of (lru_entries l) k = None then (None, l)
      else let l' = lru_touch k l in (map_option fst (map_of (lru_entries l') k), l'))"

text \<open>The eviction loop of \<open>insert\<close>.\<close>

function lru_evict :: "'v lru \<Rightarrow> 'v lru" where
  "lru_evict l =
     (if length (lru_entries l) > lru_max l then
        (case lru_recency l of
           [] \<Rightarrow> l
         | (_, oldest) # rest \<Rightarrow>
             lru_evict (l\<lparr>lru_recency := rest, lru_entries := dict_pop oldest (lru_entries l)\<rparr>))
      else l)"
  by pat_completeness auto
termination
  by (relation "measure (length \<circ> lru_recency)") auto

declare lru_evict.simps [simp del]

definition lru_insert :: "string \<Rightarrow> 'v \<Rightarrow> 'v lru \<Rightarrow> 'v lru" where
  "lru_insert k v l =
     (let c = Suc (lru_clock l);
          rec1 = (case map_of (lru_entries l) k of
                    None \<Rightarrow> lru_recency l
                  | Some (_, old_tick) \<Rightarrow> dict_pop old_tick (lru_recency l))
      in lru_evict (l\<lparr>lru_clock := c, lru_entries := dict_set k (v, c) (lru_entries l),
                       lru_recency := bt_insert c k rec1\<rparr>))"

definition lru_clear :: "'v lru \<Rightarrow> 'v lru" where
  "lru_clear l = l\<lparr>lru_entries := [], lru_recency := []\<rparr>"

definition lru_len :: "'v lru \<Rightarrow> nat" where
  "lru_len l = length (lru_entries l)"

section \<open>Invariant and abstraction\<close>

definition lru_inv :: "'v lru \<Rightarrow> bool" where
  "lru_inv l \<longleftrightarrow> distinct (map fst (lru_entries l)) \<and> sorted_wrt (<) (map fst (lru_recency l))
     \<and> (\<forall>t \<in> fst ` set (lru_recency l). t \<le> lru_clock l)
     \<and> (\<forall>k t. (t, k) \<in> set (lru_recency l) \<longleftrightarrow> (\<exists>v. map_of (lru_entries l) k = Some (v, t)))"

definition lru_keys :: "'v lru \<Rightarrow> string list" where
  "lru_keys l = map snd (rev (lru_recency l))"

definition lru_val :: "'v lru \<Rightarrow> string \<Rightarrow> 'v option" where
  "lru_val l k = map_option fst (map_of (lru_entries l) k)"

lemma lru_inv_entries: "lru_inv l \<Longrightarrow> distinct (map fst (lru_entries l))"
  by (simp add: lru_inv_def)

lemma lru_inv_corr:
  "lru_inv l \<Longrightarrow> (t, k) \<in> set (lru_recency l) \<longleftrightarrow> (\<exists>v. map_of (lru_entries l) k = Some (v, t))"
  unfolding lru_inv_def by blast

lemma lru_inv_tick: "lru_inv l \<Longrightarrow> (t, k) \<in> set (lru_recency l) \<Longrightarrow> t \<le> lru_clock l"
  unfolding lru_inv_def by (metis fst_conv image_eqI)

lemma lru_keys_mem: "lru_inv l \<Longrightarrow> k \<in> set (lru_keys l) \<longleftrightarrow> map_of (lru_entries l) k \<noteq> None"
proof -
  assume "lru_inv l"
  then have "map_of (lru_entries l) k \<noteq> None \<longleftrightarrow> (\<exists>t. (t, k) \<in> set (lru_recency l))"
    by (auto simp: lru_inv_corr)
  then show ?thesis by (force simp: lru_keys_def)
qed

lemma lru_val_mem: "lru_inv l \<Longrightarrow> lru_val l k = None \<longleftrightarrow> k \<notin> set (lru_keys l)"
  using lru_keys_mem [of l k] by (simp add: lru_val_def del: not_None_eq)

lemma lru_recency_distinct: "lru_inv l \<Longrightarrow> distinct (lru_recency l)"
  unfolding lru_inv_def by (metis distinct_map strict_sorted_iff)

lemma lru_keys_distinct: "lru_inv l \<Longrightarrow> distinct (lru_keys l)"
proof -
  assume inv: "lru_inv l"
  then have "inj_on snd (set (lru_recency l))"
    by (auto simp: inj_on_def lru_inv_corr)
  with inv show ?thesis
    by (simp add: lru_keys_def distinct_map lru_recency_distinct del: rev_map flip: rev_map)
qed

lemma lru_keys_length: "lru_inv l \<Longrightarrow> length (lru_keys l) = lru_len l"
proof -
  assume inv: "lru_inv l"
  have "k \<in> set (lru_keys l) \<longleftrightarrow> k \<in> set (map fst (lru_entries l))" for k
    using inv by (simp add: lru_keys_mem map_of_eq_None_iff)
  then have "set (lru_keys l) = set (map fst (lru_entries l))" by blast
  then show ?thesis
    using lru_keys_distinct [OF inv] lru_inv_entries [OF inv]
    by (metis distinct_card length_map lru_len_def)
qed

lemma insort_key_greatest:
  "\<forall>y \<in> set m. f y < f x \<Longrightarrow> insort_key f x m = m @ [x :: 'a]" for f :: "'a \<Rightarrow> nat"
  by (induction m) auto

lemma bt_insert_greatest: "\<forall>t \<in> fst ` set m. t < k \<Longrightarrow> bt_insert k v m = m @ [(k, v)]"
proof -
  assume lt: "\<forall>t \<in> fst ` set m. t < k"
  then have "dict_pop k m = m" by (force simp: dict_pop_def filter_id_conv)
  moreover have "insort_key fst (k, v) m = m @ [(k, v)]"
    using lt by (intro insort_key_greatest) auto
  ultimately show ?thesis by (simp add: bt_insert_def)
qed

section \<open>Every operation keeps the invariant and refreshes or cuts the key list\<close>

lemma lru_new_props [simp]: "lru_inv (lru_new n)" "lru_keys (lru_new n) = []" "lru_max (lru_new n) = n"
  by (simp_all add: lru_inv_def lru_keys_def lru_new_def)

lemma lru_clear_props [simp]: "lru_inv (lru_clear l)" "lru_keys (lru_clear l) = []"
    "lru_max (lru_clear l) = lru_max l"
  by (simp_all add: lru_inv_def lru_keys_def lru_clear_def)

text \<open>Re-stamping a key: the recency list loses the key's old tick and gains the new, largest one.\<close>

definition lru_restamp :: "string \<Rightarrow> 'v \<Rightarrow> 'v lru \<Rightarrow> 'v lru" where
  "lru_restamp k v l =
     l\<lparr>lru_clock := Suc (lru_clock l),
       lru_entries := dict_set k (v, Suc (lru_clock l)) (lru_entries l),
       lru_recency := filter (\<lambda>(_, k'). k' \<noteq> k) (lru_recency l) @ [(Suc (lru_clock l), k)]\<rparr>"

lemma dict_pop_tick:
  assumes "lru_inv l" "map_of (lru_entries l) k = Some (v, t)"
  shows "dict_pop t (lru_recency l) = filter (\<lambda>(_, k'). k' \<noteq> k) (lru_recency l)"
proof -
  have "t' = t \<longleftrightarrow> k' = k" if "(t', k') \<in> set (lru_recency l)" for t' k'
  proof
    assume "t' = t"
    have "(t, k) \<in> set (lru_recency l)" using assms by (auto simp: lru_inv_corr)
    with that \<open>t' = t\<close> show "k' = k"
      using assms(1) unfolding lru_inv_def by (metis distinct_map eq_key_imp_eq_value strict_sorted_iff)
  qed (use that assms in \<open>auto simp: lru_inv_corr\<close>)
  then show ?thesis unfolding dict_pop_def by (intro filter_cong) auto
qed

lemma filter_absent_key:
  assumes "lru_inv l" "map_of (lru_entries l) k = None"
  shows "filter (\<lambda>(_, k'). k' \<noteq> k) (lru_recency l) = lru_recency l"
  using assms by (auto simp: filter_id_conv lru_inv_corr)

lemma bt_insert_clock:
  assumes "lru_inv l"
  shows "bt_insert (Suc (lru_clock l)) k (filter P (lru_recency l))
    = filter P (lru_recency l) @ [(Suc (lru_clock l), k)]"
  using lru_inv_tick [OF assms] by (intro bt_insert_greatest) (force simp: less_Suc_eq_le)

lemma lru_touch_restamp:
  "lru_inv l \<Longrightarrow> map_of (lru_entries l) k = Some (v, t) \<Longrightarrow> lru_touch k l = lru_restamp k v l"
  by (simp add: lru_touch_def lru_restamp_def dict_pop_tick bt_insert_clock)

lemma lru_insert_restamp: "lru_inv l \<Longrightarrow> lru_insert k v l = lru_evict (lru_restamp k v l)"
proof (cases "map_of (lru_entries l) k")
  case None
  assume inv: "lru_inv l"
  from bt_insert_clock [OF inv, of k "\<lambda>(_, k'). k' \<noteq> k"] None inv show ?thesis
    by (simp add: lru_insert_def lru_restamp_def filter_absent_key)
qed (auto simp: lru_insert_def lru_restamp_def dict_pop_tick bt_insert_clock)

lemma lru_restamp_inv: "lru_inv l \<Longrightarrow> lru_inv (lru_restamp k v l)"
proof -
  assume inv: "lru_inv l"
  let ?r = "filter (\<lambda>(_, k'). k' \<noteq> k) (lru_recency l)"
  have le: "(t, k') \<in> set ?r \<Longrightarrow> t \<le> lru_clock l" for t k'
    using lru_inv_tick [OF inv] by auto
  have "sorted_wrt (<) (map fst ?r)"
    using inv by (auto simp: lru_inv_def sorted_wrt_map intro: sorted_wrt_filter)
  moreover have "\<forall>t \<in> fst ` set ?r. t < Suc (lru_clock l)" using le by (force simp: less_Suc_eq_le)
  ultimately have "sorted_wrt (<) (map fst (?r @ [(Suc (lru_clock l), k)]))"
    by (auto simp: sorted_wrt_append)
  moreover have "distinct (map fst (dict_set k (v, Suc (lru_clock l)) (lru_entries l)))"
    using lru_inv_entries [OF inv] by simp
  moreover have "(t, k') \<in> set (?r @ [(Suc (lru_clock l), k)]) \<longleftrightarrow>
      (\<exists>w. map_of (dict_set k (v, Suc (lru_clock l)) (lru_entries l)) k' = Some (w, t))" for t k'
    using inv by (auto simp: lru_inv_corr)
  ultimately show ?thesis using le by (force simp: lru_inv_def lru_restamp_def)
qed

lemma map_snd_filter_removeAll: "map snd (filter (\<lambda>(_, k'). k' \<noteq> k) xs) = removeAll k (map snd xs)"
  by (induction xs) auto

lemma lru_restamp_keys: "lru_keys (lru_restamp k v l) = k # removeAll k (lru_keys l)"
proof -
  have "rev (lru_recency (lru_restamp k v l))
      = (Suc (lru_clock l), k) # filter (\<lambda>(_, k'). k' \<noteq> k) (rev (lru_recency l))"
    by (simp add: lru_restamp_def rev_filter)
  then show ?thesis by (simp add: lru_keys_def map_snd_filter_removeAll del: rev_map)
qed

lemma lru_restamp_val: "lru_val (lru_restamp k v l) = (lru_val l)(k \<mapsto> v)"
  by (auto simp: lru_val_def lru_restamp_def)

lemma lru_restamp_max [simp]: "lru_max (lru_restamp k v l) = lru_max l"
  by (simp add: lru_restamp_def)

lemma lru_drop_oldest:
  assumes inv: "lru_inv l" and r: "lru_recency l = (t, old) # rest"
  defines "l' \<equiv> l\<lparr>lru_recency := rest, lru_entries := dict_pop old (lru_entries l)\<rparr>"
  shows "lru_inv l'" "lru_keys l = lru_keys l' @ [old]" "old \<notin> set (lru_keys l')"
    "lru_val l' = (lru_val l)(old := None)"
proof -
  show keys: "lru_keys l = lru_keys l' @ [old]" by (simp add: lru_keys_def r l'_def)
  then show fresh: "old \<notin> set (lru_keys l')" using lru_keys_distinct [OF inv] by auto
  have "(u, k) \<in> set rest \<longleftrightarrow> (\<exists>v. map_of (dict_pop old (lru_entries l)) k = Some (v, u))" for u k
  proof (cases "k = old")
    case True
    then show ?thesis using fresh by (force simp: lru_keys_def l'_def)
  next
    case False
    then have "(u, k) \<in> set rest \<longleftrightarrow> (u, k) \<in> set (lru_recency l)" by (auto simp: r)
    with False show ?thesis using inv by (simp add: lru_inv_corr)
  qed
  with inv show "lru_inv l'" by (auto simp: lru_inv_def r l'_def)
  show "lru_val l' = (lru_val l)(old := None)" by (auto simp: lru_val_def l'_def)
qed

lemma lru_evict_props:
  "lru_inv l \<Longrightarrow> lru_inv (lru_evict l) \<and> lru_max (lru_evict l) = lru_max l
     \<and> lru_keys (lru_evict l) = take (lru_max l) (lru_keys l)
     \<and> (\<forall>k \<in> set (lru_keys (lru_evict l)). lru_val (lru_evict l) k = lru_val l k)"
proof (induction l rule: lru_evict.induct)
  case (1 l)
  note inv = \<open>lru_inv l\<close>
  have len: "length (lru_keys l) = length (lru_entries l)"
    using lru_keys_length [OF inv] by (simp add: lru_len_def)
  show ?case
  proof (cases "length (lru_entries l) > lru_max l")
    case False
    then show ?thesis using inv len by (simp add: lru_evict.simps [of l])
  next
    case big: True
    with len obtain t old rest where r: "lru_recency l = (t, old) # rest"
      by (cases "lru_recency l") (auto simp: lru_keys_def)
    let ?l' = "l\<lparr>lru_recency := rest, lru_entries := dict_pop old (lru_entries l)\<rparr>"
    note drop = lru_drop_oldest [OF inv r]
    have step: "lru_evict l = lru_evict ?l'" using big r by (simp add: lru_evict.simps [of l])
    from "1.IH" [OF big r refl] drop(1) have IH: "lru_inv (lru_evict ?l')"
        "lru_max (lru_evict ?l') = lru_max l"
        "lru_keys (lru_evict ?l') = take (lru_max l) (lru_keys ?l')"
        "\<And>k. k \<in> set (lru_keys (lru_evict ?l')) \<Longrightarrow> lru_val (lru_evict ?l') k = lru_val ?l' k"
      by auto
    have "take (lru_max l) (lru_keys l) = take (lru_max l) (lru_keys ?l')"
      using big len by (subst drop(2), subst take_append) (simp add: drop(2))
    moreover have "lru_val ?l' k = lru_val l k" if "k \<in> set (lru_keys (lru_evict ?l'))" for k
    proof -
      from that have "k \<in> set (lru_keys ?l')" unfolding IH(3) by (rule in_set_takeD)
      with drop(3,4) show ?thesis by auto
    qed
    ultimately show ?thesis using IH by (simp add: step)
  qed
qed

lemma lru_insert_props:
  assumes "lru_inv l"
  shows "lru_inv (lru_insert k v l)" "lru_max (lru_insert k v l) = lru_max l"
    "lru_keys (lru_insert k v l) = take (lru_max l) (k # removeAll k (lru_keys l))"
    "k' \<in> set (lru_keys (lru_insert k v l)) \<Longrightarrow>
       lru_val (lru_insert k v l) k' = (if k' = k then Some v else lru_val l k')"
  using lru_evict_props [OF lru_restamp_inv [OF assms, of k v]]
  by (auto simp: lru_insert_restamp [OF assms] lru_restamp_keys lru_restamp_val)

lemma lru_has_props:
  assumes "lru_inv l"
  shows "lru_inv (snd (lru_has k l))" "fst (lru_has k l) \<longleftrightarrow> k \<in> set (lru_keys l)"
    "lru_max (snd (lru_has k l)) = lru_max l"
    "lru_keys (snd (lru_has k l)) =
       (if k \<in> set (lru_keys l) then k # removeAll k (lru_keys l) else lru_keys l)"
    "lru_val (snd (lru_has k l)) = lru_val l"
proof -
  show "fst (lru_has k l) \<longleftrightarrow> k \<in> set (lru_keys l)"
    using assms by (simp add: lru_has_def lru_keys_mem Let_def)
  consider "map_of (lru_entries l) k = None" | v t where "map_of (lru_entries l) k = Some (v, t)"
    by (cases "map_of (lru_entries l) k") auto
  then have "snd (lru_has k l) = l \<and> k \<notin> set (lru_keys l)
      \<or> (\<exists>v. snd (lru_has k l) = lru_restamp k v l \<and> lru_val l k = Some v \<and> k \<in> set (lru_keys l))"
    by cases (auto simp: lru_has_def lru_touch_restamp [OF assms] lru_keys_mem [OF assms] lru_val_def)
  then show "lru_inv (snd (lru_has k l))" "lru_max (snd (lru_has k l)) = lru_max l"
    "lru_keys (snd (lru_has k l)) =
       (if k \<in> set (lru_keys l) then k # removeAll k (lru_keys l) else lru_keys l)"
    "lru_val (snd (lru_has k l)) = lru_val l"
    using assms by (auto simp: lru_restamp_inv lru_restamp_keys lru_restamp_val)
qed

lemma lru_get_has: "lru_inv l \<Longrightarrow> lru_get k l = (lru_val l k, snd (lru_has k l))"
  by (cases "map_of (lru_entries l) k")
     (auto simp: lru_get_def lru_has_def lru_val_def lru_touch_restamp lru_restamp_def)

section \<open>The stores of the execution client\<close>

record fill_dedup_store = fd_cache :: "pyval lru"

definition fill_store_init :: "nat \<Rightarrow> fill_dedup_store" where
  "fill_store_init max_size = \<lparr>fd_cache = lru_new max_size\<rparr>"

definition has_seen :: "string \<Rightarrow> fill_dedup_store \<Rightarrow> bool \<times> fill_dedup_store" where
  "has_seen key st = (case lru_has key (fd_cache st) of (hit, c) \<Rightarrow> (hit, st\<lparr>fd_cache := c\<rparr>))"

definition mark :: "string \<Rightarrow> fill_dedup_store \<Rightarrow> fill_dedup_store" where
  "mark key st = st\<lparr>fd_cache := lru_insert key PNone (fd_cache st)\<rparr>"

definition fill_store_clear :: "fill_dedup_store \<Rightarrow> fill_dedup_store" where
  "fill_store_clear st = st\<lparr>fd_cache := lru_clear (fd_cache st)\<rparr>"

definition fill_store_len :: "fill_dedup_store \<Rightarrow> nat" where
  "fill_store_len st = lru_len (fd_cache st)"

text \<open>The book's values are the published status tuples; \<open>get\<close> without a default answers \<open>None\<close>.\<close>

record 'v untracked_status_book = sb_cache :: "'v lru"

definition book_init :: "nat \<Rightarrow> 'v untracked_status_book" where
  "book_init max_size = \<lparr>sb_cache = lru_new max_size\<rparr>"

definition book_get :: "string \<Rightarrow> 'v untracked_status_book \<Rightarrow> 'v option \<times> 'v untracked_status_book" where
  "book_get key b = (case lru_get key (sb_cache b) of (v, c) \<Rightarrow> (v, b\<lparr>sb_cache := c\<rparr>))"

definition book_record :: "string \<Rightarrow> 'v \<Rightarrow> 'v untracked_status_book \<Rightarrow> 'v untracked_status_book" where
  "book_record key v b = b\<lparr>sb_cache := lru_insert key v (sb_cache b)\<rparr>"

definition book_clear :: "'v untracked_status_book \<Rightarrow> 'v untracked_status_book" where
  "book_clear b = b\<lparr>sb_cache := lru_clear (sb_cache b)\<rparr>"

definition book_len :: "'v untracked_status_book \<Rightarrow> nat" where
  "book_len b = lru_len (sb_cache b)"

section \<open>The interface the clients rely on\<close>

lemma takeWhile_neq_removeAll: "j \<noteq> k \<Longrightarrow> set (takeWhile (\<lambda>x. x \<noteq> k) (removeAll j xs)) \<subseteq> set (takeWhile (\<lambda>x. x \<noteq> k) xs)"
  by (induction xs) auto

lemma mem_take_before:
  "k \<in> set xs \<Longrightarrow> length (takeWhile (\<lambda>x. x \<noteq> k) xs) < n \<Longrightarrow> k \<in> set (take n xs)"
proof (induction xs arbitrary: n)
  case (Cons x xs)
  then show ?case by (cases n) (auto split: if_splits)
qed simp

lemma takeWhile_take_subset:
  "set (takeWhile (\<lambda>x. x \<noteq> k) (take n xs)) \<subseteq> set (takeWhile (\<lambda>x. x \<noteq> k) xs)"
proof (induction xs arbitrary: n)
  case (Cons x xs)
  then show ?case by (cases n) auto
qed simp

datatype 'v store_op = Lookup string | Put string 'v

fun op_key :: "'v store_op \<Rightarrow> string" where
  "op_key (Lookup k) = k"
| "op_key (Put k _) = k"

locale recency_map =
  fixes inv :: "'s \<Rightarrow> bool" and cap :: "'s \<Rightarrow> nat" and keys :: "'s \<Rightarrow> string list"
    and peek :: "'s \<Rightarrow> string \<Rightarrow> 'v option"
    and look :: "string \<Rightarrow> 's \<Rightarrow> 's" and put :: "string \<Rightarrow> 'v \<Rightarrow> 's \<Rightarrow> 's"
  assumes keys_distinct: "inv s \<Longrightarrow> distinct (keys s)"
    and peek_mem: "inv s \<Longrightarrow> peek s k = None \<longleftrightarrow> k \<notin> set (keys s)"
    and inv_look: "inv s \<Longrightarrow> inv (look k s)"
    and cap_look: "inv s \<Longrightarrow> cap (look k s) = cap s"
    and keys_look: "inv s \<Longrightarrow> keys (look k s) =
      (if k \<in> set (keys s) then k # removeAll k (keys s) else keys s)"
    and peek_look: "inv s \<Longrightarrow> peek (look k s) = peek s"
    and inv_put: "inv s \<Longrightarrow> inv (put k v s)"
    and cap_put: "inv s \<Longrightarrow> cap (put k v s) = cap s"
    and keys_put: "inv s \<Longrightarrow> keys (put k v s) = take (cap s) (k # removeAll k (keys s))"
    and peek_put: "inv s \<Longrightarrow> k' \<in> set (keys (put k v s)) \<Longrightarrow>
      peek (put k v s) k' = (if k' = k then Some v else peek s k')"
begin

primrec apply_op :: "'s \<Rightarrow> 'v store_op \<Rightarrow> 's" where
  "apply_op s (Lookup k) = look k s"
| "apply_op s (Put k v) = put k v s"

definition run :: "'s \<Rightarrow> 'v store_op list \<Rightarrow> 's" where
  "run = foldl apply_op"

text \<open>\<open>k\<close> is held and every key more recent than it is in \<open>K\<close>.\<close>

definition held :: "string set \<Rightarrow> string \<Rightarrow> 's \<Rightarrow> bool" where
  "held K k s \<longleftrightarrow> inv s \<and> k \<in> set (keys s) \<and> set (takeWhile (\<lambda>x. x \<noteq> k) (keys s)) \<subseteq> K"

lemma refreshed_before:
  assumes "set (takeWhile (\<lambda>x. x \<noteq> k) xs) \<subseteq> K" "j \<in> insert k K"
  shows "set (takeWhile (\<lambda>x. x \<noteq> k) (j # removeAll j xs)) \<subseteq> K"
  using assms takeWhile_neq_removeAll [of j k xs] by (cases "j = k") auto

lemma held_put:
  assumes h: "held K k s" and j: "j \<in> insert k K" and K: "finite K" "card K < cap s"
  shows "held K k (put j v s)"
proof -
  let ?ys = "j # removeAll j (keys s)"
  from h have s: "inv s" and mem: "k \<in> set ?ys" and sub: "set (takeWhile (\<lambda>x. x \<noteq> k) ?ys) \<subseteq> K"
    using refreshed_before [OF _ j] by (auto simp: held_def)
  have "distinct ?ys" using keys_distinct [OF s] by (simp add: distinct_removeAll)
  then have "length (takeWhile (\<lambda>x. x \<noteq> k) ?ys) = card (set (takeWhile (\<lambda>x. x \<noteq> k) ?ys))"
    by (metis distinct_card distinct_takeWhile)
  also have "\<dots> \<le> card K" using sub K(1) by (rule card_mono [rotated])
  finally have "length (takeWhile (\<lambda>x. x \<noteq> k) ?ys) < cap s" using K(2) by simp
  from mem_take_before [OF mem this] sub s show ?thesis
    using takeWhile_take_subset [of k "cap s" ?ys] by (auto simp: held_def keys_put inv_put)
qed

lemma held_look: "held K k s \<Longrightarrow> j \<in> insert k K \<Longrightarrow> held K k (look j s)"
  using refreshed_before [of k "keys s" K j] by (auto simp: held_def keys_look inv_look)

lemma held_after_put: "inv s \<Longrightarrow> 0 < cap s \<Longrightarrow> held K k (put k v s)"
  by (cases "cap s") (auto simp: held_def keys_put inv_put)

lemma held_run:
  "held K k s \<Longrightarrow> finite K \<Longrightarrow> card K < cap s \<Longrightarrow> op_key ` set ops \<subseteq> insert k K \<Longrightarrow> held K k (run s ops)"
proof (induction ops arbitrary: s)
  case (Cons p ops)
  have s: "inv s" using Cons.prems(1) by (simp add: held_def)
  have "held K k (apply_op s p) \<and> cap (apply_op s p) = cap s"
    using Cons.prems s by (cases p) (auto simp: held_look held_put cap_look cap_put)
  with Cons show ?case by (simp add: run_def)
qed (simp add: run_def)

text \<open>
  A key survives as long as fewer distinct other keys than the bound were used after it, whatever
  was looked up in between.
\<close>

lemma held_window:
  assumes "inv s" "card (op_key ` set ops - {k}) < cap s"
  shows "peek (run (put k v s) ops) k \<noteq> None"
proof -
  let ?K = "op_key ` set ops - {k}"
  have "held ?K k (put k v s)" using assms by (intro held_after_put) auto
  then have "held ?K k (run (put k v s) ops)"
    using assms by (intro held_run) (auto simp: cap_put)
  then show ?thesis by (metis held_def peek_mem)
qed

lemma peek_after_put: "inv s \<Longrightarrow> 0 < cap s \<Longrightarrow> peek (put k v s) k = Some v"
  by (cases "cap s") (auto simp: peek_put keys_put)

lemma length_keys_put: "inv s \<Longrightarrow> length (keys (put k v s)) \<le> cap s"
  by (simp add: keys_put)

end

interpretation lru_map: recency_map lru_inv lru_max lru_keys lru_val "\<lambda>k l. snd (lru_has k l)" lru_insert
  by unfold_locales
     (auto simp: lru_keys_distinct lru_val_mem lru_has_props lru_insert_props)

definition fill_inv :: "fill_dedup_store \<Rightarrow> bool" where
  "fill_inv st \<longleftrightarrow> lru_inv (fd_cache st)"

definition fill_cap :: "fill_dedup_store \<Rightarrow> nat" where
  "fill_cap st = lru_max (fd_cache st)"

definition fill_keys :: "fill_dedup_store \<Rightarrow> string list" where
  "fill_keys st = lru_keys (fd_cache st)"

definition fill_peek :: "fill_dedup_store \<Rightarrow> string \<Rightarrow> pyval option" where
  "fill_peek st = lru_val (fd_cache st)"

lemma has_seen_eq: "has_seen k st = (fst (lru_has k (fd_cache st)), st\<lparr>fd_cache := snd (lru_has k (fd_cache st))\<rparr>)"
  by (simp add: has_seen_def case_prod_unfold)

text \<open>Values do not matter to the fill store: it is a recency map that marks each key with \<open>None\<close>.\<close>

interpretation fills: recency_map fill_inv fill_cap fill_keys "\<lambda>st k. map_option (\<lambda>_. ()) (fill_peek st k)"
  "\<lambda>k st. snd (has_seen k st)" "\<lambda>k (_::unit). mark k"
  by unfold_locales
     (auto simp: fill_inv_def fill_cap_def fill_keys_def fill_peek_def has_seen_eq mark_def
       lru_map.keys_distinct lru_map.peek_mem lru_has_props lru_insert_props)

definition book_inv :: "'v untracked_status_book \<Rightarrow> bool" where
  "book_inv b \<longleftrightarrow> lru_inv (sb_cache b)"

definition book_cap :: "'v untracked_status_book \<Rightarrow> nat" where
  "book_cap b = lru_max (sb_cache b)"

definition book_keys :: "'v untracked_status_book \<Rightarrow> string list" where
  "book_keys b = lru_keys (sb_cache b)"

definition book_peek :: "'v untracked_status_book \<Rightarrow> string \<Rightarrow> 'v option" where
  "book_peek b = lru_val (sb_cache b)"

lemma book_get_eq:
  "book_inv b \<Longrightarrow> book_get k b = (book_peek b k, b\<lparr>sb_cache := snd (lru_has k (sb_cache b))\<rparr>)"
  by (simp add: book_get_def book_inv_def book_peek_def lru_get_has)

interpretation book: recency_map book_inv book_cap book_keys book_peek
  "\<lambda>k b. snd (book_get k b)" book_record
  by unfold_locales
     (auto simp: book_get_eq, auto simp: book_inv_def book_cap_def book_keys_def book_peek_def
       book_record_def lru_map.keys_distinct lru_map.peek_mem lru_has_props lru_insert_props)

lemma has_seen_iff: "fill_inv st \<Longrightarrow> fst (has_seen k st) \<longleftrightarrow> k \<in> set (fill_keys st)"
  by (simp add: has_seen_eq fill_inv_def fill_keys_def lru_has_props)

lemma fill_store_init_props [simp]: "fill_inv (fill_store_init n)" "fill_cap (fill_store_init n) = n"
    "fill_keys (fill_store_init n) = []"
  by (simp_all add: fill_inv_def fill_cap_def fill_keys_def fill_store_init_def)

section \<open>The dedup window\<close>

fun fill_op :: "fill_dedup_store \<Rightarrow> unit store_op \<Rightarrow> fill_dedup_store" where
  "fill_op st (Lookup k) = snd (has_seen k st)"
| "fill_op st (Put k _) = mark k st"

definition fill_ops :: "fill_dedup_store \<Rightarrow> unit store_op list \<Rightarrow> fill_dedup_store" where
  "fill_ops = foldl fill_op"

lemma fill_ops_run: "fill_ops st ops = fills.run st ops"
proof -
  have "fill_op = fills.apply_op" by (auto simp: fun_eq_iff split: store_op.split) (metis fill_op.simps fills.apply_op.simps store_op.exhaust)
  then show ?thesis by (simp add: fill_ops_def fills.run_def)
qed

lemma marked_key_seen:
  assumes "fill_inv st" "card (op_key ` set ops - {k}) < fill_cap st"
  shows "fst (has_seen k (fill_ops (mark k st) ops))"
proof -
  have inv: "fill_inv (fills.run (mark k st) ops)"
    using fills.held_run [of "op_key ` set ops - {k}" k "mark k st" ops] assms
      fills.held_after_put [of st "op_key ` set ops - {k}" k]
    by (auto simp: fills.held_def fills.cap_put [of st k])
  from fills.held_window [OF assms(1), of ops k] assms(2) show ?thesis
    using fills.peek_mem [OF inv, of k] by (auto simp: fill_ops_run has_seen_iff [OF inv])
qed

text \<open>
  The fill dedup store remembers: once a fill key is marked, \<open>has_seen\<close> answers true for it after any
  sequence of lookups and marks, as long as that sequence used fewer distinct other keys than the
  store's bound. Lookups of hot keys never push a key out, and the store never holds more keys than
  its bound.
\<close>

theorem fill_dedup_window:
  assumes "fill_inv st" "card (op_key ` set ops - {k}) < fill_cap st"
  shows "fst (has_seen k (fill_ops (mark k st) ops)) \<and> fill_store_len (mark k st) \<le> fill_cap st"
proof
  show "fst (has_seen k (fill_ops (mark k st) ops))" using assms by (rule marked_key_seen)
  show "fill_store_len (mark k st) \<le> fill_cap st"
    using fills.length_keys_put [OF assms(1), of k] fills.inv_put [OF assms(1), of k]
    by (simp add: fill_keys_def fill_store_len_def fill_inv_def lru_keys_length)
qed

end
