(* ===== verification/Ident.thy ===== *)
theory Ident
  imports PyValue
begin

text \<open>
  Instrument-id encoding and event time: \<open>crates/rithmic-exec/src/ident.rs\<close> and the wrappers of
  \<open>_convert.py\<close> around it. The exchange rides inside the symbol component (\<open>NQU6-CME.RITHMIC\<close>), so two
  venue instruments never share an id; \<open>split_encoded\<close> is the reverse-parse lemma behind that.

  The wrappers are memoised in the source (\<open>lru_cache\<close>); both are pure and errors are not cached, so
  the cache does not change what they return.
\<close>

section \<open>The rules (ident.rs)\<close>

datatype ident_error =
    ForbiddenChar string string | EmptySymbol | MissingVenue string string
  | EmptyComponent string | BadHyphenEncoding string

fun ident_error_msg :: "ident_error \<Rightarrow> string" where
  "ident_error_msg (ForbiddenChar label v) =
     label @ '' must not contain '' @ [CHR 0x27] @ ''-'' @ [CHR 0x27] @ '' or '' @ [CHR 0x27] @ ''.''
       @ [CHR 0x27] @ '': '' @ str_repr v"
| "ident_error_msg EmptySymbol = ''symbol must be non-empty''"
| "ident_error_msg (MissingVenue suf raw) =
     ''instrument_id must end with '' @ str_repr suf @ '': '' @ str_repr raw"
| "ident_error_msg (EmptyComponent raw) =
     ''instrument_id symbol component is empty: '' @ str_repr raw"
| "ident_error_msg (BadHyphenEncoding raw) =
     ''invalid instrument_id hyphen encoding: '' @ str_repr raw"

definition require_safe :: "string \<Rightarrow> string \<Rightarrow> ident_error + string" where
  "require_safe v label =
     (if CHR ''-'' \<in> set v \<or> CHR ''.'' \<in> set v then Inl (ForbiddenChar label v) else Inr v)"

definition nonempty_trim :: "string option \<Rightarrow> string option" where
  "nonempty_trim exchange =
     (case exchange of None \<Rightarrow> None | Some e \<Rightarrow> if rs_trim e = [] then None else Some (rs_trim e))"

definition rs_instrument_id :: "string \<Rightarrow> string option \<Rightarrow> string \<Rightarrow> ident_error + string" where
  "rs_instrument_id symbol exchange venue =
     (case require_safe (rs_trim symbol) ''symbol'' of
        Inl e \<Rightarrow> Inl e
      | Inr symb \<Rightarrow>
          if symb = [] then Inl EmptySymbol
          else (case nonempty_trim exchange of
                  Some exch \<Rightarrow> (case require_safe (str_upper exch) ''exchange'' of
                      Inl e \<Rightarrow> Inl e
                    | Inr ex \<Rightarrow> Inr (symb @ ''-'' @ ex @ ''.'' @ venue))
                | None \<Rightarrow> Inr (symb @ ''.'' @ venue)))"

definition strip_suffix :: "string \<Rightarrow> string \<Rightarrow> string option" where
  "strip_suffix suf s =
     (if length suf \<le> length s \<and> drop (length s - length suf) s = suf
      then Some (take (length s - length suf) s) else None)"

definition rs_split_instrument_id :: "string \<Rightarrow> string \<Rightarrow> ident_error + (string \<times> string option)" where
  "rs_split_instrument_id instrument_id venue =
     (let raw = rs_trim instrument_id; suf = ''.'' @ venue
      in case strip_suffix suf raw of
           None \<Rightarrow> Inl (MissingVenue suf raw)
         | Some sym_exch \<Rightarrow>
             if sym_exch = [] then Inl (EmptyComponent raw)
             else if CHR ''-'' \<in> set sym_exch then
               (let symb = takeWhile (\<lambda>c. c \<noteq> CHR ''-'') sym_exch;
                    exch = tl (dropWhile (\<lambda>c. c \<noteq> CHR ''-'') sym_exch)
                in if symb = [] \<or> exch = [] then Inl (BadHyphenEncoding raw)
                   else if CHR ''.'' \<in> set symb then Inl (ForbiddenChar ''symbol'' symb)
                   else (case require_safe (str_upper exch) ''exchange'' of
                           Inl e \<Rightarrow> Inl e | Inr ex \<Rightarrow> Inr (symb, Some ex)))
             else (case require_safe sym_exch ''symbol'' of
                     Inl e \<Rightarrow> Inl e | Inr symb \<Rightarrow> Inr (symb, None)))"

definition nanos :: "int \<Rightarrow> int \<Rightarrow> int" where
  "nanos ssboe usecs = ssboe * 1000000000 + usecs * 1000"

definition event_ts_ns :: "int option \<Rightarrow> int option \<Rightarrow> int option \<Rightarrow> int option" where
  "event_ts_ns ts_event_ns ssboe usecs =
     (case ts_event_ns of
        Some ts \<Rightarrow> Some ts
      | None \<Rightarrow> map_option (\<lambda>s. nanos s (case usecs of None \<Rightarrow> 0 | Some u \<Rightarrow> u)) ssboe)"

section \<open>The Python wrappers (_convert.py)\<close>

definition VENUE :: string where "VENUE = ''RITHMIC''"

definition convert_res :: "ident_error + 'a \<Rightarrow> 'a res" where
  "convert_res r = (case r of Inl e \<Rightarrow> Inl (exn_of ConvertError (ident_error_msg e)) | Inr x \<Rightarrow> Inr x)"

definition instrument_id_raw :: "string \<Rightarrow> string option \<Rightarrow> string res" where
  "instrument_id_raw symbol exchange = convert_res (rs_instrument_id symbol exchange VENUE)"

definition instrument_id_from_symbol :: "string \<Rightarrow> pyval \<Rightarrow> string res" where
  "instrument_id_from_symbol symbol exchange =
     instrument_id_raw symbol (if exchange = PNone then None else Some (py_str exchange))"

definition split_instrument_id_raw :: "string \<Rightarrow> (string \<times> string option) res" where
  "split_instrument_id_raw iid = convert_res (rs_split_instrument_id iid VENUE)"

definition symbol_and_exchange_from_instrument_id :: "string \<Rightarrow> (string \<times> string option) res" where
  "symbol_and_exchange_from_instrument_id iid = split_instrument_id_raw iid"

definition opt_int :: "pyval \<Rightarrow> int option res" where
  "opt_int v = (if v = PNone then Inr None else bindR (py_int v) (\<lambda>i. Inr (Some i)))"

definition ts_ns :: "pydict \<Rightarrow> int option res" where
  "ts_ns d =
     (let ts = dget d ''ts_event_ns''
      in if ts \<noteq> PNone then bindR (py_int ts) (\<lambda>i. Inr (Some i))
         else bindR (opt_int (dget d ''ssboe'')) (\<lambda>ssboe.
              bindR (py_int (py_or (dget d ''usecs'') (PInt 0))) (\<lambda>usecs.
                Inr (event_ts_ns None ssboe (Some usecs)))))"

section \<open>Encoding and parsing\<close>

lemma upper_char_idem [simp]: "upper_char (upper_char c) = upper_char c"
  by (auto simp: upper_char_def Let_def)

lemma str_upper_idem [simp]: "str_upper (str_upper s) = str_upper s"
  by (simp add: str_upper_def)

lemma str_upper_Nil [simp]: "str_upper s = [] \<longleftrightarrow> s = []"
  by (simp add: str_upper_def)

lemma dropWhile_strip_with: "dropWhile p (strip_with p s) = strip_with p s"
proof (rule ccontr)
  let ?t = "strip_with p s"
  assume ne: "dropWhile p ?t \<noteq> ?t"
  obtain zs where zs: "?t = zs @ dropWhile p ?t" using suffix_dropWhile [of p ?t] by (auto simp: suffix_def)
  with ne have "zs \<noteq> []" by auto
  then have "length (dropWhile p ?t) < length ?t" by (subst (2) zs) simp
  moreover have "length (strip_with p ?t) \<le> length (dropWhile p ?t)"
    by (simp add: strip_with_def length_dropWhile_le order_trans [OF length_dropWhile_le])
  ultimately show False by simp
qed

lemma strip_with_hd: "strip_with p s \<noteq> [] \<Longrightarrow> \<not> p (hd (strip_with p s))"
  using dropWhile_strip_with [of p s] by (simp add: dropWhile_eq_self_iff)

lemma strip_with_last: "strip_with p s \<noteq> [] \<Longrightarrow> \<not> p (last (strip_with p s))"
  by (metis hd_dropWhile hd_rev rev_is_Nil_conv rev_rev_ident set_rev strip_with_def dropWhile_eq_Nil_conv)

lemma strip_with_id: "s \<noteq> [] \<Longrightarrow> \<not> p (hd s) \<Longrightarrow> \<not> p (last s) \<Longrightarrow> strip_with p s = s"
  by (metis dropWhile_eq_self_iff hd_rev rev_rev_ident strip_with_def)

lemma strip_suffix_append [simp]: "strip_suffix suf (s @ suf) = Some s"
  by (simp add: strip_suffix_def)

lemma rs_trim_encoded:
  assumes "s = rs_trim s" "s \<noteq> []"
  shows "rs_trim (s @ t @ ''RITHMIC'') = s @ t @ ''RITHMIC''"
proof (rule strip_with_id)
  have "\<not> rs_space (hd s)" using strip_with_hd [of rs_space s] assms by simp
  then show "\<not> rs_space (hd (s @ t @ ''RITHMIC''))" using assms(2) by simp
qed (simp_all add: rs_space_def)

definition exchange_part :: "pyval \<Rightarrow> string option" where
  "exchange_part exchange =
     map_option str_upper (nonempty_trim (if exchange = PNone then None else Some (py_str exchange)))"

lemma instrument_id_ok_iff:
  "instrument_id_from_symbol symbol exchange = Inr iid \<longleftrightarrow>
     rs_trim symbol \<noteq> [] \<and> CHR ''-'' \<notin> set (rs_trim symbol) \<and> CHR ''.'' \<notin> set (rs_trim symbol)
     \<and> (case exchange_part exchange of
          None \<Rightarrow> iid = rs_trim symbol @ ''.RITHMIC''
        | Some ex \<Rightarrow> CHR ''-'' \<notin> set ex \<and> CHR ''.'' \<notin> set ex \<and> iid = rs_trim symbol @ ''-'' @ ex @ ''.RITHMIC'')"
  by (auto simp: instrument_id_from_symbol_def instrument_id_raw_def rs_instrument_id_def convert_res_def
      require_safe_def exchange_part_def VENUE_def split: option.splits sum.splits if_splits)

lemma exchange_part_props: "exchange_part exchange = Some ex \<Longrightarrow> ex \<noteq> [] \<and> str_upper ex = ex"
  by (auto simp: exchange_part_def nonempty_trim_def split: option.splits if_splits)

lemma instrument_id_splits:
  assumes "instrument_id_from_symbol symbol exchange = Inr iid"
  shows "symbol_and_exchange_from_instrument_id iid = Inr (rs_trim symbol, exchange_part exchange)"
proof -
  let ?s = "rs_trim symbol"
  have s: "?s \<noteq> []" "CHR ''-'' \<notin> set ?s" "CHR ''.'' \<notin> set ?s"
    using assms by (simp_all add: instrument_id_ok_iff)
  show ?thesis
  proof (cases "exchange_part exchange")
    case None
    with assms have iid: "iid = ?s @ ''.RITHMIC''" by (simp add: instrument_id_ok_iff)
    have "rs_trim iid = iid" using rs_trim_encoded [of ?s "''.''"] s(1) by (simp add: iid)
    moreover have "strip_suffix (''.'' @ VENUE) iid = Some ?s" by (simp add: iid VENUE_def)
    ultimately show ?thesis
      using s None by (simp add: symbol_and_exchange_from_instrument_id_def split_instrument_id_raw_def
          rs_split_instrument_id_def convert_res_def require_safe_def)
  next
    case (Some ex)
    with assms have ex: "CHR ''-'' \<notin> set ex" "CHR ''.'' \<notin> set ex" "ex \<noteq> []" "str_upper ex = ex"
      and iid: "iid = (?s @ ''-'' @ ex) @ ''.RITHMIC''"
      using exchange_part_props by (auto simp: instrument_id_ok_iff)
    have trim: "rs_trim iid = iid" using rs_trim_encoded [of ?s "''-'' @ ex @ ''.''"] s(1) by (simp add: iid)
    have suf: "strip_suffix (CHR ''.'' # VENUE) iid = Some (?s @ ''-'' @ ex)"
      using strip_suffix_append [of "''.RITHMIC''" "?s @ ''-'' @ ex"] by (simp add: iid VENUE_def)
    have "takeWhile (\<lambda>c. c \<noteq> CHR ''-'') (?s @ ''-'' @ ex) = ?s"
      "tl (dropWhile (\<lambda>c. c \<noteq> CHR ''-'') (?s @ ''-'' @ ex)) = ex"
      using s(2) by (auto simp: takeWhile_append dropWhile_append)
    then show ?thesis
      using s ex Some by (simp add: symbol_and_exchange_from_instrument_id_def split_instrument_id_raw_def
          rs_split_instrument_id_def convert_res_def require_safe_def trim suf Let_def)
  qed
qed

text \<open>
  Round trip of the instrument id: whenever an id can be built from a symbol and an exchange, the
  parser accepts it and returns exactly the trimmed symbol and the trimmed, upper-cased exchange (no
  exchange when it was absent or blank).
\<close>

theorem instrument_id_roundtrip:
  assumes "instrument_id_from_symbol symbol exchange = Inr iid"
  shows "symbol_and_exchange_from_instrument_id iid = Inr (rs_trim symbol, exchange_part exchange)"
  using assms by (rule instrument_id_splits)

end
