(* ===== verification/Exposure.thy ===== *)
theory Exposure
  imports PyValue
begin

text \<open>
  Venue exposure for a product root: the rules of \<open>crates/rithmic-exec/src/exposure.rs\<close> (which contract
  symbols belong to a root, the signed net, when a snapshot is proof) and \<open>exposure.py\<close>, the snapshot
  the execution client publishes. Unknown is never zero: \<open>net\<close> and \<open>open_orders\<close> are options and
  \<open>complete\<close> is the only proof.
\<close>

section \<open>The rules (exposure.rs)\<close>

definition PNL_SETTLE_NS :: int where "PNL_SETTLE_NS = 3000000000"

definition MONTH_CODES :: string where "MONTH_CODES = ''FGHJKMNQUVXZ''"

definition is_root_char :: "char \<Rightarrow> bool" where
  "is_root_char c \<longleftrightarrow> (let n = (of_char c :: nat) in 65 \<le> n \<and> n \<le> 90) \<or> is_digit_char c"

definition product_root :: "string \<Rightarrow> string" where
  "product_root symbol =
     (let s = str_upper (rs_trim symbol);
          digits = length (takeWhile is_digit_char (rev s));
          letter_at = length s - digits - 1
      in if 1 \<le> digits \<and> digits \<le> 2 \<and> digits + 2 \<le> length s
            \<and> s ! letter_at \<in> set MONTH_CODES \<and> (\<forall>c \<in> set (take letter_at s). is_root_char c)
         then take letter_at s else s)"

definition matches_root :: "string \<Rightarrow> string \<Rightarrow> bool" where
  "matches_root symbol rt =
     (let want = str_upper (rs_trim rt) in want \<noteq> [] \<and> product_root symbol = want)"

text \<open>\<open>i64\<close> addition wraps in a release build; the rows' own quantities are \<open>i64\<close>.\<close>

definition wrap_i64 :: "int \<Rightarrow> int" where
  "wrap_i64 i = (i + 2 ^ 63) mod 2 ^ 64 - 2 ^ 63"

definition row_signed :: "string \<times> int \<times> string \<Rightarrow> int" where
  "row_signed r = (case r of (_, quantity, side) \<Rightarrow>
     if side = ''LONG'' then quantity else if side = ''SHORT'' then wrap_i64 (- quantity) else 0)"

definition rs_signed_net :: "(string \<times> int \<times> string) list \<Rightarrow> string \<Rightarrow> int" where
  "rs_signed_net rows rt =
     foldl (\<lambda>acc q. wrap_i64 (acc + q)) 0 (map row_signed (filter (\<lambda>(s, _, _). matches_root s rt) rows))"

definition rs_exposure_complete :: "int option \<Rightarrow> int option \<Rightarrow> int option \<Rightarrow> int option \<Rightarrow> bool" where
  "rs_exposure_complete net open_orders pnl_ts drain_ts =
     (case (net, open_orders, pnl_ts, drain_ts) of
        (Some _, Some _, Some pnl, Some drain) \<Rightarrow> wrap_i64 (drain - pnl) \<ge> PNL_SETTLE_NS
      | _ \<Rightarrow> False)"

section \<open>The snapshot (exposure.py)\<close>

definition exposure_topic :: "string \<Rightarrow> string" where
  "exposure_topic rt = ''rithmic.exposure.'' @ str_upper (str_strip rt)"

record exposure_snapshot =
  ex_root :: string
  ex_net :: "int option"
  ex_open_orders :: "int option"
  ex_pnl_ts_ns :: "int option"
  ex_drain_ts_ns :: "int option"
  ex_ts_init :: int
  ex_reply :: bool

definition exposure_complete :: "exposure_snapshot \<Rightarrow> bool" where
  "exposure_complete e =
     rs_exposure_complete (ex_net e) (ex_open_orders e) (ex_pnl_ts_ns e) (ex_drain_ts_ns e)"

text \<open>A position row of the PnL stream, as \<open>instrument_pnl_to_fields\<close> normalises it.\<close>

record position_fields =
  pf_account_id :: pyval
  pf_instrument_id :: string
  pf_symbol :: string
  pf_exchange :: pyval
  pf_position_side :: string
  pf_quantity :: int
  pf_avg_px_open :: pyval
  pf_open_position_pnl :: pyval
  pf_closed_position_pnl :: pyval
  pf_is_snapshot :: pyval

fun i64_rows :: "(string \<times> int \<times> string) list \<Rightarrow> (string \<times> int \<times> string) list res" where
  "i64_rows [] = Inr []"
| "i64_rows ((s, q, side) # rows) =
     bindR (to_i64 q) (\<lambda>q'. bindR (i64_rows rows) (\<lambda>rest. Inr ((s, q', side) # rest)))"

definition signed_net :: "position_fields list \<Rightarrow> string \<Rightarrow> int res" where
  "signed_net positions rt =
     bindR (i64_rows (map (\<lambda>f. (pf_symbol f, pf_quantity f,
              if pf_position_side f = [] then ''FLAT'' else pf_position_side f)) positions))
       (\<lambda>rows. Inr (rs_signed_net rows rt))"

section \<open>Facts\<close>

lemma wrap_i64_id: "- (2 ^ 63) \<le> i \<Longrightarrow> i < 2 ^ 63 \<Longrightarrow> wrap_i64 i = i"
  by (simp add: wrap_i64_def)

lemma wrap_i64_add: "wrap_i64 (wrap_i64 a + b) = wrap_i64 (a + b)"
proof -
  have "(wrap_i64 a + b + 2 ^ 63) mod 2 ^ 64 = ((a + 2 ^ 63) mod 2 ^ 64 + b) mod 2 ^ 64"
    by (simp add: wrap_i64_def algebra_simps)
  also have "\<dots> = (a + b + 2 ^ 63) mod 2 ^ 64" by (simp add: mod_simps algebra_simps)
  finally show ?thesis by (simp add: wrap_i64_def)
qed

lemma foldl_wrap: "foldl (\<lambda>acc q. wrap_i64 (acc + q)) (wrap_i64 a) qs = wrap_i64 (a + sum_list qs)"
proof (induction qs arbitrary: a)
  case (Cons q qs)
  have "foldl (\<lambda>acc q. wrap_i64 (acc + q)) (wrap_i64 a) (q # qs)
      = foldl (\<lambda>acc q. wrap_i64 (acc + q)) (wrap_i64 (a + q)) qs"
    by (simp add: wrap_i64_add)
  also have "\<dots> = wrap_i64 (a + q + sum_list qs)" by (rule Cons.IH)
  finally show ?case by (simp add: add.assoc)
qed simp

lemma product_root_bare: "product_root symbol = str_upper (rs_trim symbol)
    \<or> (\<exists>m ds. str_upper (rs_trim symbol) = product_root symbol @ m # ds \<and> m \<in> set MONTH_CODES
         \<and> length ds \<in> {1, 2} \<and> (\<forall>c \<in> set ds. is_digit_char c))"
proof -
  let ?s = "str_upper (rs_trim symbol)"
  let ?d = "length (takeWhile is_digit_char (rev ?s))"
  let ?i = "length ?s - ?d - 1"
  show ?thesis
  proof (cases "1 \<le> ?d \<and> ?d \<le> 2 \<and> ?d + 2 \<le> length ?s \<and> ?s ! ?i \<in> set MONTH_CODES
      \<and> (\<forall>c \<in> set (take ?i ?s). is_root_char c)")
    case True
    then have pr: "product_root symbol = take ?i ?s"
      unfolding product_root_def Let_def by (rule if_P)
    from True have "?i < length ?s" by linarith
    then have "?s = take ?i ?s @ ?s ! ?i # drop (Suc ?i) ?s" by (rule id_take_nth_drop)
    moreover have "length (drop (Suc ?i) ?s) = ?d" using True by simp
    moreover have "drop (Suc ?i) ?s = rev (takeWhile is_digit_char (rev ?s))"
    proof -
      have "rev (takeWhile is_digit_char (rev ?s)) = drop (length ?s - ?d) ?s"
        by (metis length_rev rev_rev_ident rev_take takeWhile_eq_take)
      moreover have "Suc ?i = length ?s - ?d" using True by linarith
      ultimately show ?thesis by simp
    qed
    ultimately have "?s = product_root symbol @ ?s ! ?i # rev (takeWhile is_digit_char (rev ?s))"
      "length (rev (takeWhile is_digit_char (rev ?s))) \<in> {1, 2}" "?s ! ?i \<in> set MONTH_CODES"
      using True by (auto simp: pr)
    moreover have "\<forall>c \<in> set (rev (takeWhile is_digit_char (rev ?s))). is_digit_char c"
      by (auto dest: set_takeWhileD)
    ultimately show ?thesis by blast
  next
    case False
    then have "product_root symbol = ?s"
      unfolding product_root_def Let_def by (rule if_not_P)
    then show ?thesis by blast
  qed
qed


lemma i64_rows_ok:
  assumes "\<forall>r \<in> set rows. \<bar>fst (snd r)\<bar> < 2 ^ 63"
  shows "i64_rows rows = Inr rows"
  using assms by (induction rows rule: i64_rows.induct) (auto simp: to_i64_def)

lemma row_signed_small:
  assumes "\<bar>q\<bar> < 2 ^ 63"
  shows "row_signed (s, q, side) = (if side = ''LONG'' then q else if side = ''SHORT'' then - q else 0)"
  using assms by (auto simp: row_signed_def intro!: wrap_i64_id)

definition position_signed :: "position_fields \<Rightarrow> int" where
  "position_signed f = (if pf_position_side f = ''LONG'' then pf_quantity f
     else if pf_position_side f = ''SHORT'' then - pf_quantity f else 0)"

lemma rs_signed_net_small:
  assumes "\<forall>f \<in> set positions. \<bar>pf_quantity f\<bar> < 2 ^ 63"
  shows "rs_signed_net (map (\<lambda>f. (pf_symbol f, pf_quantity f,
              if pf_position_side f = [] then ''FLAT'' else pf_position_side f)) positions) rt
       = wrap_i64 (\<Sum>f\<leftarrow>filter (\<lambda>f. matches_root (pf_symbol f) rt) positions. position_signed f)"
    (is "rs_signed_net (map ?g positions) rt = _")
proof -
  have "map row_signed (filter (\<lambda>(s, _, _). matches_root s rt) (map ?g positions))
      = map position_signed (filter (\<lambda>f. matches_root (pf_symbol f) rt) positions)"
    using assms by (induction positions) (auto simp: row_signed_small position_signed_def)
  then show ?thesis
    using foldl_wrap [of 0 "map position_signed (filter (\<lambda>f. matches_root (pf_symbol f) rt) positions)"]
    by (simp only: rs_signed_net_def) (simp add: wrap_i64_id)
qed

lemma sum_list_abs_bound:
  fixes f :: "'a \<Rightarrow> int"
  assumes "\<forall>x \<in> set xs. \<bar>f x\<bar> \<le> b"
  shows "\<bar>\<Sum>x\<leftarrow>xs. f x\<bar> \<le> b * int (length xs)"
  using assms by (induction xs) (auto simp: algebra_simps)

lemma matching_sum_bound:
  assumes "\<forall>f \<in> set positions. \<bar>pf_quantity f\<bar> \<le> 2 ^ 31" "length positions < 2 ^ 31"
  shows "\<bar>\<Sum>f\<leftarrow>filter (\<lambda>f. matches_root (pf_symbol f) rt) positions. position_signed f\<bar> < 2 ^ 63"
proof -
  let ?fs = "filter (\<lambda>f. matches_root (pf_symbol f) rt) positions"
  have "\<bar>\<Sum>f\<leftarrow>?fs. position_signed f\<bar> \<le> 2 ^ 31 * int (length ?fs)"
    using assms(1) by (intro sum_list_abs_bound) (auto simp: position_signed_def)
  also have "\<dots> \<le> 2 ^ 31 * int (length positions)"
    by (simp add: length_filter_le)
  also have "\<dots> < 2 ^ 63" using assms(2) by simp
  finally show ?thesis .
qed

section \<open>Properties\<close>

text \<open>
  The exposure net is the exact sum of the signed quantities of the position rows whose contract
  root is the requested root: with venue-sized quantities the 64-bit sum never wraps and no row is
  refused, rows of other roots (longer roots with the same prefix included) contribute nothing, and
  rows of the root are never dropped.
\<close>

theorem signed_net_exact:
  assumes "\<forall>f \<in> set positions. \<bar>pf_quantity f\<bar> \<le> 2 ^ 31" "length positions < 2 ^ 31"
  shows "signed_net positions rt
       = Inr (\<Sum>f\<leftarrow>positions. if str_upper (rs_trim rt) \<noteq> [] \<and> product_root (pf_symbol f) = str_upper (rs_trim rt)
                             then position_signed f else 0)"
proof -
  let ?g = "\<lambda>f. (pf_symbol f, pf_quantity f, if pf_position_side f = [] then ''FLAT'' else pf_position_side f)"
  have small: "\<forall>f \<in> set positions. \<bar>pf_quantity f\<bar> < 2 ^ 63" using assms(1) by fastforce
  then have "i64_rows (map ?g positions) = Inr (map ?g positions)"
    by (intro i64_rows_ok) auto
  then have "signed_net positions rt
      = Inr (wrap_i64 (\<Sum>f\<leftarrow>filter (\<lambda>f. matches_root (pf_symbol f) rt) positions. position_signed f))"
    by (simp add: signed_net_def rs_signed_net_small [OF small])
  also have "\<dots> = Inr (\<Sum>f\<leftarrow>filter (\<lambda>f. matches_root (pf_symbol f) rt) positions. position_signed f)"
    using matching_sum_bound [OF assms, of rt] by (auto simp: abs_less_iff intro!: wrap_i64_id)
  finally show ?thesis
    by (simp add: sum_list_map_filter_if matches_root_def Let_def)
qed

definition position_of :: "string \<Rightarrow> string \<Rightarrow> int \<Rightarrow> position_fields" where
  "position_of symb side q = \<lparr>pf_account_id = PNone, pf_instrument_id = [], pf_symbol = symb,
     pf_exchange = PNone, pf_position_side = side, pf_quantity = q, pf_avg_px_open = PNone,
     pf_open_position_pnl = PNone, pf_closed_position_pnl = PNone, pf_is_snapshot = PNone\<rparr>"

end
