(* ===== verification/Convert.thy ===== *)
theory Convert
  imports Ident Exposure
begin

text \<open>
  \<open>_convert.py\<close>: venue dictionaries to validated field records (trades, quotes, account and instrument
  PnL, order books, history bars), with the \<open>book.rs\<close> rule for the venue's \<open>update_type\<close>. Every raise of
  the source is a branch: \<open>ConvertError\<close> for a missing field, the conversion errors of \<open>int()\<close> and
  \<open>float()\<close> otherwise. \<open>bbo_to_fields\<close> merges into the caller's accumulator, which keeps what was merged
  before a raise.
\<close>

section \<open>Shared helpers\<close>

definition is_missing :: "pydict \<Rightarrow> string \<Rightarrow> bool" where
  "is_missing d k \<longleftrightarrow> dget d k = PNone"

definition require_fields :: "pydict \<Rightarrow> string list \<Rightarrow> unit res" where
  "require_fields d ks =
     (let missing = filter (is_missing d) ks
      in if missing = [] then Inr ()
         else Inl (exn_of ConvertError (''missing required fields: '' @ join_with '', '' missing)))"

definition format_price_text :: "pyfloat \<Rightarrow> string" where
  "format_price_text f =
     (let t = strip_zeros (float_fixed 8 f);
          text = rev (dropWhile (\<lambda>c. c = CHR ''.'') (rev t))
      in if CHR ''.'' \<in> set text then text else text @ ''.0'')"

definition format_price_str :: "pyval \<Rightarrow> string res" where
  "format_price_str v = bindR (py_float v) (\<lambda>f. Inr (format_price_text f))"

text \<open>\<open>info\<close> is the instrument's info dictionary; the label is the caller's \<open>instrument_id\<close>.\<close>

definition rithmic_route_from_info :: "pydict \<Rightarrow> string option \<Rightarrow> (string \<times> string) res" where
  "rithmic_route_from_info info instrument_id =
     (let symbol = dget info ''rithmic_symbol''; exchange = dget info ''rithmic_exchange''
      in if \<not> truthy symbol \<or> \<not> truthy exchange then
           Inl (exn_of ValueError (''instrument '' @ (case instrument_id of Some l \<Rightarrow> l | None \<Rightarrow> ''instrument'')
             @ '' missing rithmic_symbol/rithmic_exchange in info''))
         else Inr (py_str symbol, py_str exchange))"

definition missing_ts :: exn where
  "missing_ts = exn_of ConvertError ''missing timestamp fields: ts_event_ns or ssboe''"

section \<open>Trades\<close>

record trade_fields =
  tf_instrument_id :: string
  tf_symbol :: string
  tf_exchange :: pyval
  tf_price :: pyfloat
  tf_size :: pyfloat
  tf_aggressor :: pyval
  tf_ts_event :: int

definition last_trade_to_fields :: "pydict \<Rightarrow> trade_fields res" where
  "last_trade_to_fields d =
     bindR (require_fields d [''symbol'', ''trade_price'', ''trade_size'']) (\<lambda>_.
     (let symbol = py_str (dget d ''symbol''); exchange = dget d ''exchange''
      in bindR (ts_ns d) (\<lambda>ts. case ts of None \<Rightarrow> Inl missing_ts | Some t \<Rightarrow>
         bindR (instrument_id_from_symbol symbol exchange) (\<lambda>iid.
         bindR (py_float (dget d ''trade_price'')) (\<lambda>px.
         bindR (py_float (dget d ''trade_size'')) (\<lambda>sz.
           Inr \<lparr>tf_instrument_id = iid, tf_symbol = symbol, tf_exchange = exchange, tf_price = px,
                tf_size = sz, tf_aggressor = dget d ''aggressor'', tf_ts_event = t\<rparr>))))))"

section \<open>Quotes\<close>

text \<open>The caller's per-symbol accumulator (a dictionary with these keys in the source).\<close>

record bbo_state =
  bb_symbol :: "string option"
  bb_exchange :: pyval
  bb_ts_event :: "int option"
  bb_bid_price :: "pyfloat option"
  bb_bid_size :: "pyfloat option"
  bb_ask_price :: "pyfloat option"
  bb_ask_size :: "pyfloat option"

definition bbo_empty :: bbo_state where
  "bbo_empty = \<lparr>bb_symbol = None, bb_exchange = PNone, bb_ts_event = None, bb_bid_price = None,
     bb_bid_size = None, bb_ask_price = None, bb_ask_size = None\<rparr>"

record quote_fields =
  qf_instrument_id :: string
  qf_symbol :: string
  qf_exchange :: pyval
  qf_bid_price :: pyfloat
  qf_ask_price :: pyfloat
  qf_bid_size :: pyfloat
  qf_ask_size :: pyfloat
  qf_ts_event :: int

text \<open>\<open>float(size or 0) < 1\<close>: false for NaN, as the comparison is in Python.\<close>

definition below_one :: "pyfloat option \<Rightarrow> bool" where
  "below_one s = (case s of None \<Rightarrow> True | Some (Fin x) \<Rightarrow> x < 1 | Some NInf \<Rightarrow> True | Some _ \<Rightarrow> False)"

definition merge_bid :: "pydict \<Rightarrow> (bbo_state, exn, unit) em" where
  "merge_bid d =
     (if dget d ''bid_price'' = PNone then returnE ()
      else bindE (liftE (py_float (dget d ''bid_price''))) (\<lambda>px.
           thenE (modifyE (bb_bid_price_update (\<lambda>_. Some px)))
           (bindE (liftE (py_float (py_or (dget d ''bid_size'') (PInt 0)))) (\<lambda>sz.
              modifyE (bb_bid_size_update (\<lambda>_. Some sz))))))"

definition merge_ask :: "pydict \<Rightarrow> (bbo_state, exn, unit) em" where
  "merge_ask d =
     (if dget d ''ask_price'' = PNone then returnE ()
      else bindE (liftE (py_float (dget d ''ask_price''))) (\<lambda>px.
           thenE (modifyE (bb_ask_price_update (\<lambda>_. Some px)))
           (bindE (liftE (py_float (py_or (dget d ''ask_size'') (PInt 0)))) (\<lambda>sz.
              modifyE (bb_ask_size_update (\<lambda>_. Some sz))))))"

definition merge_head :: "pydict \<Rightarrow> (bbo_state, exn, unit) em" where
  "merge_head d =
     thenE (liftE (require_fields d [''symbol'']))
     (thenE (modifyE (bb_symbol_update (\<lambda>_. Some (py_str (dget d ''symbol'')))))
     (thenE (if dget d ''exchange'' = PNone then returnE ()
             else modifyE (bb_exchange_update (\<lambda>_. dget d ''exchange'')))
     (bindE (liftE (ts_ns d)) (\<lambda>ts.
        case ts of None \<Rightarrow> returnE () | Some t \<Rightarrow> modifyE (bb_ts_event_update (\<lambda>_. Some t))))))"

definition quote_of_state :: "bbo_state \<Rightarrow> quote_fields option res" where
  "quote_of_state st =
     (case (bb_bid_price st, bb_ask_price st, bb_ts_event st) of
        (Some bid, Some ask, Some ts) \<Rightarrow>
          if below_one (bb_bid_size st) \<or> below_one (bb_ask_size st) then Inr None
          else (case (bb_symbol st, bb_bid_size st, bb_ask_size st) of
                  (Some symbol, Some bsz, Some asz) \<Rightarrow>
                    bindR (instrument_id_from_symbol symbol (bb_exchange st)) (\<lambda>iid.
                      Inr (Some \<lparr>qf_instrument_id = iid, qf_symbol = symbol, qf_exchange = bb_exchange st,
                        qf_bid_price = bid, qf_ask_price = ask, qf_bid_size = bsz, qf_ask_size = asz,
                        qf_ts_event = ts\<rparr>))
                | _ \<Rightarrow> Inl (exn_of KeyError ''symbol''))
      | _ \<Rightarrow> Inr None)"

definition bbo_to_fields :: "pydict \<Rightarrow> (bbo_state, exn, quote_fields option) em" where
  "bbo_to_fields d =
     thenE (merge_head d) (thenE (merge_bid d) (thenE (merge_ask d)
       (bindE (getE quote_of_state) liftE)))"

section \<open>Account PnL\<close>

definition DEFAULT_ACCOUNT_CURRENCY :: string where "DEFAULT_ACCOUNT_CURRENCY = ''USD''"

record account_pnl_fields =
  ap_account_id :: string
  ap_fcm_id :: pyval
  ap_ib_id :: pyval
  ap_account_balance :: pyval
  ap_cash_on_hand :: pyval
  ap_margin_balance :: pyval
  ap_day_pnl :: pyval
  ap_open_position_pnl :: pyval
  ap_closed_position_pnl :: pyval
  ap_available_buying_power :: pyval
  ap_used_buying_power :: pyval
  ap_currency :: pyval
  ap_is_snapshot :: pyval

definition account_pnl_to_fields :: "pydict \<Rightarrow> account_pnl_fields res" where
  "account_pnl_to_fields d =
     bindR (require_fields d [''account_id'']) (\<lambda>_.
     (let cash = dget d ''cash_on_hand''; balance = dget d ''account_balance'';
          none = (cash = PNone \<and> balance = PNone)
      in Inr \<lparr>ap_account_id = py_str (dget d ''account_id''), ap_fcm_id = dget d ''fcm_id'',
          ap_ib_id = dget d ''ib_id'', ap_account_balance = (if none then PStr ''0'' else balance),
          ap_cash_on_hand = (if none then PStr ''0'' else cash),
          ap_margin_balance = dget d ''margin_balance'', ap_day_pnl = dget d ''day_pnl'',
          ap_open_position_pnl = dget d ''open_position_pnl'',
          ap_closed_position_pnl = dget d ''closed_position_pnl'',
          ap_available_buying_power = dget d ''available_buying_power'',
          ap_used_buying_power = dget d ''used_buying_power'',
          ap_currency = py_or (dget d ''currency'') (PStr DEFAULT_ACCOUNT_CURRENCY),
          ap_is_snapshot = dget d ''is_snapshot''\<rparr>))"

section \<open>Order books\<close>

datatype book_update = BkClear | BkNoBook | BkSnapshot | BkBegin | BkMiddle | BkEnd | BkSolo

definition book_update_from_wire :: "int \<Rightarrow> book_update option" where
  "book_update_from_wire v =
     (if v = 1 then Some BkClear else if v = 2 then Some BkNoBook else if v = 3 then Some BkSnapshot
      else if v = 4 then Some BkBegin else if v = 5 then Some BkMiddle else if v = 6 then Some BkEnd
      else if v = 7 then Some BkSolo else None)"

fun book_update_str :: "book_update \<Rightarrow> string" where
  "book_update_str BkClear = ''clear''"
| "book_update_str BkNoBook = ''no_book''"
| "book_update_str BkSnapshot = ''snapshot''"
| "book_update_str BkBegin = ''begin''"
| "book_update_str BkMiddle = ''middle''"
| "book_update_str BkEnd = ''end''"
| "book_update_str BkSolo = ''solo''"

definition book_update_kind :: "int \<Rightarrow> string option" where
  "book_update_kind v = map_option book_update_str (book_update_from_wire v)"

definition to_i32 :: "int \<Rightarrow> int res" where
  "to_i32 i = (if - (2 ^ 31) \<le> i \<and> i < 2 ^ 31 then Inr i
     else Inl (exn_of OverflowError ''out of range integral type conversion attempted''))"

record book_level =
  bl_side :: string
  bl_price :: pyfloat
  bl_size :: pyfloat
  bl_order_id :: int

record order_book_fields =
  ob_instrument_id :: string
  ob_symbol :: string
  ob_exchange :: pyval
  ob_update_type :: pyval
  ob_update_kind :: string
  ob_levels :: "book_level list"
  ob_ts_event :: int

text \<open>\<open>list(v if v is not None else [])\<close>.\<close>

definition list_or_empty :: "pyval \<Rightarrow> pyval list res" where
  "list_or_empty v = (case v of PNone \<Rightarrow> Inr [] | PList l \<Rightarrow> Inr l | PStr s \<Rightarrow> Inr (map (\<lambda>c. PStr [c]) s)
     | _ \<Rightarrow> Inl (exn_of TypeError ''object is not iterable''))"

definition same_length :: "string \<Rightarrow> pyval list \<Rightarrow> pyval list \<Rightarrow> unit res" where
  "same_length side ps ss =
     (if length ps \<noteq> length ss then
        Inl (exn_of ConvertError (side @ ''_price/'' @ side @ ''_size length mismatch: ''
          @ int_str (int (length ps)) @ '' vs '' @ int_str (int (length ss))))
      else Inr ())"

text \<open>One side's levels, \<open>i\<close> the index of the head, \<open>off\<close> the side's \<open>order_id\<close> offset.\<close>

fun side_levels :: "string \<Rightarrow> string \<Rightarrow> int \<Rightarrow> int \<Rightarrow> (pyval \<times> pyval) list \<Rightarrow> book_level list res" where
  "side_levels name side off i [] = Inr []"
| "side_levels name side off i ((price, siz) # rest) =
     (if price = PNone \<or> siz = PNone then
        Inl (exn_of ConvertError (name @ '' level '' @ int_str i @ '' has null price/size''))
      else bindR (py_float price) (\<lambda>px. bindR (py_float siz) (\<lambda>sz.
           bindR (side_levels name side off (i + 1) rest) (\<lambda>ls.
             Inr (\<lparr>bl_side = side, bl_price = px, bl_size = sz, bl_order_id = off + i + 1\<rparr> # ls)))))"

definition update_kind_of :: "pyval \<Rightarrow> string res" where
  "update_kind_of update_type =
     (if update_type = PNone then Inr ''snapshot''
      else bindR (py_int update_type) (\<lambda>u. bindR (to_i32 u) (\<lambda>v.
           case book_update_kind v of
             None \<Rightarrow> Inl (exn_of ConvertError (''unknown order book update_type: '' @ py_str update_type))
           | Some k \<Rightarrow> Inr k)))"

definition order_book_to_fields :: "pydict \<Rightarrow> int option \<Rightarrow> order_book_fields res" where
  "order_book_to_fields d ts_init =
     bindR (require_fields d [''symbol'']) (\<lambda>_.
     (let symbol = py_str (dget d ''symbol''); exchange = dget d ''exchange''
      in bindR (ts_ns d) (\<lambda>ts0.
         (case (case ts0 of None \<Rightarrow> ts_init | Some t \<Rightarrow> Some t) of
            None \<Rightarrow> Inl missing_ts
          | Some ts \<Rightarrow>
            (if map_of d ''bid_price'' = None \<or> map_of d ''ask_price'' = None then
               Inl (exn_of ConvertError ''missing required fields: bid_price, ask_price'')
             else
               bindR (list_or_empty (dget d ''bid_price'')) (\<lambda>bp.
               bindR (list_or_empty (dget d ''bid_size'')) (\<lambda>bs.
               bindR (list_or_empty (dget d ''ask_price'')) (\<lambda>ap.
               bindR (list_or_empty (dget d ''ask_size'')) (\<lambda>asz.
               bindR (same_length ''bid'' bp bs) (\<lambda>_.
               bindR (same_length ''ask'' ap asz) (\<lambda>_.
               bindR (side_levels ''bid'' ''BUY'' 0 0 (zip bp bs)) (\<lambda>bids.
               bindR (side_levels ''ask'' ''SELL'' 1000000 0 (zip ap asz)) (\<lambda>asks.
               bindR (update_kind_of (dget d ''update_type'')) (\<lambda>kind.
               bindR (instrument_id_from_symbol symbol exchange) (\<lambda>iid.
                 Inr \<lparr>ob_instrument_id = iid, ob_symbol = symbol, ob_exchange = exchange,
                      ob_update_type = dget d ''update_type'', ob_update_kind = kind,
                      ob_levels = bids @ asks, ob_ts_event = ts\<rparr>)))))))))))))))"

section \<open>Instrument PnL\<close>

definition instrument_pnl_to_fields :: "pydict \<Rightarrow> position_fields res" where
  "instrument_pnl_to_fields d =
     bindR (require_fields d [''symbol'', ''net_quantity'']) (\<lambda>_.
     (let symbol = py_str (dget d ''symbol''); exchange = dget d ''exchange''
      in bindR (py_int (dget d ''net_quantity'')) (\<lambda>net_i.
         (let (side, qty) = (if net_i > 0 then (''LONG'', net_i)
                             else if net_i < 0 then (''SHORT'', \<bar>net_i\<bar>) else (''FLAT'', 0))
          in bindR (instrument_id_from_symbol symbol exchange) (\<lambda>iid.
               Inr \<lparr>pf_account_id = dget d ''account_id'', pf_instrument_id = iid, pf_symbol = symbol,
                    pf_exchange = exchange, pf_position_side = side, pf_quantity = qty,
                    pf_avg_px_open = dget d ''avg_open_fill_price'',
                    pf_open_position_pnl = dget d ''open_position_pnl'',
                    pf_closed_position_pnl = dget d ''closed_position_pnl'',
                    pf_is_snapshot = dget d ''is_snapshot''\<rparr>)))))"

section \<open>History bars\<close>

record bar_fields =
  bf_instrument_id :: string
  bf_symbol :: string
  bf_exchange :: pyval
  bf_open :: pyfloat
  bf_high :: pyfloat
  bf_low :: pyfloat
  bf_close :: pyfloat
  bf_volume :: pyfloat
  bf_num_trades :: pyval
  bf_bar_type :: pyval
  bf_period :: pyval
  bf_marker :: pyval
  bf_ts_event :: int

definition negative_float :: "pyfloat \<Rightarrow> bool" where
  "negative_float f = (case f of Fin x \<Rightarrow> x < 0 | NInf \<Rightarrow> True | _ \<Rightarrow> False)"

definition bar_ts :: "pydict \<Rightarrow> int res" where
  "bar_ts d = bindR (ts_ns d) (\<lambda>ts. case ts of
      Some t \<Rightarrow> Inr t
    | None \<Rightarrow> if dget d ''marker'' \<noteq> PNone then bindR (py_int (dget d ''marker'')) (\<lambda>m. Inr (m * 1000000000))
              else Inl (exn_of ConvertError ''missing timestamp fields: ts_event_ns, ssboe, or marker''))"

definition time_bar_to_fields :: "pydict \<Rightarrow> bar_fields res" where
  "time_bar_to_fields d =
     bindR (require_fields d [''symbol'', ''open_price'', ''high_price'', ''low_price'', ''close_price'',
                              ''volume'']) (\<lambda>_.
     (let symbol = py_str (dget d ''symbol''); exchange = dget d ''exchange''
      in bindR (bar_ts d) (\<lambda>ts.
         bindR (py_float (dget d ''volume'')) (\<lambda>volume.
         (if negative_float volume then
            Inl (exn_of ConvertError (''bar volume must be >= 0, got '' @ float_repr volume))
          else
            bindR (instrument_id_from_symbol symbol exchange) (\<lambda>iid.
            bindR (py_float (dget d ''open_price'')) (\<lambda>op.
            bindR (py_float (dget d ''high_price'')) (\<lambda>hi.
            bindR (py_float (dget d ''low_price'')) (\<lambda>lo.
            bindR (py_float (dget d ''close_price'')) (\<lambda>cl.
              Inr \<lparr>bf_instrument_id = iid, bf_symbol = symbol, bf_exchange = exchange, bf_open = op,
                   bf_high = hi, bf_low = lo, bf_close = cl, bf_volume = volume,
                   bf_num_trades = dget d ''num_trades'', bf_bar_type = dget d ''bar_type'',
                   bf_period = dget d ''period'', bf_marker = dget d ''marker'',
                   bf_ts_event = ts\<rparr>)))))))))) "


section \<open>Quote merging over a message sequence\<close>

text \<open>The newest value a message sequence gives, and what one message says of each side.\<close>

definition latest :: "('d \<Rightarrow> 'v option) \<Rightarrow> 'd list \<Rightarrow> 'v option" where
  "latest f ds = foldl (\<lambda>v d. case f d of None \<Rightarrow> v | Some x \<Rightarrow> Some x) None ds"

lemma latest_snoc: "latest f (ds @ [d]) = (case f d of None \<Rightarrow> latest f ds | Some x \<Rightarrow> Some x)"
  by (simp add: latest_def split: option.split)

lemma latest_Nil [simp]: "latest f [] = None"
  by (simp add: latest_def)

definition side_of :: "string \<Rightarrow> string \<Rightarrow> pydict \<Rightarrow> (pyfloat \<times> pyfloat) option" where
  "side_of price_k size_k d =
     (case (dget d price_k, py_float (dget d price_k), py_float (py_or (dget d size_k) (PInt 0))) of
        (PNone, _, _) \<Rightarrow> None | (_, Inr px, Inr sz) \<Rightarrow> Some (px, sz) | _ \<Rightarrow> None)"

definition ts_of :: "pydict \<Rightarrow> int option" where
  "ts_of d = (case ts_ns d of Inr (Some t) \<Rightarrow> Some t | _ \<Rightarrow> None)"

definition exchange_of :: "pydict \<Rightarrow> pyval option" where
  "exchange_of d = (if dget d ''exchange'' = PNone then None else Some (dget d ''exchange''))"

definition readable_side :: "string \<Rightarrow> string \<Rightarrow> pydict \<Rightarrow> bool" where
  "readable_side price_k size_k d \<longleftrightarrow> dget d price_k = PNone \<or>
     (\<not> isl (py_float (dget d price_k)) \<and> \<not> isl (py_float (py_or (dget d size_k) (PInt 0))))"

definition bbo_readable :: "pydict \<Rightarrow> bool" where
  "bbo_readable d \<longleftrightarrow> dget d ''symbol'' \<noteq> PNone \<and> \<not> isl (ts_ns d)
     \<and> readable_side ''bid_price'' ''bid_size'' d \<and> readable_side ''ask_price'' ''ask_size'' d"

definition bbo_run :: "bbo_state \<Rightarrow> pydict list \<Rightarrow> bbo_state" where
  "bbo_run st ds = foldl (\<lambda>st d. snd (bbo_to_fields d st)) st ds"

text \<open>The accumulator a message sequence should leave.\<close>

definition bbo_spec_state :: "pydict list \<Rightarrow> bbo_state" where
  "bbo_spec_state ds =
     \<lparr>bb_symbol = latest (\<lambda>d. Some (py_str (dget d ''symbol''))) ds,
      bb_exchange = (case latest exchange_of ds of None \<Rightarrow> PNone | Some e \<Rightarrow> e),
      bb_ts_event = latest ts_of ds,
      bb_bid_price = map_option fst (latest (side_of ''bid_price'' ''bid_size'') ds),
      bb_bid_size = map_option snd (latest (side_of ''bid_price'' ''bid_size'') ds),
      bb_ask_price = map_option fst (latest (side_of ''ask_price'' ''ask_size'') ds),
      bb_ask_size = map_option snd (latest (side_of ''ask_price'' ''ask_size'') ds)\<rparr>"

lemma readable_side_cases:
  assumes "readable_side pk sk d"
  obtains "dget d pk = PNone" "side_of pk sk d = None"
  | px sz where "dget d pk \<noteq> PNone" "py_float (dget d pk) = Inr px"
      "py_float (py_or (dget d sk) (PInt 0)) = Inr sz" "side_of pk sk d = Some (px, sz)"
proof (cases "dget d pk = PNone")
  case True
  then show ?thesis using that(1) by (simp add: side_of_def)
next
  case False
  with assms obtain px sz where "py_float (dget d pk) = Inr px" "py_float (py_or (dget d sk) (PInt 0)) = Inr sz"
    by (auto simp: readable_side_def isl_def) (metis sum.exhaust)
  with False show ?thesis using that(2) by (cases "dget d pk") (simp_all add: side_of_def)
qed

lemma merge_bid_readable:
  assumes "readable_side ''bid_price'' ''bid_size'' d"
  shows "merge_bid d st = (Inr (), case side_of ''bid_price'' ''bid_size'' d of None \<Rightarrow> st
           | Some (px, sz) \<Rightarrow> st\<lparr>bb_bid_price := Some px, bb_bid_size := Some sz\<rparr>)"
  using assms by (cases rule: readable_side_cases) (simp_all add: merge_bid_def em_simps)

lemma merge_ask_readable:
  assumes "readable_side ''ask_price'' ''ask_size'' d"
  shows "merge_ask d st = (Inr (), case side_of ''ask_price'' ''ask_size'' d of None \<Rightarrow> st
           | Some (px, sz) \<Rightarrow> st\<lparr>bb_ask_price := Some px, bb_ask_size := Some sz\<rparr>)"
  using assms by (cases rule: readable_side_cases) (simp_all add: merge_ask_def em_simps)

lemma merge_head_readable:
  assumes "dget d ''symbol'' \<noteq> PNone" "ts_ns d = Inr ts"
  shows "merge_head d st = (Inr (), st\<lparr>bb_symbol := Some (py_str (dget d ''symbol'')),
           bb_exchange := (case exchange_of d of None \<Rightarrow> bb_exchange st | Some e \<Rightarrow> e),
           bb_ts_event := (case ts_of d of None \<Rightarrow> bb_ts_event st | Some t \<Rightarrow> Some t)\<rparr>)"
  using assms
  by (cases ts) (simp_all add: merge_head_def em_simps require_fields_def is_missing_def exchange_of_def ts_of_def)

lemma merge_readable:
  assumes "bbo_readable d"
  shows "bbo_to_fields d (bbo_spec_state ds)
       = (quote_of_state (bbo_spec_state (ds @ [d])), bbo_spec_state (ds @ [d]))"
proof -
  from assms obtain ts where *: "dget d ''symbol'' \<noteq> PNone" "ts_ns d = Inr ts"
    "readable_side ''bid_price'' ''bid_size'' d" "readable_side ''ask_price'' ''ask_size'' d"
    by (auto simp: bbo_readable_def isl_def) (metis sum.exhaust)
  have "bbo_to_fields d st = (quote_of_state st', st')"
    if "st' = snd (merge_ask d (snd (merge_bid d (snd (merge_head d st)))))" for st st'
    using that by (simp add: bbo_to_fields_def em_simps merge_head_readable [OF *(1,2)]
        merge_bid_readable [OF *(3)] merge_ask_readable [OF *(4)])
  moreover have "snd (merge_ask d (snd (merge_bid d (snd (merge_head d (bbo_spec_state ds))))))
      = bbo_spec_state (ds @ [d])"
    by (simp add: merge_head_readable [OF *(1,2)] merge_bid_readable [OF *(3)] merge_ask_readable [OF *(4)]
        bbo_spec_state_def latest_snoc split: option.splits)
  ultimately show ?thesis by simp
qed

lemma bbo_run_spec: "\<forall>d \<in> set ds. bbo_readable d \<Longrightarrow> bbo_run bbo_empty ds = bbo_spec_state ds"
proof (induction ds rule: rev_induct)
  case Nil
  then show ?case by (simp add: bbo_run_def bbo_empty_def bbo_spec_state_def)
next
  case (snoc d ds)
  then have "bbo_run bbo_empty (ds @ [d]) = snd (bbo_to_fields d (bbo_spec_state ds))"
    by (simp add: bbo_run_def)
  with snoc.prems show ?case by (simp add: merge_readable)
qed

section \<open>Book levels\<close>

lemma side_levels_Inr:
  "side_levels name side off i rows = Inr ls \<Longrightarrow>
     length ls = length rows \<and>
     (\<forall>k < length rows. bl_side (ls ! k) = side \<and> bl_order_id (ls ! k) = off + i + int k + 1
        \<and> py_float (fst (rows ! k)) = Inr (bl_price (ls ! k))
        \<and> py_float (snd (rows ! k)) = Inr (bl_size (ls ! k)))"
proof (induction name side off i rows arbitrary: ls rule: side_levels.induct)
  case (2 name side off i price siz rest)
  from 2(2) obtain px sz ls' where *: "py_float price = Inr px" "py_float siz = Inr sz"
    "side_levels name side off (i + 1) rest = Inr ls'"
    "ls = \<lparr>bl_side = side, bl_price = px, bl_size = sz, bl_order_id = off + i + 1\<rparr> # ls'"
    and nn: "\<not> (price = PNone \<or> siz = PNone)"
    by (auto simp: bindR_eq_Inr_iff split: if_splits)
  note IH = 2(1) [OF nn *(3)]
  show ?case
  proof (intro conjI allI impI)
    show "length ls = length ((price, siz) # rest)" using IH * by simp
  next
    fix k assume k: "k < length ((price, siz) # rest)"
    show "bl_side (ls ! k) = side" "bl_order_id (ls ! k) = off + i + int k + 1"
      "py_float (fst (((price, siz) # rest) ! k)) = Inr (bl_price (ls ! k))"
      "py_float (snd (((price, siz) # rest) ! k)) = Inr (bl_size (ls ! k))"
      using k IH * by (cases k; simp)+
  qed
qed simp

lemma side_levels_ids:
  assumes "side_levels name side off 0 rows = Inr ls"
  shows "map bl_order_id ls = map (\<lambda>k. off + int k + 1) [0..<length rows]"
  using side_levels_Inr [OF assms] by (intro nth_equalityI) auto

lemma order_book_Inr:
  assumes "order_book_to_fields d ts_init = Inr f"
  obtains bp bs ap asz bids asks where
    "list_or_empty (dget d ''bid_price'') = Inr bp" "list_or_empty (dget d ''bid_size'') = Inr bs"
    "list_or_empty (dget d ''ask_price'') = Inr ap" "list_or_empty (dget d ''ask_size'') = Inr asz"
    "length bp = length bs" "length ap = length asz"
    "side_levels ''bid'' ''BUY'' 0 0 (zip bp bs) = Inr bids"
    "side_levels ''ask'' ''SELL'' 1000000 0 (zip ap asz) = Inr asks"
    "update_kind_of (dget d ''update_type'') = Inr (ob_update_kind f)"
    "ob_levels f = bids @ asks"
  using assms
  by (auto simp: order_book_to_fields_def bindR_eq_Inr_iff Let_def same_length_def
      split: option.splits if_splits)

section \<open>Properties\<close>

text \<open>
  Quote merging. The venue sends the two sides in separate messages. After any sequence of readable
  messages the merged quote is built from the newest price-and-size pair of each side, the newest event
  time and the newest exchange, under the newest symbol; no quote comes out while a side or the time is
  missing or a size is below one.
\<close>

theorem bbo_merges_latest_sides:
  assumes "\<forall>x \<in> set (ds @ [d]). bbo_readable x"
  shows "fst (bbo_to_fields d (bbo_run bbo_empty ds)) =
    (case (latest (side_of ''bid_price'' ''bid_size'') (ds @ [d]),
           latest (side_of ''ask_price'' ''ask_size'') (ds @ [d]), latest ts_of (ds @ [d])) of
       (Some (bid, bsz), Some (ask, asz), Some ts) \<Rightarrow>
         if below_one (Some bsz) \<or> below_one (Some asz) then Inr None
         else (let symbol = py_str (dget d ''symbol'');
                   exchange = (case latest exchange_of (ds @ [d]) of None \<Rightarrow> PNone | Some e \<Rightarrow> e)
               in bindR (instrument_id_from_symbol symbol exchange) (\<lambda>iid.
                  Inr (Some \<lparr>qf_instrument_id = iid, qf_symbol = symbol, qf_exchange = exchange,
                    qf_bid_price = bid, qf_ask_price = ask, qf_bid_size = bsz, qf_ask_size = asz,
                    qf_ts_event = ts\<rparr>)))
     | _ \<Rightarrow> Inr None)"
proof -
  have "fst (bbo_to_fields d (bbo_run bbo_empty ds)) = quote_of_state (bbo_spec_state (ds @ [d]))"
    using assms by (simp add: bbo_run_spec merge_readable)
  then show ?thesis
    by (simp add: quote_of_state_def bbo_spec_state_def Let_def latest_snoc split: option.splits)
qed

text \<open>
  An order-book message that converts keeps every level: one level per price, bids first, each with
  the price and size of its own position in the message, and (below a million bids) all \<open>order_id\<close>s
  distinct, so the venue's two sides never collide.
\<close>

theorem order_book_levels:
  assumes "order_book_to_fields d ts_init = Inr f"
      "list_or_empty (dget d ''bid_price'') = Inr bp" "list_or_empty (dget d ''bid_size'') = Inr bs"
      "list_or_empty (dget d ''ask_price'') = Inr ap" "list_or_empty (dget d ''ask_size'') = Inr asz"
      "length bp \<le> 1000000"
  shows "length (ob_levels f) = length bp + length ap
    \<and> distinct (map bl_order_id (ob_levels f))
    \<and> (\<forall>k < length bp. bl_side (ob_levels f ! k) = ''BUY'' \<and> py_float (bp ! k) = Inr (bl_price (ob_levels f ! k))
          \<and> py_float (bs ! k) = Inr (bl_size (ob_levels f ! k)))
    \<and> (\<forall>k < length ap. bl_side (ob_levels f ! (length bp + k)) = ''SELL''
          \<and> py_float (ap ! k) = Inr (bl_price (ob_levels f ! (length bp + k)))
          \<and> py_float (asz ! k) = Inr (bl_size (ob_levels f ! (length bp + k))))"
proof -
  from assms(1) obtain bids asks where lens: "length bp = length bs" "length ap = length asz"
    and b: "side_levels ''bid'' ''BUY'' 0 0 (zip bp bs) = Inr bids"
    and a: "side_levels ''ask'' ''SELL'' 1000000 0 (zip ap asz) = Inr asks"
    and lv: "ob_levels f = bids @ asks"
    using assms(2-5) by (elim order_book_Inr) auto
  have lb: "length bids = length bp" and la: "length asks = length ap"
    using side_levels_Inr [OF b] side_levels_Inr [OF a] lens by auto
  have "distinct (map bl_order_id (bids @ asks))"
    using assms(6) lens by (auto simp: side_levels_ids [OF b] side_levels_ids [OF a] distinct_map inj_on_def)
  then show ?thesis
    using side_levels_Inr [OF b] side_levels_Inr [OF a] lens lb la lv by (simp add: nth_append)
qed

text \<open>
  An instrument PnL row that converts carries the venue's signed net exactly: the side and the
  non-negative quantity give back \<open>int(net_quantity)\<close>, zero is FLAT, and the row is filed under the
  instrument id of its own symbol and exchange.
\<close>

theorem instrument_pnl_net:
  assumes "instrument_pnl_to_fields d = Inr f"
  shows "py_int (dget d ''net_quantity'') = Inr (position_signed f) \<and> pf_quantity f = \<bar>position_signed f\<bar>
    \<and> (pf_position_side f = ''FLAT'' \<longleftrightarrow> position_signed f = 0)
    \<and> instrument_id_from_symbol (pf_symbol f) (pf_exchange f) = Inr (pf_instrument_id f)"
  using assms by (auto simp: instrument_pnl_to_fields_def bindR_eq_Inr_iff Let_def position_signed_def
      split: if_splits)

end
