(* ===== verification/Nautilus.thy ===== *)
theory Nautilus
  imports Exposure
begin

text \<open>
  What the adapter uses of the trading platform it plugs into. The enums follow
  \<open>stubs/nautilus_trader/model/enums.pyi\<close>; orders, instruments and reports are records of the attributes
  the adapter reads or writes. The platform's own code is not part of the repository, so its behaviour
  is a parameter: the record \<open>nt_env\<close> holds the cache queries, the constructors that validate
  (identifiers, prices, quantities, reports) and the hand-over of an event to the engine, each of which
  may raise. Nothing in the development assumes more of them than a theorem states.
\<close>

section \<open>Enums\<close>

datatype order_side = NO_ORDER_SIDE | BUY | SELL

datatype order_status =
    INITIALIZED | DENIED | EMULATED | RELEASED | SUBMITTED | ACCEPTED | REJECTED | CANCELED | EXPIRED
  | TRIGGERED | PENDING_UPDATE | PENDING_CANCEL | PARTIALLY_FILLED | FILLED

datatype order_type =
    MARKET | LIMIT | STOP_MARKET | STOP_LIMIT | MARKET_TO_LIMIT | MARKET_IF_TOUCHED | LIMIT_IF_TOUCHED
  | TRAILING_STOP_MARKET | TRAILING_STOP_LIMIT

datatype position_side = NO_POSITION_SIDE | POS_FLAT | POS_LONG | POS_SHORT

datatype time_in_force = GTC | IOC | FOK | GTD | DAY | AT_THE_OPEN | AT_THE_CLOSE

datatype trailing_offset_type = NO_TRAILING_OFFSET | OFFSET_PRICE | BASIS_POINTS | TICKS | PRICE_TIER

datatype trigger_type =
    NO_TRIGGER | TRIGGER_DEFAULT | BID_ASK | LAST_PRICE | DOUBLE_LAST | DOUBLE_BID_ASK | LAST_OR_BID_ASK
  | MID_POINT | MARK_PRICE | INDEX_PRICE

text \<open>
  An enum member as the mapping helpers see it: its \<open>name\<close> attribute (if any), its \<open>str\<close> and its \<open>repr\<close>.
\<close>

record enum_obj =
  eo_name :: "string option"
  eo_str :: string
  eo_repr :: string

definition enum_member :: "string \<Rightarrow> string \<Rightarrow> int \<Rightarrow> enum_obj" where
  "enum_member cls nm v = \<lparr>eo_name = Some nm, eo_str = cls @ ''.'' @ nm,
     eo_repr = ''<'' @ cls @ ''.'' @ nm @ '': '' @ int_str v @ ''>''\<rparr>"

definition none_obj :: enum_obj where
  "none_obj = \<lparr>eo_name = None, eo_str = ''None'', eo_repr = ''None''\<rparr>"

fun order_side_obj :: "order_side \<Rightarrow> enum_obj" where
  "order_side_obj NO_ORDER_SIDE = enum_member ''OrderSide'' ''NO_ORDER_SIDE'' 0"
| "order_side_obj BUY = enum_member ''OrderSide'' ''BUY'' 1"
| "order_side_obj SELL = enum_member ''OrderSide'' ''SELL'' 2"

fun order_type_obj :: "order_type \<Rightarrow> enum_obj" where
  "order_type_obj MARKET = enum_member ''OrderType'' ''MARKET'' 1"
| "order_type_obj LIMIT = enum_member ''OrderType'' ''LIMIT'' 2"
| "order_type_obj STOP_MARKET = enum_member ''OrderType'' ''STOP_MARKET'' 3"
| "order_type_obj STOP_LIMIT = enum_member ''OrderType'' ''STOP_LIMIT'' 4"
| "order_type_obj MARKET_TO_LIMIT = enum_member ''OrderType'' ''MARKET_TO_LIMIT'' 5"
| "order_type_obj MARKET_IF_TOUCHED = enum_member ''OrderType'' ''MARKET_IF_TOUCHED'' 6"
| "order_type_obj LIMIT_IF_TOUCHED = enum_member ''OrderType'' ''LIMIT_IF_TOUCHED'' 7"
| "order_type_obj TRAILING_STOP_MARKET = enum_member ''OrderType'' ''TRAILING_STOP_MARKET'' 8"
| "order_type_obj TRAILING_STOP_LIMIT = enum_member ''OrderType'' ''TRAILING_STOP_LIMIT'' 9"

fun tif_obj :: "time_in_force \<Rightarrow> enum_obj" where
  "tif_obj GTC = enum_member ''TimeInForce'' ''GTC'' 1"
| "tif_obj IOC = enum_member ''TimeInForce'' ''IOC'' 2"
| "tif_obj FOK = enum_member ''TimeInForce'' ''FOK'' 3"
| "tif_obj GTD = enum_member ''TimeInForce'' ''GTD'' 4"
| "tif_obj DAY = enum_member ''TimeInForce'' ''DAY'' 5"
| "tif_obj AT_THE_OPEN = enum_member ''TimeInForce'' ''AT_THE_OPEN'' 6"
| "tif_obj AT_THE_CLOSE = enum_member ''TimeInForce'' ''AT_THE_CLOSE'' 7"

fun offset_type_obj :: "trailing_offset_type \<Rightarrow> enum_obj" where
  "offset_type_obj NO_TRAILING_OFFSET = enum_member ''TrailingOffsetType'' ''NO_TRAILING_OFFSET'' 0"
| "offset_type_obj OFFSET_PRICE = enum_member ''TrailingOffsetType'' ''PRICE'' 1"
| "offset_type_obj BASIS_POINTS = enum_member ''TrailingOffsetType'' ''BASIS_POINTS'' 2"
| "offset_type_obj TICKS = enum_member ''TrailingOffsetType'' ''TICKS'' 3"
| "offset_type_obj PRICE_TIER = enum_member ''TrailingOffsetType'' ''PRICE_TIER'' 4"

section \<open>Objects\<close>

text \<open>A price: its text, its float value and its precision. Quantities are whole contracts.\<close>

record nt_price =
  px_text :: string
  px_float :: pyfloat
  px_precision :: int

record nt_instrument =
  in_id :: string
  in_info :: pydict
  in_price_increment :: pyfloat
  in_price_precision :: int
  in_size_precision :: int

text \<open>
  An order of the platform. \<open>od_price\<close> is \<open>None\<close> when \<open>has_price\<close> is false (likewise the trigger);
  \<open>od_trigger_type\<close> and the trailing attributes are \<open>None\<close> for order classes without the attribute.
\<close>

record nt_order =
  od_strategy_id :: string
  od_instrument_id :: string
  od_client_order_id :: string
  od_venue_order_id :: "string option"
  od_side :: order_side
  od_type :: order_type
  od_tif :: time_in_force
  od_status :: order_status
  od_quantity :: int
  od_filled_qty :: int
  od_leaves_qty :: "int option"
  od_price :: "nt_price option"
  od_trigger_price :: "nt_price option"
  od_trigger_type :: "trigger_type option"
  od_is_closed :: bool
  od_is_inflight :: bool
  od_is_reduce_only :: bool
  od_ts_accepted :: int
  od_ts_last :: int
  od_avg_px :: pyval
  od_offset_type :: "trailing_offset_type option"
  od_offset :: "pydec option"
  od_parent_order_id :: "string option"
  od_linked_order_ids :: "string list"

record nt_position =
  po_instrument_id :: string
  po_signed_qty :: int

record order_status_report =
  sr_account_id :: "string option"
  sr_instrument_id :: string
  sr_venue_order_id :: string
  sr_order_side :: order_side
  sr_order_type :: order_type
  sr_time_in_force :: time_in_force
  sr_order_status :: order_status
  sr_quantity :: int
  sr_filled_qty :: int
  sr_ts_accepted :: int
  sr_ts_last :: int
  sr_ts_init :: int
  sr_client_order_id :: "string option"
  sr_price :: "nt_price option"
  sr_trigger_price :: "nt_price option"
  sr_trigger_type :: trigger_type
  sr_reduce_only :: bool
  sr_avg_px :: "pydec option"

record fill_report =
  fr_account_id :: string
  fr_instrument_id :: string
  fr_venue_order_id :: string
  fr_trade_id :: string
  fr_order_side :: order_side
  fr_last_qty :: int
  fr_last_px :: nt_price
  fr_commission :: pydec
  fr_ts_event :: int
  fr_ts_init :: int

record position_status_report =
  pr_account_id :: string
  pr_instrument_id :: string
  pr_position_side :: position_side
  pr_quantity :: int
  pr_ts_init :: int
  pr_avg_px_open :: "pydec option"

text \<open>
  What the client hands to the engine. Strategy, instrument and order ids come first, as in the
  platform's \<open>generate_order_*\<close> methods; times last.
\<close>

datatype emitted =
    EvDenied string string string string int
  | EvSubmitted string string string int
  | EvRejected string string string string int
  | EvAccepted string string string string int
  | EvModifyRejected string string string string string int
  | EvCancelRejected string string string string string int
  | EvUpdated string string string string int "nt_price option" "nt_price option" int
  | EvCanceled string string string string int
  | EvTriggered string string string string int
  | EvFilled string string string string string order_side order_type int nt_price pydec int
      \<comment> \<open>strategy, instrument, client id, venue id, trade id, side, type, quantity, price, commission, time\<close>
  | EvStatusReport order_status_report
  | EvFillReport fill_report
  | EvAccountState string string pydec int bool \<comment> \<open>account, currency, free, time, seeded\<close>
  | EvExposure string exposure_snapshot \<comment> \<open>topic and snapshot, on the message bus\<close>

section \<open>The platform as a parameter\<close>

text \<open>
  How the installed \<open>ExecutionMassStatus\<close> takes a report window: by a setter (which may raise), or by
  assignment to \<open>lookback_start\<close> and \<open>reports_complete\<close>, each present and writable or not.
\<close>

datatype window_api = WindowSetter "exn option" | WindowAttrs bool bool

record 'c nt_env =
  ne_order :: "'c \<Rightarrow> string \<Rightarrow> nt_order option" \<comment> \<open>\<open>cache.order(client_order_id)\<close>\<close>
  ne_client_order_id :: "'c \<Rightarrow> string \<Rightarrow> string option"
  ne_venue_order_id :: "'c \<Rightarrow> string \<Rightarrow> string option"
  ne_add_venue_order_id :: "'c \<Rightarrow> string \<Rightarrow> string \<Rightarrow> exn + 'c"
  ne_instrument :: "'c \<Rightarrow> string \<Rightarrow> nt_instrument option"
  ne_positions_open :: "'c \<Rightarrow> string option \<Rightarrow> nt_position list" \<comment> \<open>of this venue, by account\<close>
  ne_orders_open :: "'c \<Rightarrow> string option \<Rightarrow> string option \<Rightarrow> order_side \<Rightarrow> nt_order list"
    \<comment> \<open>of this venue: instrument, strategy, side filters\<close>
  ne_orders :: "'c \<Rightarrow> string option \<Rightarrow> nt_order list"
  ne_account_known :: "'c \<Rightarrow> string \<Rightarrow> bool" \<comment> \<open>\<open>cache.account\<close> or \<open>account_for_venue\<close> finds it\<close>
  ne_id :: "string \<Rightarrow> exn option" \<comment> \<open>what an identifier constructor raises\<close>
  ne_instrument_id :: "string \<Rightarrow> exn + string" \<comment> \<open>\<open>InstrumentId.from_str\<close>\<close>
  ne_currency :: "string \<Rightarrow> exn option" \<comment> \<open>\<open>Currency.from_str\<close>\<close>
  ne_money :: "pydec \<Rightarrow> string \<Rightarrow> exn option"
  ne_price_from_str :: "string \<Rightarrow> exn + nt_price"
  ne_make_price :: "nt_instrument \<Rightarrow> pyval \<Rightarrow> exn + nt_price"
  ne_quantity :: "int \<Rightarrow> exn option" \<comment> \<open>\<open>Quantity.from_int\<close>\<close>
  ne_status_report :: "order_status_report \<Rightarrow> exn option"
  ne_fill_report :: "fill_report \<Rightarrow> exn option"
  ne_position_report :: "position_status_report \<Rightarrow> exn option"
  ne_emit :: "'c \<Rightarrow> emitted \<Rightarrow> exn option \<times> 'c" \<comment> \<open>hand an event to the engine\<close>
  ne_clock :: "nat \<Rightarrow> int" \<comment> \<open>the \<open>n\<close>-th read of \<open>clock.timestamp_ns()\<close>\<close>
  ne_time :: "nat \<Rightarrow> int" \<comment> \<open>\<open>int(time.time())\<close> at the \<open>n\<close>-th read\<close>
  ne_utc_before :: "nat \<Rightarrow> int \<Rightarrow> pyfloat" \<comment> \<open>\<open>timestamp()\<close> of \<open>clock.utc_now()\<close> minus minutes\<close>
  ne_order_eq :: "nt_order \<Rightarrow> nt_order \<Rightarrow> bool" \<comment> \<open>\<open>==\<close> on orders\<close>
  ne_window_api :: window_api

definition check_opt :: "exn option \<Rightarrow> 'a \<Rightarrow> 'a res" where
  "check_opt e x = (case e of Some err \<Rightarrow> Inl err | None \<Rightarrow> Inr x)"

lemma check_opt_eq_Inr [simp]: "check_opt e x = Inr y \<longleftrightarrow> e = None \<and> x = y"
  by (cases e) (auto simp: check_opt_def)

lemma check_opt_None [simp]: "check_opt None x = Inr x"
  by (simp add: check_opt_def)


section \<open>A concrete platform\<close>

text \<open>
  An instance of the parameter for the witnesses: association lists for the cache, identifiers that must
  be non-empty, prices read from decimal text, non-negative quantities, an engine that accepts every
  event and a clock that advances by one second per read.
\<close>

record demo_cache =
  dc_orders :: "(string \<times> nt_order) list"
  dc_venue_ids :: "(string \<times> string) list" \<comment> \<open>client order id to venue order id\<close>
  dc_instruments :: "(string \<times> nt_instrument) list"
  dc_positions :: "nt_position list"

definition demo_check :: "bool \<Rightarrow> exn option" where
  "demo_check ok = (if ok then None else Some (exn_of ValueError ''invalid value''))"

definition demo_price :: "string \<Rightarrow> nt_price res" where
  "demo_price s = (case parse_float s of
       Some f \<Rightarrow> Inr \<lparr>px_text = s, px_float = f, px_precision = int (length (drop 1 (dropWhile (\<lambda>c. c \<noteq> CHR ''.'') s)))\<rparr>
     | None \<Rightarrow> Inl (exn_of ValueError ''invalid price''))"

definition demo_env :: "demo_cache nt_env" where
  "demo_env = \<lparr>
     ne_order = (\<lambda>c k. map_of (dc_orders c) k),
     ne_client_order_id = (\<lambda>c v. map_option fst (List.find (\<lambda>(_, v'). v' = v) (dc_venue_ids c))),
     ne_venue_order_id = (\<lambda>c k. map_of (dc_venue_ids c) k),
     ne_add_venue_order_id = (\<lambda>c k v. Inr (c\<lparr>dc_venue_ids := dict_set k v (dc_venue_ids c)\<rparr>)),
     ne_instrument = (\<lambda>c k. map_of (dc_instruments c) k),
     ne_positions_open = (\<lambda>c _. dc_positions c),
     ne_orders_open = (\<lambda>c ins strat side. filter (\<lambda>ord. \<not> od_is_closed ord
         \<and> (ins = None \<or> ins = Some (od_instrument_id ord)) \<and> (strat = None \<or> strat = Some (od_strategy_id ord))
         \<and> (side = NO_ORDER_SIDE \<or> side = od_side ord)) (map snd (dc_orders c))),
     ne_orders = (\<lambda>c ins. filter (\<lambda>ord. ins = None \<or> ins = Some (od_instrument_id ord)) (map snd (dc_orders c))),
     ne_account_known = (\<lambda>_ _. True),
     ne_id = (\<lambda>s. demo_check (s \<noteq> [])),
     ne_instrument_id = (\<lambda>s. if CHR ''.'' \<in> set s then Inr s else Inl (exn_of ValueError ''invalid instrument id'')),
     ne_currency = (\<lambda>s. demo_check (length s = 3)),
     ne_money = (\<lambda>_ _. None),
     ne_price_from_str = demo_price,
     ne_make_price = (\<lambda>_ v. bindR (py_float v) (\<lambda>f. demo_price (float_repr f))),
     ne_quantity = (\<lambda>q. demo_check (0 \<le> q)),
     ne_status_report = (\<lambda>r. demo_check (0 < sr_quantity r)),
     ne_fill_report = (\<lambda>r. demo_check (0 < fr_last_qty r)),
     ne_position_report = (\<lambda>r. demo_check (0 \<le> pr_quantity r)),
     ne_emit = (\<lambda>c _. (None, c)),
     ne_clock = (\<lambda>n. 1000000000 * (1000 + int n)),
     ne_time = (\<lambda>n. 1000 + int n),
     ne_utc_before = (\<lambda>n mins. Fin (of_int (1000 + int n - 60 * mins))),
     ne_order_eq = (\<lambda>a b. od_client_order_id a = od_client_order_id b),
     ne_window_api = WindowAttrs False False\<rparr>"

end
