(* ===== verification/Orders.thy ===== *)
theory Orders
  imports Convert Nautilus
begin

text \<open>
  \<open>_orders.py\<close> with the rules it delegates to (\<open>notify.rs\<close>, \<open>fills.rs\<close>): mapping platform enums to venue
  names, normalising a wire order notification into \<open>order_fields\<close>, the identity of a fill, and the
  classification of a notification into one action. The stores of \<open>_orders.py\<close> are in theory Lru.
\<close>

section \<open>Closed sets\<close>

definition RITHMIC_PRICE_TYPE_TO_ORDER_TYPE :: "(int \<times> order_type) list" where
  "RITHMIC_PRICE_TYPE_TO_ORDER_TYPE = [(1, LIMIT), (2, MARKET), (3, STOP_LIMIT), (4, STOP_MARKET)]"

definition RITHMIC_DURATION_TO_TIF :: "(int \<times> time_in_force) list" where
  "RITHMIC_DURATION_TO_TIF = [(1, DAY), (2, GTC), (3, IOC), (4, FOK)]"

definition ORDER_TYPE_TO_RITHMIC :: "(string \<times> string) list" where
  "ORDER_TYPE_TO_RITHMIC =
     [(''MARKET'', ''MARKET''), (''LIMIT'', ''LIMIT''), (''STOP_MARKET'', ''STOP_MARKET''),
      (''STOP_LIMIT'', ''STOP_LIMIT''), (''MARKET_IF_TOUCHED'', ''MARKET_IF_TOUCHED''),
      (''LIMIT_IF_TOUCHED'', ''LIMIT_IF_TOUCHED''), (''TRAILING_STOP_MARKET'', ''STOP_MARKET''),
      (''TRAILING_STOP_LIMIT'', ''STOP_LIMIT'')]"

definition TIF_TO_RITHMIC :: "(string \<times> string) list" where
  "TIF_TO_RITHMIC = [(''DAY'', ''DAY''), (''GTC'', ''GTC''), (''IOC'', ''IOC''), (''FOK'', ''FOK'')]"

definition DEFAULT_TRAIL_BY_PRICE_ID :: int where "DEFAULT_TRAIL_BY_PRICE_ID = 1"

definition TRAILING_ORDER_TYPES :: "string list" where
  "TRAILING_ORDER_TYPES = [''TRAILING_STOP_MARKET'', ''TRAILING_STOP_LIMIT'']"

section \<open>Platform enums to venue names\<close>

definition enum_name :: "enum_obj \<Rightarrow> string \<Rightarrow> string" where
  "enum_name v pre =
     str_removeprefix pre (str_upper (case eo_name v of Some n \<Rightarrow> if n = [] then eo_str v else n | None \<Rightarrow> eo_str v))"

definition order_type_name :: "enum_obj \<Rightarrow> string" where
  "order_type_name v = enum_name v ''ORDERTYPE.''"

definition nautilus_side_to_rithmic :: "enum_obj \<Rightarrow> string res" where
  "nautilus_side_to_rithmic side =
     (let nm = enum_name side ''ORDERSIDE.''
      in if nm = ''BUY'' \<or> nm = ''B'' then Inr ''BUY''
         else if nm = ''SELL'' \<or> nm = ''S'' then Inr ''SELL''
         else Inl (exn_of OrderMapError (''unsupported order side: '' @ eo_repr side)))"

definition nautilus_order_type_to_rithmic :: "enum_obj \<Rightarrow> string res" where
  "nautilus_order_type_to_rithmic v =
     (case map_of ORDER_TYPE_TO_RITHMIC (order_type_name v) of
        Some m \<Rightarrow> Inr m
      | None \<Rightarrow> Inl (exn_of OrderMapError (''unsupported order type for Rithmic: '' @ eo_repr v)))"

definition is_trailing_order_type :: "enum_obj \<Rightarrow> bool" where
  "is_trailing_order_type v \<longleftrightarrow> order_type_name v \<in> set TRAILING_ORDER_TYPES"

definition trailing_ticks_from_order :: "nt_order \<Rightarrow> int option res" where
  "trailing_ticks_from_order order =
     (if \<not> is_trailing_order_type (order_type_obj (od_type order)) then Inr None
      else let offset_type = (case od_offset_type order of None \<Rightarrow> none_obj | Some t \<Rightarrow> offset_type_obj t)
      in if enum_name offset_type ''TRAILINGOFFSETTYPE.'' \<noteq> ''TICKS'' then
           Inl (exn_of OrderMapError (''Rithmic trailing stops require TrailingOffsetType.TICKS; got ''
             @ eo_repr offset_type))
         else (case od_offset order of
             None \<Rightarrow> Inl (exn_of OrderMapError ''trailing stop missing trailing_offset'')
           | Some off \<Rightarrow> bindR (dec_int off) (\<lambda>ticks.
               if ticks < 1 then
                 Inl (exn_of OrderMapError (''trailing_offset must be >= 1 tick; got '' @ dec_repr off))
               else bindR (py_float (PInt ticks)) (\<lambda>ft.
                 if dec_float off \<noteq> ft then
                   Inl (exn_of OrderMapError (''trailing_offset must be a whole tick count; got '' @ dec_repr off))
                 else Inr (Some ticks)))))"

definition nautilus_tif_to_rithmic :: "enum_obj \<Rightarrow> string res" where
  "nautilus_tif_to_rithmic v =
     (case map_of TIF_TO_RITHMIC (enum_name v ''TIMEINFORCE.'') of
        Some m \<Rightarrow> Inr m
      | None \<Rightarrow> Inl (exn_of OrderMapError (''unsupported time in force for Rithmic: '' @ eo_repr v)))"

section \<open>Notification kinds (notify.rs)\<close>

definition rs_kind_from_notify :: "string \<Rightarrow> string \<Rightarrow> string option \<Rightarrow> string option \<Rightarrow> string option" where
  "rs_kind_from_notify source notify_type_name status txt =
     (let nm = str_upper notify_type_name in
      if source = ''rithmic'' then
        (if nm = ''OPEN'' \<or> nm = ''TRIGGER_PENDING'' then Some ''accepted''
         else if nm = ''MODIFIED'' then Some ''updated''
         else if nm = ''MODIFICATION_FAILED'' then Some ''modify_rejected''
         else if nm = ''CANCELLATION_FAILED'' then Some ''cancel_rejected''
         else if nm = ''COMPLETE'' then
           (let st = str_upper (case status of None \<Rightarrow> [] | Some x \<Rightarrow> x) in
            if st = ''CANCELLED'' \<or> st = ''CANCELED'' then Some ''canceled''
            else if (case txt of None \<Rightarrow> False | Some t \<Rightarrow> rs_trim t \<noteq> []) then Some ''rejected''
            else None)
         else None)
      else if source = ''exchange'' then
        (if nm = ''FILL'' then Some ''filled''
         else if nm = ''REJECT'' then Some ''rejected''
         else if nm = ''CANCEL'' then Some ''canceled''
         else if nm = ''TRIGGER'' then Some ''triggered''
         else if nm = ''NOT_MODIFIED'' then Some ''modify_rejected''
         else if nm = ''NOT_CANCELLED'' \<or> nm = ''NOT_CANCELED'' then Some ''cancel_rejected''
         else None)
      else None)"

definition kind_from_notify :: "string \<Rightarrow> string \<Rightarrow> pyval \<Rightarrow> pyval \<Rightarrow> string option" where
  "kind_from_notify source notify_type_name status txt =
     rs_kind_from_notify source notify_type_name
       (Some (py_str (py_or status (PStr [])))) (Some (py_str (py_or txt (PStr []))))"

section \<open>Normalisation\<close>

definition enum_int :: "pyval \<Rightarrow> int option" where
  "enum_int v = (case v of
       PNone \<Rightarrow> None | PBool _ \<Rightarrow> None
     | PStr s \<Rightarrow> parse_int s
     | _ \<Rightarrow> (case py_int v of Inl _ \<Rightarrow> None | Inr c \<Rightarrow> if int_eq_val c v then Some c else None))"

text \<open>\<open>float(value)\<close> of a huge integer raises \<open>OverflowError\<close>, which is not caught here.\<close>

definition sentinel_none :: "pyval \<Rightarrow> pyval res" where
  "sentinel_none v =
     (if v = PNone then Inr PNone
      else case py_float v of
        Inr f \<Rightarrow> Inr (if f = Fin (-1) then PNone else v)
      | Inl e \<Rightarrow> if exn_cls e = TypeError \<or> is_value_error e then Inr v else Inl e)"

record order_fields =
  of_source :: string
  of_kind :: pyval
  of_notify_type :: pyval
  of_notify_type_name :: pyval
  of_status :: pyval
  of_basket_id :: pyval
  of_exchange_order_id :: pyval
  of_user_tag :: pyval
  of_account_id :: pyval
  of_symbol :: string
  of_exchange :: pyval
  of_instrument_id :: string
  of_quantity :: pyval
  of_total_fill_size :: pyval
  of_total_unfilled_size :: pyval
  of_fill_size :: pyval
  of_price :: pyval
  of_trigger_price :: pyval
  of_avg_fill_price :: pyval
  of_fill_price :: pyval
  of_transaction_type :: pyval
  of_price_type :: "int option"
  of_duration :: "int option"
  of_fill_id :: pyval
  of_text :: pyval
  of_report_text :: pyval
  of_completion_reason :: pyval
  of_ssboe :: pyval
  of_usecs :: pyval
  of_ts_event :: "int option"
  of_is_snapshot :: pyval

definition notification_kind :: "pydict \<Rightarrow> string \<Rightarrow> pyval" where
  "notification_kind d source =
     (let kind = dget d ''kind'' in
      if kind = PNone \<and> dget d ''notify_type_name'' \<noteq> PNone then
        (case kind_from_notify source (py_str (dget d ''notify_type_name'')) (dget d ''status'') (dget d ''text'') of
           None \<Rightarrow> PNone | Some k \<Rightarrow> PStr k)
      else kind)"

definition notification_source :: "pydict \<Rightarrow> string res" where
  "notification_source d =
     (if dget d ''type'' \<notin> {PNone, PStr ''order_notification''} then
        Inl (exn_of ConvertError (''unexpected order notification type: '' @ py_repr (dget d ''type'')))
      else if dget d ''source'' = PStr ''rithmic'' then Inr ''rithmic''
      else if dget d ''source'' = PStr ''exchange'' then Inr ''exchange''
      else Inl (exn_of ConvertError (''order notification missing source: '' @ py_repr (dget d ''source''))))"

definition order_notification_to_fields :: "pydict \<Rightarrow> order_fields res" where
  "order_notification_to_fields d =
     bindR (notification_source d) (\<lambda>source.
     (if \<not> truthy (dget d ''symbol'') then Inl (exn_of ConvertError ''order notification missing symbol'')
      else bindR (ts_ns d) (\<lambda>ts.
       (let symbol = py_str (dget d ''symbol'') in
        bindR (instrument_id_from_symbol symbol (dget d ''exchange'')) (\<lambda>iid.
        bindR (sentinel_none (dget d ''price'')) (\<lambda>price.
        bindR (sentinel_none (dget d ''trigger_price'')) (\<lambda>trigger.
        bindR (sentinel_none (dget d ''avg_fill_price'')) (\<lambda>avg.
        bindR (sentinel_none (dget d ''fill_price'')) (\<lambda>fill_px.
          Inr \<lparr>of_source = source, of_kind = notification_kind d source,
            of_notify_type = dget d ''notify_type'', of_notify_type_name = dget d ''notify_type_name'',
            of_status = dget d ''status'', of_basket_id = dget d ''basket_id'',
            of_exchange_order_id = dget d ''exchange_order_id'', of_user_tag = dget d ''user_tag'',
            of_account_id = dget d ''account_id'', of_symbol = symbol, of_exchange = dget d ''exchange'',
            of_instrument_id = iid, of_quantity = dget d ''quantity'',
            of_total_fill_size = dget d ''total_fill_size'',
            of_total_unfilled_size = dget d ''total_unfilled_size'', of_fill_size = dget d ''fill_size'',
            of_price = price, of_trigger_price = trigger, of_avg_fill_price = avg, of_fill_price = fill_px,
            of_transaction_type = dget d ''transaction_type'',
            of_price_type = enum_int (dget d ''price_type''), of_duration = enum_int (dget d ''duration''),
            of_fill_id = dget d ''fill_id'', of_text = dget d ''text'',
            of_report_text = dget d ''report_text'', of_completion_reason = dget d ''completion_reason'',
            of_ssboe = dget d ''ssboe'', of_usecs = dget d ''usecs'', of_ts_event = ts,
            of_is_snapshot = dget d ''is_snapshot''\<rparr>)))))))))"

section \<open>Fill identity (fills.rs)\<close>

record fill_parts =
  fp_fill_id :: "string option"
  fp_basket_id :: string
  fp_exchange_order_id :: string
  fp_fill_size :: string
  fp_fill_price :: string

definition rs_trade_id :: "fill_parts \<Rightarrow> int \<Rightarrow> string" where
  "rs_trade_id parts ts =
     (case fp_fill_id parts of
        Some (c # r) \<Rightarrow> c # r
      | _ \<Rightarrow> fp_basket_id parts @ '':'' @ fp_exchange_order_id parts @ '':'' @ int_str ts @ '':''
               @ fp_fill_size parts @ '':'' @ fp_fill_price parts)"

definition rs_dedup_key :: "string \<Rightarrow> string \<Rightarrow> fill_parts \<Rightarrow> int \<Rightarrow> string" where
  "rs_dedup_key account_id instrument_id parts ts =
     account_id @ ''|'' @ instrument_id @ ''|'' @ rs_trade_id parts ts"

definition text_or :: "pyval \<Rightarrow> string" where
  "text_or v = py_str (py_or v (PStr []))"

definition fill_parts_of :: "order_fields \<Rightarrow> fill_parts" where
  "fill_parts_of f =
     \<lparr>fp_fill_id = (if truthy (of_fill_id f) then Some (py_str (of_fill_id f)) else None),
      fp_basket_id = text_or (of_basket_id f), fp_exchange_order_id = text_or (of_exchange_order_id f),
      fp_fill_size = py_str (of_fill_size f), fp_fill_price = py_str (of_fill_price f)\<rparr>"

definition fill_identity_ts :: "order_fields \<Rightarrow> int" where
  "fill_identity_ts f = (case of_ts_event f of None \<Rightarrow> 0 | Some t \<Rightarrow> t)"

definition trade_id_from_fill_fields :: "order_fields \<Rightarrow> int \<Rightarrow> string res" where
  "trade_id_from_fill_fields f ts = bindR (to_i64 ts) (\<lambda>t. Inr (rs_trade_id (fill_parts_of f) t))"

definition fill_dedup_key :: "order_fields \<Rightarrow> int \<Rightarrow> string res" where
  "fill_dedup_key f ts =
     bindR (to_i64 ts) (\<lambda>t. Inr (rs_dedup_key (text_or (of_account_id f)) (of_instrument_id f) (fill_parts_of f) t))"

text \<open>\<open>int(inf)\<close> raises \<open>OverflowError\<close>, which is not caught here.\<close>

definition order_side_from_notification :: "order_fields \<Rightarrow> order_side option res" where
  "order_side_from_notification f =
     (if of_transaction_type f = PNone then Inr None
      else case py_int (of_transaction_type f) of
        Inr v \<Rightarrow> Inr (if v = 1 then Some BUY else if v = 2 then Some SELL else None)
      | Inl e \<Rightarrow> if exn_cls e = TypeError \<or> is_value_error e then Inr None else Inl e)"

section \<open>Classification\<close>

definition first_nonempty :: "string option list \<Rightarrow> string \<Rightarrow> string" where
  "first_nonempty opts dflt =
     (case filter (\<lambda>t. t \<noteq> []) (map the (filter (\<lambda>t. t \<noteq> None) opts)) of [] \<Rightarrow> dflt | t # _ \<Rightarrow> t)"

definition rs_notification_action ::
    "string \<Rightarrow> string option \<Rightarrow> string option \<Rightarrow> string option \<Rightarrow> (string \<times> string option) option" where
  "rs_notification_action kind txt report_text status =
     (if kind \<in> {''accepted'', ''updated'', ''canceled'', ''triggered'', ''filled''} then Some (kind, None)
      else if kind = ''rejected'' then Some (kind, Some (first_nonempty [txt, report_text, status] ''REJECT''))
      else if kind = ''modify_rejected'' then
        Some (kind, Some (first_nonempty [txt, report_text, status] ''NOT_MODIFIED''))
      else if kind = ''cancel_rejected'' then
        Some (kind, Some (first_nonempty [txt, report_text, status] ''NOT_CANCELLED''))
      else None)"

definition text_or_none :: "pyval \<Rightarrow> string option" where
  "text_or_none v = (if truthy v then Some (py_str v) else None)"

record order_action =
  oa_kind :: string
  oa_reason :: "string option"
  oa_quantity :: "int option"
  oa_price :: pyval
  oa_trigger :: pyval
  oa_fill_qty :: "int option"
  oa_fill_px :: pyval
  oa_trade_id :: "string option"

definition action_of :: "string \<Rightarrow> string option \<Rightarrow> order_action" where
  "action_of kind reason = \<lparr>oa_kind = kind, oa_reason = reason, oa_quantity = None, oa_price = PNone,
     oa_trigger = PNone, oa_fill_qty = None, oa_fill_px = PNone, oa_trade_id = None\<rparr>"

definition notification_action :: "order_fields \<Rightarrow> nt_order \<Rightarrow> order_action option res" where
  "notification_action f order =
     (if \<not> truthy (of_kind f) then Inr None
      else case rs_notification_action (py_str (of_kind f)) (text_or_none (of_text f))
                  (text_or_none (of_report_text f)) (text_or_none (of_status f)) of
        None \<Rightarrow> Inr None
      | Some (action, reason) \<Rightarrow>
          if action = ''updated'' then
            bindR (if of_quantity f \<noteq> PNone then py_int (of_quantity f) else Inr (od_quantity order)) (\<lambda>qty.
              Inr (Some ((action_of ''updated'' None)\<lparr>oa_quantity := Some qty, oa_price := of_price f,
                                                    oa_trigger := of_trigger_price f\<rparr>)))
          else if action = ''filled'' then
            (if of_fill_size f = PNone then Inr None
             else bindR (py_int (of_fill_size f)) (\<lambda>sz.
                  bindR (trade_id_from_fill_fields f (fill_identity_ts f)) (\<lambda>tid.
                    Inr (Some ((action_of ''filled'' None)\<lparr>oa_fill_qty := Some sz, oa_fill_px := of_fill_price f,
                                                         oa_trade_id := Some tid\<rparr>)))))
          else Inr (Some (action_of action reason)))"

definition is_benign_bare_complete :: "order_fields \<Rightarrow> nt_order option \<Rightarrow> bool" where
  "is_benign_bare_complete f order =
     (case order of None \<Rightarrow> False | Some ord \<Rightarrow>
        od_is_closed ord \<and> of_source f = ''rithmic''
        \<and> str_upper (text_or (of_notify_type_name f)) = ''COMPLETE''
        \<and> str_lower (text_or (of_status f)) = ''complete''
        \<and> of_kind f = PNone \<and> of_quantity f = PNone \<and> of_fill_size f = PNone \<and> of_fill_id f = PNone
        \<and> od_status ord \<in> {FILLED, CANCELED})"


section \<open>Facts\<close>

lemma append_bar_cancel:
  assumes "c \<notin> set a" "c \<notin> set b" "a @ c # x = b @ c # y"
  shows "a = b \<and> x = y"
  using assms
proof (induction a arbitrary: b)
  case Nil
  then show ?case by (cases b) auto
next
  case (Cons d a)
  then show ?case by (cases b) auto
qed

lemma rs_dedup_key_eq:
  assumes "CHR ''|'' \<notin> set a" "CHR ''|'' \<notin> set a'" "CHR ''|'' \<notin> set i" "CHR ''|'' \<notin> set i'"
  shows "rs_dedup_key a i p t = rs_dedup_key a' i' p' t' \<longleftrightarrow> a = a' \<and> i = i' \<and> rs_trade_id p t = rs_trade_id p' t'"
proof
  assume eq: "rs_dedup_key a i p t = rs_dedup_key a' i' p' t'"
  then have "a = a' \<and> i @ CHR ''|'' # rs_trade_id p t = i' @ CHR ''|'' # rs_trade_id p' t'"
    using assms(1,2) by (intro append_bar_cancel) (auto simp: rs_dedup_key_def)
  with assms(3,4) show "a = a' \<and> i = i' \<and> rs_trade_id p t = rs_trade_id p' t'"
    using append_bar_cancel [of "CHR ''|''" i i'] by blast
qed (simp add: rs_dedup_key_def)

lemma rs_trade_id_tagged: "fp_fill_id p = Some x \<Longrightarrow> x \<noteq> [] \<Longrightarrow> rs_trade_id p t = x"
  by (cases x) (simp_all add: rs_trade_id_def)

lemma to_i64_eq_Inr: "to_i64 i = Inr j \<longleftrightarrow> j = i \<and> - (2 ^ 63) \<le> i \<and> i < 2 ^ 63"
  by (auto simp: to_i64_def)

lemma enum_int_Some:
  "enum_int v = Some i \<Longrightarrow> v = PInt i \<or> v = PFloat (Fin (of_int i)) \<or> (\<exists>s. v = PStr s \<and> parse_int s = Some i)"
  by (cases v) (auto simp: enum_int_def py_int_def int_eq_val_def split: sum.splits if_splits pyfloat.splits)

lemma sentinel_none_Inr:
  "sentinel_none v = Inr w \<Longrightarrow> (w = PNone \<and> (v = PNone \<or> py_float v = Inr (Fin (-1)))) \<or> (w = v \<and> v \<noteq> PNone \<and> py_float v \<noteq> Inr (Fin (-1)))"
  by (auto simp: sentinel_none_def split: if_splits sum.splits)

lemma order_notification_Inr:
  assumes "order_notification_to_fields d = Inr f"
  shows "truthy (dget d ''symbol'')" "of_symbol f = py_str (dget d ''symbol'')"
    "instrument_id_from_symbol (of_symbol f) (of_exchange f) = Inr (of_instrument_id f)"
    "ts_ns d = Inr (of_ts_event f)" "of_source f \<in> {''rithmic'', ''exchange''}"
    "of_kind f = notification_kind d (of_source f)"
    "sentinel_none (dget d ''price'') = Inr (of_price f)"
    "sentinel_none (dget d ''trigger_price'') = Inr (of_trigger_price f)"
    "sentinel_none (dget d ''avg_fill_price'') = Inr (of_avg_fill_price f)"
    "sentinel_none (dget d ''fill_price'') = Inr (of_fill_price f)"
    "of_price_type f = enum_int (dget d ''price_type'')" "of_duration f = enum_int (dget d ''duration'')"
    "of_basket_id f = dget d ''basket_id''"
  using assms
  by (auto simp: order_notification_to_fields_def notification_source_def bindR_eq_Inr_iff Let_def split: if_splits)

section \<open>Properties\<close>

text \<open>
  The fill dedup key identifies a fill: with accounts and instruments free of the separator, two
  fills share a key exactly when account, instrument and trade id agree, and for fills the venue tagged
  the trade id is the venue's own fill id, whatever the time stamps. So a replay of a tagged fill keys
  the same and two different tagged fills of an account and instrument never collapse.
\<close>

theorem fill_dedup_key_identity:
  assumes "fill_dedup_key f t = Inr k" "fill_dedup_key f' t' = Inr k'"
    "CHR ''|'' \<notin> set (text_or (of_account_id f))" "CHR ''|'' \<notin> set (text_or (of_account_id f'))"
    "CHR ''|'' \<notin> set (of_instrument_id f)" "CHR ''|'' \<notin> set (of_instrument_id f')"
    "of_fill_id f = PStr x" "x \<noteq> []" "of_fill_id f' = PStr x'" "x' \<noteq> []"
  shows "k = k' \<longleftrightarrow> text_or (of_account_id f) = text_or (of_account_id f')
                    \<and> of_instrument_id f = of_instrument_id f' \<and> x = x'"
proof -
  have "k = rs_dedup_key (text_or (of_account_id f)) (of_instrument_id f) (fill_parts_of f) t"
    "k' = rs_dedup_key (text_or (of_account_id f')) (of_instrument_id f') (fill_parts_of f') t'"
    using assms(1,2) by (auto simp: fill_dedup_key_def bindR_eq_Inr_iff to_i64_eq_Inr)
  moreover have "rs_trade_id (fill_parts_of f) t = x" "rs_trade_id (fill_parts_of f') t' = x'"
    using assms(7-10) by (auto intro!: rs_trade_id_tagged simp: fill_parts_of_def py_str_def)
  ultimately show ?thesis using assms(3-6) by (simp add: rs_dedup_key_eq)
qed

definition fields_of :: "pydict \<Rightarrow> order_fields" where
  "fields_of d = projr (order_notification_to_fields d)"

definition demo_fill :: "string \<Rightarrow> int \<Rightarrow> pydict" where
  "demo_fill fid t = [(''type'', PStr ''order_notification''), (''source'', PStr ''exchange''),
     (''notify_type_name'', PStr ''FILL''), (''symbol'', PStr ''NQU6''), (''exchange'', PStr ''CME''),
     (''account_id'', PStr ''A1''), (''basket_id'', PStr ''B1''), (''user_tag'', PStr ''O-1''),
     (''fill_id'', PStr fid), (''fill_size'', PInt 1), (''fill_price'', PInt 100), (''quantity'', PInt 2),
     (''transaction_type'', PInt 1), (''ts_event_ns'', PInt t)]"

text \<open>
  Normalisation never invents terms. In a normalised notification an order type or duration code is
  exactly the integer the venue sent (a boolean, a fraction or any other value becomes absent), and a
  price is the venue's own value, absent when the venue sent none or the pending marker \<open>-1.0\<close>.
\<close>

theorem normalised_terms_exact:
  assumes "order_notification_to_fields d = Inr f"
  shows "(\<forall>i. of_price_type f = Some i \<longrightarrow>
            dget d ''price_type'' = PInt i \<or> dget d ''price_type'' = PFloat (Fin (of_int i))
            \<or> (\<exists>s. dget d ''price_type'' = PStr s \<and> parse_int s = Some i))
    \<and> (\<forall>i. of_duration f = Some i \<longrightarrow>
            dget d ''duration'' = PInt i \<or> dget d ''duration'' = PFloat (Fin (of_int i))
            \<or> (\<exists>s. dget d ''duration'' = PStr s \<and> parse_int s = Some i))
    \<and> (\<forall>(key, value) \<in> {(''price'', of_price f), (''trigger_price'', of_trigger_price f),
                        (''avg_fill_price'', of_avg_fill_price f), (''fill_price'', of_fill_price f)}.
          if dget d key = PNone \<or> py_float (dget d key) = Inr (Fin (-1)) then value = PNone else value = dget d key)"
  using order_notification_Inr [OF assms] enum_int_Some [of "dget d ''price_type''"]
    enum_int_Some [of "dget d ''duration''"]
    sentinel_none_Inr [of "dget d ''price''"] sentinel_none_Inr [of "dget d ''trigger_price''"]
    sentinel_none_Inr [of "dget d ''avg_fill_price''"] sentinel_none_Inr [of "dget d ''fill_price''"]
  by auto

text \<open>
  An order is declared filled, canceled or rejected only on explicit venue evidence: a fill needs an
  exchange FILL; a cancel an exchange CANCEL or a plant COMPLETE with a cancel status; a reject an
  exchange REJECT or a plant COMPLETE with a text and no cancel status. A bare COMPLETE says nothing.
\<close>

theorem terminal_kinds_need_evidence:
  "(kind_from_notify source nm status txt = Some ''filled'' \<longleftrightarrow> source = ''exchange'' \<and> str_upper nm = ''FILL'')
   \<and> (kind_from_notify source nm status txt = Some ''canceled'' \<longleftrightarrow>
        (source = ''exchange'' \<and> str_upper nm = ''CANCEL'')
        \<or> (source = ''rithmic'' \<and> str_upper nm = ''COMPLETE''
            \<and> str_upper (text_or status) \<in> {''CANCELLED'', ''CANCELED''}))
   \<and> (kind_from_notify source nm status txt = Some ''rejected'' \<longleftrightarrow>
        (source = ''exchange'' \<and> str_upper nm = ''REJECT'')
        \<or> (source = ''rithmic'' \<and> str_upper nm = ''COMPLETE'' \<and> rs_trim (text_or txt) \<noteq> []
            \<and> str_upper (text_or status) \<notin> {''CANCELLED'', ''CANCELED''}))"
  by (auto simp: kind_from_notify_def rs_kind_from_notify_def Let_def text_or_def)

end
