(* ===== verification/OrderRows.thy ===== *)
theory OrderRows
  imports Orders
begin

text \<open>
  \<open>order_rows.py\<close>: what a normalised order row means (order type, time in force, trigger type, status)
  and the strict gate \<open>row_is_trustworthy\<close> (rule in \<open>drain.rs\<close>) for anything that binds identity. The
  interpretation is permissive (unknown codes fall back), the gate is not; the facts below relate the two.
\<close>

section \<open>Interpretation\<close>

definition STOP_PRICE_TYPES :: "int list" where
  "STOP_PRICE_TYPES =
     map fst (filter (\<lambda>(_, t). t = STOP_LIMIT \<or> t = STOP_MARKET) RITHMIC_PRICE_TYPE_TO_ORDER_TYPE)"

definition TRIGGERABLE_ORDER_TYPES :: "order_type list" where
  "TRIGGERABLE_ORDER_TYPES = [STOP_LIMIT, TRAILING_STOP_LIMIT, LIMIT_IF_TOUCHED]"

definition order_type_from_fields :: "order_fields \<Rightarrow> order_type" where
  "order_type_from_fields f = (case of_price_type f of
       None \<Rightarrow> MARKET
     | Some raw \<Rightarrow> (case map_of RITHMIC_PRICE_TYPE_TO_ORDER_TYPE raw of None \<Rightarrow> MARKET | Some t \<Rightarrow> t))"

definition tif_from_fields :: "order_fields \<Rightarrow> time_in_force" where
  "tif_from_fields f = (case of_duration f of
       None \<Rightarrow> GTC
     | Some raw \<Rightarrow> (case map_of RITHMIC_DURATION_TO_TIF raw of None \<Rightarrow> GTC | Some t \<Rightarrow> t))"

definition trigger_type_from_fields :: "order_fields \<Rightarrow> trigger_type" where
  "trigger_type_from_fields f = (case of_price_type f of
       None \<Rightarrow> NO_TRIGGER
     | Some raw \<Rightarrow> if raw \<in> set STOP_PRICE_TYPES then TRIGGER_DEFAULT else NO_TRIGGER)"

text \<open>\<open>int(v or 0)\<close>.\<close>

definition int_or_zero :: "pyval \<Rightarrow> int res" where
  "int_or_zero v = py_int (py_or v (PInt 0))"

text \<open>Quantity and filled quantity; unreadable ones count as zero together.\<close>

definition row_quantities :: "order_fields \<Rightarrow> (int \<times> int) res" where
  "row_quantities f =
     (case bindR (int_or_zero (of_quantity f)) (\<lambda>q. bindR (int_or_zero (of_total_fill_size f)) (\<lambda>n. Inr (q, n))) of
        Inr qn \<Rightarrow> Inr qn
      | Inl e \<Rightarrow> if exn_cls e = TypeError \<or> is_value_error e then Inr (0, 0) else Inl e)"

definition order_status_from_fields :: "order_fields \<Rightarrow> order_status res" where
  "order_status_from_fields f =
     (let kind = of_kind f; status_u = str_upper (text_or (of_status f)) in
      bindR (row_quantities f) (\<lambda>(qty, filled).
        Inr (if kind = PStr ''filled'' \<or> (qty > 0 \<and> filled \<ge> qty) then FILLED
             else if kind = PStr ''modify_rejected'' \<or> kind = PStr ''cancel_rejected'' then
               (if qty > 0 \<and> 0 < filled \<and> filled < qty then PARTIALLY_FILLED else ACCEPTED)
             else if kind = PStr ''rejected'' \<or> str_contains ''REJECT'' status_u then REJECTED
             else if kind = PStr ''canceled'' \<or> status_u = ''CANCELLED'' \<or> status_u = ''CANCELED'' then CANCELED
             else if kind = PStr ''expired'' \<or> str_contains ''EXPIRED'' status_u then EXPIRED
             else if qty > 0 \<and> 0 < filled \<and> filled < qty then PARTIALLY_FILLED
             else if kind = PStr ''triggered'' then
               (if order_type_from_fields f \<in> set TRIGGERABLE_ORDER_TYPES then TRIGGERED else ACCEPTED)
             else ACCEPTED)))"

section \<open>The gate (drain.rs)\<close>

definition TRUSTWORTHY_PRICE_TYPES :: "int list" where "TRUSTWORTHY_PRICE_TYPES = [1, 2, 3, 4]"
definition TRUSTWORTHY_DURATIONS :: "int list" where "TRUSTWORTHY_DURATIONS = [1, 2, 3, 4]"

definition RECOGNIZABLE_KINDS :: "string list" where
  "RECOGNIZABLE_KINDS = [''accepted'', ''updated'', ''canceled'', ''filled'', ''rejected'', ''modify_rejected'',
     ''cancel_rejected'', ''expired'', ''triggered'']"

definition STATUS_MARKERS :: "string list" where
  "STATUS_MARKERS = [''OPEN'', ''WORKING'', ''CANCEL'', ''REJECT'', ''EXPIRED'', ''TRIGGER'']"

record row_terms =
  rt_side_known :: bool
  rt_price_type :: "int option"
  rt_duration :: "int option"
  rt_kind :: "string option"
  rt_status :: string

definition rs_row_is_trustworthy :: "row_terms \<Rightarrow> bool" where
  "rs_row_is_trustworthy t =
     (rt_side_known t \<and>
      (case (rt_price_type t, rt_duration t) of
         (Some p, Some d) \<Rightarrow>
           p \<in> set TRUSTWORTHY_PRICE_TYPES \<and> d \<in> set TRUSTWORTHY_DURATIONS \<and>
           ((case rt_kind t of None \<Rightarrow> False | Some k \<Rightarrow> k \<in> set RECOGNIZABLE_KINDS)
            \<or> list_ex (\<lambda>m. str_contains m (str_upper (rt_status t))) STATUS_MARKERS)
       | _ \<Rightarrow> False))"

text \<open>The binding takes 128-bit integers and drops one outside the 64-bit range.\<close>

definition exact_i64 :: "int option \<Rightarrow> int option res" where
  "exact_i64 v = (case v of
       None \<Rightarrow> Inr None
     | Some i \<Rightarrow> if - (2 ^ 127) \<le> i \<and> i < 2 ^ 127 then Inr (if - (2 ^ 63) \<le> i \<and> i < 2 ^ 63 then Some i else None)
                 else Inl (exn_of OverflowError ''int too big to convert''))"

definition row_is_trustworthy :: "order_fields \<Rightarrow> bool res" where
  "row_is_trustworthy f =
     bindR (order_side_from_notification f) (\<lambda>side.
     bindR (exact_i64 (of_price_type f)) (\<lambda>p.
     bindR (exact_i64 (of_duration f)) (\<lambda>d.
       Inr (rs_row_is_trustworthy \<lparr>rt_side_known = (side \<noteq> None), rt_price_type = p, rt_duration = d,
              rt_kind = (case of_kind f of PStr k \<Rightarrow> Some k | _ \<Rightarrow> None), rt_status = text_or (of_status f)\<rparr>))))"

section \<open>Facts\<close>

definition TERMINAL_ORDER_STATUSES :: "order_status list" where
  "TERMINAL_ORDER_STATUSES = [FILLED, CANCELED, REJECTED, EXPIRED]"

lemma exact_i64_Inr: "exact_i64 v = Inr (Some i) \<Longrightarrow> v = Some i"
  by (auto simp: exact_i64_def split: option.splits if_splits)

lemma trusted_price_type:
  "p \<in> set TRUSTWORTHY_PRICE_TYPES \<longleftrightarrow> map_of RITHMIC_PRICE_TYPE_TO_ORDER_TYPE p \<noteq> None"
  by (auto simp: TRUSTWORTHY_PRICE_TYPES_def RITHMIC_PRICE_TYPE_TO_ORDER_TYPE_def)

lemma trusted_duration: "d \<in> set TRUSTWORTHY_DURATIONS \<longleftrightarrow> map_of RITHMIC_DURATION_TO_TIF d \<noteq> None"
  by (auto simp: TRUSTWORTHY_DURATIONS_def RITHMIC_DURATION_TO_TIF_def)

lemma row_is_trustworthy_Inr:
  assumes "row_is_trustworthy f = Inr True"
  shows "\<exists>side. order_side_from_notification f = Inr (Some side)"
    "\<exists>p. of_price_type f = Some p \<and> p \<in> set TRUSTWORTHY_PRICE_TYPES"
    "\<exists>d. of_duration f = Some d \<and> d \<in> set TRUSTWORTHY_DURATIONS"
    "(\<exists>k \<in> set RECOGNIZABLE_KINDS. of_kind f = PStr k)
       \<or> (\<exists>m \<in> set STATUS_MARKERS. str_contains m (str_upper (text_or (of_status f))))"
proof -
  from assms obtain side p d where s: "order_side_from_notification f = Inr side"
    and p: "exact_i64 (of_price_type f) = Inr p" and d: "exact_i64 (of_duration f) = Inr d"
    and t: "rs_row_is_trustworthy \<lparr>rt_side_known = (side \<noteq> None), rt_price_type = p, rt_duration = d,
              rt_kind = (case of_kind f of PStr k \<Rightarrow> Some k | _ \<Rightarrow> None), rt_status = text_or (of_status f)\<rparr>"
    unfolding row_is_trustworthy_def bindR_eq_Inr_iff by blast
  show "\<exists>side. order_side_from_notification f = Inr (Some side)"
    using s t by (cases side) (auto simp: rs_row_is_trustworthy_def)
  show "\<exists>p. of_price_type f = Some p \<and> p \<in> set TRUSTWORTHY_PRICE_TYPES"
    "\<exists>d. of_duration f = Some d \<and> d \<in> set TRUSTWORTHY_DURATIONS"
    using t exact_i64_Inr p d by (auto simp: rs_row_is_trustworthy_def split: option.splits)
  show "(\<exists>k \<in> set RECOGNIZABLE_KINDS. of_kind f = PStr k)
       \<or> (\<exists>m \<in> set STATUS_MARKERS. str_contains m (str_upper (text_or (of_status f))))"
    using t by (auto simp: rs_row_is_trustworthy_def list_ex_iff split: option.splits pyval.splits)
qed

section \<open>Properties\<close>

text \<open>
  Recon never fabricates a terminal outcome. A row reads as terminal only with evidence of that very
  outcome: filled by kind or by a filled quantity that reaches a positive order quantity; rejected,
  canceled or expired by kind or by the venue's status text. A refused modify or cancel is never
  terminal unless the quantities prove the fill.
\<close>

theorem terminal_status_needs_evidence:
  assumes "order_status_from_fields f = Inr st" "row_quantities f = Inr (qty, filled)"
  shows "(st = FILLED \<longleftrightarrow> of_kind f = PStr ''filled'' \<or> (qty > 0 \<and> filled \<ge> qty))
    \<and> (st = REJECTED \<longrightarrow> of_kind f = PStr ''rejected'' \<or> str_contains ''REJECT'' (str_upper (text_or (of_status f))))
    \<and> (st = CANCELED \<longrightarrow> of_kind f = PStr ''canceled''
          \<or> str_upper (text_or (of_status f)) \<in> {''CANCELLED'', ''CANCELED''})
    \<and> (st = EXPIRED \<longrightarrow> of_kind f = PStr ''expired'' \<or> str_contains ''EXPIRED'' (str_upper (text_or (of_status f))))
    \<and> (of_kind f \<in> {PStr ''modify_rejected'', PStr ''cancel_rejected''} \<and> st \<in> set TERMINAL_ORDER_STATUSES
          \<longrightarrow> qty > 0 \<and> filled \<ge> qty)"
  using assms by (auto simp: order_status_from_fields_def Let_def TERMINAL_ORDER_STATUSES_def split: if_splits)

text \<open>
  A row that may bind a venue id carries real terms: its side is known, and the order type and time
  in force the row is interpreted with are the ones its own codes name, never the fallbacks; and its
  state is recognisable.
\<close>

theorem trustworthy_row_terms:
  assumes "row_is_trustworthy f = Inr True"
  shows "\<exists>side p d. order_side_from_notification f = Inr (Some side)
    \<and> of_price_type f = Some p \<and> map_of RITHMIC_PRICE_TYPE_TO_ORDER_TYPE p = Some (order_type_from_fields f)
    \<and> of_duration f = Some d \<and> map_of RITHMIC_DURATION_TO_TIF d = Some (tif_from_fields f)
    \<and> ((\<exists>k \<in> set RECOGNIZABLE_KINDS. of_kind f = PStr k)
       \<or> (\<exists>m \<in> set STATUS_MARKERS. str_contains m (str_upper (text_or (of_status f)))))"
proof -
  from row_is_trustworthy_Inr(1-3) [OF assms] obtain side p d t u
    where "order_side_from_notification f = Inr (Some side)"
      and p: "of_price_type f = Some p" "map_of RITHMIC_PRICE_TYPE_TO_ORDER_TYPE p = Some t"
      and d: "of_duration f = Some d" "map_of RITHMIC_DURATION_TO_TIF d = Some u"
    unfolding trusted_price_type trusted_duration by blast
  moreover have "order_type_from_fields f = t" "tif_from_fields f = u"
    using p d by (simp_all add: order_type_from_fields_def tif_from_fields_def)
  ultimately show ?thesis using row_is_trustworthy_Inr(4) [OF assms] by auto
qed

definition demo_open_row :: pydict where
  "demo_open_row = [(''source'', PStr ''rithmic''), (''notify_type_name'', PStr ''OPEN''), (''symbol'', PStr ''NQU6''),
     (''exchange'', PStr ''CME''), (''account_id'', PStr ''A1''), (''basket_id'', PStr ''B1''), (''user_tag'', PStr ''O-1''),
     (''quantity'', PInt 2), (''transaction_type'', PInt 1), (''price_type'', PInt 1), (''duration'', PInt 1),
     (''price'', PInt 100), (''ts_event_ns'', PInt 7)]"

end
