(* ===== verification/Commission.thy ===== *)
theory Commission
  imports Nautilus
begin

text \<open>
  Venue commission rates: \<open>crates/rithmic-exec/src/commission.rs\<close> (the table and the fallback from product
  rate to account default) and \<open>commission.py\<close> (the registry that turns a rate into money). Rates cross
  the boundary as decimal text.
\<close>

section \<open>The table (commission.rs)\<close>

record commission_table =
  ct_rates :: "(string \<times> string) list"
  ct_default :: "string option"

definition table_new :: commission_table where
  "table_new = \<lparr>ct_rates = [], ct_default = None\<rparr>"

definition usable_row :: "string option \<times> string option \<Rightarrow> (string \<times> string) option" where
  "usable_row r = (case r of
      (Some code, Some rate) \<Rightarrow> if code \<noteq> [] \<and> rate \<noteq> [] then Some (code, rate) else None
    | _ \<Rightarrow> None)"

definition load_products :: "(string option \<times> string option) list \<Rightarrow> commission_table \<Rightarrow> commission_table" where
  "load_products rows t =
     t\<lparr>ct_rates := foldl (\<lambda>m (code, rate). dict_set code rate m) [] (List.map_filter usable_row rows)\<rparr>"

definition load_account_default ::
    "(string \<times> string option) list \<Rightarrow> string option \<Rightarrow> commission_table \<Rightarrow> commission_table" where
  "load_account_default rows active t =
     t\<lparr>ct_default := (case List.find (\<lambda>(account, dflt). dflt \<noteq> None \<and>
          (case active of None \<Rightarrow> True | Some a \<Rightarrow> account = a)) rows of
        None \<Rightarrow> None | Some (_, dflt) \<Rightarrow> dflt)\<rparr>"

definition rate_for :: "commission_table \<Rightarrow> string option \<Rightarrow> string option" where
  "rate_for t product_code =
     (case Option.bind product_code (map_of (ct_rates t)) of Some r \<Rightarrow> Some r | None \<Rightarrow> ct_default t)"

section \<open>The registry (commission.py)\<close>

definition text_opt :: "pyval \<Rightarrow> string option" where
  "text_opt v = (if v = PNone then None else Some (py_str v))"

definition product_rows :: "pydict list \<Rightarrow> (string option \<times> string option) list" where
  "product_rows rows =
     map (\<lambda>row. (text_opt (dget row ''product_code''), text_opt (dget row ''commission_fill_rate''))) rows"

definition account_rows :: "pydict list \<Rightarrow> (string \<times> string option) list" where
  "account_rows rows =
     map (\<lambda>row. (py_str (dget row ''account_id''), text_opt (dget row ''default_commission''))) rows"

definition product_code_for_fill :: "('c, 'x) nt_env_scheme \<Rightarrow> 'c \<Rightarrow> string \<Rightarrow> string \<Rightarrow> string" where
  "product_code_for_fill env cache instrument_id symbol =
     (case ne_instrument env cache instrument_id of
        Some ins \<Rightarrow> (let code = dget (in_info ins) ''rithmic_product_code''
                     in if truthy code then py_str code else symbol)
      | None \<Rightarrow> symbol)"

definition commission_money ::
    "('c, 'x) nt_env_scheme \<Rightarrow> commission_table \<Rightarrow> string option \<Rightarrow> int \<Rightarrow> pydec res" where
  "commission_money env t product_code qty =
     bindR (case rate_for t product_code of Some txt \<Rightarrow> py_decimal txt | None \<Rightarrow> Inr (dec_of_int 0)) (\<lambda>rate.
     bindR (dec_mult_int rate qty) (\<lambda>amount.
     bindR (check_opt (ne_currency env ''USD'') ()) (\<lambda>_.
       check_opt (ne_money env amount ''USD'') amount)))"

section \<open>Facts\<close>

lemma map_of_fold_dict_set:
  "map_of (foldl (\<lambda>m (code, rate). dict_set code rate m) d rows) code
     = (case map_of (rev rows) code of Some r \<Rightarrow> Some r | None \<Rightarrow> map_of d code)"
  by (induction rows arbitrary: d) (auto simp: map_add_def split: option.splits)

lemma map_of_load_products:
  "map_of (ct_rates (load_products rows t)) code = map_of (rev (List.map_filter usable_row rows)) code"
  by (simp add: load_products_def map_of_fold_dict_set split: option.splits)

lemma loads_independent:
  "ct_default (load_products rows t) = ct_default t"
  "ct_rates (load_account_default arows active t) = ct_rates t"
  by (simp_all add: load_products_def load_account_default_def)

lemma dec_value_context_small:
  "c < 10 ^ 28 \<Longrightarrow> dec_value (dec_context neg c e) = dec_value (DFin neg c e)"
  by (simp add: dec_context_def)

lemma scaled_mult: "scaled b k (m * n) = scaled b k m * of_int n"
  by (simp add: scaled_def shift_num_def shift_den_def)

section \<open>Properties\<close>

text \<open>
  The commission of a fill. After both RMS answers are loaded, the rate
  is the last usable product row for the code, else the default of the active account's first row that
  has one, else zero; and the money charged is exactly rate times quantity when the product of the
  coefficient and the quantity stays within the 28 digits of the decimal context.
\<close>

theorem commission_rate_and_amount:
  fixes t :: commission_table
  assumes "qty \<ge> 0"
    and "rate_for (load_account_default arows active (load_products rows t)) (Some code) = Some txt"
    and "py_decimal txt = Inr (DFin neg c e)" "c * qty < 10 ^ 28"
    and "commission_money env (load_account_default arows active (load_products rows t)) (Some code) qty = Inr amount"
  shows "(case map_of (rev (List.map_filter usable_row rows)) code of
            Some r \<Rightarrow> txt = r
          | None \<Rightarrow> \<exists>account. List.find (\<lambda>(account, dflt). dflt \<noteq> None \<and>
                (case active of None \<Rightarrow> True | Some a \<Rightarrow> account = a)) arows = Some (account, Some txt))
     \<and> (\<exists>r. dec_value (DFin neg c e) = Some r \<and> dec_value amount = Some (r * of_int qty))"
proof
  let ?t = "load_account_default arows active (load_products rows t)"
  have rates: "map_of (ct_rates ?t) code = map_of (rev (List.map_filter usable_row rows)) code"
    by (simp only: loads_independent map_of_load_products)
  show "case map_of (rev (List.map_filter usable_row rows)) code of
            Some r \<Rightarrow> txt = r
          | None \<Rightarrow> \<exists>account. List.find (\<lambda>(account, dflt). dflt \<noteq> None \<and>
                (case active of None \<Rightarrow> True | Some a \<Rightarrow> account = a)) arows = Some (account, Some txt)"
    using assms(2) unfolding rate_for_def bind.bind_lunit rates
    by (auto simp: load_account_default_def split: option.splits prod.splits)
  from assms(2,3,5) have "amount = dec_context (neg \<noteq> (qty < 0)) (c * \<bar>qty\<bar>) e"
    by (auto simp: commission_money_def bindR_eq_Inr_iff dec_mult_int_def)
  with assms(1,4) show "\<exists>r. dec_value (DFin neg c e) = Some r \<and> dec_value amount = Some (r * of_int qty)"
    by (simp add: dec_value_context_small scaled_mult)
qed

end
