(* ===== verification/Coro.thy ===== *)
theory Coro
  imports PyValue
begin

text \<open>
  Coroutines on one event loop. An \<open>async\<close> method runs without interruption up to its next \<open>await\<close>,
  where it hands over what it waits for and a continuation; other tasks run before it is resumed with the
  reply. A coroutine is a function from the state to its first step and the state it leaves; a step is
  finished (with a value or an exception) or suspended. \<open>tryC\<close> is \<open>try/except/else\<close> across awaits.

  \<open>segments R m\<close> says that each uninterrupted segment of \<open>m\<close> relates the state it starts in to the state
  it ends in by \<open>R\<close>, whatever happens between segments; its rules follow the combinators.
\<close>

datatype ('s, 'q, 'r, 'a) co_step =
    CoDone "exn + 'a"
  | CoAwait 'q "'r \<Rightarrow> 's \<Rightarrow> ('s, 'q, 'r, 'a) co_step \<times> 's"

type_synonym ('s, 'q, 'r, 'a) co = "'s \<Rightarrow> ('s, 'q, 'r, 'a) co_step \<times> 's"

definition returnC :: "'a \<Rightarrow> ('s, 'q, 'r, 'a) co" where
  "returnC x = (\<lambda>s. (CoDone (Inr x), s))"

definition raiseC :: "exn \<Rightarrow> ('s, 'q, 'r, 'a) co" where
  "raiseC e = (\<lambda>s. (CoDone (Inl e), s))"

text \<open>A call of a synchronous method.\<close>

definition syncC :: "('s, exn, 'a) em \<Rightarrow> ('s, 'q, 'r, 'a) co" where
  "syncC m = (\<lambda>s. case m s of (r, s') \<Rightarrow> (CoDone r, s'))"

primrec step_try :: "('s, 'q, 'r, 'a) co_step \<Rightarrow> (exn \<Rightarrow> ('s, 'q, 'r, 'b) co)
    \<Rightarrow> ('a \<Rightarrow> ('s, 'q, 'r, 'b) co) \<Rightarrow> ('s, 'q, 'r, 'b) co" where
  "step_try (CoDone r) h f = (\<lambda>s. case r of Inl e \<Rightarrow> h e s | Inr x \<Rightarrow> f x s)"
| "step_try (CoAwait q k) h f =
     (\<lambda>s. (CoAwait q (\<lambda>r s'. (\<lambda>(c, s''). c h f s'') (map_prod step_try id (k r s'))), s))"

definition tryC :: "('s, 'q, 'r, 'a) co \<Rightarrow> (exn \<Rightarrow> ('s, 'q, 'r, 'b) co)
    \<Rightarrow> ('a \<Rightarrow> ('s, 'q, 'r, 'b) co) \<Rightarrow> ('s, 'q, 'r, 'b) co" where
  "tryC m h f = (\<lambda>s. case m s of (st, s') \<Rightarrow> step_try st h f s')"

definition bindC :: "('s, 'q, 'r, 'a) co \<Rightarrow> ('a \<Rightarrow> ('s, 'q, 'r, 'b) co) \<Rightarrow> ('s, 'q, 'r, 'b) co" where
  "bindC m f = tryC m raiseC f"

definition thenC :: "('s, 'q, 'r, 'a) co \<Rightarrow> ('s, 'q, 'r, 'b) co \<Rightarrow> ('s, 'q, 'r, 'b) co" where
  "thenC m n = bindC m (\<lambda>_. n)"

definition catchC :: "('s, 'q, 'r, 'a) co \<Rightarrow> (exn \<Rightarrow> ('s, 'q, 'r, 'a) co) \<Rightarrow> ('s, 'q, 'r, 'a) co" where
  "catchC m h = tryC m h returnC"

primrec forC :: "'x list \<Rightarrow> ('x \<Rightarrow> ('s, 'q, 'r, unit) co) \<Rightarrow> ('s, 'q, 'r, unit) co" where
  "forC [] f = returnC ()"
| "forC (x # xs) f = thenC (f x) (forC xs f)"

section \<open>Running to completion\<close>

text \<open>
  Drive a coroutine with a list of replies and nothing in between: the value, the state and the replies
  not used, or \<open>None\<close> when the replies run out.
\<close>

fun drive :: "('s, 'q, 'r, 'a) co_step \<times> 's \<Rightarrow> 'r list \<Rightarrow> ((exn + 'a) \<times> 's) option" where
  "drive (CoDone r, s) rs = Some (r, s)"
| "drive (CoAwait q k, s) [] = None"
| "drive (CoAwait q k, s) (r # rs) = drive (k r s) rs"

section \<open>Segments\<close>

primrec step_segments :: "('s \<Rightarrow> 's \<Rightarrow> bool) \<Rightarrow> ('s, 'q, 'r, 'a) co_step \<Rightarrow> bool" where
  "step_segments R (CoDone r) \<longleftrightarrow> True"
| "step_segments R (CoAwait q k) \<longleftrightarrow>
     (\<forall>r s. R s (snd (k r s)) \<and> fst (map_prod (step_segments R) id (k r s)))"

definition segments :: "('s \<Rightarrow> 's \<Rightarrow> bool) \<Rightarrow> ('s, 'q, 'r, 'a) co \<Rightarrow> bool" where
  "segments R m \<longleftrightarrow> (\<forall>s. R s (snd (m s)) \<and> step_segments R (fst (m s)))"

named_theorems segments_rules "introduction rules for segments"

lemma segmentsI: "(\<And>s. R s (snd (m s))) \<Longrightarrow> (\<And>s. step_segments R (fst (m s))) \<Longrightarrow> segments R m"
  by (simp add: segments_def)

lemma segmentsD: "segments R m \<Longrightarrow> m s = (st, s') \<Longrightarrow> R s s' \<and> step_segments R st"
  by (auto simp: segments_def dest: spec [of _ s])

lemma step_segments_Await: "step_segments R (CoAwait q k) \<longleftrightarrow> (\<forall>r. segments R (k r))"
  by (auto simp: segments_def)

lemma segments_returnC [segments_rules]: "reflp R \<Longrightarrow> segments R (returnC x)"
  by (simp add: segments_def returnC_def reflpD)

lemma segments_raiseC [segments_rules]: "reflp R \<Longrightarrow> segments R (raiseC e)"
  by (simp add: segments_def raiseC_def reflpD)

lemma segments_syncC [segments_rules]: "keeps R m \<Longrightarrow> segments R (syncC m)"
  by (auto simp: segments_def syncC_def keeps_def split: prod.splits) (metis snd_conv)

lemma step_try_segments:
  assumes R: "transp R" "reflp R" and h: "\<And>e. segments R (h e)" and f: "\<And>x. segments R (f x)"
  shows "step_segments R st \<Longrightarrow> segments R (step_try st h f)"
proof (induction st)
  case (CoDone r)
  then show ?case using h f by (cases r) (simp_all add: segments_def)
next
  case (CoAwait q k)
  have IH: "segments R (step_try st h f)" if "(st, s') = k r s" for r s st s'
  proof -
    have "st \<in> Basic_BNFs.fsts (k r s)" using that by (metis fsts.intros fst_conv)
    moreover have "step_segments R st" using CoAwait.prems that by (metis step_segments_Await segmentsD)
    ultimately show ?thesis by (intro CoAwait.IH [of "k r" "k r s" st]) auto
  qed
  have "segments R (\<lambda>s. (\<lambda>(c, s''). c h f s'') (map_prod step_try id (k r s)))" for r
  proof (rule segmentsI)
    fix s
    obtain st s' where ks: "k r s = (st, s')" by fastforce
    have "R s s'" using CoAwait.prems ks by (metis step_segments_Await segmentsD)
    moreover obtain st2 s2 where e: "step_try st h f s' = (st2, s2)" by fastforce
    moreover have "R s' s2 \<and> step_segments R st2" using segmentsD [OF IH [OF ks [symmetric]] e] .
    ultimately have "R s s2 \<and> step_segments R st2" using R(1) by (blast dest: transpD)
    with ks e show "R s (snd ((\<lambda>(c, s''). c h f s'') (map_prod step_try id (k r s))))"
      "step_segments R (fst ((\<lambda>(c, s''). c h f s'') (map_prod step_try id (k r s))))" by simp_all
  qed
  then have "step_segments R (CoAwait q (\<lambda>r s. (\<lambda>(c, s''). c h f s'') (map_prod step_try id (k r s))))"
    by (simp only: step_segments_Await simp_thms)
  then show ?case using R(2) by (simp only: segments_def step_try.simps fst_conv snd_conv) (simp add: reflpD)
qed

lemma segments_tryC [segments_rules]:
  assumes R: "transp R" "reflp R" and "segments R m" "\<And>e. segments R (h e)" "\<And>x. segments R (f x)"
  shows "segments R (tryC m h f)"
proof (rule segmentsI)
  fix s
  obtain st s' where m: "m s = (st, s')" by fastforce
  with assms(3) have *: "R s s'" "step_segments R st" by (auto dest: segmentsD)
  obtain st2 s2 where e: "step_try st h f s' = (st2, s2)" by fastforce
  have "R s' s2 \<and> step_segments R st2"
    using step_try_segments [OF R assms(4,5) *(2)] e by (rule segmentsD)
  with * R(1) have "R s s2" "step_segments R st2" by (auto dest: transpD)
  then show "R s (snd (tryC m h f s))" "step_segments R (fst (tryC m h f s))"
    by (simp_all add: tryC_def m e)
qed

lemma segments_bindC [segments_rules]:
  "transp R \<Longrightarrow> reflp R \<Longrightarrow> segments R m \<Longrightarrow> (\<And>x. segments R (f x)) \<Longrightarrow> segments R (bindC m f)"
  by (simp add: bindC_def segments_tryC segments_raiseC)

lemma segments_thenC [segments_rules]:
  "transp R \<Longrightarrow> reflp R \<Longrightarrow> segments R m \<Longrightarrow> segments R n \<Longrightarrow> segments R (thenC m n)"
  by (simp add: thenC_def segments_bindC)

lemma segments_catchC [segments_rules]:
  "transp R \<Longrightarrow> reflp R \<Longrightarrow> segments R m \<Longrightarrow> (\<And>e. segments R (h e)) \<Longrightarrow> segments R (catchC m h)"
  by (simp add: catchC_def segments_tryC segments_returnC)

lemma segments_forC [segments_rules]:
  "transp R \<Longrightarrow> reflp R \<Longrightarrow> (\<And>x. segments R (f x)) \<Longrightarrow> segments R (forC xs f)"
  by (induction xs) (simp_all add: segments_returnC segments_thenC)

lemma segments_if [segments_rules]:
  "(b \<Longrightarrow> segments R m) \<Longrightarrow> (\<not> b \<Longrightarrow> segments R n) \<Longrightarrow> segments R (if b then m else n)"
  by simp

lemma segments_option [segments_rules]:
  "(x = None \<Longrightarrow> segments R m) \<Longrightarrow> (\<And>y. x = Some y \<Longrightarrow> segments R (f y))
    \<Longrightarrow> segments R (case x of None \<Rightarrow> m | Some y \<Rightarrow> f y)"
  by (cases x) auto

lemma segments_sum [segments_rules]:
  "(\<And>e. x = Inl e \<Longrightarrow> segments R (g e)) \<Longrightarrow> (\<And>y. x = Inr y \<Longrightarrow> segments R (f y))
    \<Longrightarrow> segments R (case x of Inl e \<Rightarrow> g e | Inr y \<Rightarrow> f y)"
  by (cases x) auto

section \<open>Evaluation\<close>

lemma tryC_apply [em_simps]: "tryC m h f s = (case m s of (st, s') \<Rightarrow> step_try st h f s')"
  by (simp add: tryC_def)

lemma bindC_apply [em_simps]: "bindC m f s = (case m s of (st, s') \<Rightarrow> step_try st raiseC f s')"
  by (simp add: bindC_def tryC_def)

lemma thenC_apply [em_simps]: "thenC m n s = (case m s of (st, s') \<Rightarrow> step_try st raiseC (\<lambda>_. n) s')"
  by (simp add: thenC_def bindC_def tryC_def)

lemma catchC_apply [em_simps]: "catchC m h s = (case m s of (st, s') \<Rightarrow> step_try st h returnC s')"
  by (simp add: catchC_def tryC_def)

lemma returnC_apply [em_simps]: "returnC x s = (CoDone (Inr x), s)"
  by (simp add: returnC_def)

lemma raiseC_apply [em_simps]: "raiseC e s = (CoDone (Inl e), s)"
  by (simp add: raiseC_def)

lemma syncC_apply [em_simps]: "syncC m s = (case m s of (r, s') \<Rightarrow> (CoDone r, s'))"
  by (simp add: syncC_def)

lemma tryC_syncC_apply: "tryC (syncC m) h f s = (case m s of (Inl e, s1) \<Rightarrow> h e s1 | (Inr x, s1) \<Rightarrow> f x s1)"
  by (auto simp: em_simps split: prod.splits sum.splits)

lemma bindC_syncC_apply: "bindC (syncC m) f s = (case m s of (Inl e, s1) \<Rightarrow> (CoDone (Inl e), s1) | (Inr x, s1) \<Rightarrow> f x s1)"
  by (auto simp: bindC_def tryC_syncC_apply raiseC_def split: prod.splits sum.splits)

lemma thenC_syncC_apply: "thenC (syncC m) n s = (case m s of (Inl e, s1) \<Rightarrow> (CoDone (Inl e), s1) | (Inr x, s1) \<Rightarrow> n s1)"
  by (simp add: thenC_def bindC_syncC_apply)

lemmas co_simps = tryC_syncC_apply bindC_syncC_apply thenC_syncC_apply syncC_def raiseC_def returnC_def

text \<open>The call a step is suspended on.\<close>

definition awaiting :: "('s, 'q, 'r, 'a) co_step \<Rightarrow> 'q option" where
  "awaiting st = (case st of CoDone _ \<Rightarrow> None | CoAwait q _ \<Rightarrow> Some q)"

lemma awaiting_Some: "awaiting st = Some q \<Longrightarrow> \<exists>k. st = CoAwait q k"
  by (cases st) (simp_all add: awaiting_def)

section \<open>Segments from a state\<close>

definition seg_from :: "('s \<Rightarrow> 's \<Rightarrow> bool) \<Rightarrow> ('s, 'q, 'r, 'a) co \<Rightarrow> 's \<Rightarrow> bool" where
  "seg_from R m s \<longleftrightarrow> R s (snd (m s)) \<and> step_segments R (fst (m s))"

lemma segments_seg_from: "segments R m \<longleftrightarrow> (\<forall>s. seg_from R m s)"
  by (simp add: segments_def seg_from_def)

lemma seg_fromI: "segments R m \<Longrightarrow> seg_from R m s"
  by (simp add: segments_seg_from)

lemma seg_from_trans: "transp R \<Longrightarrow> R s s1 \<Longrightarrow> seg_from R m s1 \<Longrightarrow> m s = m s1 \<Longrightarrow> seg_from R m s"
  by (auto simp: seg_from_def dest: transpD)

text \<open>A synchronous call, then whatever follows from the state it leaves.\<close>

lemma seg_from_try_sync:
  assumes "transp R" "keeps R m"
    "\<And>e s1. m s = (Inl e, s1) \<Longrightarrow> seg_from R (h e) s1" "\<And>x s1. m s = (Inr x, s1) \<Longrightarrow> seg_from R (f x) s1"
  shows "seg_from R (tryC (syncC m) h f) s"
proof -
  obtain r s1 where m: "m s = (r, s1)" by fastforce
  have "R s s1" using assms(2) m by (rule keepsD_eq)
  moreover have "seg_from R (case r of Inl e \<Rightarrow> h e | Inr x \<Rightarrow> f x) s1" using assms(3,4) m by (cases r) auto
  ultimately show ?thesis
    using assms(1) m by (cases r) (auto simp: seg_from_def tryC_def syncC_def dest: transpD)
qed

lemma seg_from_bind_sync:
  assumes "transp R" "reflp R" "keeps R m" "\<And>x s1. m s = (Inr x, s1) \<Longrightarrow> seg_from R (f x) s1"
  shows "seg_from R (bindC (syncC m) f) s"
  unfolding bindC_def using assms by (intro seg_from_try_sync) (simp_all add: seg_fromI segments_raiseC)

lemma seg_from_then_sync:
  assumes "transp R" "reflp R" "keeps R m" "\<And>x s1. m s = (Inr x, s1) \<Longrightarrow> seg_from R n s1"
  shows "seg_from R (thenC (syncC m) n) s"
  unfolding thenC_def using assms by (rule seg_from_bind_sync)

lemma seg_from_option:
  "(x = None \<Longrightarrow> seg_from R m s) \<Longrightarrow> (\<And>y. x = Some y \<Longrightarrow> seg_from R (f y) s)
    \<Longrightarrow> seg_from R (case x of None \<Rightarrow> m | Some y \<Rightarrow> f y) s"
  by (cases x) auto

lemma seg_from_if: "(b \<Longrightarrow> seg_from R m s) \<Longrightarrow> (\<not> b \<Longrightarrow> seg_from R n s) \<Longrightarrow> seg_from R (if b then m else n) s"
  by simp

lemma seg_from_prod: "(\<And>a b. p = (a, b) \<Longrightarrow> seg_from R (f a b) s) \<Longrightarrow> seg_from R (case p of (a, b) \<Rightarrow> f a b) s"
  by (cases p) auto

section \<open>Runs with interference\<close>

text \<open>
  A run of one task: its own segments, with any change of the state between them. The history records for
  each resumption what was awaited, the reply and the state the task resumed in; a run names the step
  reached and the first and the last state of its latest segment.
\<close>

type_synonym ('s, 'q, 'r) history = "('q \<times> 'r \<times> 's) list"

inductive co_run :: "('s, 'q, 'r, 'a) co \<Rightarrow> 's \<Rightarrow> ('s, 'q, 'r) history \<Rightarrow> ('s, 'q, 'r, 'a) co_step \<Rightarrow> 's \<Rightarrow> 's \<Rightarrow> bool"
  for m :: "('s, 'q, 'r, 'a) co" and s :: 's where
  start: "m s = (st, s1) \<Longrightarrow> co_run m s [] st s s1"
| resume: "co_run m s h (CoAwait q k) s0 s1 \<Longrightarrow> k r s2 = (st, s3) \<Longrightarrow> co_run m s (h @ [(q, r, s2)]) st s2 s3"

text \<open>
  Triples over runs. \<open>sat R P m Q E\<close>: from a history and a state with \<open>P\<close>, each segment relates its first
  and last state by \<open>R\<close> (which may depend on the history), a normal result satisfies \<open>Q\<close> and a raised
  one \<open>E\<close>, whatever the replies and the interference.
\<close>

primrec step_sat :: "(('s, 'q, 'r) history \<Rightarrow> 's \<Rightarrow> 's \<Rightarrow> bool) \<Rightarrow> (('s, 'q, 'r) history \<Rightarrow> 'a \<Rightarrow> 's \<Rightarrow> bool)
    \<Rightarrow> (('s, 'q, 'r) history \<Rightarrow> exn \<Rightarrow> 's \<Rightarrow> bool) \<Rightarrow> ('s, 'q, 'r, 'a) co_step \<Rightarrow> ('s, 'q, 'r) history \<Rightarrow> 's \<Rightarrow> bool" where
  "step_sat R Q E (CoDone r) = (\<lambda>h s. case r of Inl e \<Rightarrow> E h e s | Inr x \<Rightarrow> Q h x s)"
| "step_sat R Q E (CoAwait q k) = (\<lambda>h s. \<forall>r s'. (\<lambda>(c, s''). R (h @ [(q, r, s')]) s' s'' \<and> c (h @ [(q, r, s')]) s'')
     (map_prod (step_sat R Q E) id (k r s')))"

definition sat :: "(('s, 'q, 'r) history \<Rightarrow> 's \<Rightarrow> 's \<Rightarrow> bool) \<Rightarrow> (('s, 'q, 'r) history \<Rightarrow> 's \<Rightarrow> bool) \<Rightarrow> ('s, 'q, 'r, 'a) co
    \<Rightarrow> (('s, 'q, 'r) history \<Rightarrow> 'a \<Rightarrow> 's \<Rightarrow> bool) \<Rightarrow> (('s, 'q, 'r) history \<Rightarrow> exn \<Rightarrow> 's \<Rightarrow> bool) \<Rightarrow> bool" where
  "sat R P m Q E \<longleftrightarrow> (\<forall>h s. P h s \<longrightarrow> R h s (snd (m s)) \<and> step_sat R Q E (fst (m s)) h (snd (m s)))"

lemma satI:
  "(\<And>h s st s'. P h s \<Longrightarrow> m s = (st, s') \<Longrightarrow> R h s s' \<and> step_sat R Q E st h s') \<Longrightarrow> sat R P m Q E"
  unfolding sat_def
proof (intro allI impI)
  fix h s
  assume "\<And>h s st s'. P h s \<Longrightarrow> m s = (st, s') \<Longrightarrow> R h s s' \<and> step_sat R Q E st h s'" "P h s"
  from this(1) [of h s "fst (m s)" "snd (m s)", OF this(2)]
  show "R h s (snd (m s)) \<and> step_sat R Q E (fst (m s)) h (snd (m s))" by simp
qed

lemma satD: "sat R P m Q E \<Longrightarrow> P h s \<Longrightarrow> m s = (st, s') \<Longrightarrow> R h s s' \<and> step_sat R Q E st h s'"
  unfolding sat_def by (metis fst_conv snd_conv)

lemma step_sat_Await:
  "step_sat R Q E (CoAwait q k) h s \<longleftrightarrow> (\<forall>r. sat R (\<lambda>h' s'. h' = h @ [(q, r, s')]) (k r) Q E)"
  by (auto simp: sat_def split_beta)

lemma co_run_sat:
  assumes "sat R P m Q E" "co_run m s h st s0 s1" "P [] s"
  shows "R h s0 s1 \<and> step_sat R Q E st h s1"
  using assms(2)
proof induction
  case (start st s1)
  with assms(1,3) show ?case by (blast dest: satD)
next
  case (resume h q k s0 s1 r s2 st s3)
  then have "sat R (\<lambda>h' s'. h' = h @ [(q, r, s')]) (k r) Q E" by (simp only: step_sat_Await)
  then show ?case using resume.hyps by (blast dest: satD)
qed

lemma step_sat_try:
  assumes R: "\<And>h. transp (R h)" and g: "\<And>e. sat R (\<lambda>hs s. E hs e s) (g e) Q' E'" and f: "\<And>x. sat R (\<lambda>hs s. Q hs x s) (f x) Q' E'"
  shows "step_sat R Q E st hs s \<Longrightarrow> step_try st g f s = (st', s')
    \<Longrightarrow> (\<forall>r. st = CoDone r \<longrightarrow> R hs s s') \<and> (\<forall>q k. st = CoAwait q k \<longrightarrow> s' = s) \<and> step_sat R Q' E' st' hs s'"
proof (induction st arbitrary: hs s st' s')
  case (CoDone r)
  then show ?case using satD [OF g] satD [OF f] by (cases r) auto
next
  case (CoAwait q k)
  have "sat R (\<lambda>h' s'. h' = hs @ [(q, r, s')]) (\<lambda>s'. (\<lambda>(c, s''). c g f s'') (map_prod step_try id (k r s'))) Q' E'" for r
  proof (rule satI)
    fix h' s1 st2 s2
    assume h': "h' = hs @ [(q, r, s1)]" and e: "(\<lambda>(c, s''). c g f s'') (map_prod step_try id (k r s1)) = (st2, s2)"
    obtain st1 s1' where k: "k r s1 = (st1, s1')" by fastforce
    have "R h' s1 s1' \<and> step_sat R Q E st1 h' s1'"
      using CoAwait.prems(1) unfolding step_sat_Await using h' k by (blast dest: satD)
    moreover have e': "step_try st1 g f s1' = (st2, s2)" using e k by simp
    moreover have "st1 \<in> Basic_BNFs.fsts (k r s1)" using k by (metis fsts.intros fst_conv)
    ultimately have "R h' s1 s1'" "(\<forall>r. st1 = CoDone r \<longrightarrow> R h' s1' s2) \<and> (\<forall>q k. st1 = CoAwait q k \<longrightarrow> s2 = s1')
        \<and> step_sat R Q' E' st2 h' s2"
      using CoAwait.IH [of "k r" "k r s1" st1 h' s1' st2 s2] by auto
    then show "R h' s1 s2 \<and> step_sat R Q' E' st2 h' s2" using R by (cases st1) (auto dest: transpD)
  qed
  then have "step_sat R Q' E' (CoAwait q (\<lambda>r s'. (\<lambda>(c, s''). c g f s'') (map_prod step_try id (k r s')))) hs s"
    by (simp only: step_sat_Await simp_thms)
  then show ?case using CoAwait.prems(2) by auto
qed

named_theorems sat_rules "introduction rules for triples over runs"

lemma sat_tryC:
  assumes "\<And>h. transp (R h)" "sat R P m Q E" "\<And>e. sat R (\<lambda>h s. E h e s) (g e) Q' E'"
    "\<And>x. sat R (\<lambda>h s. Q h x s) (f x) Q' E'"
  shows "sat R P (tryC m g f) Q' E'"
proof (rule satI)
  fix h s st2 s2
  assume P: "P h s" and e: "tryC m g f s = (st2, s2)"
  obtain st s1 where m: "m s = (st, s1)" by fastforce
  have 1: "R h s s1" "step_sat R Q E st h s1" using satD [OF assms(2) P m] by auto
  have "step_try st g f s1 = (st2, s2)" using e m by (simp add: tryC_def)
  note 2 = step_sat_try [OF assms(1,3,4) 1(2) this]
  then show "R h s s2 \<and> step_sat R Q' E' st2 h s2" using 1(1) assms(1) by (cases st) (auto dest: transpD)
qed

lemma sat_raise:
  assumes "\<And>h. reflp (R h)" "\<And>h s. P h s \<Longrightarrow> E h e s"
  shows "sat R P (raiseC e) Q E"
  by (rule satI) (use assms in \<open>auto simp: raiseC_def reflpD\<close>)

lemma sat_return:
  assumes "\<And>h. reflp (R h)" "\<And>h s. P h s \<Longrightarrow> Q h x s"
  shows "sat R P (returnC x) Q E"
  by (rule satI) (use assms in \<open>auto simp: returnC_def reflpD\<close>)

lemma sat_bindC:
  assumes "\<And>h. transp (R h)" "\<And>h. reflp (R h)" "sat R P m Q E" "\<And>x. sat R (\<lambda>h s. Q h x s) (f x) Q' E"
  shows "sat R P (bindC m f) Q' E"
proof -
  have "sat R (\<lambda>h s. E h e s) (raiseC e) Q' E" for e
    by (rule satI) (use assms(2) in \<open>auto simp: raiseC_def reflpD\<close>)
  then show ?thesis unfolding bindC_def using assms by (intro sat_tryC) auto
qed

lemma sat_thenC:
  assumes "\<And>h. transp (R h)" "\<And>h. reflp (R h)" "sat R P m (\<lambda>h _ s. Q h s) E" "sat R Q n Q' E"
  shows "sat R P (thenC m n) Q' E"
  unfolding thenC_def by (rule sat_bindC [OF assms(1,2,3)]) (rule assms(4))

lemma sat_sync:
  fixes R :: "('s, 'q, 'r) history \<Rightarrow> 's \<Rightarrow> 's \<Rightarrow> bool" and m :: "('s, exn, 'a) em"
  assumes "\<And>h s x s'. P h s \<Longrightarrow> m s = (Inr x, s') \<Longrightarrow> R h s s' \<and> Q h x s'"
    "\<And>h s e s'. P h s \<Longrightarrow> m s = (Inl e, s') \<Longrightarrow> R h s s' \<and> E h e s'"
  shows "sat R P (syncC m) Q E"
proof (rule satI)
  fix h s and st :: "('s, 'q, 'r, 'a) co_step" and s'
  assume P: "P h s" and s: "syncC m s = (st, s')"
  then obtain r where "m s = (r, s')" "st = CoDone r" by (auto simp: syncC_def split: prod.splits)
  with P show "R h s s' \<and> step_sat R Q E st h s'" using assms by (cases r) auto
qed

lemma sat_conseq:
  assumes "sat R P m Q E" "\<And>h s. P' h s \<Longrightarrow> P h s"
  shows "sat R P' m Q E"
  using assms by (auto simp: sat_def)

lemma step_sat_mono:
  assumes "\<And>h x s. Q h x s \<Longrightarrow> Q' h x s" "\<And>h e s. E h e s \<Longrightarrow> E' h e s"
  shows "step_sat R Q E st h s \<Longrightarrow> step_sat R Q' E' st h s"
proof (induction st arbitrary: h s)
  case (CoDone r)
  then show ?case using assms by (cases r) auto
next
  case (CoAwait q k)
  show ?case
    unfolding step_sat_Await
  proof (intro allI satI)
    fix r h' s1 st2 s2
    assume *: "h' = h @ [(q, r, s1)]" "k r s1 = (st2, s2)"
    have "R h' s1 s2 \<and> step_sat R Q E st2 h' s2"
      using CoAwait.prems unfolding step_sat_Await using * by (blast dest: satD)
    moreover have "st2 \<in> Basic_BNFs.fsts (k r s1)" using *(2) by (metis fsts.intros fst_conv)
    ultimately show "R h' s1 s2 \<and> step_sat R Q' E' st2 h' s2" using CoAwait.IH by blast
  qed
qed

lemma sat_weaken:
  assumes "sat R P m Q E" "\<And>h x s. Q h x s \<Longrightarrow> Q' h x s" "\<And>h e s. E h e s \<Longrightarrow> E' h e s"
  shows "sat R P m Q' E'"
  unfolding sat_def
proof (intro allI impI conjI)
  fix h s
  assume "P h s"
  then have *: "R h s (snd (m s))" "step_sat R Q E (fst (m s)) h (snd (m s))" using assms(1) by (auto simp: sat_def)
  show "R h s (snd (m s))" by (rule *(1))
  show "step_sat R Q' E' (fst (m s)) h (snd (m s))" using *(2) by (rule step_sat_mono [rotated -1]) (use assms(2,3) in auto)
qed

text \<open>A coroutine whose segments all keep \<open>R\<close> satisfies it whatever the history.\<close>

lemma sat_segments:
  fixes m :: "('s, 'q, 'r, 'a) co"
  assumes "segments R m"
  shows "sat (\<lambda>_. R) P m (\<lambda>_ _ _. True) (\<lambda>_ _ _. True)"
proof -
  have "step_segments R st \<Longrightarrow> step_sat (\<lambda>_. R) (\<lambda>_ _ _. True) (\<lambda>_ _ _. True) st h s" for st :: "('s, 'q, 'r, 'a) co_step" and h s
  proof (induction st arbitrary: h s)
    case (CoDone r)
    then show ?case by (cases r) auto
  next
    case (CoAwait q k)
    show ?case
      unfolding step_sat_Await
    proof (intro allI satI)
      fix r h' s1 st2 s2
      assume *: "h' = h @ [(q, r, s1)]" "k r s1 = (st2, s2)"
      have "R s1 s2 \<and> step_segments R st2"
        using CoAwait.prems *(2) unfolding step_segments_Await by (blast dest: segmentsD)
      moreover have "st2 \<in> Basic_BNFs.fsts (k r s1)" using *(2) by (metis fsts.intros fst_conv)
      ultimately show "R s1 s2 \<and> step_sat (\<lambda>_. R) (\<lambda>_ _ _. True) (\<lambda>_ _ _. True) st2 h' s2" using CoAwait.IH by blast
    qed
  qed
  then show ?thesis using assms by (auto simp: sat_def segments_def)
qed

section \<open>Results of runs\<close>

text \<open>Triples about results only: any change of the state is allowed in a segment.\<close>

definition yields :: "(('s, 'q, 'r) history \<Rightarrow> 's \<Rightarrow> bool) \<Rightarrow> ('s, 'q, 'r, 'a) co \<Rightarrow> (('s, 'q, 'r) history \<Rightarrow> 'a \<Rightarrow> 's \<Rightarrow> bool) \<Rightarrow> bool" where
  "yields P m Q \<longleftrightarrow> sat (\<lambda>_ _ _. True) P m Q (\<lambda>_ _ _. True)"

lemma segments_any: "segments (\<lambda>_ _. True) (m :: ('s, 'q, 'r, 'a) co)"
proof -
  have "step_segments (\<lambda>_ _. True) st" for st :: "('s, 'q, 'r, 'a) co_step"
    by (induction st) (auto simp: map_prod_def split: prod.splits, metis rangeI)
  then show ?thesis by (simp add: segments_def)
qed

lemma yields_any: "yields P m (\<lambda>_ _ _. True)"
  unfolding yields_def using sat_segments [OF segments_any] .

lemma any_rel: "transp (\<lambda>_ _. True)" "reflp (\<lambda>_ _. True)"
  by (simp_all add: transp_def reflp_def)

lemma yields_bind: "yields P m Q \<Longrightarrow> (\<And>x. yields (\<lambda>h s. Q h x s) (f x) Q') \<Longrightarrow> yields P (bindC m f) Q'"
  unfolding yields_def by (rule sat_bindC) (simp_all add: any_rel)

lemma yields_then: "yields P m (\<lambda>h _ s. Q h s) \<Longrightarrow> yields Q n Q' \<Longrightarrow> yields P (thenC m n) Q'"
  unfolding yields_def by (rule sat_thenC) (simp_all add: any_rel)

lemma yields_try:
  assumes "yields P m Q" "\<And>e. yields (\<lambda>_ _. True) (g e) Q'" "\<And>x. yields (\<lambda>h s. Q h x s) (f x) Q'"
  shows "yields P (tryC m g f) Q'"
  using assms unfolding yields_def by (rule sat_tryC [OF any_rel(1)])

lemma yields_sync: "(\<And>h s x s'. P h s \<Longrightarrow> m s = (Inr x, s') \<Longrightarrow> Q h x s') \<Longrightarrow> yields P (syncC m) Q"
  unfolding yields_def by (rule sat_sync) auto

lemma yields_return: "(\<And>h s. P h s \<Longrightarrow> Q h x s) \<Longrightarrow> yields P (returnC x) Q"
  unfolding yields_def by (rule sat_return) (auto simp: any_rel)

lemma yields_raise: "yields P (raiseC e) Q"
  unfolding yields_def by (rule sat_raise) (auto simp: any_rel)

lemma yields_vacuous: "(\<And>h s. \<not> P h s) \<Longrightarrow> yields P m Q"
  unfolding yields_def by (simp add: sat_def)

lemma yields_if: "(b \<Longrightarrow> yields P m Q) \<Longrightarrow> (\<not> b \<Longrightarrow> yields P n Q) \<Longrightarrow> yields P (if b then m else n) Q"
  by simp

lemma yields_prod: "(\<And>a b. p = (a, b) \<Longrightarrow> yields P (f a b) Q) \<Longrightarrow> yields P (case p of (a, b) \<Rightarrow> f a b) Q"
  by (cases p) auto

lemma yields_run: "yields P m Q \<Longrightarrow> co_run m s h (CoDone (Inr x)) s0 s1 \<Longrightarrow> P [] s \<Longrightarrow> Q h x s1"
  unfolding yields_def by (drule co_run_sat) auto

lemma yields_conseq: "yields P m Q \<Longrightarrow> (\<And>h s. P' h s \<Longrightarrow> P h s) \<Longrightarrow> yields P' m Q"
  unfolding yields_def by (rule sat_conseq)

section \<open>Concrete runs\<close>

text \<open>A run without interference, from a list of replies.\<close>

fun replay :: "('s, 'q, 'r) history \<Rightarrow> 's \<Rightarrow> ('s, 'q, 'r, 'a) co_step \<times> 's \<Rightarrow> 'r list
    \<Rightarrow> ('s, 'q, 'r) history \<times> 's \<times> ('s, 'q, 'r, 'a) co_step \<times> 's" where
  "replay h s0 (CoAwait q k, s1) (r # rs) = replay (h @ [(q, r, s1)]) s1 (k r s1) rs"
| "replay h s0 (st, s1) rs = (h, s0, st, s1)"

lemma replay_co_run:
  "co_run m s h st s0 s1 \<Longrightarrow> replay h s0 (st, s1) rs = (h', s0', st', s1') \<Longrightarrow> co_run m s h' st' s0' s1'"
proof (induction h s0 "(st, s1)" rs arbitrary: st s1 rule: replay.induct)
  case (1 h s0 q k s1 r rs)
  obtain st2 s2 where k: "k r s1 = (st2, s2)" by fastforce
  have "co_run m s (h @ [(q, r, s1)]) st2 s1 s2" using co_run.resume [OF 1(2) k] .
  with 1 k show ?case by simp
qed auto

definition result :: "('s, 'q, 'r, 'a) co_step \<Rightarrow> (exn + 'a) option" where
  "result st = (case st of CoDone r \<Rightarrow> Some r | CoAwait _ _ \<Rightarrow> None)"

lemma result_Some: "result st = Some r \<Longrightarrow> st = CoDone r"
  by (cases st) (simp_all add: result_def)

lemma replay_run:
  obtains h s0 st s1 where "replay [] s (m s) rs = (h, s0, st, s1)" "co_run m s h st s0 s1"
  using replay_co_run [OF co_run.start] by (metis prod.exhaust)

section \<open>The first reply of a run\<close>

lemma co_run_Nil: "co_run m s [] st s0 s1 \<Longrightarrow> m s = (st, s1) \<and> s0 = s"
  by (auto elim: co_run.cases)

lemma co_run_Cons:
  assumes "co_run m s h st s0 s1" "h = (q, r, s2) # h'"
  shows "\<exists>k s3. m s = (CoAwait q k, s3) \<and> co_run (k r) s2 h' st s0 s1"
  using assms
proof (induction arbitrary: h')
  case (resume h q' k' s0 s1 r' s2' st s3)
  show ?case
  proof (cases h)
    case Nil
    with resume show ?thesis by (auto dest: co_run_Nil intro: co_run.start)
  next
    case (Cons x xs)
    with resume.prems have x: "h = (q, r, s2) # xs" and h': "h' = xs @ [(q', r', s2')]" by auto
    from resume.IH [OF x] resume.hyps(2) show ?thesis by (auto simp: h' intro: co_run.resume)
  qed
qed simp

section \<open>Stepping through a handler\<close>

lemma tryC_await: "m s = (CoAwait q k, s') \<Longrightarrow> tryC m h f s = (CoAwait q (\<lambda>r. tryC (k r) h f), s')"
  by (auto simp: tryC_def map_prod_def fun_eq_iff split: prod.splits)

lemma bindC_await: "m s = (CoAwait q k, s') \<Longrightarrow> bindC m f s = (CoAwait q (\<lambda>r. bindC (k r) f), s')"
  by (simp add: bindC_def tryC_await)

lemma tryC_done: "m s = (CoDone r, s') \<Longrightarrow> tryC m h f s = (case r of Inl e \<Rightarrow> h e s' | Inr x \<Rightarrow> f x s')"
  by (simp add: tryC_def)

lemma bindC_done: "m s = (CoDone r, s') \<Longrightarrow> bindC m f s = (case r of Inl e \<Rightarrow> (CoDone (Inl e), s') | Inr x \<Rightarrow> f x s')"
  by (cases r) (simp_all add: bindC_def tryC_done raiseC_def)

end
