(* ===== verification/Host.thy ===== *)
theory Host
  imports OrderPlant Lru OrderRows Commission Coro
begin

text \<open>
  The execution client's state (\<open>RithmicExecutionClient\<close>, \<open>execution.py\<close>) and the synchronous methods
  every part of it shares: account seeding, identity resolution against the cache, prices and routes,
  report builders, the PnL stream handlers and the exposure snapshot. Methods are computations on the
  state that may raise; the platform and the configuration are the environment \<open>client_env\<close>.

  \<open>h_trace\<close> is the history of what the client did: every event it handed over and every session call it
  issued, the latter with the order-plant state and the parent gate at that moment, and every venue id it
  bound. It only grows.
\<close>

section \<open>State\<close>

record 'c client_env = "'c nt_env" +
  ce_enable_trading :: bool
  ce_cfg_account_id :: pyval
  ce_soft_fail_pnl :: bool
  ce_cancel_all_requested :: bool
  ce_brackets :: bool
  ce_attach :: "exn option" \<comment> \<open>what \<open>subscribe_session_events\<close> raises\<close>

datatype session_call =
    CPlaceOrder string string string string int string "pyfloat option" "pyfloat option" string "int option" "int option"
  | CPlaceBracket string string string string int string "pyfloat option" "pyfloat option" string int int
  | CModifyOrder string string string int string "pyfloat option" "pyfloat option" "int option"
  | CCancelOrder string
  | CLoadOrders int int
  | CEnsureConnected | COpenGates bool bool | CDisconnect
  | CSubscribePnl | CDisconnectPnlPlant
  | CSubscribeOrderUpdates | CSubscribeBracketUpdates | CDisconnectOrderPlant
  | CResolvedAccount | CLoadProductRms | CLoadAccountRms
  | CJoinTask string \<comment> \<open>\<open>await\<close> of a cancelled background task\<close>
  | CWaitPnl \<comment> \<open>\<open>wait_for(_pnl_snapshot_observed.wait(), 5.0)\<close>\<close>
  | CNextEvents string \<comment> \<open>\<open>session.next_events\<close> of a stream, on its own thread\<close>
  | CSleep

text \<open>A batch carries the PnL epoch that the fetching thread read before it called the session.\<close>

datatype sess_value = SvUnit | SvRows "pydict list" | SvDict "pydict option" | SvBatch int "pydict list"

type_synonym reply = "exn + sess_value"

datatype trace_item =
    TrEmit emitted
  | TrCall session_call plant_state "bool option"
  | TrBind string string \<comment> \<open>client order id bound to a venue order id\<close>

type_synonym status_key =
  "string \<times> order_status \<times> int \<times> string option \<times> string option \<times> int \<times> pydec option"

text \<open>A poll task attribute: unset, running, or finished and still held.\<close>

datatype poll_task = NoTask | Running | Finished

record 'c host =
  h_plant :: order_plant_policy
  h_seen_fill_keys :: fill_dedup_store
  h_untracked_status_keys :: "status_key untracked_status_book"
  h_account_id :: "string option"
  h_account_seeded :: bool
  h_resolved_account_raw :: "string option"
  h_last_account_state_key :: "(string \<times> string \<times> pydec) option"
  h_commission :: commission_table
  h_positions :: "(string \<times> position_fields) list"
  h_position_seen_ns :: "(string \<times> int) list"
  h_unreadable_position_symbols :: "string list"
  h_pnl_live_since_ns :: "int option"
  h_pnl_snapshot_observed :: bool
  h_pnl_epoch :: int
  h_pnl_connected :: bool
  h_order_poll :: poll_task
  h_pnl_poll :: poll_task
  h_session_trading :: "bool option" \<comment> \<open>\<open>session.trading_enabled\<close>, if the session has it\<close>
  h_reconciliation_active :: bool
  h_cache :: 'c
  h_clock :: nat
  h_trace :: "trace_item list"

type_synonym ('c, 'a) act = "('c host, exn, 'a) em"
type_synonym ('c, 'a) task = "('c host, session_call, reply, 'a) co"

definition MAX_SEEN_FILL_KEYS :: nat where "MAX_SEEN_FILL_KEYS = 10000"
definition ANY_SYMBOL :: string where "ANY_SYMBOL = ''*''"

text \<open>The attributes \<open>__init__\<close> sets, for a bound on the two stores; \<open>host_init\<close> has the source's bound.\<close>

definition host_new :: "nat \<Rightarrow> order_plant_policy \<Rightarrow> 'c \<Rightarrow> bool option \<Rightarrow> 'c host" where
  "host_new bound plant cache trading = \<lparr>
     h_plant = plant, h_seen_fill_keys = fill_store_init bound,
     h_untracked_status_keys = book_init bound, h_account_id = None, h_account_seeded = False,
     h_resolved_account_raw = None, h_last_account_state_key = None, h_commission = table_new,
     h_positions = [], h_position_seen_ns = [], h_unreadable_position_symbols = [],
     h_pnl_live_since_ns = None, h_pnl_snapshot_observed = False, h_pnl_epoch = 0, h_pnl_connected = False,
     h_order_poll = NoTask, h_pnl_poll = NoTask,
     h_session_trading = trading, h_reconciliation_active = False, h_cache = cache, h_clock = 0, h_trace = []\<rparr>"

definition host_init :: "'c \<Rightarrow> bool option \<Rightarrow> 'c host res" where
  "host_init cache trading =
     bindR (policy_init DISCONNECTED) (\<lambda>plant. Inr (host_new MAX_SEEN_FILL_KEYS plant cache trading))"

section \<open>The platform\<close>

definition emit :: "('c, 'x) nt_env_scheme \<Rightarrow> emitted \<Rightarrow> ('c, unit) act" where
  "emit env e = (\<lambda>s. case ne_emit env (h_cache s) e of
       (Some x, c) \<Rightarrow> (Inl x, s\<lparr>h_cache := c\<rparr>)
     | (None, c) \<Rightarrow> (Inr (), s\<lparr>h_cache := c, h_trace := h_trace s @ [TrEmit e]\<rparr>))"

definition timestamp_ns :: "('c, 'x) nt_env_scheme \<Rightarrow> ('c, int) act" where
  "timestamp_ns env = (\<lambda>s. (Inr (ne_clock env (h_clock s)), s\<lparr>h_clock := Suc (h_clock s)\<rparr>))"

text \<open>An identifier constructor: the text itself, or what it raises.\<close>

definition mk_id :: "('c, 'x) nt_env_scheme \<Rightarrow> string \<Rightarrow> ('c, string) act" where
  "mk_id env v = liftE (check_opt (ne_id env v) v)"

lemma mk_id_eq_Inr [em_returned]: "mk_id env v s = (Inr x, s') \<longleftrightarrow> ne_id env v = None \<and> x = v \<and> s' = s"
  by (auto simp: mk_id_def em_returned)

definition cached_order :: "('c, 'x) nt_env_scheme \<Rightarrow> string \<Rightarrow> ('c, nt_order option) act" where
  "cached_order env cid = getE (\<lambda>s. ne_order env (h_cache s) cid)"

definition catchable :: "exn \<Rightarrow> bool" where
  "catchable e \<longleftrightarrow> exn_cls e = TypeError \<or> is_value_error e \<or> exn_cls e = OverflowError"

definition opt_text :: "pyval \<Rightarrow> string option" where
  "opt_text v = (if truthy v then Some (py_str v) else None)"

section \<open>Order plant\<close>

definition set_plant :: "(order_plant_policy \<Rightarrow> order_plant_policy) \<Rightarrow> ('c, unit) act" where
  "set_plant f = modifyE (\<lambda>s. s\<lparr>h_plant := f (h_plant s)\<rparr>)"

definition plant_of :: "'c host \<Rightarrow> plant_state" where
  "plant_of s = pl_state (op_core (h_plant s))"

definition latch_order_plant :: "('c, unit) act" where
  "latch_order_plant = set_plant policy_latch"

definition fill_key_seen :: "string \<Rightarrow> ('c, bool) act" where
  "fill_key_seen k = (\<lambda>s. case has_seen k (h_seen_fill_keys s) of (b, st) \<Rightarrow> (Inr b, s\<lparr>h_seen_fill_keys := st\<rparr>))"

definition mark_fill_key :: "string \<Rightarrow> ('c, unit) act" where
  "mark_fill_key k = modifyE (\<lambda>s. s\<lparr>h_seen_fill_keys := mark k (h_seen_fill_keys s)\<rparr>)"

section \<open>Account\<close>

definition account_raw :: "('c, 'x) client_env_scheme \<Rightarrow> string option \<Rightarrow> 'c host \<Rightarrow> string option" where
  "account_raw env hint s =
     (case hint of Some (c # r) \<Rightarrow> Some (c # r) | _ \<Rightarrow>
       (case h_resolved_account_raw s of Some r \<Rightarrow> Some r | None \<Rightarrow>
         if truthy (ce_cfg_account_id env) then Some (py_str (ce_cfg_account_id env))
         else map_option (str_removeprefix (VENUE @ ''-'')) (h_account_id s)))"

definition set_account_id :: "('c, 'x) client_env_scheme \<Rightarrow> string \<Rightarrow> ('c, unit) act" where
  "set_account_id env raw =
     bindE (mk_id env (VENUE @ ''-'' @ raw)) (\<lambda>aid. modifyE (\<lambda>s. s\<lparr>h_account_id := Some aid\<rparr>))"

definition account_text :: "'c host \<Rightarrow> string" where
  "account_text s = (case h_account_id s of None \<Rightarrow> ''None'' | Some a \<Rightarrow> a)"

definition seed_account_if_needed :: "('c, 'x) client_env_scheme \<Rightarrow> string option \<Rightarrow> ('c, unit) act" where
  "seed_account_if_needed env hint =
     bindE (getE (\<lambda>s. (h_account_seeded s \<and> h_account_id s \<noteq> None, account_raw env hint s))) (\<lambda>(known, raw).
       if known then returnE ()
       else case raw of None \<Rightarrow> returnE () | Some r \<Rightarrow>
         if r = [] then returnE ()
         else
           thenE (bindE (getE h_account_id) (\<lambda>a. if a = None then set_account_id env r else returnE ()))
           (bindE (getE h_account_seeded) (\<lambda>seeded.
             if seeded then returnE ()
             else
               thenE (liftE (check_opt (ne_currency env DEFAULT_ACCOUNT_CURRENCY) ()))
               (thenE (liftE (check_opt (ne_money env (dec_of_int 0) DEFAULT_ACCOUNT_CURRENCY) ()))
               (bindE (timestamp_ns env) (\<lambda>now.
                bindE (getE account_text) (\<lambda>aid.
                thenE (emit env (EvAccountState aid DEFAULT_ACCOUNT_CURRENCY (dec_of_int 0) now True))
                (modifyE (\<lambda>s. s\<lparr>h_last_account_state_key := Some (aid, DEFAULT_ACCOUNT_CURRENCY, dec_of_int 0),
                               h_account_seeded := True\<rparr>)))))))))"

section \<open>Identity\<close>

definition basket_client_id :: "('c, 'x) nt_env_scheme \<Rightarrow> order_fields \<Rightarrow> ('c, string option) act" where
  "basket_client_id env f =
     (case opt_text (of_basket_id f) of
        None \<Rightarrow> returnE None
      | Some b \<Rightarrow> bindE (mk_id env b) (\<lambda>v. getE (\<lambda>s. ne_client_order_id env (h_cache s) v)))"

definition tag_client_id :: "('c, 'x) nt_env_scheme \<Rightarrow> order_fields \<Rightarrow> ('c, string option) act" where
  "tag_client_id env f =
     (case opt_text (of_user_tag f) of
        None \<Rightarrow> returnE None
      | Some tag \<Rightarrow> bindE (mk_id env tag) (\<lambda>cid. bindE (cached_order env cid) (\<lambda>ord.
          case ord of
            Some ord' \<Rightarrow> if od_is_closed ord' then returnE None else bindE (mk_id env tag) (\<lambda>i. returnE (Some i))
          | None \<Rightarrow> returnE None)))"

definition resolve_client_order_id :: "('c, 'x) nt_env_scheme \<Rightarrow> order_fields \<Rightarrow> ('c, string option) act" where
  "resolve_client_order_id env f =
     bindE (basket_client_id env f) (\<lambda>cached.
       case cached of
         None \<Rightarrow> tag_client_id env f
       | Some cid \<Rightarrow> bindE (cached_order env cid) (\<lambda>ord.
           case ord of
             None \<Rightarrow> returnE (Some cid)
           | Some ord' \<Rightarrow> if od_is_closed ord' then tag_client_id env f else returnE (Some cid)))"

definition drain_client_order_id :: "('c, 'x) nt_env_scheme \<Rightarrow> order_fields \<Rightarrow> ('c, string option) act" where
  "drain_client_order_id env f =
     bindE (basket_client_id env f) (\<lambda>cached.
       case cached of Some cid \<Rightarrow> returnE (Some cid) | None \<Rightarrow> resolve_client_order_id env f)"

definition bind_venue_id :: "('c, 'x) nt_env_scheme \<Rightarrow> string \<Rightarrow> string \<Rightarrow> ('c, unit) act" where
  "bind_venue_id env cid venue_id =
     bindE (mk_id env venue_id) (\<lambda>v. (\<lambda>s. case ne_add_venue_order_id env (h_cache s) cid v of
        Inl e \<Rightarrow> (Inl e, s)
      | Inr c \<Rightarrow> (Inr (), s\<lparr>h_cache := c, h_trace := h_trace s @ [TrBind cid v]\<rparr>)))"

definition venue_id_for :: "('c, 'x) nt_env_scheme \<Rightarrow> order_fields \<Rightarrow> string \<Rightarrow> ('c, string) act" where
  "venue_id_for env f cid =
     (case opt_text (of_basket_id f) of
        Some b \<Rightarrow> returnE b
      | None \<Rightarrow> getE (\<lambda>s. case ne_venue_order_id env (h_cache s) cid of
            Some v \<Rightarrow> v
          | None \<Rightarrow> (case opt_text (of_user_tag f) of Some t \<Rightarrow> t | None \<Rightarrow> cid)))"

definition venue_id_for_order :: "('c, 'x) nt_env_scheme \<Rightarrow> nt_order \<Rightarrow> 'c host \<Rightarrow> string option" where
  "venue_id_for_order env order s =
     (case ne_venue_order_id env (h_cache s) (od_client_order_id order) of
        Some v \<Rightarrow> Some v | None \<Rightarrow> od_venue_order_id order)"

definition matches_instrument :: "order_fields \<Rightarrow> string option \<Rightarrow> string option \<Rightarrow> bool" where
  "matches_instrument f instrument_id venue_order_id =
     (case venue_order_id of
        Some v \<Rightarrow> truthy (of_basket_id f) \<and> py_str (of_basket_id f) = v
      | None \<Rightarrow> (case instrument_id of
          None \<Rightarrow> True
        | Some want \<Rightarrow>
            of_instrument_id f = want
            \<or> (case (symbol_and_exchange_from_instrument_id want,
                     symbol_and_exchange_from_instrument_id (of_instrument_id f)) of
                 (Inr (want_sym, want_exch), Inr (ev_sym, ev_exch)) \<Rightarrow>
                   want_sym = ev_sym \<and> (want_exch = None \<or> ev_exch = None \<or> want_exch = ev_exch)
               | _ \<Rightarrow> False)))"

section \<open>Prices and routes\<close>

definition price_from_wire :: "('c, 'x) nt_env_scheme \<Rightarrow> pyval \<Rightarrow> int option \<Rightarrow> nt_price res" where
  "price_from_wire env v prec =
     (case prec of
        None \<Rightarrow> bindR (format_price_str v) (ne_price_from_str env)
      | Some p \<Rightarrow> if p < 0 then Inl (exn_of ConvertError (''price_precision must be >= 0, got '' @ int_str p))
          else bindR (py_float v) (\<lambda>f. ne_price_from_str env (float_fixed (nat p) f)))"

definition price_for_instrument :: "('c, 'x) nt_env_scheme \<Rightarrow> string \<Rightarrow> pyval \<Rightarrow> ('c, nt_price) act" where
  "price_for_instrument env iid v =
     bindE (getE (\<lambda>s. ne_instrument env (h_cache s) iid)) (\<lambda>ins.
       liftE (case ins of Some i \<Rightarrow> ne_make_price env i v | None \<Rightarrow> price_from_wire env v None))"

definition route :: "('c, 'x) nt_env_scheme \<Rightarrow> string \<Rightarrow> ('c, string \<times> string) act" where
  "route env iid =
     bindE (getE (\<lambda>s. ne_instrument env (h_cache s) iid)) (\<lambda>ins.
       liftE (case ins of
          None \<Rightarrow> Inl (exn_of ValueError (''instrument not in cache: '' @ iid))
        | Some i \<Rightarrow> rithmic_route_from_info (in_info i) (Some iid)))"

definition instrument_id_from_order_fields :: "('c, 'x) nt_env_scheme \<Rightarrow> order_fields \<Rightarrow> string option" where
  "instrument_id_from_order_fields env f =
     (if of_instrument_id f = [] \<and> of_symbol f = [] then None
      else case ne_instrument_id env (if of_instrument_id f \<noteq> [] then of_instrument_id f
                                      else of_symbol f @ ''.'' @ VENUE) of
        Inl _ \<Rightarrow> None | Inr i \<Rightarrow> Some i)"

section \<open>Report builders\<close>

text \<open>\<open>ts_event or clock.timestamp_ns()\<close>.\<close>

definition ts_or_clock :: "('c, 'x) nt_env_scheme \<Rightarrow> int \<Rightarrow> ('c, int) act" where
  "ts_or_clock env ts = (if ts = 0 then timestamp_ns env else returnE ts)"

definition fill_terms :: "('c, 'x) nt_env_scheme \<Rightarrow> string \<Rightarrow> pyval \<Rightarrow> pyval \<Rightarrow> ('c, (int \<times> nt_price) option) act" where
  "fill_terms env iid sz px =
     catchE (bindE (liftE (py_int sz)) (\<lambda>q.
             thenE (liftE (check_opt (ne_quantity env q) ()))
             (bindE (price_for_instrument env iid px) (\<lambda>p. returnE (Some (q, p))))))
            (\<lambda>e. if catchable e then returnE None else raiseE e)"

definition commission_for :: "('c, 'x) nt_env_scheme \<Rightarrow> string \<Rightarrow> string \<Rightarrow> int \<Rightarrow> ('c, pydec) act" where
  "commission_for env iid symbol qty =
     bindE (getE (\<lambda>s. commission_money env (h_commission s)
                         (Some (product_code_for_fill env (h_cache s) iid symbol)) qty)) liftE"

definition fill_report_from_fields :: "('c, 'x) client_env_scheme \<Rightarrow> order_fields \<Rightarrow> int \<Rightarrow> ('c, fill_report option) act" where
  "fill_report_from_fields env f ts_event =
     (case (opt_text (of_basket_id f), instrument_id_from_order_fields env f) of
        (Some basket, Some iid) \<Rightarrow>
          thenE (case opt_text (of_account_id f) of None \<Rightarrow> returnE () | Some a \<Rightarrow> seed_account_if_needed env (Some a))
          (bindE (getE h_account_id) (\<lambda>acct. case acct of None \<Rightarrow> returnE None | Some aid \<Rightarrow>
           bindE (liftE (order_side_from_notification f)) (\<lambda>side.
             if of_fill_price f = PNone \<or> of_fill_size f = PNone then returnE None
             else case side of None \<Rightarrow> returnE None | Some sd \<Rightarrow>
               bindE (fill_terms env iid (of_fill_size f) (of_fill_price f)) (\<lambda>terms.
                 case terms of None \<Rightarrow> returnE None | Some (qty, px) \<Rightarrow>
                   bindE (ts_or_clock env ts_event) (\<lambda>report_ts.
                   bindE (mk_id env basket) (\<lambda>void.
                   bindE (liftE (trade_id_from_fill_fields f ts_event)) (\<lambda>tid0.
                   bindE (mk_id env tid0) (\<lambda>tid.
                   bindE (commission_for env iid (of_symbol f) qty) (\<lambda>comm.
                   bindE (timestamp_ns env) (\<lambda>now.
                     (let r = \<lparr>fr_account_id = aid, fr_instrument_id = iid, fr_venue_order_id = void,
                               fr_trade_id = tid, fr_order_side = sd, fr_last_qty = qty, fr_last_px = px,
                               fr_commission = comm, fr_ts_event = report_ts, fr_ts_init = now\<rparr>
                      in liftE (check_opt (ne_fill_report env r) (Some r)))))))))))))
      | _ \<Rightarrow> returnE None)"

definition order_status_report_for :: "('c, 'x) nt_env_scheme \<Rightarrow> nt_order \<Rightarrow> int \<Rightarrow> ('c, order_status_report option) act" where
  "order_status_report_for env order ts_init =
     bindE (getE (\<lambda>s. (venue_id_for_order env order s, h_account_id s))) (\<lambda>(venue, acct).
       case venue of None \<Rightarrow> returnE None | Some v \<Rightarrow>
         bindE (mk_id env v) (\<lambda>void.
         bindE (liftE (if truthy (od_avg_px order) then bindR (py_decimal (py_str (od_avg_px order))) (\<lambda>d. Inr (Some d))
                       else Inr None)) (\<lambda>avg.
           (let r = \<lparr>sr_account_id = acct, sr_instrument_id = od_instrument_id order, sr_venue_order_id = void,
                     sr_order_side = od_side order, sr_order_type = od_type order, sr_time_in_force = od_tif order,
                     sr_order_status = (if od_status order = SUBMITTED then ACCEPTED else od_status order),
                     sr_quantity = od_quantity order, sr_filled_qty = od_filled_qty order,
                     sr_ts_accepted = od_ts_accepted order, sr_ts_last = od_ts_last order, sr_ts_init = ts_init,
                     sr_client_order_id = Some (od_client_order_id order), sr_price = od_price order,
                     sr_trigger_price = od_trigger_price order,
                     sr_trigger_type = (case od_trigger_type order of None \<Rightarrow> NO_TRIGGER | Some t \<Rightarrow> t),
                     sr_reduce_only = od_is_reduce_only order, sr_avg_px = avg\<rparr>
            in liftE (check_opt (ne_status_report env r) (Some r))))))"

fun position_side_of :: "string \<Rightarrow> position_side" where
  "position_side_of side = (if side = ''LONG'' then POS_LONG else if side = ''SHORT'' then POS_SHORT else POS_FLAT)"

definition position_report_from_fields ::
    "('c, 'x) client_env_scheme \<Rightarrow> position_fields \<Rightarrow> int \<Rightarrow> ('c, position_status_report option) act" where
  "position_report_from_fields env f ts_init =
     thenE (bindE (getE h_account_id) (\<lambda>a. case (a, opt_text (pf_account_id f)) of
              (None, Some raw) \<Rightarrow> set_account_id env raw | _ \<Rightarrow> returnE ()))
     (bindE (getE h_account_id) (\<lambda>a. case a of None \<Rightarrow> returnE None | Some aid \<Rightarrow>
        bindE (liftE (if pf_avg_px_open f = PNone then Inr None
                      else bindR (py_decimal (py_str (pf_avg_px_open f))) (\<lambda>d. Inr (Some d)))) (\<lambda>avg.
        bindE (liftE (ne_instrument_id env (pf_instrument_id f))) (\<lambda>iid.
        thenE (liftE (check_opt (ne_quantity env (pf_quantity f)) ()))
          (let r = \<lparr>pr_account_id = aid, pr_instrument_id = iid,
                    pr_position_side = position_side_of (pf_position_side f), pr_quantity = pf_quantity f,
                    pr_ts_init = ts_init, pr_avg_px_open = avg\<rparr>
           in liftE (check_opt (ne_position_report env r) (Some r)))))))"

section \<open>The PnL stream\<close>

definition note_pnl_observed :: "('c, 'x) nt_env_scheme \<Rightarrow> int option \<Rightarrow> ('c, unit) act" where
  "note_pnl_observed env now_ns =
     thenE (bindE (getE h_pnl_live_since_ns) (\<lambda>live.
              if live = None then
                bindE (case now_ns of None \<Rightarrow> timestamp_ns env | Some n \<Rightarrow> returnE n) (\<lambda>n.
                  modifyE (\<lambda>s. s\<lparr>h_pnl_live_since_ns := Some n\<rparr>))
              else returnE ()))
     (modifyE (\<lambda>s. s\<lparr>h_pnl_snapshot_observed := True\<rparr>))"

definition forget_pnl_state :: "('c, unit) act" where
  "forget_pnl_state = modifyE (\<lambda>s. s\<lparr>h_pnl_epoch := h_pnl_epoch s + 1, h_pnl_snapshot_observed := False,
     h_pnl_live_since_ns := None, h_positions := [], h_position_seen_ns := [],
     h_unreadable_position_symbols := []\<rparr>)"

definition rows_seen_since :: "int \<Rightarrow> 'c host \<Rightarrow> (string \<times> position_fields) list" where
  "rows_seen_since live s =
     filter (\<lambda>(key, _). (case map_of (h_position_seen_ns s) key of None \<Rightarrow> 0 | Some t \<Rightarrow> t) \<ge> live) (h_positions s)"

definition positions_known :: "'c host \<Rightarrow> bool" where
  "positions_known s \<longleftrightarrow> h_pnl_live_since_ns s \<noteq> None \<and> ANY_SYMBOL \<notin> set (h_unreadable_position_symbols s)"

definition position_unreadable_for :: "string \<Rightarrow> 'c host \<Rightarrow> bool" where
  "position_unreadable_for rt s =
     list_ex (\<lambda>symbol. symbol = ANY_SYMBOL \<or> matches_root symbol rt) (h_unreadable_position_symbols s)"

definition exposure_snapshot_of :: "('c, 'x) nt_env_scheme \<Rightarrow> string \<Rightarrow> int option \<Rightarrow> int option \<Rightarrow> bool
    \<Rightarrow> ('c, exposure_snapshot) act" where
  "exposure_snapshot_of env rt open_orders drain_ts is_reply =
     bindE (getE (\<lambda>s. if position_unreadable_for rt s then None else h_pnl_live_since_ns s)) (\<lambda>live.
     bindE (case live of
              None \<Rightarrow> returnE None
            | Some l \<Rightarrow> bindE (getE (\<lambda>s. signed_net (map snd (rows_seen_since l s)) rt)) (\<lambda>r.
                bindE (liftE r) (\<lambda>n. returnE (Some n)))) (\<lambda>net.
     bindE (timestamp_ns env) (\<lambda>now.
       returnE \<lparr>ex_root = str_upper (str_strip rt), ex_net = net, ex_open_orders = open_orders,
                ex_pnl_ts_ns = live, ex_drain_ts_ns = drain_ts, ex_ts_init = now, ex_reply = is_reply\<rparr>)))"

definition publish_exposure :: "('c, 'x) nt_env_scheme \<Rightarrow> exposure_snapshot \<Rightarrow> ('c, unit) act" where
  "publish_exposure env snap = emit env (EvExposure (exposure_topic (ex_root snap)) snap)"

definition same_account_key :: "(string \<times> string \<times> pydec) option \<Rightarrow> string \<times> string \<times> pydec \<Rightarrow> bool" where
  "same_account_key last_key k =
     (case (last_key, k) of
        (Some (a, c, d), (a', c', d')) \<Rightarrow> a = a' \<and> c = c' \<and> dec_eq d d'
      | (None, _) \<Rightarrow> False)"

text \<open>The balance of an account row: finite, or the row is dropped.\<close>

definition free_balance :: "account_pnl_fields \<Rightarrow> pydec option" where
  "free_balance f =
     (let raw = (if ap_cash_on_hand f \<noteq> PNone then ap_cash_on_hand f else ap_account_balance f)
      in if raw = PNone then None
         else case py_decimal (py_str raw) of
           Inr (DFin neg c e) \<Rightarrow> Some (DFin neg c e)
         | _ \<Rightarrow> None)"

definition publish_account :: "('c, 'x) client_env_scheme \<Rightarrow> pydict \<Rightarrow> ('c, unit) act" where
  "publish_account env event =
     (case account_pnl_to_fields event of
        Inl _ \<Rightarrow> returnE ()
      | Inr f \<Rightarrow> (case free_balance f of
          None \<Rightarrow> returnE ()
        | Some free \<Rightarrow>
            (let currency = py_str (py_or (ap_currency f) (PStr DEFAULT_ACCOUNT_CURRENCY)) in
             thenE (liftE (check_opt (ne_currency env currency) ()))
             (bindE (mk_id env (VENUE @ ''-'' @ ap_account_id f)) (\<lambda>account_id.
              thenE (modifyE (\<lambda>s. if h_account_id s = None then s\<lparr>h_account_id := Some account_id\<rparr> else s))
              (thenE (seed_account_if_needed env (Some (ap_account_id f)))
              (thenE (liftE (check_opt (ne_money env free currency) ()))
              (thenE (liftE (check_opt (ne_money env (dec_of_int 0) currency) ()))
              (bindE (getE h_last_account_state_key) (\<lambda>last_key.
                if same_account_key last_key (account_id, currency, free) then note_pnl_observed env None
                else
                  bindE (timestamp_ns env) (\<lambda>now.
                  bindE (getE account_text) (\<lambda>aid.
                  thenE (emit env (EvAccountState aid currency free now False))
                  (thenE (modifyE (\<lambda>s. s\<lparr>h_last_account_state_key := Some (account_id, currency, free)\<rparr>))
                  (note_pnl_observed env None))))))))))))))"

definition cache_position :: "('c, 'x) client_env_scheme \<Rightarrow> pydict \<Rightarrow> ('c, unit) act" where
  "cache_position env event =
     (case instrument_pnl_to_fields event of
        Inl _ \<Rightarrow>
          (let raw = str_strip (text_or (dget event ''symbol''))
           in modifyE (\<lambda>s. s\<lparr>h_unreadable_position_symbols :=
                List.insert (if raw = [] then ANY_SYMBOL else raw) (h_unreadable_position_symbols s)\<rparr>))
      | Inr f \<Rightarrow>
          thenE (modifyE (\<lambda>s. s\<lparr>h_unreadable_position_symbols :=
                   removeAll (str_strip (pf_symbol f)) (h_unreadable_position_symbols s)\<rparr>))
          (bindE (timestamp_ns env) (\<lambda>now.
           thenE (modifyE (\<lambda>s. s\<lparr>h_positions := dict_set (pf_instrument_id f) f (h_positions s)\<rparr>))
           (thenE (case opt_text (pf_account_id f) of
                     None \<Rightarrow> returnE () | Some a \<Rightarrow> seed_account_if_needed env (Some a))
           (thenE (note_pnl_observed env (Some now))
           (thenE (modifyE (\<lambda>s. s\<lparr>h_position_seen_ns := dict_set (pf_instrument_id f) now (h_position_seen_ns s)\<rparr>))
           (catchE (bindE (exposure_snapshot_of env (product_root (pf_symbol f)) None None False) (publish_exposure env))
                   (\<lambda>_. returnE ()))))))))"

definition dispatch_pnl_event :: "('c, 'x) client_env_scheme \<Rightarrow> pydict \<Rightarrow> ('c, unit) act" where
  "dispatch_pnl_event env event =
     (if dget event ''type'' = PStr ''account_pnl'' then publish_account env event
      else if dget event ''type'' = PStr ''instrument_pnl'' then cache_position env event
      else returnE ())"


section \<open>Frames\<close>

text \<open>
  The synchronous helpers touch only a few parts of the state: the cache, the clock, the account
  registration, and the trace by passive events (reports and account states). A relation between states
  that these changes respect is kept by every helper; this is proved once here, and the components use
  it for the relations their invariants need. \<open>read_frame\<close> covers the helpers that only read,
  \<open>passive_frame\<close> those that also register the account and publish reports, \<open>binding_frame\<close> those that bind
  venue ids.
\<close>

definition passive_event :: "emitted \<Rightarrow> bool" where
  "passive_event e = (case e of EvStatusReport _ \<Rightarrow> True | EvAccountState _ _ _ _ _ \<Rightarrow> True | _ \<Rightarrow> False)"

locale read_frame =
  fixes R :: "'c host \<Rightarrow> 'c host \<Rightarrow> bool"
  assumes refl: "reflp R" and trans: "transp R"
begin

lemmas frame_rules = keeps_rules refl trans

lemma keeps_mk_id: "keeps R (mk_id env v)"
  unfolding mk_id_def by (intro frame_rules)

lemma keeps_cached_order: "keeps R (cached_order env cid)"
  unfolding cached_order_def by (intro frame_rules)

lemma keeps_basket_client_id: "keeps R (basket_client_id env f)"
  unfolding basket_client_id_def by (intro frame_rules keeps_mk_id)

lemma keeps_tag_client_id: "keeps R (tag_client_id env f)"
  unfolding tag_client_id_def by (intro frame_rules keeps_mk_id keeps_cached_order)

lemma keeps_resolve: "keeps R (resolve_client_order_id env f)"
  unfolding resolve_client_order_id_def
  by (intro frame_rules keeps_basket_client_id keeps_tag_client_id keeps_cached_order)

lemma keeps_drain_client_order_id: "keeps R (drain_client_order_id env f)"
  unfolding drain_client_order_id_def by (intro frame_rules keeps_basket_client_id keeps_resolve)

lemma keeps_venue_id_for: "keeps R (venue_id_for env f cid)"
  unfolding venue_id_for_def by (intro frame_rules)

lemma keeps_price_for_instrument: "keeps R (price_for_instrument env iid v)"
  unfolding price_for_instrument_def by (intro frame_rules)

lemma keeps_route: "keeps R (route env iid)"
  unfolding route_def by (intro frame_rules)

lemma keeps_fill_terms: "keeps R (fill_terms env iid sz px)"
  unfolding fill_terms_def by (intro frame_rules keeps_price_for_instrument)

lemma keeps_commission_for: "keeps R (commission_for env iid symbol qty)"
  unfolding commission_for_def by (intro frame_rules)

lemma keeps_order_status_report_for: "keeps R (order_status_report_for env order ts)"
  unfolding order_status_report_for_def by (intro frame_rules keeps_mk_id)

end

text \<open>Nothing changes at all.\<close>

interpretation unchanged: read_frame "(=)"
  by unfold_locales (auto simp: reflp_def transp_def)

locale passive_frame = read_frame +
  assumes cache: "R s (s\<lparr>h_cache := c\<rparr>)"
    and clock: "R s (s\<lparr>h_clock := n\<rparr>)"
    and account: "R s (s\<lparr>h_account_id := a\<rparr>)"
    and seeded: "R s (s\<lparr>h_last_account_state_key := k, h_account_seeded := b\<rparr>)"
    and report: "passive_event e \<Longrightarrow> R s (s\<lparr>h_cache := c, h_trace := h_trace s @ [TrEmit e]\<rparr>)"
begin

lemma keeps_emit: "passive_event e \<Longrightarrow> keeps R (emit env e)"
  by (rule keepsI) (auto simp: emit_def cache report split: prod.splits option.splits)

lemma keeps_timestamp_ns: "keeps R (timestamp_ns env)"
  by (rule keepsI) (simp add: timestamp_ns_def clock)

lemma keeps_set_account_id: "keeps R (set_account_id env raw)"
  unfolding set_account_id_def by (intro frame_rules keeps_mk_id keeps_modifyE account)

lemma keeps_seed: "keeps R (seed_account_if_needed env hint)"
  unfolding seed_account_if_needed_def
  by (intro frame_rules keeps_set_account_id keeps_timestamp_ns keeps_emit keeps_modifyE seeded)
     (simp add: passive_event_def)

lemma keeps_ts_or_clock: "keeps R (ts_or_clock env ts)"
  unfolding ts_or_clock_def by (intro frame_rules keeps_timestamp_ns)

lemma keeps_fill_report: "keeps R (fill_report_from_fields env f ts)"
  unfolding fill_report_from_fields_def
  by (intro frame_rules keeps_seed keeps_fill_terms keeps_ts_or_clock keeps_mk_id keeps_commission_for
      keeps_timestamp_ns)

lemma keeps_position_report: "keeps R (position_report_from_fields env f ts)"
  unfolding position_report_from_fields_def by (intro frame_rules keeps_set_account_id)

end

locale binding_frame = passive_frame +
  assumes bound: "R s (s\<lparr>h_cache := c, h_trace := h_trace s @ [TrBind i v]\<rparr>)"
begin

lemma keeps_bind_venue_id: "keeps R (bind_venue_id env cid v)"
proof -
  have "keeps R (\<lambda>s. case ne_add_venue_order_id env (h_cache s) cid v of
      Inl e \<Rightarrow> (Inl e, s)
    | Inr c \<Rightarrow> (Inr (), s\<lparr>h_cache := c, h_trace := h_trace s @ [TrBind cid v]\<rparr>))" for v
    by (rule keepsI) (auto simp: bound reflpD [OF refl] split: sum.splits)
  then show ?thesis unfolding bind_venue_id_def by (intro frame_rules keeps_mk_id)
qed

end

text \<open>The trace only grows.\<close>

definition extends :: "'c host \<Rightarrow> 'c host \<Rightarrow> bool" where
  "extends s s' \<longleftrightarrow> prefix (h_trace s) (h_trace s')"

interpretation extends: binding_frame extends
  by unfold_locales (auto simp: extends_def reflp_def transp_def)

section \<open>Session calls\<close>

text \<open>\<open>await asyncio.to_thread(session.call)\<close>: the call is issued, and the task resumes with its outcome.\<close>

definition log_call :: "session_call \<Rightarrow> 'c host \<Rightarrow> 'c host" where
  "log_call call s = s\<lparr>h_trace := h_trace s @ [TrCall call (plant_of s) (h_session_trading s)]\<rparr>"

definition awaitC :: "session_call \<Rightarrow> ('c, sess_value) task" where
  "awaitC call = (\<lambda>s. (CoAwait call (\<lambda>r s'. (CoDone r, s')), log_call call s))"

lemma seg_from_await:
  assumes "R s (log_call call s)" "\<And>e. segments R (h e)" "\<And>x. segments R (f x)"
  shows "seg_from R (tryC (awaitC call) h f) s"
proof -
  have "segments R (\<lambda>s. (\<lambda>(c, s'). c h f s') (map_prod step_try id (CoDone r, s)))" for r
    using assms(2,3) by (cases r) simp_all
  then show ?thesis
    using assms(1) by (simp add: seg_from_def tryC_def awaitC_def del: step_segments.simps add: step_segments_Await)
qed

section \<open>A concrete client\<close>

text \<open>The instance the witnesses run: trading enabled, one instrument, one submitted order of the node.\<close>

definition demo_client :: "demo_cache client_env" where
  "demo_client = nt_env.extend demo_env (client_env.fields True (PStr ''A1'') False False True None)"

definition demo_order :: nt_order where
  "demo_order = \<lparr>od_strategy_id = ''S-1'', od_instrument_id = ''NQU6-CME.RITHMIC'', od_client_order_id = ''O-1'',
     od_venue_order_id = None, od_side = BUY, od_type = LIMIT, od_tif = DAY, od_status = SUBMITTED,
     od_quantity = 2, od_filled_qty = 0, od_leaves_qty = Some 2,
     od_price = Some \<lparr>px_text = ''100.0'', px_float = Fin 100, px_precision = 1\<rparr>, od_trigger_price = None,
     od_trigger_type = None, od_is_closed = False, od_is_inflight = True, od_is_reduce_only = False,
     od_ts_accepted = 0, od_ts_last = 1, od_avg_px = PNone, od_offset_type = None, od_offset = None,
     od_parent_order_id = None, od_linked_order_ids = []\<rparr>"

definition demo_instrument :: nt_instrument where
  "demo_instrument = \<lparr>in_id = ''NQU6-CME.RITHMIC'',
     in_info = [(''rithmic_symbol'', PStr ''NQU6''), (''rithmic_exchange'', PStr ''CME'')],
     in_price_increment = Fin (1 / 4), in_price_precision = 2, in_size_precision = 0\<rparr>"

definition demo_cache0 :: demo_cache where
  "demo_cache0 = \<lparr>dc_orders = [(''O-1'', demo_order)], dc_venue_ids = [],
     dc_instruments = [(''NQU6-CME.RITHMIC'', demo_instrument)], dc_positions = []\<rparr>"

definition demo_host :: "demo_cache host" where
  "demo_host = host_new 4 (projr (policy_init DISCONNECTED)) demo_cache0 (Some True)"

end
