(* ===== verification/Recon.thy ===== *)
theory Recon
  imports Host
begin

text \<open>
  \<open>recon.py\<close> (\<open>WorkingOrdersDrain\<close>) and the decisions of \<open>drain.rs\<close>: which drain row wins per order, when
  a row must not move local state, the status and fill report lists, and the application of a drain
  before re-arming. The drain is a best-effort snapshot: it publishes before it binds, and a failed
  publication aborts the barrier.
\<close>

section \<open>Decisions (drain.rs)\<close>

text \<open>The loop state: keys in order of first appearance and the winning index per key.\<close>

fun freshest_loop :: "(string \<times> int) list \<Rightarrow> nat \<Rightarrow> (string \<times> int) list \<Rightarrow> string list \<times> (string \<times> nat) list
    \<Rightarrow> string list \<times> (string \<times> nat) list" where
  "freshest_loop rows i [] st = st"
| "freshest_loop rows i ((key, ts) # rest) (order, winner) =
     freshest_loop rows (Suc i) rest
       (case map_of winner key of
          None \<Rightarrow> (order @ [key], dict_set key i winner)
        | Some current \<Rightarrow> if ts \<ge> snd (rows ! current) then (order, dict_set key i winner) else (order, winner))"

definition freshest_per_key :: "(string \<times> int) list \<Rightarrow> nat list" where
  "freshest_per_key rows =
     (case freshest_loop rows 0 rows ([], []) of (order, winner) \<Rightarrow> map (\<lambda>k. the (map_of winner k)) order)"

record stale_facts =
  sf_order_closed :: bool
  sf_live_stream_authoritative :: bool
  sf_report_non_terminal :: bool
  sf_row_ts_ns :: int
  sf_order_ts_last_ns :: int

definition stale_reason :: "stale_facts \<Rightarrow> string option" where
  "stale_reason f =
     (if sf_order_closed f then
        (if sf_live_stream_authoritative f then Some ''order closed locally''
         else if sf_report_non_terminal f then Some ''non-terminal snapshot for locally closed order'' else None)
      else if sf_live_stream_authoritative f \<and> sf_row_ts_ns f \<noteq> 0 \<and> sf_order_ts_last_ns f > sf_row_ts_ns f then
        Some ''live stream advanced past the snapshot''
      else None)"

section \<open>One row\<close>

record drain_row =
  dr_fields :: order_fields
  dr_ts_event :: int
  dr_report :: "order_status_report option"
  dr_bindable :: bool

definition client_order_id_for_tag :: "('c, 'x) nt_env_scheme \<Rightarrow> pyval \<Rightarrow> ('c, string option) act" where
  "client_order_id_for_tag env tag =
     (case opt_text tag of None \<Rightarrow> returnE None | Some t \<Rightarrow> bindE (mk_id env t) (\<lambda>i. returnE (Some i)))"

definition quantity_of :: "('c, 'x) nt_env_scheme \<Rightarrow> pyval \<Rightarrow> ('c, int) act" where
  "quantity_of env v =
     bindE (liftE (int_or_zero v)) (\<lambda>i. liftE (check_opt (ne_quantity env (max 0 i)) (max 0 i)))"

definition opt_price :: "('c, 'x) nt_env_scheme \<Rightarrow> pyval \<Rightarrow> ('c, nt_price option) act" where
  "opt_price env v =
     (if v = PNone then returnE None else bindE (liftE (price_from_wire env v None)) (\<lambda>p. returnE (Some p)))"

definition build_status_report :: "('c, 'x) nt_env_scheme \<Rightarrow> order_fields \<Rightarrow> int \<Rightarrow> string \<Rightarrow> string \<Rightarrow> string
    \<Rightarrow> ('c, order_status_report option) act" where
  "build_status_report env f ts_event aid basket iid =
     bindE (liftE (order_side_from_notification f)) (\<lambda>side.
     bindE (quantity_of env (of_quantity f)) (\<lambda>qty.
     bindE (quantity_of env (of_total_fill_size f)) (\<lambda>filled.
     bindE (opt_price env (of_price f)) (\<lambda>price.
     bindE (opt_price env (of_trigger_price f)) (\<lambda>trigger.
     bindE (if of_avg_fill_price f = PNone then returnE None
            else bindE (liftE (py_decimal (py_str (of_avg_fill_price f)))) (\<lambda>d. returnE (Some d))) (\<lambda>avg.
     if qty \<le> 0 then returnE None
     else
       bindE (liftE (order_status_from_fields f)) (\<lambda>status.
       bindE (ts_or_clock env ts_event) (\<lambda>report_ts.
       bindE (mk_id env basket) (\<lambda>void.
       bindE (timestamp_ns env) (\<lambda>now.
       bindE (client_order_id_for_tag env (of_user_tag f)) (\<lambda>cid.
         (let r = \<lparr>sr_account_id = Some aid, sr_instrument_id = iid, sr_venue_order_id = void,
                   sr_order_side = (case side of None \<Rightarrow> BUY | Some sd \<Rightarrow> sd),
                   sr_order_type = order_type_from_fields f, sr_time_in_force = tif_from_fields f,
                   sr_order_status = status, sr_quantity = qty, sr_filled_qty = filled,
                   sr_ts_accepted = report_ts, sr_ts_last = report_ts, sr_ts_init = now,
                   sr_client_order_id = cid, sr_price = price, sr_trigger_price = trigger,
                   sr_trigger_type = trigger_type_from_fields f, sr_reduce_only = False, sr_avg_px = avg\<rparr>
          in liftE (check_opt (ne_status_report env r) (Some r))))))))))))))"

definition order_status_report_from_fields ::
    "('c, 'x) client_env_scheme \<Rightarrow> order_fields \<Rightarrow> int \<Rightarrow> ('c, order_status_report option) act" where
  "order_status_report_from_fields env f ts_event =
     (case (opt_text (of_basket_id f), instrument_id_from_order_fields env f) of
        (Some basket, Some iid) \<Rightarrow>
          thenE (case opt_text (of_account_id f) of None \<Rightarrow> returnE () | Some a \<Rightarrow> seed_account_if_needed env (Some a))
          (bindE (getE h_account_id) (\<lambda>acct. case acct of None \<Rightarrow> returnE None | Some aid \<Rightarrow>
             catchE (build_status_report env f ts_event aid basket iid)
                    (\<lambda>e. if catchable e then returnE None else raiseE e)))
      | _ \<Rightarrow> returnE None)"

definition drain_row_from_fields :: "('c, 'x) client_env_scheme \<Rightarrow> order_fields \<Rightarrow> int \<Rightarrow> ('c, drain_row) act" where
  "drain_row_from_fields env f ts_event =
     bindE (order_status_report_from_fields env f ts_event) (\<lambda>report.
     bindE (if report = None then returnE False else liftE (row_is_trustworthy f)) (\<lambda>bindable.
       returnE \<lparr>dr_fields = f, dr_ts_event = ts_event, dr_report = report, dr_bindable = bindable\<rparr>))"

section \<open>The raw-row pipeline\<close>

text \<open>
  \<open>for row in iter_drain_rows(events)\<close>: the generator interprets a row when the loop asks for it, so the
  body's effects interleave with the interpretation of the next row.
\<close>

fun fold_drain_rows :: "('c, 'x) client_env_scheme \<Rightarrow> ('b \<Rightarrow> drain_row \<Rightarrow> ('c, 'b) act) \<Rightarrow> 'b \<Rightarrow> pydict list
    \<Rightarrow> ('c, 'b) act" where
  "fold_drain_rows env body acc [] = returnE acc"
| "fold_drain_rows env body acc (raw # events) =
     (case order_notification_to_fields raw of
        Inl _ \<Rightarrow> fold_drain_rows env body acc events
      | Inr f \<Rightarrow>
          if \<not> truthy (of_basket_id f) then fold_drain_rows env body acc events
          else bindE (drain_row_from_fields env f (case of_ts_event f of None \<Rightarrow> 0 | Some t \<Rightarrow> t)) (\<lambda>row.
               if dr_report row = None then fold_drain_rows env body acc events
               else bindE (body acc row) (\<lambda>acc'. fold_drain_rows env body acc' events)))"

definition iter_drain_rows :: "('c, 'x) client_env_scheme \<Rightarrow> pydict list \<Rightarrow> ('c, drain_row list) act" where
  "iter_drain_rows env events = fold_drain_rows env (\<lambda>acc row. returnE (acc @ [row])) [] events"

definition row_basket :: "drain_row \<Rightarrow> string" where
  "row_basket row = py_str (of_basket_id (dr_fields row))"

definition latest_of_rows :: "drain_row list \<Rightarrow> (string \<times> drain_row) list" where
  "latest_of_rows candidates =
     map (\<lambda>i. (row_basket (candidates ! i), candidates ! i))
       (freshest_per_key (map (\<lambda>row. (row_basket row, dr_ts_event row)) candidates))"

definition latest_drain_rows :: "('c, 'x) client_env_scheme \<Rightarrow> pydict list \<Rightarrow> string option
    \<Rightarrow> ('c, (string \<times> drain_row) list) act" where
  "latest_drain_rows env events instrument_id =
     bindE (iter_drain_rows env events) (\<lambda>rows.
       returnE (latest_of_rows (filter (\<lambda>row. matches_instrument (dr_fields row) instrument_id None) rows)))"

definition is_terminal :: "order_status \<Rightarrow> bool" where
  "is_terminal st \<longleftrightarrow> st \<in> set TERMINAL_ORDER_STATUSES"

definition row_stale_reason :: "('c, 'x) nt_env_scheme \<Rightarrow> string option \<Rightarrow> drain_row \<Rightarrow> bool \<Rightarrow> 'c host \<Rightarrow> string option" where
  "row_stale_reason env cid row authoritative s =
     (case cid of None \<Rightarrow> None | Some c \<Rightarrow>
       (case ne_order env (h_cache s) c of None \<Rightarrow> None | Some order \<Rightarrow>
          (let closed = od_is_closed order;
               needs_age = (\<not> closed \<and> authoritative \<and> dr_ts_event row \<noteq> 0)
           in stale_reason \<lparr>sf_order_closed = closed, sf_live_stream_authoritative = authoritative,
                sf_report_non_terminal = (case dr_report row of None \<Rightarrow> False | Some r \<Rightarrow> \<not> is_terminal (sr_order_status r)),
                sf_row_ts_ns = dr_ts_event row, sf_order_ts_last_ns = (if needs_age then od_ts_last order else 0)\<rparr>)))"

section \<open>Publication\<close>

definition publish_order_status_report :: "('c, 'x) nt_env_scheme \<Rightarrow> order_status_report \<Rightarrow> ('c, bool) act" where
  "publish_order_status_report env report =
     tryE (emit env (EvStatusReport report)) (\<lambda>_. returnE False) (\<lambda>_. returnE True)"

definition apply_drain_row :: "('c, 'x) client_env_scheme \<Rightarrow> drain_row \<Rightarrow> ('c, unit) act" where
  "apply_drain_row env row =
     (case dr_report row of None \<Rightarrow> returnE () | Some report \<Rightarrow>
       bindE (drain_client_order_id env (dr_fields row)) (\<lambda>cid.
       bindE (getE (row_stale_reason env cid row True)) (\<lambda>reason.
         if cid \<noteq> None \<and> reason \<noteq> None then returnE ()
         else bindE (publish_order_status_report env report) (\<lambda>ok.
           if \<not> ok then
             raiseE (exn_of VenueQueryUnavailable
               ''reconnect re-arm drain aborted: a reconciliation status report failed to publish'')
           else (case cid of None \<Rightarrow> returnE () | Some c \<Rightarrow>
             bindE (getE (\<lambda>s. dr_bindable row \<and> ne_order env (h_cache s) c \<noteq> None
                            \<and> ne_venue_order_id env (h_cache s) c = None)) (\<lambda>b.
               if b then bind_venue_id env c (row_basket row) else returnE ()))))))"

definition apply_drain_rows :: "('c, 'x) client_env_scheme \<Rightarrow> pydict list \<Rightarrow> ('c, unit) act" where
  "apply_drain_rows env events =
     bindE (latest_drain_rows env events None) (\<lambda>rows. forE rows (\<lambda>(_, row). apply_drain_row env row))"

section \<open>Report lists\<close>

fun forwarded_reports :: "('c, 'x) client_env_scheme \<Rightarrow> (string \<times> drain_row) list \<Rightarrow> ('c, order_status_report list) act" where
  "forwarded_reports env [] = returnE []"
| "forwarded_reports env ((_, row) # rows) =
     (case dr_report row of
        None \<Rightarrow> forwarded_reports env rows
      | Some report \<Rightarrow>
          bindE (drain_client_order_id env (dr_fields row)) (\<lambda>cid.
          bindE (getE (row_stale_reason env cid row False)) (\<lambda>reason.
          bindE (forwarded_reports env rows) (\<lambda>rest.
            returnE (if reason = None then report # rest else rest)))))"

definition order_status_reports_from_events :: "('c, 'x) client_env_scheme \<Rightarrow> pydict list \<Rightarrow> string option \<Rightarrow> bool
    \<Rightarrow> ('c, order_status_report list) act" where
  "order_status_reports_from_events env events instrument_id open_only =
     (if events = [] then
        (if open_only then returnE []
         else raiseE (exn_of VenueQueryUnavailable
           (''Rithmic order recon unavailable: best-effort drain returned no working orders ''
            @ ''(empty does not prove venue empty; no provably complete snapshot API)'')))
      else bindE (latest_drain_rows env events instrument_id) (\<lambda>rows.
           bindE (forwarded_reports env rows) (\<lambda>reports.
             returnE (if open_only then filter (\<lambda>r. \<not> is_terminal (sr_order_status r)) reports else reports))))"

definition fill_recon_row :: "('c, 'x) client_env_scheme \<Rightarrow> string option \<Rightarrow> string option \<Rightarrow> fill_report list \<Rightarrow> drain_row
    \<Rightarrow> ('c, fill_report list) act" where
  "fill_recon_row env instrument_id venue_order_id reports row =
     (let f = dr_fields row in
      if of_kind f \<noteq> PStr ''filled'' \<or> \<not> matches_instrument f instrument_id venue_order_id then returnE reports
      else
        bindE (ts_or_clock env (dr_ts_event row)) (\<lambda>event_ts.
        bindE (liftE (fill_dedup_key f (dr_ts_event row))) (\<lambda>dedup.
        bindE (fill_key_seen dedup) (\<lambda>seen.
          if seen then returnE reports
          else bindE (fill_report_from_fields env f (dr_ts_event row)) (\<lambda>report.
            case report of None \<Rightarrow> returnE reports | Some r \<Rightarrow>
              bindE (drain_row_from_fields env f event_ts) (\<lambda>again.
                case dr_report again of None \<Rightarrow> returnE reports | Some status \<Rightarrow>
                  bindE (publish_order_status_report env status) (\<lambda>ok.
                    if \<not> ok then returnE reports
                    else thenE (mark_fill_key dedup) (returnE (reports @ [r])))))))))"

definition fill_reports_from_events :: "('c, 'x) client_env_scheme \<Rightarrow> pydict list \<Rightarrow> string option \<Rightarrow> string option
    \<Rightarrow> ('c, fill_report list) act" where
  "fill_reports_from_events env events instrument_id venue_order_id =
     fold_drain_rows env (fill_recon_row env instrument_id venue_order_id) [] events"

section \<open>Soft mass status\<close>

fun flat_reports :: "('c, 'x) nt_env_scheme \<Rightarrow> 'c \<Rightarrow> string \<Rightarrow> int \<Rightarrow> string list \<Rightarrow> nt_position list
    \<Rightarrow> position_status_report list res" where
  "flat_reports env cache aid ts_init covered [] = Inr []"
| "flat_reports env cache aid ts_init covered (p # ps) =
     (if po_instrument_id p \<in> set covered \<or> ne_instrument env cache (po_instrument_id p) = None
      then flat_reports env cache aid ts_init covered ps
      else (let r = \<lparr>pr_account_id = aid, pr_instrument_id = po_instrument_id p, pr_position_side = POS_FLAT,
                     pr_quantity = 0, pr_ts_init = ts_init, pr_avg_px_open = None\<rparr>
            in bindR (check_opt (ne_position_report env r) r) (\<lambda>r'.
               bindR (flat_reports env cache aid ts_init covered ps) (\<lambda>rest. Inr (r' # rest)))))"

definition augment_soft_mass_flat :: "('c, 'x) nt_env_scheme \<Rightarrow> position_status_report list \<Rightarrow> int
    \<Rightarrow> ('c, position_status_report list) act" where
  "augment_soft_mass_flat env venue_reports ts_init =
     bindE (getE (\<lambda>s. (h_account_id s, h_cache s))) (\<lambda>(acct, cache).
       case acct of None \<Rightarrow> returnE venue_reports | Some aid \<Rightarrow>
         bindE (liftE (flat_reports env cache aid ts_init (map pr_instrument_id venue_reports)
                         (ne_positions_open env cache (Some aid)))) (\<lambda>flats.
           returnE (venue_reports @ flats)))"


section \<open>Frames\<close>

context read_frame
begin

lemma keeps_quantity_of: "keeps R (quantity_of env v)"
  unfolding quantity_of_def by (intro frame_rules)

lemma keeps_opt_price: "keeps R (opt_price env v)"
  unfolding opt_price_def by (intro frame_rules)

lemma keeps_client_order_id_for_tag: "keeps R (client_order_id_for_tag env tag)"
  unfolding client_order_id_for_tag_def by (intro frame_rules keeps_mk_id)

lemma keeps_forwarded_reports: "keeps R (forwarded_reports env rows)"
  by (induction env rows rule: forwarded_reports.induct)
     (auto intro!: frame_rules keeps_drain_client_order_id)

lemma keeps_augment: "keeps R (augment_soft_mass_flat env reports ts)"
  unfolding augment_soft_mass_flat_def by (intro frame_rules)

end

context passive_frame
begin

lemma keeps_build_status_report: "keeps R (build_status_report env f ts aid basket iid)"
  unfolding build_status_report_def
  by (intro frame_rules keeps_quantity_of keeps_opt_price keeps_ts_or_clock keeps_mk_id keeps_timestamp_ns
      keeps_client_order_id_for_tag)

lemma keeps_order_status_report: "keeps R (order_status_report_from_fields env f ts)"
  unfolding order_status_report_from_fields_def by (intro frame_rules keeps_seed keeps_build_status_report)

lemma keeps_drain_row: "keeps R (drain_row_from_fields env f ts)"
  unfolding drain_row_from_fields_def by (intro frame_rules keeps_order_status_report)

lemma keeps_fold_drain_rows:
  assumes "\<And>acc row. keeps R (body acc row)"
  shows "keeps R (fold_drain_rows env body acc events)"
proof (induction events arbitrary: acc)
  case (Cons raw events)
  then show ?case by (simp only: fold_drain_rows.simps) (intro frame_rules keeps_drain_row assms)
qed (simp add: keeps_returnE refl)

lemma keeps_iter_drain_rows: "keeps R (iter_drain_rows env events)"
  unfolding iter_drain_rows_def by (intro keeps_fold_drain_rows frame_rules)

lemma keeps_latest_drain_rows: "keeps R (latest_drain_rows env events iid)"
  unfolding latest_drain_rows_def by (intro frame_rules keeps_iter_drain_rows)

lemma keeps_publish_status: "keeps R (publish_order_status_report env report)"
  unfolding publish_order_status_report_def
  by (intro frame_rules keeps_emit) (simp add: passive_event_def)

lemma keeps_order_status_reports: "keeps R (order_status_reports_from_events env events iid open_only)"
  unfolding order_status_reports_from_events_def
  by (intro frame_rules keeps_latest_drain_rows keeps_forwarded_reports)

end

context binding_frame
begin

lemma keeps_apply_drain_row: "keeps R (apply_drain_row env row)"
  unfolding apply_drain_row_def
  by (intro frame_rules keeps_drain_client_order_id keeps_publish_status keeps_bind_venue_id)

lemma keeps_apply_drain_rows: "keeps R (apply_drain_rows env events)"
  unfolding apply_drain_rows_def by (intro frame_rules keeps_latest_drain_rows keeps_apply_drain_row)

end

section \<open>The freshest row per key\<close>

text \<open>Keys in order of first appearance.\<close>

definition first_keys :: "string list \<Rightarrow> string list" where
  "first_keys xs = rev (remdups (rev xs))"

lemma first_keys_snoc: "first_keys (xs @ [x]) = (if x \<in> set xs then first_keys xs else first_keys xs @ [x])"
  by (simp add: first_keys_def)

lemma set_first_keys [simp]: "set (first_keys xs) = set xs" and distinct_first_keys [simp]: "distinct (first_keys xs)"
  by (simp_all add: first_keys_def)

text \<open>Row \<open>w\<close> wins for its key among the first \<open>n\<close> rows: no row of the key is newer, and on a tie it is the last.\<close>

definition wins :: "(string \<times> int) list \<Rightarrow> nat \<Rightarrow> string \<Rightarrow> nat \<Rightarrow> bool" where
  "wins rows n k w \<longleftrightarrow> w < n \<and> fst (rows ! w) = k
     \<and> (\<forall>j < n. fst (rows ! j) = k \<longrightarrow> snd (rows ! j) < snd (rows ! w) \<or> (snd (rows ! j) = snd (rows ! w) \<and> j \<le> w))"

definition freshest_inv :: "(string \<times> int) list \<Rightarrow> nat \<Rightarrow> string list \<times> (string \<times> nat) list \<Rightarrow> bool" where
  "freshest_inv rows n st \<longleftrightarrow> n \<le> length rows \<and> fst st = first_keys (map fst (take n rows))
     \<and> (\<forall>k. case map_of (snd st) k of None \<Rightarrow> k \<notin> set (map fst (take n rows)) | Some w \<Rightarrow> wins rows n k w)"

lemma key_at: "j < n \<Longrightarrow> n \<le> length rows \<Longrightarrow> fst (rows ! j) \<in> fst ` set (take n rows)"
  by (metis image_eqI length_take min.absorb2 nth_mem nth_take)

lemma wins_step:
  assumes "wins rows n k w" "fst (rows ! n) = k \<longrightarrow> snd (rows ! n) < snd (rows ! w)"
  shows "wins rows (Suc n) k w"
  using assms by (auto simp: wins_def less_Suc_eq)

lemma wins_new:
  assumes "fst (rows ! n) = k" "\<And>w. wins rows n k w \<Longrightarrow> snd (rows ! w) \<le> snd (rows ! n)"
    "(\<exists>w. wins rows n k w) \<or> (\<forall>j < n. fst (rows ! j) \<noteq> k)"
  shows "wins rows (Suc n) k n"
proof -
  have le: "snd (rows ! j) \<le> snd (rows ! n)" if j: "j < n" "fst (rows ! j) = k" for j
  proof -
    from assms(3) j obtain w where w: "wins rows n k w" by blast
    then have "snd (rows ! j) \<le> snd (rows ! w)" using j by (auto simp: wins_def)
    with assms(2) [OF w] show ?thesis by simp
  qed
  then have "\<forall>j < Suc n. fst (rows ! j) = k \<longrightarrow> snd (rows ! j) < snd (rows ! n) \<or> snd (rows ! j) = snd (rows ! n) \<and> j \<le> n"
    by (auto simp: less_Suc_eq order.order_iff_strict)
  with assms(1) show ?thesis by (simp add: wins_def)
qed

lemma wins_mem: "wins rows n k w \<Longrightarrow> n \<le> length rows \<Longrightarrow> k \<in> set (map fst (take n rows))"
  by (auto simp: wins_def key_at)

lemma freshest_inv_step:
  assumes inv: "freshest_inv rows n (order, winner)" and n: "n < length rows" and row: "rows ! n = (key, ts)"
  shows "freshest_inv rows (Suc n) (case map_of winner key of
          None \<Rightarrow> (order @ [key], dict_set key n winner)
        | Some current \<Rightarrow> if ts \<ge> snd (rows ! current) then (order, dict_set key n winner) else (order, winner))"
proof -
  from inv have ord: "order = first_keys (map fst (take n rows))"
    and win: "\<And>k. case map_of winner k of None \<Rightarrow> k \<notin> set (map fst (take n rows)) | Some w \<Rightarrow> wins rows n k w"
    by (auto simp: freshest_inv_def)
  have keys: "map fst (take (Suc n) rows) = map fst (take n rows) @ [key]"
    using n row by (simp add: take_Suc_conv_app_nth)
  have other: "case map_of winner k of None \<Rightarrow> k \<notin> set (map fst (take (Suc n) rows)) | Some w \<Rightarrow> wins rows (Suc n) k w"
    if "k \<noteq> key" for k
    using win [of k] that row by (auto simp: keys intro: wins_step split: option.splits)
  have fin: "freshest_inv rows (Suc n) (order', winner')"
    if "order' = first_keys (map fst (take (Suc n) rows))" "map_of winner' = (map_of winner)(key \<mapsto> w')"
      "wins rows (Suc n) key w'" for order' winner' w'
    unfolding freshest_inv_def
  proof (intro conjI allI)
    show "Suc n \<le> length rows" using n by simp
    show "fst (order', winner') = first_keys (map fst (take (Suc n) rows))" using that(1) by simp
    fix k
    show "case map_of (snd (order', winner')) k of None \<Rightarrow> k \<notin> set (map fst (take (Suc n) rows))
        | Some w \<Rightarrow> wins rows (Suc n) k w"
      using that(2,3) other [of k] by (cases "k = key") simp_all
  qed
  show ?thesis
  proof (cases "map_of winner key")
    case None
    then have absent: "key \<notin> set (map fst (take n rows))" using win [of key] by simp
    then have "\<forall>j < n. fst (rows ! j) \<noteq> key" using n key_at [of _ n rows] by auto
    then have "wins rows (Suc n) key n" using row by (intro wins_new) (auto simp: wins_def)
    then have "freshest_inv rows (Suc n) (order @ [key], dict_set key n winner)"
      using absent by (intro fin) (simp_all add: ord keys first_keys_snoc)
    with None show ?thesis by simp
  next
    case (Some w)
    then have w: "wins rows n key w" using win [of key] by simp
    have mem: "key \<in> set (map fst (take n rows))" using wins_mem [OF w] n by simp
    have uniq: "w' = w" if "wins rows n key w'" for w'
      using w that unfolding wins_def by (metis le_antisym order.asym)
    have "wins rows (Suc n) key (if ts \<ge> snd (rows ! w) then n else w)"
    proof (cases "ts \<ge> snd (rows ! w)")
      case True
      have "wins rows (Suc n) key n"
      proof (rule wins_new)
        show "fst (rows ! n) = key" by (simp add: row)
        show "snd (rows ! w') \<le> snd (rows ! n)" if "wins rows n key w'" for w'
          using uniq [OF that] True row by simp
        show "(\<exists>w. wins rows n key w) \<or> (\<forall>j<n. fst (rows ! j) \<noteq> key)" using w by blast
      qed
      with True show ?thesis by simp
    next
      case False
      then have "wins rows (Suc n) key w" using w row by (intro wins_step) auto
      with False show ?thesis by simp
    qed
    then have "freshest_inv rows (Suc n) (order, if ts \<ge> snd (rows ! w) then dict_set key n winner else winner)"
      using mem Some by (intro fin) (auto simp: ord keys first_keys_snoc fun_upd_idem)
    with Some show ?thesis by (simp split: if_splits)
  qed
qed

lemma freshest_loop_inv:
  assumes "freshest_inv rows n st" "rest = drop n rows"
  shows "freshest_inv rows (length rows) (freshest_loop rows n rest st)"
  using assms
proof (induction rows n rest st rule: freshest_loop.induct)
  case (1 rows i st)
  then have "i = length rows" by (simp add: freshest_inv_def)
  with 1 show ?case by simp
next
  case (2 rows i key ts rest order winner)
  have i: "i < length rows" using 2(3) by (metis drop_all leI list.distinct(1))
  have row: "rows ! i = (key, ts)" "rest = drop (Suc i) rows"
    using 2(3) i by (metis Cons_nth_drop_Suc list.inject)+
  show ?case
    using 2(1) [OF freshest_inv_step [OF 2(2) i row(1)] row(2)] by simp
qed

lemma freshest_per_key_props:
  "map (\<lambda>i. fst (rows ! i)) (freshest_per_key rows) = first_keys (map fst rows)"
  "i \<in> set (freshest_per_key rows) \<Longrightarrow> wins rows (length rows) (fst (rows ! i)) i"
proof -
  obtain order winner where st: "freshest_loop rows 0 rows ([], []) = (order, winner)" by fastforce
  have "freshest_inv rows 0 ([], [])" by (simp add: freshest_inv_def first_keys_def)
  from freshest_loop_inv [OF this, of rows] have inv: "freshest_inv rows (length rows) (order, winner)"
    by (simp add: st)
  then have ord: "order = first_keys (map fst rows)" by (simp add: freshest_inv_def)
  have win: "wins rows (length rows) k (the (map_of winner k))" if "k \<in> set order" for k
  proof -
    from inv have "case map_of winner k of None \<Rightarrow> k \<notin> set (map fst rows) | Some w \<Rightarrow> wins rows (length rows) k w"
      unfolding freshest_inv_def snd_conv take_all [OF order_refl] by blast
    with that ord show ?thesis by (cases "map_of winner k") auto
  qed
  have eq: "freshest_per_key rows = map (\<lambda>k. the (map_of winner k)) order"
    by (simp add: freshest_per_key_def st)
  show "map (\<lambda>i. fst (rows ! i)) (freshest_per_key rows) = first_keys (map fst rows)"
    using win by (auto simp: eq ord [symmetric] wins_def intro!: map_idI)
  show "wins rows (length rows) (fst (rows ! i)) i" if "i \<in> set (freshest_per_key rows)"
  proof -
    from that obtain k where "k \<in> set order" "i = the (map_of winner k)" by (auto simp: eq)
    with win [of k] show ?thesis by (auto simp: wins_def)
  qed
qed

lemma latest_of_rows_props:
  assumes "(b, row) \<in> set (latest_of_rows rows)"
  shows "row \<in> set rows" "b = row_basket row"
    "\<And>r. r \<in> set rows \<Longrightarrow> row_basket r = b \<Longrightarrow> dr_ts_event r \<le> dr_ts_event row"
proof -
  let ?ks = "map (\<lambda>row. (row_basket row, dr_ts_event row)) rows"
  from assms obtain i where i: "i \<in> set (freshest_per_key ?ks)" "b = row_basket (rows ! i)" "row = rows ! i"
    by (auto simp: latest_of_rows_def)
  note w = freshest_per_key_props(2) [OF i(1)]
  then have len: "i < length rows" by (simp add: wins_def)
  with i show "row \<in> set rows" "b = row_basket row" by auto
  fix r assume "r \<in> set rows" "row_basket r = b"
  then obtain j where "j < length rows" "rows ! j = r" by (auto simp: in_set_conv_nth)
  with w len i \<open>row_basket r = b\<close> show "dr_ts_event r \<le> dr_ts_event row"
    by (fastforce simp: wins_def)
qed

lemma distinct_latest: "distinct (map fst (latest_of_rows rows))"
proof -
  let ?ks = "map (\<lambda>row. (row_basket row, dr_ts_event row)) rows"
  have "map fst (latest_of_rows rows) = map (\<lambda>i. fst (?ks ! i)) (freshest_per_key ?ks)"
    using freshest_per_key_props(2) [of _ ?ks] by (auto simp: latest_of_rows_def wins_def)
  then show ?thesis by (simp only: freshest_per_key_props distinct_first_keys)
qed


section \<open>What a row carries\<close>

definition row_ok :: "drain_row \<Rightarrow> bool" where
  "row_ok row \<longleftrightarrow> (\<forall>r. dr_report row = Some r \<longrightarrow> sr_venue_order_id r = row_basket row)
     \<and> (dr_bindable row \<longrightarrow> row_is_trustworthy (dr_fields row) = Inr True)"

lemma opt_text_Some [simp]: "opt_text v = Some t \<longleftrightarrow> truthy v \<and> t = py_str v"
  by (auto simp: opt_text_def)

lemma build_status_report_venue_id:
  "build_status_report env f ts aid basket iid s = (Inr (Some r), s') \<Longrightarrow> sr_venue_order_id r = basket"
  by (auto simp: build_status_report_def em_returned Let_def split: if_splits)

lemma order_status_report_venue_id:
  "order_status_report_from_fields env f ts s = (Inr (Some r), s') \<Longrightarrow> sr_venue_order_id r = py_str (of_basket_id f)"
  by (auto simp: order_status_report_from_fields_def em_returned
      dest!: build_status_report_venue_id split: option.splits if_splits)

lemma drain_row_returned:
  "drain_row_from_fields env f ts s = (Inr row, s') \<Longrightarrow> dr_fields row = f \<and> dr_ts_event row = ts \<and> row_ok row"
  by (auto simp: drain_row_from_fields_def em_returned row_ok_def row_basket_def
      dest: order_status_report_venue_id split: if_splits)

text \<open>Rows that reach a loop body come from an event that normalises, with a basket and a report.\<close>

definition row_of_event :: "pydict list \<Rightarrow> drain_row \<Rightarrow> bool" where
  "row_of_event events row \<longleftrightarrow> row_ok row \<and> dr_report row \<noteq> None \<and> truthy (of_basket_id (dr_fields row))
     \<and> (\<exists>raw \<in> set events. order_notification_to_fields raw = Inr (dr_fields row))
     \<and> dr_ts_event row = (case of_ts_event (dr_fields row) of None \<Rightarrow> 0 | Some t \<Rightarrow> t)"

lemma row_of_event_mono: "row_of_event events row \<Longrightarrow> row_of_event (raw # events) row"
  by (auto simp: row_of_event_def)

lemma fold_drain_rows_returned:
  assumes "fold_drain_rows env (\<lambda>acc row. returnE (acc @ [row])) acc events s = (Inr rows, s')"
  shows "\<exists>new. rows = acc @ new \<and> (\<forall>row \<in> set new. row_of_event events row)"
  using assms
proof (induction events arbitrary: acc s)
  case (Cons raw events)
  have skip: ?case if "fold_drain_rows env (\<lambda>acc row. returnE (acc @ [row])) acc events s1 = (Inr rows, s')" for s1
    using Cons.IH [OF that] by (auto intro: row_of_event_mono)
  show ?case
  proof (cases "order_notification_to_fields raw")
    case (Inl e)
    with Cons.prems show ?thesis by (intro skip) simp
  next
    case (Inr f)
    show ?thesis
    proof (cases "truthy (of_basket_id f)")
      case False
      with Cons.prems Inr show ?thesis by (intro skip) simp
    next
      case True
      with Cons.prems Inr obtain row s1
        where row: "drain_row_from_fields env f (case of_ts_event f of None \<Rightarrow> 0 | Some t \<Rightarrow> t) s = (Inr row, s1)"
          and rest: "(if dr_report row = None then fold_drain_rows env (\<lambda>acc row. returnE (acc @ [row])) acc events
                     else fold_drain_rows env (\<lambda>acc row. returnE (acc @ [row])) (acc @ [row]) events) s1
                   = (Inr rows, s')"
        by (auto simp: em_returned split: if_splits)
      show ?thesis
      proof (cases "dr_report row = None")
        case True
        with rest show ?thesis by (intro skip) simp
      next
        case False
        then have "row_of_event (raw # events) row"
          using drain_row_returned [OF row] Inr \<open>truthy (of_basket_id f)\<close> by (auto simp: row_of_event_def)
        moreover from rest False obtain new where "rows = (acc @ [row]) @ new" "\<forall>row \<in> set new. row_of_event events row"
          using Cons.IH by fastforce
        ultimately show ?thesis
          by (intro exI [of _ "row # new"]) (auto intro: row_of_event_mono)
      qed
    qed
  qed
qed (simp add: em_returned)

lemma latest_drain_rows_returned:
  assumes "latest_drain_rows env events iid s = (Inr rows, s')" "(b, row) \<in> set rows"
  shows "row_of_event events row" "b = row_basket row"
proof -
  from assms(1) obtain all where "iter_drain_rows env events s = (Inr all, s')"
    and rows: "rows = latest_of_rows (filter (\<lambda>row. matches_instrument (dr_fields row) iid None) all)"
    by (auto simp: latest_drain_rows_def em_returned)
  then have "\<forall>row \<in> set all. row_of_event events row"
    using fold_drain_rows_returned [of env "[]" events s all s'] by (simp add: iter_drain_rows_def)
  then show "row_of_event events row" "b = row_basket row"
    using latest_of_rows_props(1,2) [OF assms(2) [unfolded rows]] by auto
qed


section \<open>Publishing before binding\<close>

text \<open>
  In a piece of trace every binding follows a status report of the same venue order, from an event whose
  terms are trustworthy. Such pieces are closed under concatenation.
\<close>

definition publishes_first :: "pydict list \<Rightarrow> trace_item list \<Rightarrow> bool" where
  "publishes_first events t \<longleftrightarrow> (\<forall>i < length t. \<forall>c v. t ! i = TrBind c v \<longrightarrow>
     (\<exists>j < i. \<exists>r. t ! j = TrEmit (EvStatusReport r) \<and> sr_venue_order_id r = v)
     \<and> (\<exists>raw \<in> set events. \<exists>f. order_notification_to_fields raw = Inr f \<and> py_str (of_basket_id f) = v
          \<and> row_is_trustworthy f = Inr True))"

definition drain_trace :: "pydict list \<Rightarrow> 'c host \<Rightarrow> 'c host \<Rightarrow> bool" where
  "drain_trace events s s' \<longleftrightarrow> (\<exists>t. h_trace s' = h_trace s @ t \<and> publishes_first events t)"

lemma publishes_first_append:
  assumes "publishes_first events t" "publishes_first events u"
  shows "publishes_first events (t @ u)"
  unfolding publishes_first_def
proof (intro allI impI)
  fix i c v assume i: "i < length (t @ u)" and b: "(t @ u) ! i = TrBind c v"
  show "(\<exists>j < i. \<exists>r. (t @ u) ! j = TrEmit (EvStatusReport r) \<and> sr_venue_order_id r = v)
     \<and> (\<exists>raw \<in> set events. \<exists>f. order_notification_to_fields raw = Inr f \<and> py_str (of_basket_id f) = v
          \<and> row_is_trustworthy f = Inr True)"
  proof (cases "i < length t")
    case True
    with b have "t ! i = TrBind c v" by (simp add: nth_append)
    with True assms(1) obtain j r where j: "j < i" "t ! j = TrEmit (EvStatusReport r)" "sr_venue_order_id r = v"
      and raw: "\<exists>raw \<in> set events. \<exists>f. order_notification_to_fields raw = Inr f \<and> py_str (of_basket_id f) = v
          \<and> row_is_trustworthy f = Inr True"
      unfolding publishes_first_def by blast
    from j True have "(t @ u) ! j = TrEmit (EvStatusReport r)" by (simp add: nth_append)
    with j raw show ?thesis by blast
  next
    case False
    with i b have u: "i - length t < length u" "u ! (i - length t) = TrBind c v"
      by (auto simp: nth_append)
    with assms(2) obtain j r where j: "j < i - length t" "u ! j = TrEmit (EvStatusReport r)" "sr_venue_order_id r = v"
      and raw: "\<exists>raw \<in> set events. \<exists>f. order_notification_to_fields raw = Inr f \<and> py_str (of_basket_id f) = v
          \<and> row_is_trustworthy f = Inr True"
      unfolding publishes_first_def by blast
    then have "(t @ u) ! (length t + j) = TrEmit (EvStatusReport r)" "length t + j < i"
      by auto
    with j raw show ?thesis by blast
  qed
qed

lemma publishes_first_single: "(\<And>c v. x \<noteq> TrBind c v) \<Longrightarrow> publishes_first events [x]"
  by (simp add: publishes_first_def)

lemma publishes_first_pair:
  assumes "sr_venue_order_id r = v" "raw \<in> set events" "order_notification_to_fields raw = Inr f"
    "py_str (of_basket_id f) = v" "row_is_trustworthy f = Inr True"
  shows "publishes_first events [TrEmit (EvStatusReport r), TrBind c v]"
  using assms by (auto simp: publishes_first_def less_Suc_eq nth_Cons split: nat.splits)

interpretation drain: passive_frame "drain_trace events" for events
proof unfold_locales
  show "reflp (drain_trace events)"
    by (auto simp: reflp_def drain_trace_def publishes_first_def)
  show "transp (drain_trace events)"
    unfolding transp_def drain_trace_def using publishes_first_append by fastforce
qed (auto simp: drain_trace_def publishes_first_single, auto simp: publishes_first_def)

lemma publish_status_cases:
  "publish_order_status_report env r s = (Inr True, s') \<and> h_trace s' = h_trace s @ [TrEmit (EvStatusReport r)]
   \<or> publish_order_status_report env r s = (Inr False, s') \<and> h_trace s' = h_trace s"
  if "publish_order_status_report env r s = (x, s')"
  using that by (auto simp: publish_order_status_report_def emit_def em_simps split: prod.splits option.splits)

lemma apply_drain_row_trace:
  assumes "row_of_event events row"
  shows "drain_trace events s (snd (apply_drain_row env row s))"
proof -
  from assms obtain r raw where r: "dr_report row = Some r" "sr_venue_order_id r = row_basket row"
    and raw: "raw \<in> set events" "order_notification_to_fields raw = Inr (dr_fields row)"
    and trust: "dr_bindable row \<Longrightarrow> row_is_trustworthy (dr_fields row) = Inr True"
    by (auto simp: row_of_event_def row_ok_def)
  have refl: "drain_trace events u u" for u :: "'a host" by (rule reflpD [OF drain.refl])
  obtain x s0 where c: "drain_client_order_id env (dr_fields row) s = (x, s0)" by fastforce
  have s0: "s0 = s" using unchanged.keeps_drain_client_order_id [THEN keepsD_eq, OF c] by simp
  obtain p s1 where p: "publish_order_status_report env r s = (p, s1)" by fastforce
  have one: "drain_trace events s s1"
    using publish_status_cases [OF p] by (auto simp: drain_trace_def publishes_first_single publishes_first_def)
  have two: "drain_trace events s (snd (bind_venue_id env cid (row_basket row) s1))"
    if "p = Inr True" "dr_bindable row" for cid
  proof -
    have t1: "h_trace s1 = h_trace s @ [TrEmit (EvStatusReport r)]" using publish_status_cases [OF p] p that(1) by auto
    have "publishes_first events [TrEmit (EvStatusReport r), TrBind cid (row_basket row)]"
      using r(2) raw trust [OF that(2)] by (intro publishes_first_pair) (auto simp: row_basket_def)
    with t1 one show ?thesis
      by (auto simp: bind_venue_id_def mk_id_def em_simps drain_trace_def check_opt_def split: option.splits sum.splits)
  qed
  show ?thesis
    using c s0 r(1) p one two refl
    by (auto simp: apply_drain_row_def em_simps split: sum.splits option.splits)
qed

section \<open>Forwarding\<close>

lemma forwarded_reports_returned:
  assumes "forwarded_reports env rows s = (Inr reports, s')" "r \<in> set reports"
  shows "\<exists>b row cid. (b, row) \<in> set rows \<and> dr_report row = Some r
     \<and> drain_client_order_id env (dr_fields row) s = (Inr cid, s) \<and> row_stale_reason env cid row False s = None"
  using assms
proof (induction env rows arbitrary: s reports rule: forwarded_reports.induct)
  case (2 env b row rows)
  show ?case
  proof (cases "dr_report row")
    case None
    with 2 show ?thesis by fastforce
  next
    case (Some rep)
    with 2(3) obtain cid s1 rest
      where c: "drain_client_order_id env (dr_fields row) s = (Inr cid, s1)"
        and f: "forwarded_reports env rows s1 = (Inr rest, s')"
        and reports: "reports = (if row_stale_reason env cid row False s1 = None then rep # rest else rest)"
      by (auto simp: em_returned)
    have s1: "s1 = s" using unchanged.keeps_drain_client_order_id [THEN keepsD_eq, OF c] by simp
    show ?thesis
    proof (cases "r \<in> set rest")
      case True
      with 2(2) [OF Some, of s1 rest] f s1 show ?thesis by fastforce
    next
      case False
      with 2(4) reports have "r = rep" "row_stale_reason env cid row False s1 = None" by (auto split: if_splits)
      with c s1 Some show ?thesis by fastforce
    qed
  qed
qed (simp add: em_returned)

lemma drain_client_order_id_basket:
  assumes "drain_client_order_id env f s = (Inr cid, s')" "truthy (of_basket_id f)"
    "ne_client_order_id env (h_cache s) (py_str (of_basket_id f)) = Some c"
  shows "cid = Some c"
  using assms by (auto simp: drain_client_order_id_def basket_client_id_def opt_text_def em_returned)

section \<open>Properties\<close>

text \<open>
  The freshest row per order wins. The winners are one per key, in order of each key's first
  appearance; no row of the key has a higher time stamp, and among rows with the winner's time stamp the
  winner is the last to arrive, so a terminal status after a working one is never masked by it.
\<close>

theorem freshest_row_wins:
  "map (\<lambda>i. fst (rows ! i)) (freshest_per_key rows) = first_keys (map fst rows)
   \<and> (\<forall>i \<in> set (freshest_per_key rows). i < length rows
        \<and> (\<forall>j < length rows. fst (rows ! j) = fst (rows ! i) \<longrightarrow>
              snd (rows ! j) < snd (rows ! i) \<or> (snd (rows ! j) = snd (rows ! i) \<and> j \<le> i)))"
  using freshest_per_key_props(1) [of rows] freshest_per_key_props(2) [of _ rows] by (auto simp: wins_def)

text \<open>
  C15: the re-arm drain publishes before it binds. Whatever the drain contains and however the platform
  answers (a raise in the middle included), every venue id that applying a drain binds was reported to
  the engine in a status report earlier in the same application, and comes from a row whose closed-set
  terms are real.
\<close>

theorem drain_publishes_before_binding:
  "\<exists>t. h_trace (snd (apply_drain_rows env events s)) = h_trace s @ t \<and>
     (\<forall>i < length t. \<forall>c v. t ! i = TrBind c v \<longrightarrow>
        (\<exists>j < i. \<exists>r. t ! j = TrEmit (EvStatusReport r) \<and> sr_venue_order_id r = v)
        \<and> (\<exists>raw \<in> set events. \<exists>f. order_notification_to_fields raw = Inr f \<and> py_str (of_basket_id f) = v
              \<and> row_is_trustworthy f = Inr True))"
proof -
  have "drain_trace events s (snd (apply_drain_rows env events s))"
  proof -
    obtain x s1 where l: "latest_drain_rows env events None s = (x, s1)" by fastforce
    then have 1: "drain_trace events s s1" by (rule drain.keeps_latest_drain_rows [THEN keepsD_eq])
    show ?thesis
    proof (cases x)
      case (Inl e)
      with l 1 show ?thesis by (simp add: apply_drain_rows_def em_simps)
    next
      case (Inr rows)
      have "drain_trace events u (snd (forE rows (\<lambda>(_, row). apply_drain_row env row) u))" for u
        using latest_drain_rows_returned(1) [OF l [unfolded Inr]]
      proof (induction rows arbitrary: u)
        case Nil
        then show ?case by (simp add: em_simps reflpD [OF drain.refl])
      next
        case (Cons br rows)
        obtain b row where br: "br = (b, row)" by fastforce
        obtain y v where a: "apply_drain_row env row u = (y, v)" by fastforce
        have "drain_trace events u v"
          using apply_drain_row_trace [of events row u env] Cons.prems [of b row] a br by simp
        moreover have "drain_trace events v (snd (forE rows (\<lambda>(_, row). apply_drain_row env row) v))"
          using Cons by auto
        ultimately show ?case
          using a br transpD [OF drain.trans] by (fastforce simp: em_simps split: sum.splits)
      qed
      with l 1 Inr show ?thesis
        using transpD [OF drain.trans] by (fastforce simp: apply_drain_rows_def em_simps)
    qed
  qed
  then show ?thesis by (simp add: drain_trace_def publishes_first_def)
qed


theorem drain_publishes_before_binding_witness:
  "\<exists>t. h_trace (snd (apply_drain_rows demo_client [demo_open_row] demo_host)) = t
     \<and> length t = 3 \<and> t ! 2 = TrBind ''O-1'' ''B1''
     \<and> (\<exists>j < 2. \<exists>r. t ! j = TrEmit (EvStatusReport r) \<and> sr_venue_order_id r = ''B1'')"
proof -
  let ?t = "h_trace (snd (apply_drain_rows demo_client [demo_open_row] demo_host))"
  have t: "length ?t = 3 \<and> ?t ! 2 = TrBind ''O-1'' ''B1''" and init: "h_trace demo_host = []"
    by code_simp+
  from drain_publishes_before_binding [of demo_client "[demo_open_row]" demo_host] init
  have "\<exists>j < 2. \<exists>r. ?t ! j = TrEmit (EvStatusReport r) \<and> sr_venue_order_id r = ''B1''"
    using t by auto
  with t show ?thesis by blast
qed

text \<open>
  Bulk recon never reopens a closed order. If the venue order of a forwarded status report is mapped
  to an order the cache holds as closed, the report is terminal: a working snapshot of it (venue lag) is
  suppressed, while a terminal one still reaches the engine.
\<close>

theorem recon_never_reopens:
  assumes "order_status_reports_from_events env events iid open_only s = (Inr reports, s')" "r \<in> set reports"
    and "ne_client_order_id env (h_cache s') (sr_venue_order_id r) = Some c"
    and "ne_order env (h_cache s') c = Some order" "od_is_closed order"
  shows "is_terminal (sr_order_status r)"
proof -
  from assms(1,2) obtain rows s1 all where l: "latest_drain_rows env events iid s = (Inr rows, s1)"
    and f: "forwarded_reports env rows s1 = (Inr all, s')" and r: "r \<in> set all"
    by (auto simp: order_status_reports_from_events_def em_returned split: if_splits)
  have s1: "s1 = s'" using unchanged.keeps_forwarded_reports [THEN keepsD_eq, OF f] by simp
  from forwarded_reports_returned [OF f r] obtain b row cid where row: "(b, row) \<in> set rows" "dr_report row = Some r"
    and cid: "drain_client_order_id env (dr_fields row) s' = (Inr cid, s')"
    and stale: "row_stale_reason env cid row False s' = None" by (auto simp: s1)
  from latest_drain_rows_returned(1) [OF l row(1)] have ev: "row_of_event events row" .
  then have "sr_venue_order_id r = py_str (of_basket_id (dr_fields row))" "truthy (of_basket_id (dr_fields row))"
    using row(2) by (auto simp: row_of_event_def row_ok_def row_basket_def)
  with cid assms(3) have "cid = Some c" by (auto intro: drain_client_order_id_basket)
  with stale assms(4,5) row(2) show ?thesis
    by (auto simp: row_stale_reason_def stale_reason_def Let_def split: if_splits)
qed

text \<open>
  The re-arm barrier fails closed. If the engine refuses the status report of a row that is not
  stale, applying the row raises and binds nothing, so the barrier that called it aborts.
\<close>

theorem refused_report_aborts_barrier:
  assumes "dr_report row = Some report" "drain_client_order_id env (dr_fields row) s = (Inr cid, s)"
    and "row_stale_reason env cid row True s = None"
    and "ne_emit env (h_cache s) (EvStatusReport report) = (Some e, c)"
  shows "\<exists>err. apply_drain_row env row s = (Inl err, s\<lparr>h_cache := c\<rparr>) \<and> exn_cls err = VenueQueryUnavailable"
  using assms by (simp add: apply_drain_row_def publish_order_status_report_def emit_def em_simps)

lemma fold_drain_rows_append:
  "fold_drain_rows env body acc (xs @ ys) s = (case fold_drain_rows env body acc xs s of
     (Inl e, s1) \<Rightarrow> (Inl e, s1) | (Inr acc', s1) \<Rightarrow> fold_drain_rows env body acc' ys s1)"
proof (induction env body acc xs arbitrary: s rule: fold_drain_rows.induct)
  case (2 env body acc raw events)
  then show ?case by (simp add: em_simps split: sum.splits prod.splits)
qed (simp add: em_simps)

lemma build_status_report_bad_average:
  assumes "build_status_report env (f\<lparr>of_avg_fill_price := PNone\<rparr>) ts aid basket iid s = (Inr x, s')"
    "of_avg_fill_price f \<noteq> PNone" "py_decimal (py_str (of_avg_fill_price f)) = Inl e"
  shows "\<exists>s3. build_status_report env f ts aid basket iid s = (Inl e, s3)"
proof -
  have side: "order_side_from_notification (f\<lparr>of_avg_fill_price := PNone\<rparr>) = order_side_from_notification f"
    by (simp add: order_side_from_notification_def)
  from assms(1) obtain sd q1 q2 p1 p2 s1 s2 s3 s4 where "order_side_from_notification f = Inr sd"
    "quantity_of env (of_quantity f) s = (Inr q1, s1)" "quantity_of env (of_total_fill_size f) s1 = (Inr q2, s2)"
    "opt_price env (of_price f) s2 = (Inr p1, s3)" "opt_price env (of_trigger_price f) s3 = (Inr p2, s4)"
    by (auto simp: build_status_report_def em_returned side simp del: if_split)
  with assms(2,3) show ?thesis by (simp add: build_status_report_def em_simps)
qed

lemma order_status_report_reported:
  assumes "order_status_report_from_fields env f ts s = (Inr (Some r), s')"
  obtains basket iid aid x s1 where "opt_text (of_basket_id f) = Some basket" "instrument_id_from_order_fields env f = Some iid"
    "(case opt_text (of_account_id f) of None \<Rightarrow> returnE () | Some a \<Rightarrow> seed_account_if_needed env (Some a)) s = (Inr x, s1)"
    "h_account_id s1 = Some aid" "build_status_report env f ts aid basket iid s1 = (Inr (Some r), s')"
proof -
  obtain basket iid where b: "opt_text (of_basket_id f) = Some basket" "instrument_id_from_order_fields env f = Some iid"
    using assms by (auto simp: order_status_report_from_fields_def em_returned split: option.splits)
  let ?seed = "case opt_text (of_account_id f) of None \<Rightarrow> returnE () | Some a \<Rightarrow> seed_account_if_needed env (Some a)"
  obtain x s1 where s1: "?seed s = (Inr x, s1)" and rest: "(case h_account_id s1 of None \<Rightarrow> returnE None | Some aid \<Rightarrow>
      catchE (build_status_report env f ts aid basket iid) (\<lambda>e. if catchable e then returnE None else raiseE e)) s1 = (Inr (Some r), s')"
    using assms b by (auto simp: order_status_report_from_fields_def em_returned simp del: option.case_eq_if split del: option.split)
  then obtain aid where aid: "h_account_id s1 = Some aid" by (cases "h_account_id s1") (simp_all add: em_returned)
  obtain y s2 where y: "build_status_report env f ts aid basket iid s1 = (y, s2)" by fastforce
  then have "y = Inr (Some r)" "s2 = s'" using rest aid by (cases y; simp add: em_simps split: if_splits)+
  with that b s1 aid y show thesis by blast
qed

lemma py_decimal_error: "py_decimal t = Inl e \<Longrightarrow> exn_cls e = InvalidOperation"
  by (auto simp: py_decimal_def Let_def split: prod.splits if_splits option.splits)

text \<open>
  C33: one malformed row aborts the whole drain. Take a row that passes normalisation and that, were it not for its
  average price, would be interpreted and reported. If its average price is text that is not a number, then
  \<open>Decimal(str(avg))\<close> raises \<open>decimal.InvalidOperation\<close>, which the row builder does not catch: iterating any drain
  that reaches the row raises, so whatever follows it, the rows behind it are lost and so are those in front of it.
\<close>

theorem malformed_average_price_aborts_drain:
  assumes "order_notification_to_fields bad = Inr f" "truthy (of_basket_id f)" "iter_drain_rows env before s = (Inr rows, s1)"
    and "order_status_report_from_fields env (f\<lparr>of_avg_fill_price := PNone\<rparr>) (case of_ts_event f of None \<Rightarrow> 0 | Some t \<Rightarrow> t) s1
      = (Inr (Some r), s2)"
    and "of_avg_fill_price f \<noteq> PNone" "py_decimal (py_str (of_avg_fill_price f)) = Inl e"
  shows "\<exists>s3. iter_drain_rows env (before @ bad # after) s = (Inl e, s3) \<and> exn_cls e = InvalidOperation"
proof -
  let ?ts = "case of_ts_event f of None \<Rightarrow> 0 | Some t \<Rightarrow> t"
  have cls: "exn_cls e = InvalidOperation" using assms(6) by (rule py_decimal_error)
  then have nc: "\<not> catchable e" by (simp add: catchable_def is_value_error_def)
  have iid: "instrument_id_from_order_fields env (f\<lparr>of_avg_fill_price := PNone\<rparr>) = instrument_id_from_order_fields env f"
    by (simp add: instrument_id_from_order_fields_def)
  obtain basket i aid x s4 where b: "opt_text (of_basket_id f) = Some basket" "instrument_id_from_order_fields env f = Some i"
    "(case opt_text (of_account_id f) of None \<Rightarrow> returnE () | Some a \<Rightarrow> seed_account_if_needed env (Some a)) s1 = (Inr x, s4)"
    "h_account_id s4 = Some aid"
    and c: "build_status_report env (f\<lparr>of_avg_fill_price := PNone\<rparr>) ?ts aid basket i s4 = (Inr (Some r), s2)"
    using assms(4) by (rule order_status_report_reported) (auto simp: iid intro: that)
  from build_status_report_bad_average [OF c assms(5,6)] obtain s6
    where "build_status_report env f ?ts aid basket i s4 = (Inl e, s6)" by blast
  with b(4) nc have "(bindE (getE h_account_id) (\<lambda>acct. case acct of None \<Rightarrow> returnE None | Some aid \<Rightarrow>
      catchE (build_status_report env f ?ts aid basket i) (\<lambda>e. if catchable e then returnE None else raiseE e))) s4 = (Inl e, s6)"
    by (simp add: em_simps)
  with b(3) have "order_status_report_from_fields env f ?ts s1 = (Inl e, s6)"
    unfolding order_status_report_from_fields_def b(1,2) prod.case option.case thenE_def by (subst bindE_def) simp
  then have "drain_row_from_fields env f ?ts s1 = (Inl e, s6)" by (simp add: drain_row_from_fields_def em_simps)
  then show ?thesis using assms(1-3) cls by (simp add: iter_drain_rows_def fold_drain_rows_append em_simps)
qed

theorem malformed_average_price_aborts_drain_witness:
  "\<exists>e s3. iter_drain_rows demo_client ([demo_open_row] @ ((''avg_fill_price'', PStr ''n/a'') # demo_open_row) # [demo_open_row]) demo_host
      = (Inl e, s3) \<and> exn_cls e = InvalidOperation"
proof -
  let ?bad = "(''avg_fill_price'', PStr ''n/a'') # demo_open_row"
  let ?f = "projr (order_notification_to_fields ?bad)"
  let ?s1 = "snd (iter_drain_rows demo_client [demo_open_row] demo_host)"
  let ?r = "order_status_report_from_fields demo_client (?f\<lparr>of_avg_fill_price := PNone\<rparr>)
    (case of_ts_event ?f of None \<Rightarrow> 0 | Some t \<Rightarrow> t) ?s1"
  have f: "\<not> isl (order_notification_to_fields ?bad)" "truthy (of_basket_id ?f)" "of_avg_fill_price ?f = PStr ''n/a''" by code_simp+
  have i: "\<not> isl (fst (iter_drain_rows demo_client [demo_open_row] demo_host))" by code_simp
  have r: "(case fst ?r of Inr (Some _) \<Rightarrow> True | _ \<Rightarrow> False)" by code_simp
  then obtain rep where rep: "?r = (Inr (Some rep), snd ?r)" by (cases "fst ?r") (auto simp: prod_eq_iff split: option.splits)
  have d: "py_decimal (py_str (of_avg_fill_price ?f)) = Inl (exn_of InvalidOperation ''[<class decimal.ConversionSyntax>]'')" by code_simp
  have ne: "of_avg_fill_price ?f \<noteq> PNone" unfolding f(3) by simp
  have o: "order_notification_to_fields ?bad = Inr ?f" using f(1) by simp
  have it: "iter_drain_rows demo_client [demo_open_row] demo_host = (Inr (projr (fst (iter_drain_rows demo_client [demo_open_row] demo_host))), ?s1)"
    using i by (simp add: prod_eq_iff)
  from malformed_average_price_aborts_drain [OF o f(2) it rep ne d, of "[demo_open_row]"] show ?thesis by blast
qed

end
