(* ===== verification/Commands.thy ===== *)
theory Commands
  imports Recon
begin

text \<open>
  Order commands of the execution client (\<open>execution.py\<close>): submit, bracket lists, modify, cancel,
  cancel-all and batch cancel. A command checks the gates, announces the order, issues one session call
  and, when the call fails, classifies the failure: a venue reject or a request that was never sent
  rejects the order; any other outcome may be live at the venue and latches the order plant.

  Commands are coroutines: between the session call and its reply any other part of the client may run.
\<close>

section \<open>Failure classes\<close>

definition REJECTED_CODES :: "string list" where "REJECTED_CODES = [''venue_rejected'']"

definition NOT_SENT_CODES :: "string list" where
  "NOT_SENT_CODES = [''not_sent'', ''not_ready'', ''trading_disabled'', ''cancel_all_denied'']"

datatype failure = Rejected | NotSent | Unknown

definition failure_class :: "exn \<Rightarrow> failure" where
  "failure_class e = (case exn_code e of
       None \<Rightarrow> Unknown
     | Some code \<Rightarrow> if code \<in> set REJECTED_CODES then Rejected
         else if code \<in> set NOT_SENT_CODES then NotSent else Unknown)"

definition failure_reason :: "failure \<Rightarrow> exn \<Rightarrow> string" where
  "failure_reason kind e = (if kind = NotSent then ''not sent: '' else ''venue rejected: '') @ exn_msg e"

definition mark_order_plant_failed :: "('c, unit) act" where
  "mark_order_plant_failed = latch_order_plant"

definition order_command_failed :: "exn \<Rightarrow> (string \<Rightarrow> ('c, unit) act) \<Rightarrow> ('c, unit) act" where
  "order_command_failed e reject =
     (let kind = failure_class e
      in if kind = Unknown then mark_order_plant_failed else reject (failure_reason kind e))"

section \<open>Gates\<close>

datatype command_kind = Submit | Modify | Cancel

fun kind_text :: "command_kind \<Rightarrow> string" where
  "kind_text Submit = ''submit''"
| "kind_text Modify = ''modify''"
| "kind_text Cancel = ''cancel''"

fun policy_allows :: "command_kind \<Rightarrow> order_plant_policy \<Rightarrow> bool" where
  "policy_allows Submit p = policy_allow_submit p"
| "policy_allows Modify p = policy_allow_modify p"
| "policy_allows Cancel p = policy_allow_cancel p"

definition TRADING_DISABLED_REASON :: string where
  "TRADING_DISABLED_REASON = ''Rithmic trading disabled (enable_trading=False)''"

definition command_refusal :: "('c, 'x) client_env_scheme \<Rightarrow> command_kind \<Rightarrow> 'c host \<Rightarrow> string option" where
  "command_refusal env kind s =
     (if \<not> ce_enable_trading env then Some TRADING_DISABLED_REASON
      else if h_session_trading s = Some False then Some ''Rithmic parent gateway trading disabled''
      else if \<not> policy_allows kind (h_plant s) then Some (policy_reject_reason (kind_text kind) (h_plant s))
      else None)"

section \<open>Answers\<close>

definition reject_all :: "('c, 'x) nt_env_scheme \<Rightarrow> nt_order list \<Rightarrow> string \<Rightarrow> ('c, unit) act" where
  "reject_all env orders reason = forE orders (\<lambda>order. bindE (timestamp_ns env) (\<lambda>now.
     emit env (EvRejected (od_strategy_id order) (od_instrument_id order) (od_client_order_id order) reason now)))"

definition deny_all :: "('c, 'x) nt_env_scheme \<Rightarrow> nt_order list \<Rightarrow> string \<Rightarrow> ('c, unit) act" where
  "deny_all env orders reason = forE orders (\<lambda>order. bindE (timestamp_ns env) (\<lambda>now.
     emit env (EvDenied (od_strategy_id order) (od_instrument_id order) (od_client_order_id order) reason now)))"

definition announce :: "('c, 'x) nt_env_scheme \<Rightarrow> nt_order \<Rightarrow> ('c, unit) act" where
  "announce env order = bindE (timestamp_ns env) (\<lambda>now.
     emit env (EvSubmitted (od_strategy_id order) (od_instrument_id order) (od_client_order_id order) now))"

record modify_command =
  mc_strategy_id :: string
  mc_instrument_id :: string
  mc_client_order_id :: string
  mc_venue_order_id :: "string option"
  mc_quantity :: "int option"
  mc_price :: "nt_price option"
  mc_trigger_price :: "nt_price option"

record cancel_command =
  cc_strategy_id :: string
  cc_instrument_id :: string
  cc_client_order_id :: string
  cc_venue_order_id :: "string option"

record cancel_all_command =
  ca_instrument_id :: "string option"
  ca_strategy_id :: "string option"
  ca_order_side :: order_side

definition known_venue_id :: "string option \<Rightarrow> string option" where
  "known_venue_id v = (case v of Some (c # r) \<Rightarrow> Some (c # r) | _ \<Rightarrow> None)"

definition venue_id_or_unknown :: "string option \<Rightarrow> string" where
  "venue_id_or_unknown v = (case known_venue_id v of Some i \<Rightarrow> i | None \<Rightarrow> ''UNKNOWN'')"

definition modify_rejected :: "('c, 'x) nt_env_scheme \<Rightarrow> modify_command \<Rightarrow> string option \<Rightarrow> string \<Rightarrow> ('c, unit) act" where
  "modify_rejected env cmd v reason =
     bindE (mk_id env (venue_id_or_unknown v)) (\<lambda>void. bindE (timestamp_ns env) (\<lambda>now.
       emit env (EvModifyRejected (mc_strategy_id cmd) (mc_instrument_id cmd) (mc_client_order_id cmd) void reason now)))"

definition cancel_rejected :: "('c, 'x) nt_env_scheme \<Rightarrow> cancel_command \<Rightarrow> string option \<Rightarrow> string \<Rightarrow> ('c, unit) act" where
  "cancel_rejected env cmd v reason =
     bindE (mk_id env (venue_id_or_unknown v)) (\<lambda>void. bindE (timestamp_ns env) (\<lambda>now.
       emit env (EvCancelRejected (cc_strategy_id cmd) (cc_instrument_id cmd) (cc_client_order_id cmd) void reason now)))"

text \<open>\<open>try: terms except ValueError as exc: deny(str(exc)); return\<close>, going on with the terms.\<close>

definition try_terms :: "('c, 'a) act \<Rightarrow> (string \<Rightarrow> ('c, unit) act) \<Rightarrow> ('a \<Rightarrow> ('c, unit) task) \<Rightarrow> ('c, unit) task" where
  "try_terms terms deny go =
     tryC (syncC terms) (\<lambda>e. if is_value_error e then syncC (deny (exn_msg e)) else raiseC e) go"

text \<open>\<open>try: await call except Exception as exc: order_command_failed(exc, reject)\<close>.\<close>

definition issue :: "session_call \<Rightarrow> (string \<Rightarrow> ('c, unit) act) \<Rightarrow> ('c, unit) task" where
  "issue call reject = tryC (awaitC call) (\<lambda>e. syncC (order_command_failed e reject)) (\<lambda>_. returnC ())"

section \<open>Submit\<close>

definition submit_terms :: "('c, 'x) client_env_scheme \<Rightarrow> nt_order
    \<Rightarrow> ('c, string \<times> string \<times> string \<times> string \<times> string \<times> int option) act" where
  "submit_terms env order =
     bindE (route env (od_instrument_id order)) (\<lambda>(symbol, exchange).
     bindE (liftE (nautilus_side_to_rithmic (order_side_obj (od_side order)))) (\<lambda>side.
     bindE (liftE (nautilus_order_type_to_rithmic (order_type_obj (od_type order)))) (\<lambda>price_type.
     bindE (liftE (nautilus_tif_to_rithmic (tif_obj (od_tif order)))) (\<lambda>duration.
     bindE (liftE (trailing_ticks_from_order order)) (\<lambda>trail.
       returnE (symbol, exchange, side, price_type, duration, trail))))))"

definition submit_order :: "('c, 'x) client_env_scheme \<Rightarrow> nt_order \<Rightarrow> ('c, unit) task" where
  "submit_order env order =
     bindC (syncC (getE (command_refusal env Submit))) (\<lambda>refused.
       case refused of
         Some reason \<Rightarrow> syncC (deny_all env [order] reason)
       | None \<Rightarrow>
           try_terms (submit_terms env order) (deny_all env [order]) (\<lambda>(symbol, exchange, side, price_type, duration, trail).
             thenC (syncC (announce env order))
             (issue (CPlaceOrder symbol exchange side price_type (od_quantity order) (od_client_order_id order)
                       (map_option px_float (od_price order)) (map_option px_float (od_trigger_price order)) duration
                       trail (if trail = None then None else Some DEFAULT_TRAIL_BY_PRICE_ID))
                    (reject_all env [order]))))"

section \<open>Brackets\<close>

definition is_bracket_order_list :: "nt_order list \<Rightarrow> bool" where
  "is_bracket_order_list orders \<longleftrightarrow>
     length orders = 3 \<and>
     (let cids = map od_client_order_id orders
      in list_ex (\<lambda>ord. (case od_parent_order_id ord of None \<Rightarrow> False | Some p \<Rightarrow> p \<in> set cids)
                       \<or> list_ex (\<lambda>l. l \<in> set cids) (od_linked_order_ids ord)) orders)"

definition bracket_legs :: "('c, 'x) nt_env_scheme \<Rightarrow> nt_order list \<Rightarrow> (nt_order \<times> nt_order \<times> nt_order) option" where
  "bracket_legs env orders =
     (case filter (\<lambda>ord. od_parent_order_id ord = None) orders of
        [entry] \<Rightarrow>
          (let exits = filter (\<lambda>ord. od_parent_order_id ord \<noteq> None) orders;
               stops = filter (\<lambda>ord. od_type ord \<in> {STOP_MARKET, STOP_LIMIT}) exits;
               targets = filter (\<lambda>ord. \<not> list_ex (\<lambda>st. st = ord \<or> ne_order_eq env st ord) stops) exits
           in if list_ex (\<lambda>ord. od_parent_order_id ord \<noteq> Some (od_client_order_id entry)) exits then None
              else case (stops, targets) of ([stop], [tgt]) \<Rightarrow> Some (entry, stop, tgt) | _ \<Rightarrow> None)
      | _ \<Rightarrow> None)"

definition leg_ticks :: "pyfloat \<Rightarrow> pyfloat \<Rightarrow> pyfloat \<Rightarrow> int option res" where
  "leg_ticks tick a b =
     bindR (float_div (float_abs (float_sub a b)) tick) (\<lambda>q. bindR (py_round q) (\<lambda>n.
       Inr (if n \<le> 0 then None else Some n)))"

definition bracket_ticks :: "('c, 'x) nt_env_scheme \<Rightarrow> nt_order \<Rightarrow> nt_order \<Rightarrow> nt_order \<Rightarrow> 'c host
    \<Rightarrow> int option \<times> int option" where
  "bracket_ticks env entry stop tgt s =
     (case ne_instrument env (h_cache s) (od_instrument_id entry) of
        None \<Rightarrow> (None, None)
      | Some ins \<Rightarrow>
          (let tick = in_price_increment ins in
           if float_nonpos tick then (None, None)
           else case od_price entry of
             None \<Rightarrow> (None, None)
           | Some ep \<Rightarrow>
               (case bindR (case (od_trigger_price stop, od_price stop) of
                              (Some tp, _) \<Rightarrow> leg_ticks tick (px_float ep) (px_float tp)
                            | (None, Some sp) \<Rightarrow> leg_ticks tick (px_float ep) (px_float sp)
                            | (None, None) \<Rightarrow> Inr None) (\<lambda>stop_ticks.
                      bindR (case od_price tgt of
                               Some tp \<Rightarrow> leg_ticks tick (px_float tp) (px_float ep)
                             | None \<Rightarrow> Inr None) (\<lambda>target_ticks.
                        Inr (stop_ticks, target_ticks))) of
                  Inl _ \<Rightarrow> (None, None)
                | Inr ticks \<Rightarrow> ticks)))"

definition bracket_terms :: "('c, 'x) client_env_scheme \<Rightarrow> nt_order \<Rightarrow> ('c, string \<times> string \<times> string \<times> string \<times> string) act" where
  "bracket_terms env entry =
     bindE (route env (od_instrument_id entry)) (\<lambda>(symbol, exchange).
     bindE (liftE (nautilus_side_to_rithmic (order_side_obj (od_side entry)))) (\<lambda>side.
     bindE (liftE (nautilus_order_type_to_rithmic (order_type_obj (od_type entry)))) (\<lambda>price_type.
     bindE (liftE (nautilus_tif_to_rithmic (tif_obj (od_tif entry)))) (\<lambda>duration.
       returnE (symbol, exchange, side, price_type, duration)))))"

definition submit_bracket :: "('c, 'x) client_env_scheme \<Rightarrow> nt_order list \<Rightarrow> ('c, unit) task" where
  "submit_bracket env orders =
     (if \<not> ce_brackets env then
        syncC (deny_all env orders ''Rithmic brackets not enabled (RITHMIC_BRACKETS=1 required)'')
      else case bracket_legs env orders of
        None \<Rightarrow> syncC (deny_all env orders
          ''bracket needs one entry and a stop and a target exit whose parent is the entry'')
      | Some (entry, stop, tgt) \<Rightarrow>
          bindC (syncC (getE (bracket_ticks env entry stop tgt))) (\<lambda>ticks.
            case ticks of
              (Some stop_ticks, Some target_ticks) \<Rightarrow>
                try_terms (bracket_terms env entry) (deny_all env orders) (\<lambda>(symbol, exchange, side, price_type, duration).
                  bindC (syncC (getE (command_refusal env Submit))) (\<lambda>refused.
                    case refused of
                      Some reason \<Rightarrow> syncC (deny_all env orders reason)
                    | None \<Rightarrow>
                        thenC (syncC (forE orders (announce env)))
                        (issue (CPlaceBracket symbol exchange side price_type (od_quantity entry)
                                  (od_client_order_id entry) (map_option px_float (od_price entry))
                                  (map_option px_float (od_trigger_price entry)) duration stop_ticks target_ticks)
                               (reject_all env orders))))
            | _ \<Rightarrow> syncC (deny_all env orders
                (''bracket not losslessly representable as stop_ticks/target_ticks '' @
                 ''(need entry limit price + stop/target absolute prices a whole number of ticks away)''))))"

definition submit_order_list :: "('c, 'x) client_env_scheme \<Rightarrow> nt_order list \<Rightarrow> ('c, unit) task" where
  "submit_order_list env orders =
     (if \<not> ce_enable_trading env then syncC (deny_all env orders TRADING_DISABLED_REASON)
      else if is_bracket_order_list orders then submit_bracket env orders
      else forC orders (\<lambda>order. thenC (syncC (timestamp_ns env)) (submit_order env order)))"

section \<open>Modify and cancel\<close>

definition modify_terms :: "('c, 'x) client_env_scheme \<Rightarrow> modify_command \<Rightarrow> nt_order
    \<Rightarrow> ('c, string \<times> string \<times> string \<times> int option) act" where
  "modify_terms env cmd order =
     bindE (route env (mc_instrument_id cmd)) (\<lambda>(symbol, exchange).
     bindE (liftE (nautilus_order_type_to_rithmic (order_type_obj (od_type order)))) (\<lambda>price_type.
     bindE (liftE (trailing_ticks_from_order order)) (\<lambda>trail.
       returnE (symbol, exchange, price_type, trail))))"

definition modify_order :: "('c, 'x) client_env_scheme \<Rightarrow> modify_command \<Rightarrow> ('c, unit) task" where
  "modify_order env cmd =
     bindC (syncC (getE (command_refusal env Modify))) (\<lambda>refused.
       case refused of
         Some reason \<Rightarrow> syncC (modify_rejected env cmd (mc_venue_order_id cmd) reason)
       | None \<Rightarrow>
           bindC (syncC (cached_order env (mc_client_order_id cmd))) (\<lambda>cached.
             case cached of
               None \<Rightarrow> syncC (modify_rejected env cmd (mc_venue_order_id cmd) ''order not in cache'')
             | Some order \<Rightarrow>
                 bindC (syncC (getE (venue_id_for_order env order))) (\<lambda>v.
                   case known_venue_id v of
                     None \<Rightarrow> syncC (modify_rejected env cmd (mc_venue_order_id cmd) ''no venue basket_id for modify'')
                   | Some venue_id \<Rightarrow>
                       try_terms (modify_terms env cmd order) (modify_rejected env cmd (Some venue_id))
                         (\<lambda>(symbol, exchange, price_type, trail).
                           issue (CModifyOrder venue_id symbol exchange
                                    (case mc_quantity cmd of Some q \<Rightarrow> q | None \<Rightarrow> od_quantity order) price_type
                                    (map_option px_float (case mc_price cmd of Some p \<Rightarrow> Some p | None \<Rightarrow> od_price order))
                                    (map_option px_float (case mc_trigger_price cmd of
                                       Some p \<Rightarrow> Some p | None \<Rightarrow> od_trigger_price order))
                                    trail)
                                 (modify_rejected env cmd (Some venue_id))))))"

definition cancel_venue_id :: "('c, 'x) nt_env_scheme \<Rightarrow> cancel_command \<Rightarrow> 'c host \<Rightarrow> string option" where
  "cancel_venue_id env cmd s =
     (case known_venue_id (cc_venue_order_id cmd) of
        Some v \<Rightarrow> Some v
      | None \<Rightarrow> (case ne_venue_order_id env (h_cache s) (cc_client_order_id cmd) of
          Some v \<Rightarrow> Some v | None \<Rightarrow> cc_venue_order_id cmd))"

definition cancel_order :: "('c, 'x) client_env_scheme \<Rightarrow> cancel_command \<Rightarrow> ('c, unit) task" where
  "cancel_order env cmd =
     bindC (syncC (getE (\<lambda>s. (cancel_venue_id env cmd s, command_refusal env Cancel s)))) (\<lambda>(v, refused).
       case refused of
         Some reason \<Rightarrow> syncC (cancel_rejected env cmd v reason)
       | None \<Rightarrow>
           (case known_venue_id v of
              None \<Rightarrow> syncC (cancel_rejected env cmd None ''no venue basket_id for cancel'')
            | Some venue_id \<Rightarrow> issue (CCancelOrder venue_id) (cancel_rejected env cmd (Some venue_id))))"

definition cancel_all_orders :: "('c, 'x) client_env_scheme \<Rightarrow> cancel_all_command \<Rightarrow> ('c, unit) task" where
  "cancel_all_orders env cmd =
     bindC (syncC (getE (\<lambda>s. ne_orders_open env (h_cache s) (ca_instrument_id cmd) (ca_strategy_id cmd) (ca_order_side cmd))))
       (\<lambda>orders. forC orders (\<lambda>order.
          thenC (syncC (timestamp_ns env))
          (cancel_order env \<lparr>cc_strategy_id = od_strategy_id order, cc_instrument_id = od_instrument_id order,
             cc_client_order_id = od_client_order_id order, cc_venue_order_id = od_venue_order_id order\<rparr>)))"

definition batch_cancel_orders :: "('c, 'x) client_env_scheme \<Rightarrow> cancel_command list \<Rightarrow> ('c, unit) task" where
  "batch_cancel_orders env cancels = forC cancels (cancel_order env)"

section \<open>Gates hold when a call is issued\<close>

text \<open>
  \<open>calm\<close>: the gates are as they were and no session call was issued. All synchronous code of the
  commands is calm, so the gates checked at the start of a command still hold when it issues its call.
\<close>

fun is_call :: "trace_item \<Rightarrow> bool" where
  "is_call (TrCall _ _ _) = True"
| "is_call _ = False"

definition calm :: "'c host \<Rightarrow> 'c host \<Rightarrow> bool" where
  "calm s s' \<longleftrightarrow> h_plant s' = h_plant s \<and> h_session_trading s' = h_session_trading s
     \<and> (\<exists>new. h_trace s' = h_trace s @ new \<and> \<not> list_ex is_call new)"

lemma calmI: "h_plant s' = h_plant s \<Longrightarrow> h_session_trading s' = h_session_trading s \<Longrightarrow> h_trace s' = h_trace s @ new
    \<Longrightarrow> \<not> list_ex is_call new \<Longrightarrow> calm s s'"
  by (auto simp: calm_def)

lemma calm_trans: "calm s s1 \<Longrightarrow> calm s1 s2 \<Longrightarrow> calm s s2"
  by (auto simp: calm_def)

interpretation calm: binding_frame calm
proof unfold_locales
  show "transp calm" by (auto simp: transp_def intro: calm_trans)
  show "reflp calm" by (auto simp: reflp_def calm_def)
qed (auto simp: calm_def)

lemma calm_emit: "keeps calm (emit env e)"
  by (rule keepsI) (auto simp: emit_def calm_def split: prod.splits option.splits)

fun call_kind :: "session_call \<Rightarrow> command_kind option" where
  "call_kind (CPlaceOrder _ _ _ _ _ _ _ _ _ _ _) = Some Submit"
| "call_kind (CPlaceBracket _ _ _ _ _ _ _ _ _ _ _) = Some Submit"
| "call_kind (CModifyOrder _ _ _ _ _ _ _ _) = Some Modify"
| "call_kind (CCancelOrder _) = Some Cancel"
| "call_kind _ = None"

fun state_allows :: "command_kind \<Rightarrow> plant_state \<Rightarrow> bool" where
  "state_allows Submit st \<longleftrightarrow> st = Live"
| "state_allows Modify st \<longleftrightarrow> st = Live"
| "state_allows Cancel st \<longleftrightarrow> st = Live \<or> st = Resyncing"

definition gates_open :: "('c, 'x) client_env_scheme \<Rightarrow> command_kind \<Rightarrow> plant_state \<Rightarrow> bool option \<Rightarrow> bool" where
  "gates_open env kind st parent \<longleftrightarrow> ce_enable_trading env \<and> parent \<noteq> Some False \<and> state_allows kind st"

text \<open>Every order call in the trace was issued with its gates open.\<close>

fun call_gated :: "('c, 'x) client_env_scheme \<Rightarrow> trace_item \<Rightarrow> bool" where
  "call_gated env (TrCall call st parent) =
     (case call_kind call of None \<Rightarrow> True | Some kind \<Rightarrow> gates_open env kind st parent)"
| "call_gated env _ = True"

definition gated :: "('c, 'x) client_env_scheme \<Rightarrow> 'c host \<Rightarrow> 'c host \<Rightarrow> bool" where
  "gated env s s' \<longleftrightarrow> (\<exists>new. h_trace s' = h_trace s @ new \<and> list_all (call_gated env) new)"

lemma gated_trans: "gated env s s1 \<Longrightarrow> gated env s1 s2 \<Longrightarrow> gated env s s2"
  unfolding gated_def by (metis append.assoc list_all_append)

lemma not_call_gated: "\<not> list_ex is_call new \<Longrightarrow> list_all (call_gated env) new"
  by (induction new) (auto elim: is_call.elims)

lemma calm_gated: "calm s s' \<Longrightarrow> gated env s s'"
  by (auto simp: calm_def gated_def dest: not_call_gated)

interpretation gated: binding_frame "gated env" for env
proof unfold_locales
  show "transp (gated env)" by (auto simp: transp_def intro: gated_trans)
  show "reflp (gated env)" by (auto simp: reflp_def gated_def)
qed (auto simp: gated_def)

lemma gated_calm: "keeps calm m \<Longrightarrow> keeps (gated env) m"
  by (auto simp: keeps_def intro: calm_gated)

lemma gated_latch: "keeps (gated env) latch_order_plant"
  unfolding latch_order_plant_def set_plant_def by (rule keeps_modifyE) (simp add: gated_def)

definition open_now :: "('c, 'x) client_env_scheme \<Rightarrow> command_kind \<Rightarrow> 'c host \<Rightarrow> bool" where
  "open_now env kind s \<longleftrightarrow> gates_open env kind (plant_of s) (h_session_trading s)"

lemma command_refusal_None: "command_refusal env kind s = None \<longleftrightarrow> open_now env kind s"
  by (cases kind) (auto simp: command_refusal_def open_now_def gates_open_def plant_of_def policy_defs plant_defs)

lemma open_now_calm: "calm s s' \<Longrightarrow> open_now env kind s \<Longrightarrow> open_now env kind s'"
  by (simp add: open_now_def plant_of_def calm_def)

lemma calm_step: "keeps calm m \<Longrightarrow> m s = (r, s') \<Longrightarrow> open_now env kind s \<Longrightarrow> open_now env kind s'"
  by (blast intro: open_now_calm dest: keepsD_eq)

lemmas calm_intros = calm.frame_rules calm_emit calm.keeps_timestamp_ns calm.keeps_mk_id

lemma calm_deny_all: "keeps calm (deny_all env orders reason)"
  unfolding deny_all_def by (intro calm_intros)

lemma calm_reject_all: "keeps calm (reject_all env orders reason)"
  unfolding reject_all_def by (intro calm_intros)

lemma calm_announce: "keeps calm (announce env order)"
  unfolding announce_def by (intro calm_intros)

lemma calm_modify_rejected: "keeps calm (modify_rejected env cmd v reason)"
  unfolding modify_rejected_def by (intro calm_intros)

lemma calm_cancel_rejected: "keeps calm (cancel_rejected env cmd v reason)"
  unfolding cancel_rejected_def by (intro calm_intros)

lemma calm_submit_terms: "keeps calm (submit_terms env order)"
  unfolding submit_terms_def by (intro calm_intros calm.keeps_route)

lemma calm_bracket_terms: "keeps calm (bracket_terms env order)"
  unfolding bracket_terms_def by (intro calm_intros calm.keeps_route)

lemma calm_modify_terms: "keeps calm (modify_terms env cmd order)"
  unfolding modify_terms_def by (intro calm_intros calm.keeps_route)

lemmas calm_answers = calm_deny_all calm_reject_all calm_announce calm_modify_rejected calm_cancel_rejected
  calm_submit_terms calm_bracket_terms calm_modify_terms

lemma segments_gated_sync: "keeps calm m \<Longrightarrow> segments (gated env) (syncC m)"
  by (intro segments_syncC gated_calm)

lemma gated_command_failed: "(\<And>r. keeps calm (reject r)) \<Longrightarrow> keeps (gated env) (order_command_failed e reject)"
  unfolding order_command_failed_def Let_def mark_order_plant_failed_def
  by (intro keeps_if gated_latch gated_calm)

lemma seg_from_issue:
  assumes "call_kind call = Some kind" "open_now env kind s" "\<And>r. keeps calm (reject r)"
  shows "seg_from (gated env) (issue call reject) s"
  unfolding issue_def
proof (rule seg_from_await)
  show "gated env s (log_call call s)" using assms(1,2) by (simp add: gated_def log_call_def open_now_def)
qed (intro segments_syncC gated_command_failed assms(3) segments_returnC gated.refl)+

lemma seg_from_sync: "keeps calm m \<Longrightarrow> seg_from (gated env) (syncC m) s"
  by (intro seg_fromI segments_gated_sync)

lemma seg_from_try_terms_gen:
  assumes "keeps calm terms" "\<And>r. keeps calm (deny r)"
    "\<And>x s1. terms s = (Inr x, s1) \<Longrightarrow> seg_from (gated env) (go x) s1"
  shows "seg_from (gated env) (try_terms terms deny go) s"
  unfolding try_terms_def
proof (rule seg_from_try_sync)
  show "seg_from (gated env) (if is_value_error e then syncC (deny (exn_msg e)) else raiseC e) s1" for e s1
    by (intro seg_fromI segments_if segments_gated_sync assms(2) segments_raiseC gated.refl)
qed (intro gated.trans gated_calm assms)+

lemma seg_from_try_terms:
  assumes "open_now env kind s" "keeps calm terms" "\<And>r. keeps calm (deny r)"
    "\<And>x s1. open_now env kind s1 \<Longrightarrow> seg_from (gated env) (go x) s1"
  shows "seg_from (gated env) (try_terms terms deny go) s"
  using assms(2,3)
  by (rule seg_from_try_terms_gen) (blast intro: assms(4) calm_step [OF assms(2) _ assms(1)])

lemma seg_from_refusal:
  assumes "\<And>r. keeps calm (deny r)" "open_now env kind s \<Longrightarrow> seg_from (gated env) go s"
  shows "seg_from (gated env) (bindC (syncC (getE (command_refusal env kind))) (\<lambda>refused.
    case refused of Some reason \<Rightarrow> syncC (deny reason) | None \<Rightarrow> go)) s"
  by (rule seg_from_bind_sync [OF gated.trans gated.refl])
     (auto simp: em_returned command_refusal_None split: option.splits
       intro!: gated.frame_rules seg_from_sync assms)

lemma seg_from_then_calm:
  assumes "open_now env kind s" "keeps calm m" "\<And>s1. open_now env kind s1 \<Longrightarrow> seg_from (gated env) n s1"
  shows "seg_from (gated env) (thenC (syncC m) n) s"
  by (intro seg_from_then_sync gated.trans gated.refl gated_calm assms(2))
     (rule assms(3) [OF calm_step [OF assms(2) _ assms(1)]])

lemma seg_from_get:
  "(\<And>x. x = f s \<Longrightarrow> seg_from (gated env) (g x) s) \<Longrightarrow> seg_from (gated env) (bindC (syncC (getE f)) g) s"
  by (rule seg_from_bind_sync [OF gated.trans gated.refl]) (auto simp: em_returned intro!: gated.frame_rules)

lemma segments_submit_order: "segments (gated env) (submit_order env order)"
  unfolding segments_seg_from submit_order_def
  by (intro allI seg_from_refusal seg_from_try_terms seg_from_prod seg_from_then_calm seg_from_issue calm_answers)
     simp_all

lemma segments_submit_bracket: "segments (gated env) (submit_bracket env orders)"
  unfolding segments_seg_from submit_bracket_def
  by (intro allI seg_from_if seg_from_option seg_from_prod seg_from_get seg_from_sync seg_from_try_terms_gen
      seg_from_refusal seg_from_then_calm seg_from_issue calm_answers calm.frame_rules) simp_all

lemma segments_submit_order_list: "segments (gated env) (submit_order_list env orders)"
  unfolding submit_order_list_def
  by (intro segments_if segments_gated_sync calm_answers segments_submit_bracket segments_forC segments_thenC
      gated.trans gated.refl segments_submit_order calm.keeps_timestamp_ns)

lemma segments_modify_order: "segments (gated env) (modify_order env cmd)"
  unfolding segments_seg_from modify_order_def cached_order_def
  by (intro allI seg_from_refusal seg_from_get seg_from_option seg_from_sync seg_from_try_terms seg_from_prod
      seg_from_issue calm_answers) simp_all

lemma segments_cancel_order: "segments (gated env) (cancel_order env cmd)"
  unfolding segments_seg_from cancel_order_def
proof (intro allI seg_from_get)
  fix s p
  assume p: "p = (cancel_venue_id env cmd s, command_refusal env Cancel s)"
  show "seg_from (gated env) (case p of (v, refused) \<Rightarrow> (case refused of
         Some reason \<Rightarrow> syncC (cancel_rejected env cmd v reason)
       | None \<Rightarrow>
           (case known_venue_id v of
              None \<Rightarrow> syncC (cancel_rejected env cmd None ''no venue basket_id for cancel'')
            | Some venue_id \<Rightarrow> issue (CCancelOrder venue_id) (cancel_rejected env cmd (Some venue_id))))) s"
    by (intro seg_from_prod seg_from_option seg_from_sync seg_from_issue calm_answers)
       (use p in \<open>simp_all add: command_refusal_None\<close>)
qed

lemma segments_cancel_all: "segments (gated env) (cancel_all_orders env cmd)"
  unfolding cancel_all_orders_def
  by (intro segments_bindC segments_forC segments_thenC segments_cancel_order segments_gated_sync
      calm.frame_rules gated.trans gated.refl calm.keeps_timestamp_ns)

lemma segments_batch_cancel: "segments (gated env) (batch_cancel_orders env cmds)"
  unfolding batch_cancel_orders_def by (intro segments_forC gated.trans gated.refl segments_cancel_order)

section \<open>What a command does\<close>

lemma issue_apply:
  "issue call reject s = (CoAwait call (\<lambda>r s'. case r of
       Inl e \<Rightarrow> (case order_command_failed e reject s' of (x, s'') \<Rightarrow> (CoDone x, s''))
     | Inr _ \<Rightarrow> (CoDone (Inr ()), s')), log_call call s)"
  by (auto simp: issue_def em_simps awaitC_def fun_eq_iff split: sum.splits prod.splits)

text \<open>The announcement of an accepted order.\<close>

lemma announce_Inr:
  assumes "announce env order s = (Inr x, s')"
  shows "\<exists>c. s' = s\<lparr>h_clock := Suc (h_clock s), h_cache := c, h_trace := h_trace s @ [TrEmit (EvSubmitted
     (od_strategy_id order) (od_instrument_id order) (od_client_order_id order) (ne_clock env (h_clock s)))]\<rparr>"
  using assms
  by (auto simp: announce_def timestamp_ns_def emit_def em_returned split: prod.splits option.splits)

lemma route_unchanged: "route env iid s = (r, s') \<Longrightarrow> s' = s"
  using keepsD_eq [OF unchanged.keeps_route] by metis

lemma submit_terms_unchanged: "submit_terms env order s = (r, s') \<Longrightarrow> s' = s"
proof -
  have "keeps (=) (submit_terms env order)"
    unfolding submit_terms_def by (intro unchanged.frame_rules unchanged.keeps_route)
  then show "submit_terms env order s = (r, s') \<Longrightarrow> s' = s" by (auto dest: keepsD_eq)
qed

lemma bracket_terms_unchanged: "bracket_terms env order s = (r, s') \<Longrightarrow> s' = s"
proof -
  have "keeps (=) (bracket_terms env order)"
    unfolding bracket_terms_def by (intro unchanged.frame_rules unchanged.keeps_route)
  then show "bracket_terms env order s = (r, s') \<Longrightarrow> s' = s" by (auto dest: keepsD_eq)
qed

definition place_call :: "nt_order \<Rightarrow> string \<times> string \<times> string \<times> string \<times> string \<times> int option \<Rightarrow> session_call" where
  "place_call order = (\<lambda>(symbol, exchange, side, price_type, duration, trail).
     CPlaceOrder symbol exchange side price_type (od_quantity order) (od_client_order_id order)
       (map_option px_float (od_price order)) (map_option px_float (od_trigger_price order)) duration
       trail (if trail = None then None else Some DEFAULT_TRAIL_BY_PRICE_ID))"

lemma submit_order_await:
  assumes "submit_order env order s = (CoAwait call k, s')"
  obtains terms s1 where "open_now env Submit s" "submit_terms env order s = (Inr terms, s)"
    "call = place_call order terms" "announce env order s = (Inr (), s1)" "s' = log_call call s1"
    "k = (\<lambda>r s'. case r of
       Inl e \<Rightarrow> (case order_command_failed e (reject_all env [order]) s' of (x, s'') \<Rightarrow> (CoDone x, s''))
     | Inr _ \<Rightarrow> (CoDone (Inr ()), s'))"
proof -
  obtain r where r: "submit_terms env order s = (r, s)"
    using submit_terms_unchanged [of env order s] by (metis surj_pair)
  show thesis
    using assms
    by (cases r)
       (auto simp: submit_order_def co_simps try_terms_def em_simps issue_apply place_call_def command_refusal_None r
         intro: that split: option.splits prod.splits sum.splits if_splits)
qed

lemma reject_one:
  assumes "fst (ne_emit env (h_cache s) (EvRejected (od_strategy_id order) (od_instrument_id order)
     (od_client_order_id order) reason (ne_clock env (h_clock s)))) = None"
  shows "\<exists>c. reject_all env [order] reason s = (Inr (), s\<lparr>h_clock := Suc (h_clock s), h_cache := c,
     h_trace := h_trace s @ [TrEmit (EvRejected (od_strategy_id order) (od_instrument_id order)
       (od_client_order_id order) reason (ne_clock env (h_clock s)))]\<rparr>)"
  using assms by (auto simp: reject_all_def em_simps timestamp_ns_def emit_def split: prod.splits option.splits)

text \<open>The route of an instrument: the symbol and the exchange the cached instrument carries in its info.\<close>

lemma route_returned:
  assumes "route env iid s = (Inr (symbol, exchange), s')"
  shows "\<exists>ins. ne_instrument env (h_cache s) iid = Some ins \<and> symbol = py_str (dget (in_info ins) ''rithmic_symbol'')
     \<and> exchange = py_str (dget (in_info ins) ''rithmic_exchange'')"
  using assms
  by (auto simp: route_def em_returned rithmic_route_from_info_def Let_def split: option.splits if_splits)

text \<open>
  C2: When \<open>_submit_order\<close> reaches the session, every gate was open, the order was announced as submitted
  in the same uninterrupted segment directly before the call, and the call carries the order's own terms:
  the symbol and the exchange of its cached instrument, its side, type, quantity, prices, duration and trail,
  and its client order id as the tag. Nothing else was emitted or called.
\<close>

theorem submit_announces_then_places:
  assumes "submit_order env order s = (CoAwait call k, s')"
  shows "\<exists>ins symbol exchange side price_type duration trail c.
     call = CPlaceOrder symbol exchange side price_type (od_quantity order) (od_client_order_id order)
       (map_option px_float (od_price order)) (map_option px_float (od_trigger_price order)) duration
       trail (if trail = None then None else Some DEFAULT_TRAIL_BY_PRICE_ID)
     \<and> gates_open env Submit (plant_of s) (h_session_trading s)
     \<and> ne_instrument env (h_cache s) (od_instrument_id order) = Some ins
     \<and> symbol = py_str (dget (in_info ins) ''rithmic_symbol'') \<and> exchange = py_str (dget (in_info ins) ''rithmic_exchange'')
     \<and> nautilus_side_to_rithmic (order_side_obj (od_side order)) = Inr side
     \<and> nautilus_order_type_to_rithmic (order_type_obj (od_type order)) = Inr price_type
     \<and> nautilus_tif_to_rithmic (tif_obj (od_tif order)) = Inr duration
     \<and> trailing_ticks_from_order order = Inr trail
     \<and> s' = s\<lparr>h_clock := Suc (h_clock s), h_cache := c, h_trace := h_trace s @
         [TrEmit (EvSubmitted (od_strategy_id order) (od_instrument_id order) (od_client_order_id order)
                    (ne_clock env (h_clock s))),
          TrCall call (plant_of s) (h_session_trading s)]\<rparr>"
proof -
  obtain terms s1 where *: "open_now env Submit s" "submit_terms env order s = (Inr terms, s)"
    "call = place_call order terms" "announce env order s = (Inr (), s1)" "s' = log_call call s1"
    using assms by (rule submit_order_await)
  obtain symbol exchange side price_type duration trail
    where t: "terms = (symbol, exchange, side, price_type, duration, trail)" by (cases terms)
  obtain c where c: "s1 = s\<lparr>h_clock := Suc (h_clock s), h_cache := c, h_trace := h_trace s @ [TrEmit (EvSubmitted
     (od_strategy_id order) (od_instrument_id order) (od_client_order_id order) (ne_clock env (h_clock s)))]\<rparr>"
    using announce_Inr [OF *(4)] by blast
  have "nautilus_side_to_rithmic (order_side_obj (od_side order)) = Inr side"
    "nautilus_order_type_to_rithmic (order_type_obj (od_type order)) = Inr price_type"
    "nautilus_tif_to_rithmic (tif_obj (od_tif order)) = Inr duration" "trailing_ticks_from_order order = Inr trail"
    and "\<exists>s2. route env (od_instrument_id order) s = (Inr (symbol, exchange), s2)"
    using *(2) by (auto simp: submit_terms_def em_returned t split: prod.splits)
  moreover from this(5) obtain ins where "ne_instrument env (h_cache s) (od_instrument_id order) = Some ins"
    "symbol = py_str (dget (in_info ins) ''rithmic_symbol'')" "exchange = py_str (dget (in_info ins) ''rithmic_exchange'')"
    using route_returned by blast
  moreover have "s' = s\<lparr>h_clock := Suc (h_clock s), h_cache := c, h_trace := h_trace s @
         [TrEmit (EvSubmitted (od_strategy_id order) (od_instrument_id order) (od_client_order_id order)
                    (ne_clock env (h_clock s))),
          TrCall call (plant_of s) (h_session_trading s)]\<rparr>"
    by (simp add: *(5) c log_call_def plant_of_def)
  ultimately show ?thesis using *(1,3) unfolding t place_call_def open_now_def prod.case by blast
qed

definition demo_live :: "demo_cache host" where
  "demo_live = demo_host\<lparr>h_plant := \<lparr>op_core = plant_new Live\<rparr>\<rparr>"

definition demo_place :: session_call where
  "demo_place = CPlaceOrder ''NQU6'' ''CME'' ''BUY'' ''LIMIT'' 2 ''O-1'' (Some (Fin 100)) None ''DAY'' None None"

lemma demo_submit_awaits: "awaiting (fst (submit_order demo_client demo_order demo_live)) = Some demo_place"
  by code_simp

lemma demo_submit_state:
  obtains k s' where "submit_order demo_client demo_order demo_live = (CoAwait demo_place k, s')"
  using awaiting_Some [OF demo_submit_awaits] by (metis prod.collapse)

theorem submit_announces_then_places_witness:
  "\<exists>k s' st. submit_order demo_client demo_order demo_live = (CoAwait demo_place k, s')
     \<and> h_trace s' = [TrEmit (EvSubmitted ''S-1'' ''NQU6-CME.RITHMIC'' ''O-1'' 1000000000000), TrCall demo_place st (Some True)]
     \<and> gates_open demo_client Submit st (Some True)"
proof -
  obtain k s' where *: "submit_order demo_client demo_order demo_live = (CoAwait demo_place k, s')"
    by (rule demo_submit_state)
  have d: "ne_clock demo_client (h_clock demo_live) = 1000000000000" "h_trace demo_live = []"
    "h_session_trading demo_live = Some True"
    "od_strategy_id demo_order = ''S-1''" "od_instrument_id demo_order = ''NQU6-CME.RITHMIC''"
    "od_client_order_id demo_order = ''O-1''" by code_simp+
  show ?thesis using submit_announces_then_places [OF *] * unfolding d by auto
qed

text \<open>
  C4: What a failed placement means. A reply leaves the order as announced. An outcome that may be live at
  the venue (no code, or a code of neither class) latches the order plant and says nothing about the
  order. A definitive failure (venue reject, or a request that was never sent) leaves the plant trading
  and rejects exactly this order, with the class and the error as the reason.
\<close>

theorem submit_failure_policy:
  assumes "submit_order env order s = (CoAwait call k, s')"
  shows "k (Inr v) s2 = (CoDone (Inr ()), s2)
     \<and> (if failure_class e = Unknown
        then k (Inl e) s2 = (CoDone (Inr ()), s2\<lparr>h_plant := policy_latch (h_plant s2)\<rparr>)
        else h_plant (snd (k (Inl e) s2)) = h_plant s2 \<and>
          (let rejection = EvRejected (od_strategy_id order) (od_instrument_id order) (od_client_order_id order)
                 (failure_reason (failure_class e) e) (ne_clock env (h_clock s2))
           in fst (ne_emit env (h_cache s2) rejection) = None \<longrightarrow>
              fst (k (Inl e) s2) = CoDone (Inr ()) \<and> h_trace (snd (k (Inl e) s2)) = h_trace s2 @ [TrEmit rejection]))"
proof -
  have k: "k = (\<lambda>r s'. case r of
       Inl e \<Rightarrow> (case order_command_failed e (reject_all env [order]) s' of (x, s'') \<Rightarrow> (CoDone x, s''))
     | Inr _ \<Rightarrow> (CoDone (Inr ()), s'))"
    using assms by (rule submit_order_await)
  let ?reason = "failure_reason (failure_class e) e"
  have u: "k (Inl e) s2 = (CoDone (Inr ()), s2\<lparr>h_plant := policy_latch (h_plant s2)\<rparr>)" if "failure_class e = Unknown"
    using that by (simp add: k order_command_failed_def mark_order_plant_failed_def latch_order_plant_def set_plant_def em_simps)
  have d: "k (Inl e) s2 = map_prod CoDone id (reject_all env [order] ?reason s2)" if "failure_class e \<noteq> Unknown"
    using that by (simp add: k order_command_failed_def split: prod.splits)
  have p: "h_plant (snd (reject_all env [order] ?reason s2)) = h_plant s2"
    using keepsD [OF calm_reject_all] by (auto simp: calm_def)
  show ?thesis using u d p reject_one [of env s2 order ?reason] by (auto simp: k Let_def)
qed

theorem submit_failure_policy_witness:
  "\<exists>k s'. submit_order demo_client demo_order demo_live = (CoAwait demo_place k, s')
     \<and> plant_of (snd (k (Inl (exn_of TimeoutError ''no reply'')) s')) = Latched
     \<and> plant_of (snd (k (Inl (Exn OtherException (Some ''venue_rejected'') ''no margin'')) s')) = plant_of s'"
proof -
  obtain k s' where *: "submit_order demo_client demo_order demo_live = (CoAwait demo_place k, s')"
    by (rule demo_submit_state)
  have c: "failure_class (exn_of TimeoutError ''no reply'') = Unknown"
    "failure_class (Exn OtherException (Some ''venue_rejected'') ''no margin'') = Rejected" by code_simp+
  show ?thesis
    using * submit_failure_policy [OF *, of SvUnit s' "exn_of TimeoutError ''no reply''"]
      submit_failure_policy [OF *, of SvUnit s' "Exn OtherException (Some ''venue_rejected'') ''no margin''"]
    unfolding c by (simp add: plant_of_def policy_defs plant_defs)
qed

section \<open>Brackets\<close>

lemma leg_ticks_positive: "leg_ticks tick a b = Inr (Some n) \<Longrightarrow> 0 < n"
  by (auto simp: leg_ticks_def bindR_eq_Inr_iff split: if_splits)

lemma bracket_ticks_positive:
  "bracket_ticks env entry stop tgt s = (Some m, Some n) \<Longrightarrow> 0 < m \<and> 0 < n"
  by (auto simp: bracket_ticks_def Let_def split: option.splits if_splits sum.splits
      simp: bindR_eq_Inr_iff dest: leg_ticks_positive)

definition submitted_for :: "nt_order \<Rightarrow> trace_item \<Rightarrow> bool" where
  "submitted_for ord item \<longleftrightarrow> (\<exists>ts. item =
     TrEmit (EvSubmitted (od_strategy_id ord) (od_instrument_id ord) (od_client_order_id ord) ts))"

lemma announce_all:
  "forE orders (announce env) s = (Inr x, s') \<Longrightarrow> \<exists>new. h_trace s' = h_trace s @ new \<and> h_plant s' = h_plant s
     \<and> h_session_trading s' = h_session_trading s \<and> list_all2 submitted_for orders new"
proof (induction orders arbitrary: s)
  case Nil
  then show ?case by (simp add: em_returned)
next
  case (Cons ord orders)
  then obtain s1 where 1: "announce env ord s = (Inr (), s1)" and 2: "forE orders (announce env) s1 = (Inr x, s')"
    by (auto simp: em_returned)
  from announce_Inr [OF 1] Cons.IH [OF 2] show ?case by (fastforce simp: submitted_for_def)
qed

lemma calm_deny_done: "syncC (deny_all env orders reason) s = (st, s') \<Longrightarrow> awaiting st = None \<and> calm s s'"
  by (auto simp: syncC_def awaiting_def split: prod.splits intro: keepsD_eq [OF calm_deny_all])

text \<open>No session call was issued.\<close>

definition silent :: "'c host \<Rightarrow> 'c host \<Rightarrow> bool" where
  "silent s s' \<longleftrightarrow> (\<exists>new. h_trace s' = h_trace s @ new \<and> \<not> list_ex is_call new)"

lemma calm_silent: "calm s s' \<Longrightarrow> silent s s'"
  by (auto simp: calm_def silent_def)

lemma silent_command_failed:
  assumes "\<And>r. keeps calm (reject r)"
  shows "keeps silent (order_command_failed e reject)"
proof -
  have "keeps silent (reject r)" for r using assms by (auto simp: keeps_def intro: calm_silent)
  moreover have "keeps silent latch_order_plant"
    unfolding latch_order_plant_def set_plant_def by (rule keeps_modifyE) (simp add: silent_def)
  ultimately show ?thesis
    unfolding order_command_failed_def Let_def mark_order_plant_failed_def by (intro keeps_if)
qed

lemma issue_then_silent:
  assumes "\<And>r. keeps calm (reject r)" "issue call reject s = (CoAwait call k, s')"
  shows "\<exists>x s3. k r s2 = (CoDone x, s3) \<and> silent s2 s3"
  using assms(2) keepsD [OF silent_command_failed [OF assms(1)]]
  by (cases r) (auto simp: issue_apply silent_def split: prod.splits intro: keepsD_eq [OF silent_command_failed [OF assms(1)], unfolded silent_def])

lemma submit_order_list_bracket:
  assumes "is_bracket_order_list orders" "submit_order_list env orders s = (st, s')"
  shows "(awaiting st = None \<and> calm s s') \<or> submit_bracket env orders s = (st, s')"
  using assms by (auto simp: submit_order_list_def split: if_splits dest: calm_deny_done)

definition bracket_call :: "nt_order \<Rightarrow> int \<Rightarrow> int \<Rightarrow> string \<times> string \<times> string \<times> string \<times> string \<Rightarrow> session_call" where
  "bracket_call entry stop_ticks target_ticks = (\<lambda>(symbol, exchange, side, price_type, duration).
     CPlaceBracket symbol exchange side price_type (od_quantity entry) (od_client_order_id entry)
       (map_option px_float (od_price entry)) (map_option px_float (od_trigger_price entry)) duration stop_ticks target_ticks)"

lemma submit_bracket_outcome:
  assumes "submit_bracket env orders s = (st, s')" "\<not> (awaiting st = None \<and> calm s s')"
  shows "\<exists>entry stop tgt m n terms s1. bracket_legs env orders = Some (entry, stop, tgt)
     \<and> bracket_ticks env entry stop tgt s = (Some m, Some n) \<and> open_now env Submit s
     \<and> bracket_terms env entry s = (Inr terms, s)
     \<and> forE orders (announce env) s = (Inr (), s1)
     \<and> issue (bracket_call entry m n terms) (reject_all env orders) s1 = (st, s')"
proof -
  have deny: False if "syncC (deny_all env orders reason) s = (st, s')" for reason
    using calm_deny_done [OF that] assms(2) by simp
  obtain entry stop tgt where legs: "bracket_legs env orders = Some (entry, stop, tgt)"
    and b: "ce_brackets env"
    using assms(1) deny by (fastforce simp: submit_bracket_def split: option.splits if_splits)
  obtain m n where ticks: "bracket_ticks env entry stop tgt s = (Some m, Some n)"
    using assms(1) deny legs b
    by (fastforce simp: submit_bracket_def co_simps em_simps split: option.splits prod.splits)
  obtain r where r: "bracket_terms env entry s = (r, s)"
    using bracket_terms_unchanged [of env entry s] by (metis surj_pair)
  have raised: False if "st = CoDone (Inl e)" "s' = s" for e
    using that assms(2) by (simp add: awaiting_def calm_def)
  obtain terms where t: "bracket_terms env entry s = (Inr terms, s)"
  proof (cases r)
    case (Inl e)
    with assms(1) deny legs b ticks r raised show ?thesis
      by (auto simp: submit_bracket_def try_terms_def co_simps em_simps split: if_splits)
  qed (use r that in auto)
  have g: "command_refusal env Submit s = None"
  proof (cases "command_refusal env Submit s")
    case (Some reason)
    with assms(1) legs b ticks t have "syncC (deny_all env orders reason) s = (st, s')"
      by (auto simp: submit_bracket_def try_terms_def co_simps em_simps split: prod.splits)
    then show ?thesis using deny by blast
  qed
  obtain x s1 where f: "forE orders (announce env) s = (x, s1)" by fastforce
  have "calm s s1" using f by (rule keepsD_eq [rotated]) (intro calm.frame_rules calm_announce)
  then obtain "x = Inr ()" using assms legs b ticks t g f
    by (cases x) (auto simp: submit_bracket_def try_terms_def co_simps em_simps awaiting_def split: prod.splits)
  then have "issue (bracket_call entry m n terms) (reject_all env orders) s1 = (st, s')"
    using assms(1) legs b ticks t g f
    by (auto simp: submit_bracket_def try_terms_def co_simps em_simps bracket_call_def split: prod.splits)
  then show ?thesis using legs ticks t g f \<open>x = Inr ()\<close> unfolding command_refusal_None by blast
qed

lemma bracket_terms_returned:
  assumes "bracket_terms env entry s = (Inr (symbol, exchange, side, price_type, duration), s')"
  shows "\<exists>ins. ne_instrument env (h_cache s) (od_instrument_id entry) = Some ins
     \<and> symbol = py_str (dget (in_info ins) ''rithmic_symbol'') \<and> exchange = py_str (dget (in_info ins) ''rithmic_exchange'')"
    "nautilus_side_to_rithmic (order_side_obj (od_side entry)) = Inr side"
    "nautilus_order_type_to_rithmic (order_type_obj (od_type entry)) = Inr price_type"
    "nautilus_tif_to_rithmic (tif_obj (od_tif entry)) = Inr duration"
  using assms by (auto simp: bracket_terms_def em_returned dest: route_returned)

text \<open>
  C27: A bracket list is all or nothing. Submitting it either sends nothing at all, or, with every gate open,
  announces all of its legs and places one venue bracket with the entry's own terms (the symbol and the
  exchange of its cached instrument, its side, type and duration), a positive stop distance and a positive
  target distance, both in ticks; whatever the reply, no further call follows. A linked list is never decomposed into independent orders, so no leg can go out unprotected.
\<close>

theorem bracket_all_or_nothing:
  assumes "is_bracket_order_list orders" "submit_order_list env orders s = (st, s')"
  shows "(awaiting st = None \<and> calm s s') \<or>
    (\<exists>entry stop tgt ins symbol exchange side price_type duration stop_ticks target_ticks call k new.
       bracket_legs env orders = Some (entry, stop, tgt)
     \<and> bracket_ticks env entry stop tgt s = (Some stop_ticks, Some target_ticks) \<and> 0 < stop_ticks \<and> 0 < target_ticks
     \<and> call = CPlaceBracket symbol exchange side price_type (od_quantity entry) (od_client_order_id entry)
         (map_option px_float (od_price entry)) (map_option px_float (od_trigger_price entry)) duration stop_ticks target_ticks
     \<and> st = CoAwait call k \<and> gates_open env Submit (plant_of s) (h_session_trading s)
     \<and> ne_instrument env (h_cache s) (od_instrument_id entry) = Some ins
     \<and> symbol = py_str (dget (in_info ins) ''rithmic_symbol'') \<and> exchange = py_str (dget (in_info ins) ''rithmic_exchange'')
     \<and> nautilus_side_to_rithmic (order_side_obj (od_side entry)) = Inr side
     \<and> nautilus_order_type_to_rithmic (order_type_obj (od_type entry)) = Inr price_type
     \<and> nautilus_tif_to_rithmic (tif_obj (od_tif entry)) = Inr duration
     \<and> h_trace s' = h_trace s @ new @ [TrCall call (plant_of s) (h_session_trading s)] \<and> list_all2 submitted_for orders new
     \<and> (\<forall>r s2. \<exists>x s3. k r s2 = (CoDone x, s3) \<and> silent s2 s3))"
proof (cases "awaiting st = None \<and> calm s s'")
  case False
  then obtain entry stop tgt m n terms s1 where *: "bracket_legs env orders = Some (entry, stop, tgt)"
    "bracket_ticks env entry stop tgt s = (Some m, Some n)" "open_now env Submit s"
    "forE orders (announce env) s = (Inr (), s1)"
    "issue (bracket_call entry m n terms) (reject_all env orders) s1 = (st, s')"
    and bt: "bracket_terms env entry s = (Inr terms, s)"
    using submit_order_list_bracket [OF assms] submit_bracket_outcome by blast
  obtain symbol exchange side price_type duration where t: "terms = (symbol, exchange, side, price_type, duration)"
    by (cases terms)
  obtain k where st: "st = CoAwait (bracket_call entry m n terms) k" "s' = log_call (bracket_call entry m n terms) s1"
    using *(5) by (auto simp: issue_apply)
  obtain new where new: "h_trace s1 = h_trace s @ new" "h_plant s1 = h_plant s"
    "h_session_trading s1 = h_session_trading s" "list_all2 submitted_for orders new"
    using announce_all [OF *(4)] by blast
  have "\<exists>x s3. k r s2 = (CoDone x, s3) \<and> silent s2 s3" for r s2
    using *(5) unfolding st(1) by (rule issue_then_silent [rotated]) (rule calm_reject_all)
  moreover have "h_trace s' = h_trace s @ new @ [TrCall (bracket_call entry m n terms) (plant_of s) (h_session_trading s)]"
    by (simp add: st log_call_def new plant_of_def)
  moreover note bracket_terms_returned [OF bt [unfolded t]]
  ultimately show ?thesis
    using *(1-3) st(1) new(4) bracket_ticks_positive [OF *(2)] unfolding open_now_def t bracket_call_def prod.case by blast
qed simp

text \<open>A bracket: a buy limit entry at 100, a stop below and a target above it, on a quarter tick.\<close>

definition demo_leg :: "string \<Rightarrow> order_type \<Rightarrow> rat option \<Rightarrow> rat option \<Rightarrow> string option \<Rightarrow> nt_order" where
  "demo_leg cid ty px trg parent = demo_order\<lparr>od_client_order_id := cid, od_type := ty,
     od_side := (if parent = None then BUY else SELL),
     od_price := map_option (\<lambda>x. \<lparr>px_text = [], px_float = Fin x, px_precision = 2\<rparr>) px,
     od_trigger_price := map_option (\<lambda>x. \<lparr>px_text = [], px_float = Fin x, px_precision = 2\<rparr>) trg,
     od_parent_order_id := parent\<rparr>"

definition demo_bracket :: "rat \<Rightarrow> nt_order list" where
  "demo_bracket stop_px = [demo_leg ''E-1'' LIMIT (Some 100) None None,
     demo_leg ''S-1'' STOP_MARKET None (Some stop_px) (Some ''E-1''),
     demo_leg ''T-1'' LIMIT (Some 102) None (Some ''E-1'')]"

definition demo_bracket_call :: session_call where
  "demo_bracket_call = CPlaceBracket ''NQU6'' ''CME'' ''BUY'' ''LIMIT'' 2 ''E-1'' (Some (Fin 100)) None ''DAY'' 4 8"

theorem bracket_all_or_nothing_witness:
  "awaiting (fst (submit_order_list demo_client (demo_bracket 99) demo_live)) = Some demo_bracket_call
   \<and> (\<exists>entry stop tgt. bracket_legs demo_client (demo_bracket 99) = Some (entry, stop, tgt)
        \<and> (\<exists>m n. bracket_ticks demo_client entry stop tgt demo_live = (Some m, Some n) \<and> 0 < m \<and> 0 < n))"
proof -
  have a: "awaiting (fst (submit_order_list demo_client (demo_bracket 99) demo_live)) = Some demo_bracket_call"
    by code_simp
  have b: "is_bracket_order_list (demo_bracket 99)" by code_simp
  obtain st s' where s: "submit_order_list demo_client (demo_bracket 99) demo_live = (st, s')" by fastforce
  with a have "awaiting st \<noteq> None" by simp
  then show ?thesis using a bracket_all_or_nothing [OF b s] by auto
qed

lemma submit_bracket_places:
  assumes "is_bracket_order_list orders" "ce_enable_trading env" "ce_brackets env" "bracket_legs env orders = Some (entry, stop, tgt)"
    "bracket_ticks env entry stop tgt s = (Some m, Some n)" "bracket_terms env entry s = (Inr terms, s)"
    "gates_open env Submit (plant_of s) (h_session_trading s)" "fst (forE orders (announce env) s) = Inr ()"
  shows "awaiting (fst (submit_order_list env orders s)) = Some (bracket_call entry m n terms)"
proof -
  obtain s1 where f: "forE orders (announce env) s = (Inr (), s1)" using assms(8) by (metis prod.collapse)
  have "command_refusal env Submit s = None" using assms(7) by (simp add: command_refusal_None open_now_def)
  then show ?thesis using assms f
    by (cases terms) (simp add: submit_order_list_def submit_bracket_def try_terms_def co_simps em_simps issue_apply
        bracket_call_def awaiting_def)
qed

lemma round_half_even_near: "\<bar>of_int (round_half_even x) - x\<bar> \<le> 1 / 2"
proof -
  obtain p q where pq: "quotient_of x = (p, q)" by fastforce
  have q: "0 < q" and x: "x = of_int p / of_int q" using pq quotient_of_denom_pos quotient_of_div by blast+
  let ?f = "p div q" and ?r = "p mod q"
  have "p = ?f * q + ?r" by simp
  then have "(of_int p :: rat) = of_int ?f * of_int q + of_int ?r" by (metis of_int_add of_int_mult)
  then have e: "x - of_int ?f = of_int ?r / of_int q" using q by (simp add: x field_simps)
  have r: "0 \<le> ?r" "?r < q" using q by simp_all
  have le: "of_int a / of_int q \<le> (1 / 2 :: rat)" if "2 * a \<le> q" for a
  proof -
    have "2 * (of_int a :: rat) \<le> of_int q" using that by (metis of_int_le_iff of_int_mult of_int_numeral)
    then show ?thesis using q by (simp add: field_simps)
  qed
  have up: "1 - of_int ?r / of_int q = (of_int (q - ?r) / of_int q :: rat)" using q by (simp add: field_simps)
  have pos: "(0 :: rat) \<le> of_int ?r / of_int q" "(0 :: rat) \<le> of_int (q - ?r) / of_int q" using q r by simp_all
  show ?thesis
  proof (cases "round_div p q = ?f")
    case True
    then have "2 * ?r \<le> q" by (auto simp: round_div_def Let_def split: if_splits)
    from le [OF this] e pos(1) True pq show ?thesis by (simp add: round_half_even_def)
  next
    case False
    then have f: "round_div p q = ?f + 1" "2 * (q - ?r) \<le> q" by (auto simp: round_div_def Let_def split: if_splits)
    then have "of_int (round_half_even x) - x = 1 - of_int ?r / of_int q" using e pq by (simp add: round_half_even_def)
    then have "of_int (round_half_even x) - x = of_int (q - ?r) / of_int q" using up by (rule trans)
    then show ?thesis using le [OF f(2)] pos(2) by (simp only: abs_of_nonneg)
  qed
qed

lemma leg_ticks_rounds:
  assumes "float_div (float_abs (float_sub a b)) tick = Inr (Fin d)" "1 / 2 < d"
  shows "\<exists>n. leg_ticks tick a b = Inr (Some n) \<and> \<bar>of_int n - d\<bar> \<le> 1 / 2"
proof -
  have near: "\<bar>of_int (round_half_even d) - d\<bar> \<le> 1 / 2" by (rule round_half_even_near)
  then have "(0 :: rat) < of_int (round_half_even d)" using assms(2) by linarith
  then have "0 < round_half_even d" by (simp only: of_int_0_less_iff)
  then show ?thesis using assms(1) near by (simp add: leg_ticks_def py_round_def)
qed

text \<open>
  C34: an exit that is not a whole number of ticks away is rounded, not denied. Take a bracket that can be
  placed: the switches and gates are open, its legs and terms are in order, its legs can be announced. Let
  \<open>d\<close> and \<open>d'\<close> be the distances of stop and target in ticks as the code computes them, each more than half a
  tick. Whatever they are, whole or not, the bracket goes out with the distances rounded to the nearest tick, so
  an exit up to half a tick off is placed at another price, although the denial text of the same method demands
  prices a whole number of ticks away.
\<close>

theorem bracket_rounds_off_tick_exit:
  assumes "is_bracket_order_list orders" "ce_enable_trading env" "ce_brackets env" "bracket_legs env orders = Some (entry, stop, tgt)"
    "ne_instrument env (h_cache s) (od_instrument_id entry) = Some ins" "in_price_increment ins = Fin tick" "0 < tick"
    "od_price entry = Some ep" "od_trigger_price stop = Some sp" "od_price tgt = Some tp"
    "float_div (float_abs (float_sub (px_float ep) (px_float sp))) (Fin tick) = Inr (Fin d)" "1 / 2 < d"
    "float_div (float_abs (float_sub (px_float tp) (px_float ep))) (Fin tick) = Inr (Fin d')" "1 / 2 < d'"
    "bracket_terms env entry s = (Inr (symbol, exchange, side, price_type, duration), s)"
    "gates_open env Submit (plant_of s) (h_session_trading s)" "fst (forE orders (announce env) s) = Inr ()"
  shows "\<exists>m n. awaiting (fst (submit_order_list env orders s)) = Some (CPlaceBracket symbol exchange side price_type
      (od_quantity entry) (od_client_order_id entry) (Some (px_float ep)) (map_option px_float (od_trigger_price entry)) duration m n)
    \<and> \<bar>of_int m - d\<bar> \<le> 1 / 2 \<and> \<bar>of_int n - d'\<bar> \<le> 1 / 2"
proof -
  obtain m where m: "leg_ticks (Fin tick) (px_float ep) (px_float sp) = Inr (Some m)" "\<bar>of_int m - d\<bar> \<le> 1 / 2"
    using leg_ticks_rounds [OF assms(11,12)] by blast
  obtain n where n: "leg_ticks (Fin tick) (px_float tp) (px_float ep) = Inr (Some n)" "\<bar>of_int n - d'\<bar> \<le> 1 / 2"
    using leg_ticks_rounds [OF assms(13,14)] by blast
  have "bracket_ticks env entry stop tgt s = (Some m, Some n)"
    using assms(5-10) m(1) n(1) by (simp add: bracket_ticks_def)
  from submit_bracket_places [OF assms(1-4) this assms(15-17)] m(2) n(2) assms(8) show ?thesis
    by (auto simp: bracket_call_def)
qed

text \<open>A stop at 99.3125, that is 2.75 ticks below the entry, goes out as 3 ticks.\<close>

theorem bracket_rounds_off_tick_exit_witness:
  "\<exists>m n. awaiting (fst (submit_order_list demo_client (demo_bracket (1589 / 16)) demo_live)) =
      Some (CPlaceBracket ''NQU6'' ''CME'' ''BUY'' ''LIMIT'' 2 ''E-1'' (Some (Fin 100)) None ''DAY'' m n)
    \<and> \<bar>of_int m - 11 / 4 :: rat\<bar> \<le> 1 / 2 \<and> \<bar>of_int n - 8 :: rat\<bar> \<le> 1 / 2"
proof -
  let ?os = "demo_bracket (1589 / 16)"
  let ?e = "?os ! 0" and ?s = "?os ! 1" and ?t = "?os ! 2"
  have os: "is_bracket_order_list ?os" "ce_enable_trading demo_client" "ce_brackets demo_client"
    "bracket_legs demo_client ?os = Some (?e, ?s, ?t)" by code_simp+
  have ins: "map_option in_price_increment (ne_instrument demo_client (h_cache demo_live) (od_instrument_id ?e)) = Some (Fin (1 / 4))"
    by code_simp
  then obtain ins where i: "ne_instrument demo_client (h_cache demo_live) (od_instrument_id ?e) = Some ins"
    "in_price_increment ins = Fin (1 / 4)" by auto
  have px: "map_option px_float (od_price ?e) = Some (Fin 100)" "map_option px_float (od_trigger_price ?s) = Some (Fin (1589 / 16))"
    "map_option px_float (od_price ?t) = Some (Fin 102)" "map_option px_float (od_trigger_price ?e) = None"
    "od_quantity ?e = 2" "od_client_order_id ?e = ''E-1''"
    by code_simp+
  then obtain ep sp tp where p: "od_price ?e = Some ep" "od_trigger_price ?s = Some sp" "od_price ?t = Some tp"
    and f: "px_float ep = Fin 100" "px_float sp = Fin (1589 / 16)" "px_float tp = Fin 102" by auto
  have d: "float_div (float_abs (float_sub (Fin 100) (Fin (1589 / 16)))) (Fin (1 / 4)) = Inr (Fin (11 / 4))"
    "float_div (float_abs (float_sub (Fin 102) (Fin 100))) (Fin (1 / 4)) = Inr (Fin 8)" by code_simp+
  have t: "fst (bracket_terms demo_client ?e demo_live) = Inr (''NQU6'', ''CME'', ''BUY'', ''LIMIT'', ''DAY'')"
    and a: "fst (forE ?os (announce demo_client) demo_live) = Inr ()"
    and g: "gates_open demo_client Submit (plant_of demo_live) (h_session_trading demo_live)" by code_simp+
  have bt: "bracket_terms demo_client ?e demo_live = (Inr (''NQU6'', ''CME'', ''BUY'', ''LIMIT'', ''DAY''), demo_live)"
    using t bracket_terms_unchanged [of demo_client ?e demo_live] by (metis prod.collapse)
  from bracket_rounds_off_tick_exit [OF os i _ p d(1) [folded f] _ d(2) [folded f] _ bt g a]
  show ?thesis using px(4-6) f(1) by simp
qed

end
