(* ===== verification/Intake.thy ===== *)
theory Intake
  imports Recon
begin

text \<open>
  \<open>notification_intake.py\<close> (\<open>VenueNotificationIntake\<close>): a live order notification becomes an event of the
  tracked order it belongs to, or a status and a fill report for an order the node does not track. Fills
  are emitted at most once per venue identity (the dedup store), a status goes out before its fill, and
  a fill that cannot be priced or overfills the order latches the plant.
\<close>

section \<open>Tracked orders\<close>

definition emit_accepted :: "('c, 'x) client_env_scheme \<Rightarrow> nt_order \<Rightarrow> string \<Rightarrow> string \<Rightarrow> int \<Rightarrow> ('c, unit) act" where
  "emit_accepted env order cid void ts =
     (if od_status order = SUBMITTED
      then emit env (EvAccepted (od_strategy_id order) (od_instrument_id order) cid void ts) else returnE ())"

definition opt_price_prec :: "('c, 'x) client_env_scheme \<Rightarrow> pyval \<Rightarrow> int option \<Rightarrow> nt_price option \<Rightarrow> nt_price option res" where
  "opt_price_prec env v prec own =
     (if v \<noteq> PNone then bindR (price_from_wire env v prec) (\<lambda>p. Inr (Some p)) else Inr own)"

definition resolve_updated_terms :: "('c, 'x) client_env_scheme \<Rightarrow> nt_order \<Rightarrow> order_action
    \<Rightarrow> (int \<times> nt_price option \<times> nt_price option) res" where
  "resolve_updated_terms env order action =
     bindR (case oa_quantity action of
              Some q \<Rightarrow> check_opt (ne_quantity env q) q | None \<Rightarrow> Inr (od_quantity order)) (\<lambda>qty.
     (let prec = map_option px_precision (od_price order) in
      bindR (opt_price_prec env (oa_price action) prec (od_price order)) (\<lambda>price.
      bindR (opt_price_prec env (oa_trigger action) prec (od_trigger_price order)) (\<lambda>trigger.
        Inr (qty, price, trigger)))))"

definition emit_triggered_guarded :: "('c, 'x) client_env_scheme \<Rightarrow> nt_order \<Rightarrow> string \<Rightarrow> string \<Rightarrow> int \<Rightarrow> ('c, unit) act" where
  "emit_triggered_guarded env order cid void ts =
     (if od_type order \<notin> set TRIGGERABLE_ORDER_TYPES \<or> od_status order = TRIGGERED then returnE ()
      else emit env (EvTriggered (od_strategy_id order) (od_instrument_id order) cid void ts))"

definition tracked_fill_terms :: "('c, 'x) client_env_scheme \<Rightarrow> nt_order \<Rightarrow> int \<Rightarrow> pyval \<Rightarrow> ('c, (int \<times> nt_price) option) act" where
  "tracked_fill_terms env order qty px =
     catchE (thenE (liftE (check_opt (ne_quantity env qty) ()))
            (if px = PNone then raiseE (exn_of ValueError ''fill price missing (pending/sentinel)'')
             else bindE (price_for_instrument env (od_instrument_id order) px) (\<lambda>p. returnE (Some (qty, p)))))
       (\<lambda>e. if catchable e then thenE latch_order_plant (returnE None) else raiseE e)"

definition overfills :: "nt_order \<Rightarrow> int \<Rightarrow> bool" where
  "overfills order qty = (case od_leaves_qty order of None \<Rightarrow> False | Some leaves \<Rightarrow> qty > leaves)"

definition send_tracked_fill :: "('c, 'x) client_env_scheme \<Rightarrow> nt_order \<Rightarrow> string \<Rightarrow> string \<Rightarrow> order_fields \<Rightarrow> int
    \<Rightarrow> string \<Rightarrow> string \<Rightarrow> int \<Rightarrow> nt_price \<Rightarrow> ('c, unit) act" where
  "send_tracked_fill env order cid void f ts trade_id dedup qty px =
     bindE (commission_for env (od_instrument_id order) (of_symbol f) qty) (\<lambda>comm.
     bindE (mk_id env trade_id) (\<lambda>tid.
     thenE (liftE (check_opt (ne_currency env ''USD'') ()))
     (thenE (emit env (EvFilled (od_strategy_id order) (od_instrument_id order) cid void tid (od_side order)
                         (od_type order) qty px comm ts))
     (mark_fill_key dedup))))"

definition emit_tracked_fill :: "('c, 'x) client_env_scheme \<Rightarrow> nt_order \<Rightarrow> string \<Rightarrow> string \<Rightarrow> order_fields \<Rightarrow> int
    \<Rightarrow> string \<Rightarrow> string \<Rightarrow> int \<Rightarrow> nt_price \<Rightarrow> ('c, unit) act" where
  "emit_tracked_fill env order cid void f ts trade_id dedup qty px =
     thenE (if overfills order qty then latch_order_plant else returnE ())
     (send_tracked_fill env order cid void f ts trade_id dedup qty px)"

definition handle_tracked_fill :: "('c, 'x) client_env_scheme \<Rightarrow> nt_order \<Rightarrow> string \<Rightarrow> string \<Rightarrow> order_fields \<Rightarrow> int
    \<Rightarrow> order_action \<Rightarrow> ('c, unit) act" where
  "handle_tracked_fill env order cid void f ts action =
     (case (oa_fill_qty action, oa_trade_id action) of
        (Some qty, Some trade_id) \<Rightarrow>
          bindE (liftE (fill_dedup_key f (fill_identity_ts f))) (\<lambda>dedup.
          bindE (fill_key_seen dedup) (\<lambda>seen.
            if seen then returnE ()
            else bindE (tracked_fill_terms env order qty (oa_fill_px action)) (\<lambda>terms.
              case terms of
                None \<Rightarrow> returnE ()
              | Some (q, px) \<Rightarrow> emit_tracked_fill env order cid void f ts trade_id dedup q px)))
      | _ \<Rightarrow> returnE ())"

definition reason_text :: "order_action \<Rightarrow> string" where
  "reason_text action = (case oa_reason action of None \<Rightarrow> ''None'' | Some r \<Rightarrow> r)"

definition perform_action :: "('c, 'x) client_env_scheme \<Rightarrow> nt_order \<Rightarrow> string \<Rightarrow> string \<Rightarrow> order_fields \<Rightarrow> int
    \<Rightarrow> order_action \<Rightarrow> ('c, unit) act" where
  "perform_action env order cid void f ts action =
     (let kind = oa_kind action; strat = od_strategy_id order; ins = od_instrument_id order in
      if kind = ''accepted'' then emit_accepted env order cid void ts
      else if kind = ''rejected'' then emit env (EvRejected strat ins cid (reason_text action) ts)
      else if kind = ''modify_rejected'' then emit env (EvModifyRejected strat ins cid void (reason_text action) ts)
      else if kind = ''cancel_rejected'' then emit env (EvCancelRejected strat ins cid void (reason_text action) ts)
      else if kind = ''updated'' then
        bindE (liftE (resolve_updated_terms env order action)) (\<lambda>(qty, price, trigger).
          emit env (EvUpdated strat ins cid void qty price trigger ts))
      else if kind = ''canceled'' then emit env (EvCanceled strat ins cid void ts)
      else if kind = ''triggered'' then emit_triggered_guarded env order cid void ts
      else if kind = ''filled'' then handle_tracked_fill env order cid void f ts action
      else returnE ())"

section \<open>Untracked orders\<close>

definition status_key_of :: "order_status_report \<Rightarrow> status_key" where
  "status_key_of r = (sr_venue_order_id r, sr_order_status r, sr_quantity r, map_option px_text (sr_price r),
     map_option px_text (sr_trigger_price r), sr_filled_qty r, sr_avg_px r)"

definition last_status :: "string \<Rightarrow> ('c, status_key option) act" where
  "last_status k = (\<lambda>s. case book_get k (h_untracked_status_keys s) of
     (v, b) \<Rightarrow> (Inr v, s\<lparr>h_untracked_status_keys := b\<rparr>))"

definition publish_untracked_status :: "('c, 'x) client_env_scheme \<Rightarrow> order_fields \<Rightarrow> int \<Rightarrow> ('c, bool) act" where
  "publish_untracked_status env f ts =
     bindE (drain_row_from_fields env f ts) (\<lambda>row.
       case dr_report row of
         None \<Rightarrow> bindE (basket_client_id env f) (\<lambda>_. returnE True)
       | Some report \<Rightarrow>
           bindE (last_status (sr_venue_order_id report)) (\<lambda>prev.
             if prev = Some (status_key_of report) then returnE True
             else bindE (publish_order_status_report env report) (\<lambda>ok.
               if \<not> ok then returnE False
               else thenE (modifyE (\<lambda>s. s\<lparr>h_untracked_status_keys :=
                             book_record (sr_venue_order_id report) (status_key_of report) (h_untracked_status_keys s)\<rparr>))
                          (returnE True))))"

definition publish_untracked_fill :: "('c, 'x) client_env_scheme \<Rightarrow> order_fields \<Rightarrow> ('c, unit) act" where
  "publish_untracked_fill env f =
     (if of_kind f \<noteq> PStr ''filled'' then returnE ()
      else bindE (liftE (fill_dedup_key f (fill_identity_ts f))) (\<lambda>dedup.
           bindE (fill_key_seen dedup) (\<lambda>seen.
             if seen then returnE ()
             else bindE (fill_report_from_fields env f (fill_identity_ts f)) (\<lambda>report.
               case report of None \<Rightarrow> returnE () | Some r \<Rightarrow>
                 thenE (emit env (EvFillReport r)) (mark_fill_key dedup)))))"

definition event_time :: "('c, 'x) client_env_scheme \<Rightarrow> order_fields \<Rightarrow> ('c, int) act" where
  "event_time env f = (case of_ts_event f of Some t \<Rightarrow> returnE t | None \<Rightarrow> timestamp_ns env)"

definition seed_from :: "('c, 'x) client_env_scheme \<Rightarrow> order_fields \<Rightarrow> ('c, unit) act" where
  "seed_from env f =
     (case opt_text (of_account_id f) of None \<Rightarrow> returnE () | Some a \<Rightarrow> seed_account_if_needed env (Some a))"

definition handle_untracked_notification :: "('c, 'x) client_env_scheme \<Rightarrow> order_fields \<Rightarrow> ('c, unit) act" where
  "handle_untracked_notification env f =
     bindE (event_time env f) (\<lambda>ts.
       if \<not> truthy (of_basket_id f) \<or> (of_instrument_id f = [] \<and> of_symbol f = []) then returnE ()
       else thenE (seed_from env f)
         (bindE (getE h_account_id) (\<lambda>acct.
            if acct = None then returnE ()
            else bindE (publish_untracked_status env f ts) (\<lambda>ok.
              if ok then publish_untracked_fill env f else returnE ()))))"

section \<open>Routing\<close>

definition handle_tracked_notification :: "('c, 'x) client_env_scheme \<Rightarrow> order_fields \<Rightarrow> string \<Rightarrow> nt_order \<Rightarrow> ('c, unit) act" where
  "handle_tracked_notification env f cid order =
     bindE (event_time env f) (\<lambda>ts.
     thenE (case opt_text (of_basket_id f) of None \<Rightarrow> returnE () | Some b \<Rightarrow> bind_venue_id env cid b)
     (bindE (venue_id_for env f cid) (\<lambda>v.
      bindE (mk_id env v) (\<lambda>void.
      bindE (liftE (notification_action f order)) (\<lambda>action.
        case action of None \<Rightarrow> returnE () | Some a \<Rightarrow> perform_action env order cid void f ts a)))))"

definition handle_order_notification :: "('c, 'x) client_env_scheme \<Rightarrow> order_fields \<Rightarrow> ('c, unit) act" where
  "handle_order_notification env f =
     thenE (seed_from env f)
     (bindE (resolve_client_order_id env f) (\<lambda>cid.
        case cid of
          None \<Rightarrow> handle_untracked_notification env f
        | Some c \<Rightarrow> bindE (cached_order env c) (\<lambda>order.
            case order of None \<Rightarrow> returnE () | Some ord \<Rightarrow> handle_tracked_notification env f c ord)))"

definition dispatch_order_event :: "('c, 'x) client_env_scheme \<Rightarrow> pydict \<Rightarrow> ('c, unit) act" where
  "dispatch_order_event env event =
     (if dget event ''type'' \<noteq> PStr ''order_notification'' then returnE ()
      else case order_notification_to_fields event of
        Inl e \<Rightarrow> raiseE (exn_of UnreadableEventError (''invalid order_notification ('' @ exn_msg e @ '')''))
      | Inr f \<Rightarrow> handle_order_notification env f)"


section \<open>Fill emission and the dedup store\<close>

fun fill_item :: "trace_item \<Rightarrow> bool" where
  "fill_item (TrEmit (EvFilled _ _ _ _ _ _ _ _ _ _ _)) = True"
| "fill_item (TrEmit (EvFillReport _)) = True"
| "fill_item _ = False"

definition fill_events :: "'c host \<Rightarrow> trace_item list" where
  "fill_events s = filter fill_item (h_trace s)"

text \<open>No fill went out and the store is as it was.\<close>

definition quiet :: "'c host \<Rightarrow> 'c host \<Rightarrow> bool" where
  "quiet s s' \<longleftrightarrow> fill_events s' = fill_events s \<and> h_seen_fill_keys s' = h_seen_fill_keys s"

lemma not_fill_item_passive: "passive_event e \<Longrightarrow> \<not> fill_item (TrEmit e)"
  by (cases e) (simp_all add: passive_event_def)

interpretation quiet: binding_frame quiet
  by unfold_locales (auto simp: quiet_def fill_events_def reflp_def transp_def not_fill_item_passive)

lemma quiet_emit: "\<not> fill_item (TrEmit e) \<Longrightarrow> keeps quiet (emit env e)"
  by (rule keepsI) (auto simp: emit_def quiet_def fill_events_def split: prod.splits option.splits)

lemma quiet_modify: "(\<And>s. h_trace (g s) = h_trace s \<and> h_seen_fill_keys (g s) = h_seen_fill_keys s) \<Longrightarrow> keeps quiet (modifyE g)"
  by (rule keeps_modifyE) (simp add: quiet_def fill_events_def)

lemma quiet_latch: "keeps quiet latch_order_plant"
  unfolding latch_order_plant_def set_plant_def by (rule quiet_modify) simp

lemma quiet_last_status: "keeps quiet (last_status k)"
  by (rule keepsI) (simp add: last_status_def quiet_def fill_events_def split: prod.splits)

lemma quiet_publish_untracked_status: "keeps quiet (publish_untracked_status env f ts)"
  unfolding publish_untracked_status_def
  by (intro quiet.frame_rules quiet.keeps_drain_row quiet.keeps_basket_client_id quiet_last_status
      quiet.keeps_publish_status quiet_modify) simp

lemma quiet_event_time: "keeps quiet (event_time env f)"
  unfolding event_time_def by (intro quiet.frame_rules quiet.keeps_timestamp_ns)

lemma quiet_seed_from: "keeps quiet (seed_from env f)"
  unfolding seed_from_def by (intro quiet.frame_rules quiet.keeps_seed)

lemma quiet_tracked_fill_terms: "keeps quiet (tracked_fill_terms env order qty px)"
  unfolding tracked_fill_terms_def by (intro quiet.frame_rules quiet.keeps_price_for_instrument quiet_latch)

text \<open>At most one fill of key \<open>k\<close> went out, and if so the key was marked.\<close>

definition one_fill :: "string \<Rightarrow> 'c host \<Rightarrow> 'c host \<Rightarrow> bool" where
  "one_fill k s s' \<longleftrightarrow> quiet s s'
     \<or> ((\<exists>e. fill_events s' = fill_events s @ [e]) \<and> h_seen_fill_keys s' = mark k (h_seen_fill_keys s))"

lemma one_fill_quiet: "quiet s s' \<Longrightarrow> one_fill k s s'"
  by (simp add: one_fill_def)

lemma one_fill_keeps: "keeps quiet m \<Longrightarrow> keeps (one_fill k) m"
  by (simp add: keeps_def one_fill_quiet)

lemma quiet_then_one: "quiet s s1 \<Longrightarrow> one_fill k s1 s2 \<Longrightarrow> one_fill k s s2"
  by (auto simp: one_fill_def quiet_def)

lemma one_fill_bind:
  assumes "keeps quiet m" "\<And>x. keeps (one_fill k) (f x)"
  shows "keeps (one_fill k) (bindE m f)"
proof (rule keepsI)
  fix s
  obtain r s1 where m: "m s = (r, s1)" by fastforce
  then have q: "quiet s s1" using assms(1) by (metis keepsD_eq)
  show "one_fill k s (snd (bindE m f s))"
    using q m assms(2) by (cases r) (auto simp: em_simps one_fill_quiet intro: quiet_then_one keepsD)
qed

lemma one_fill_then: "keeps quiet m \<Longrightarrow> keeps (one_fill k) n \<Longrightarrow> keeps (one_fill k) (thenE m n)"
  by (simp add: thenE_def one_fill_bind)

lemma one_fill_emit_mark: "fill_item (TrEmit e) \<Longrightarrow> keeps (one_fill k) (thenE (emit env e) (mark_fill_key k))"
  by (rule keepsI)
     (auto simp: em_simps emit_def mark_fill_key_def one_fill_def quiet_def fill_events_def split: prod.splits option.splits)

lemma one_fill_emit_tracked: "keeps (one_fill k) (emit_tracked_fill env order cid void f ts tid k qty px)"
  unfolding emit_tracked_fill_def send_tracked_fill_def
  by (intro one_fill_then one_fill_bind one_fill_emit_mark quiet.frame_rules quiet_latch quiet.keeps_commission_for
      quiet.keeps_mk_id) simp

text \<open>What handling a notification with dedup key \<open>key\<close> may do to fills and the store.\<close>

definition fill_outcome :: "string res \<Rightarrow> 'c host \<Rightarrow> 'c host \<Rightarrow> bool" where
  "fill_outcome key s s' \<longleftrightarrow> quiet s s'
     \<or> (\<exists>k. key = Inr k \<and> fill_events s' = fill_events s \<and> h_seen_fill_keys s' = snd (has_seen k (h_seen_fill_keys s)))
     \<or> (\<exists>k e. key = Inr k \<and> \<not> fst (has_seen k (h_seen_fill_keys s)) \<and> fill_events s' = fill_events s @ [e]
          \<and> h_seen_fill_keys s' = mark k (snd (has_seen k (h_seen_fill_keys s))))"

lemma fill_outcome_quiet: "quiet s s' \<Longrightarrow> fill_outcome key s s'"
  by (simp add: fill_outcome_def)

lemma fill_outcome_refl: "reflp (fill_outcome key)"
  by (simp add: reflp_def fill_outcome_def quiet_def)

lemma quiet_then_outcome: "quiet s s1 \<Longrightarrow> fill_outcome key s1 s2 \<Longrightarrow> fill_outcome key s s2"
  by (auto simp: fill_outcome_def quiet_def)

lemma outcome_bind:
  assumes "keeps quiet m" "\<And>x. keeps (fill_outcome key) (f x)"
  shows "keeps (fill_outcome key) (bindE m f)"
proof (rule keepsI)
  fix s
  obtain r s1 where m: "m s = (r, s1)" by fastforce
  then have q: "quiet s s1" using assms(1) by (metis keepsD_eq)
  show "fill_outcome key s (snd (bindE m f s))"
    using q m assms(2) by (cases r) (auto simp: em_simps fill_outcome_quiet intro: quiet_then_outcome keepsD)
qed

lemma outcome_then: "keeps quiet m \<Longrightarrow> keeps (fill_outcome key) n \<Longrightarrow> keeps (fill_outcome key) (thenE m n)"
  by (simp add: thenE_def outcome_bind)

lemma outcome_keeps: "keeps quiet m \<Longrightarrow> keeps (fill_outcome key) m"
  by (simp add: keeps_def fill_outcome_quiet)

text \<open>The dedup step: look the key up, and go on to at most one fill of it when it is new.\<close>

lemma outcome_dedup:
  assumes "\<And>k. keeps (one_fill k) (body k)"
  shows "keeps (fill_outcome key) (bindE (liftE key) (\<lambda>k. bindE (fill_key_seen k) (\<lambda>seen.
           if seen then returnE () else body k)))"
proof (rule keepsI)
  fix s :: "'a host"
  show "fill_outcome key s (snd (bindE (liftE key) (\<lambda>k. bindE (fill_key_seen k) (\<lambda>seen.
           if seen then returnE () else body k)) s))"
  proof (cases key)
    case (Inl e)
    then show ?thesis by (simp add: em_simps fill_outcome_quiet quiet_def)
  next
    case (Inr k)
    obtain b st where hs: "has_seen k (h_seen_fill_keys s) = (b, st)" by fastforce
    let ?s1 = "s\<lparr>h_seen_fill_keys := st\<rparr>"
    have "one_fill k ?s1 (snd (body k ?s1))" using assms by (rule keepsD)
    then show ?thesis
      using Inr hs by (auto simp: em_simps fill_key_seen_def fill_outcome_def one_fill_def quiet_def fill_events_def)
  qed
qed

lemma outcome_tracked_fill:
  "keeps (fill_outcome (fill_dedup_key f (fill_identity_ts f))) (handle_tracked_fill env order cid void f ts action)"
proof (cases "oa_fill_qty action = None \<or> oa_trade_id action = None")
  case True
  then show ?thesis
    by (auto simp: handle_tracked_fill_def intro!: keeps_returnE fill_outcome_refl split: option.splits)
next
  case False
  then obtain qty tid where *: "oa_fill_qty action = Some qty" "oa_trade_id action = Some tid" by auto
  have "keeps (one_fill k) (bindE (tracked_fill_terms env order qty (oa_fill_px action)) (\<lambda>terms.
      case terms of None \<Rightarrow> returnE () | Some (q, px) \<Rightarrow> emit_tracked_fill env order cid void f ts tid k q px))" for k
    by (intro one_fill_bind quiet_tracked_fill_terms keeps_option keeps_prod one_fill_emit_tracked one_fill_keeps
        keeps_returnE quiet.refl)
  from outcome_dedup [OF this] show ?thesis by (simp add: handle_tracked_fill_def *)
qed

lemma outcome_untracked_fill:
  "keeps (fill_outcome (fill_dedup_key f (fill_identity_ts f))) (publish_untracked_fill env f)"
proof -
  have "keeps (one_fill k) (bindE (fill_report_from_fields env f (fill_identity_ts f)) (\<lambda>report.
      case report of None \<Rightarrow> returnE () | Some r \<Rightarrow> thenE (emit env (EvFillReport r)) (mark_fill_key k)))" for k
    by (intro one_fill_bind quiet.keeps_fill_report keeps_option one_fill_emit_mark one_fill_keeps keeps_returnE quiet.refl)
       simp
  from outcome_dedup [OF this] show ?thesis
    unfolding publish_untracked_fill_def by (auto intro!: keeps_returnE fill_outcome_refl)
qed

lemma outcome_perform_action:
  "keeps (fill_outcome (fill_dedup_key f (fill_identity_ts f))) (perform_action env order cid void f ts action)"
  unfolding perform_action_def Let_def emit_accepted_def emit_triggered_guarded_def
  by (intro keeps_if outcome_tracked_fill outcome_keeps quiet.frame_rules quiet_emit) simp_all

lemma fill_outcome_notification:
  "keeps (fill_outcome (fill_dedup_key f (fill_identity_ts f))) (handle_order_notification env f)"
proof -
  have u: "keeps (fill_outcome (fill_dedup_key f (fill_identity_ts f))) (handle_untracked_notification env f)"
    unfolding handle_untracked_notification_def
    by (intro outcome_bind outcome_then keeps_if quiet_event_time quiet_seed_from quiet_publish_untracked_status
        outcome_untracked_fill outcome_keeps quiet.frame_rules)
  have t: "keeps (fill_outcome (fill_dedup_key f (fill_identity_ts f))) (handle_tracked_notification env f cid order)" for cid order
    unfolding handle_tracked_notification_def
    by (intro outcome_bind outcome_then quiet_event_time quiet.keeps_bind_venue_id quiet.keeps_venue_id_for
        quiet.keeps_mk_id keeps_option outcome_perform_action fill_outcome_refl quiet.frame_rules)
  show ?thesis
    unfolding handle_order_notification_def
    by (intro outcome_bind outcome_then quiet_seed_from quiet.keeps_resolve keeps_option u t quiet.keeps_cached_order
        keeps_returnE fill_outcome_refl)
qed


section \<open>Sequences of notifications\<close>

text \<open>
  Notifications handled one after the other; the engine may have changed the cache in any way before
  each of them.
\<close>

definition run_notifications :: "('c, 'x) client_env_scheme \<Rightarrow> 'c host \<Rightarrow> ('c \<times> order_fields) list \<Rightarrow> 'c host" where
  "run_notifications env s nfs =
     foldl (\<lambda>s (c, f). snd (handle_order_notification env f (s\<lparr>h_cache := c\<rparr>))) s nfs"

definition notified_keys :: "('c \<times> order_fields) list \<Rightarrow> string set" where
  "notified_keys nfs = {k. \<exists>(c, f) \<in> set nfs. fill_dedup_key f (fill_identity_ts f) = Inr k}"

lemma notified_keys_Cons:
  "notified_keys ((c, f) # nfs) = {k. fill_dedup_key f (fill_identity_ts f) = Inr k} \<union> notified_keys nfs"
  by (auto simp: notified_keys_def)

lemma finite_notified_keys: "finite (notified_keys nfs)"
proof -
  have "notified_keys nfs \<subseteq> (\<lambda>(c, f). projr (fill_dedup_key f (fill_identity_ts f))) ` set nfs"
    by (force simp: notified_keys_def image_iff)
  then show ?thesis by (rule finite_subset) simp
qed

lemma fill_outcome_ops:
  assumes "fill_outcome key s s'"
  shows "\<exists>ops. h_seen_fill_keys s' = fill_ops (h_seen_fill_keys s) ops \<and> op_key ` set ops \<subseteq> {k. key = Inr k}"
proof -
  have look: "\<exists>ops. snd (has_seen k st) = fill_ops st ops \<and> op_key ` set ops \<subseteq> {k}" for k st
    by (intro exI [of _ "[Lookup k]"]) (simp add: fill_ops_def)
  have put: "\<exists>ops. mark k (snd (has_seen k st)) = fill_ops st ops \<and> op_key ` set ops \<subseteq> {k}" for k st
    by (intro exI [of _ "[Lookup k, Put k ()]"]) (simp add: fill_ops_def)
  have none: "\<exists>ops. st = fill_ops st ops \<and> op_key ` set ops \<subseteq> {}" for st
    by (intro exI [of _ "[]"]) (simp add: fill_ops_def)
  from assms show ?thesis
    unfolding fill_outcome_def quiet_def using look put none by (fastforce simp: subset_iff)
qed

lemma run_notifications_ops:
  "\<exists>ops. h_seen_fill_keys (run_notifications env s nfs) = fill_ops (h_seen_fill_keys s) ops
     \<and> op_key ` set ops \<subseteq> notified_keys nfs"
proof (induction nfs arbitrary: s)
  case Nil
  show ?case by (intro exI [of _ "[]"]) (simp add: run_notifications_def fill_ops_def)
next
  case (Cons cf nfs)
  obtain c f where cf: "cf = (c, f)" by fastforce
  let ?s1 = "snd (handle_order_notification env f (s\<lparr>h_cache := c\<rparr>))"
  have "fill_outcome (fill_dedup_key f (fill_identity_ts f)) (s\<lparr>h_cache := c\<rparr>) ?s1"
    using fill_outcome_notification by (rule keepsD)
  from fill_outcome_ops [OF this] obtain ops1 where 1: "h_seen_fill_keys ?s1 = fill_ops (h_seen_fill_keys s) ops1"
    "op_key ` set ops1 \<subseteq> {k. fill_dedup_key f (fill_identity_ts f) = Inr k}" by auto
  from Cons.IH [of ?s1] obtain ops2 where 2: "h_seen_fill_keys (run_notifications env ?s1 nfs)
      = fill_ops (h_seen_fill_keys ?s1) ops2" "op_key ` set ops2 \<subseteq> notified_keys nfs" by blast
  show ?case
    using 1 2 by (intro exI [of _ "ops1 @ ops2"]) (auto simp: cf notified_keys_Cons run_notifications_def fill_ops_def)
qed

lemma send_tracked_fill_plant:
  "keeps (\<lambda>s s'. plant_of s' = plant_of s) (send_tracked_fill env order cid void f ts tid k qty px)"
  unfolding send_tracked_fill_def commission_for_def mk_id_def mark_fill_key_def
  by (intro keeps_rules keeps_modifyE)
     (auto simp: reflp_def transp_def keeps_def emit_def plant_of_def split: prod.splits option.splits)

section \<open>Whose events go out\<close>

text \<open>The order a lifecycle event belongs to, and the producer guards on acceptance and trigger.\<close>

fun client_event :: "emitted \<Rightarrow> string option" where
  "client_event (EvRejected _ _ c _ _) = Some c"
| "client_event (EvAccepted _ _ c _ _) = Some c"
| "client_event (EvModifyRejected _ _ c _ _ _) = Some c"
| "client_event (EvCancelRejected _ _ c _ _ _) = Some c"
| "client_event (EvUpdated _ _ c _ _ _ _ _) = Some c"
| "client_event (EvCanceled _ _ c _ _) = Some c"
| "client_event (EvTriggered _ _ c _ _) = Some c"
| "client_event (EvFilled _ _ c _ _ _ _ _ _ _ _) = Some c"
| "client_event (EvDenied _ _ c _ _) = Some c"
| "client_event (EvSubmitted _ _ c _) = Some c"
| "client_event _ = None"

fun event_allowed :: "nt_order \<Rightarrow> emitted \<Rightarrow> bool" where
  "event_allowed order (EvAccepted _ _ _ _ _) = (od_status order = SUBMITTED)"
| "event_allowed order (EvTriggered _ _ _ _ _) =
     (od_type order \<in> set TRIGGERABLE_ORDER_TYPES \<and> od_status order \<noteq> TRIGGERED)"
| "event_allowed order (EvDenied _ _ _ _ _) = False"
| "event_allowed order (EvSubmitted _ _ _ _) = False"
| "event_allowed order _ = True"

definition new_items :: "'c host \<Rightarrow> 'c host \<Rightarrow> trace_item list" where
  "new_items s s' = drop (length (h_trace s)) (h_trace s')"

definition tracked_trace :: "(string \<times> nt_order) option \<Rightarrow> 'c host \<Rightarrow> 'c host \<Rightarrow> bool" where
  "tracked_trace owner s s' \<longleftrightarrow> extends s s' \<and>
     (\<forall>e c. TrEmit e \<in> set (new_items s s') \<and> client_event e = Some c \<longrightarrow>
        (\<exists>order. owner = Some (c, order) \<and> event_allowed order e))"

lemma tracked_trace_append:
  "h_trace s' = h_trace s @ t \<Longrightarrow> tracked_trace owner s s' \<longleftrightarrow>
     (\<forall>e c. TrEmit e \<in> set t \<and> client_event e = Some c \<longrightarrow> (\<exists>order. owner = Some (c, order) \<and> event_allowed order e))"
  by (simp add: tracked_trace_def extends_def new_items_def)

lemma client_event_passive: "passive_event e \<Longrightarrow> client_event e = None"
  by (cases e) (simp_all add: passive_event_def)

lemma tracked_trace_trans: "tracked_trace owner s s1 \<Longrightarrow> tracked_trace owner s1 s2 \<Longrightarrow> tracked_trace owner s s2"
proof -
  assume a: "tracked_trace owner s s1" and b: "tracked_trace owner s1 s2"
  then obtain t u where t: "h_trace s1 = h_trace s @ t" and u: "h_trace s2 = h_trace s1 @ u"
    by (auto simp: tracked_trace_def extends_def prefix_def)
  then have "h_trace s2 = h_trace s @ (t @ u)" by simp
  with a b show ?thesis by (auto simp: tracked_trace_append [OF t] tracked_trace_append [OF u] tracked_trace_append)
qed

interpretation tracked: binding_frame "tracked_trace owner" for owner
proof unfold_locales
  show "transp (tracked_trace owner)" using tracked_trace_trans by (auto simp: transp_def)
qed (auto simp: reflp_def tracked_trace_def extends_def new_items_def client_event_passive)

lemma tracked_emit:
  assumes "\<And>c. client_event e = Some c \<Longrightarrow> \<exists>order. owner = Some (c, order) \<and> event_allowed order e"
  shows "keeps (tracked_trace owner) (emit env e)"
  by (rule keepsI)
     (use assms in \<open>auto simp: emit_def tracked_trace_def extends_def new_items_def split: prod.splits option.splits\<close>)

lemma tracked_modify: "(\<And>s. h_trace (g s) = h_trace s) \<Longrightarrow> keeps (tracked_trace owner) (modifyE g)"
  by (rule keeps_modifyE) (simp add: tracked_trace_def extends_def new_items_def)

lemma tracked_stores:
  "keeps (tracked_trace owner) (fill_key_seen k)" "keeps (tracked_trace owner) (mark_fill_key k)"
  "keeps (tracked_trace owner) latch_order_plant" "keeps (tracked_trace owner) (last_status k)"
  by (auto simp: keeps_def fill_key_seen_def mark_fill_key_def latch_order_plant_def set_plant_def modifyE_def
      last_status_def tracked_trace_def extends_def new_items_def split: prod.splits)

lemma tracked_handle_fill:
  "keeps (tracked_trace (Some (cid, order))) (handle_tracked_fill env order cid void f ts action)"
  unfolding handle_tracked_fill_def tracked_fill_terms_def emit_tracked_fill_def send_tracked_fill_def
  by (intro tracked.frame_rules tracked_stores tracked.keeps_price_for_instrument tracked.keeps_commission_for
      tracked.keeps_mk_id tracked_emit) simp_all

lemma tracked_perform_action:
  "keeps (tracked_trace (Some (cid, order))) (perform_action env order cid void f ts action)"
  unfolding perform_action_def Let_def emit_accepted_def emit_triggered_guarded_def
  by (intro tracked.frame_rules tracked_handle_fill tracked_emit) simp_all

lemma tracked_event_time: "keeps (tracked_trace owner) (event_time env f)"
  unfolding event_time_def by (intro tracked.frame_rules tracked.keeps_timestamp_ns)

lemma tracked_seed_from: "keeps (tracked_trace owner) (seed_from env f)"
  unfolding seed_from_def by (intro tracked.frame_rules tracked.keeps_seed)

lemma tracked_notification:
  "keeps (tracked_trace (Some (cid, order))) (handle_tracked_notification env f cid order)"
  unfolding handle_tracked_notification_def
  by (intro tracked.frame_rules tracked_event_time tracked.keeps_bind_venue_id tracked.keeps_venue_id_for
      tracked.keeps_mk_id tracked_perform_action)

lemma untracked_notification: "keeps (tracked_trace None) (handle_untracked_notification env f)"
  unfolding handle_untracked_notification_def publish_untracked_status_def publish_untracked_fill_def
  by (intro tracked.frame_rules tracked_event_time tracked_seed_from tracked.keeps_drain_row
      tracked.keeps_basket_client_id tracked_stores tracked.keeps_publish_status tracked.keeps_fill_report
      tracked_modify tracked_emit) simp_all

lemma tag_client_id_open:
  "tag_client_id env f s = (Inr (Some c), s') \<Longrightarrow> \<exists>order. ne_order env (h_cache s) c = Some order \<and> \<not> od_is_closed order"
  by (auto simp: tag_client_id_def cached_order_def em_returned split: option.splits if_splits)

lemma resolve_client_order_id_open:
  assumes "resolve_client_order_id env f s = (Inr (Some c), s')" "ne_order env (h_cache s) c = Some order"
  shows "\<not> od_is_closed order"
proof -
  from assms(1) obtain cached s1 where b: "basket_client_id env f s = (Inr cached, s1)"
    and rest: "(case cached of None \<Rightarrow> tag_client_id env f
       | Some cid \<Rightarrow> bindE (cached_order env cid) (\<lambda>ord. case ord of None \<Rightarrow> returnE (Some cid)
           | Some ord' \<Rightarrow> if od_is_closed ord' then tag_client_id env f else returnE (Some cid))) s1 = (Inr (Some c), s')"
    by (auto simp: resolve_client_order_id_def em_returned)
  have "s1 = s" using unchanged.keeps_basket_client_id [THEN keepsD_eq, OF b] by simp
  with rest assms(2) show ?thesis
    by (auto simp: cached_order_def em_returned dest: tag_client_id_open split: option.splits if_splits)
qed

section \<open>Properties\<close>

text \<open>
  C8: a fill is emitted at most once. When handling a notification sent a fill to the engine (as an
  order event or as a report), a later notification with the same fill identity sends none, whatever
  notifications were handled in between and whatever the engine did to the cache, as long as they
  carried fewer distinct other fill identities than the dedup store holds. One notification never sends
  more than one fill.
\<close>

theorem fill_emitted_once:
  assumes "fill_inv (h_seen_fill_keys s)"
    and "fill_dedup_key f (fill_identity_ts f) = Inr k" "fill_dedup_key f' (fill_identity_ts f') = Inr k"
    and "s1 = snd (handle_order_notification env f s)" "fill_events s1 \<noteq> fill_events s"
    and "card (notified_keys nfs - {k}) < fill_cap (h_seen_fill_keys s)"
    and "s2 = (run_notifications env s1 nfs)\<lparr>h_cache := c\<rparr>"
  shows "fill_events (snd (handle_order_notification env f' s2)) = fill_events s2
    \<and> (\<exists>e. fill_events s1 = fill_events s @ [e])"
proof -
  have "fill_outcome (Inr k) s s1"
    using keepsD [OF fill_outcome_notification, of f s env] assms(2,4) by simp
  with assms(5) obtain e where e: "fill_events s1 = fill_events s @ [e]"
    and store: "h_seen_fill_keys s1 = mark k (snd (has_seen k (h_seen_fill_keys s)))"
    by (auto simp: fill_outcome_def quiet_def)
  let ?st = "snd (has_seen k (h_seen_fill_keys s))"
  have st: "fill_inv ?st" "fill_cap ?st = fill_cap (h_seen_fill_keys s)"
    using fills.inv_look [OF assms(1)] fills.cap_look [OF assms(1)] by auto
  obtain ops where ops: "h_seen_fill_keys s2 = fill_ops (mark k ?st) ops" "op_key ` set ops \<subseteq> notified_keys nfs"
    using run_notifications_ops [of env s1 nfs] assms(7) store by auto
  have "card (op_key ` set ops - {k}) \<le> card (notified_keys nfs - {k})"
    using ops(2) by (intro card_mono) (auto simp: finite_notified_keys)
  with assms(6) st have "fst (has_seen k (h_seen_fill_keys s2))"
    unfolding ops(1) by (intro marked_key_seen) auto
  moreover have "fill_outcome (Inr k) s2 (snd (handle_order_notification env f' s2))"
    using keepsD [OF fill_outcome_notification, of f' s2 env] assms(3) by simp
  ultimately have "fill_events (snd (handle_order_notification env f' s2)) = fill_events s2"
    by (auto simp: fill_outcome_def quiet_def)
  with e show ?thesis by blast
qed

definition demo_fields :: order_fields where
  "demo_fields = fields_of (demo_fill ''F1'' 5)"

theorem fill_emitted_once_witness:
  "let s1 = snd (handle_order_notification demo_client demo_fields demo_host);
       s2 = (run_notifications demo_client s1 [(demo_cache0, fields_of (demo_fill ''F2'' 6))])\<lparr>h_cache := demo_cache0\<rparr>
   in length (fill_events s1) = 1 \<and> fill_events (snd (handle_order_notification demo_client demo_fields s2)) = fill_events s2"
proof -
  let ?s1 = "snd (handle_order_notification demo_client demo_fields demo_host)"
  let ?nfs = "[(demo_cache0, fields_of (demo_fill ''F2'' 6))]"
  have k: "fill_dedup_key demo_fields (fill_identity_ts demo_fields) = Inr ''A1|NQU6-CME.RITHMIC|F1''"
    and k2: "fill_dedup_key (fields_of (demo_fill ''F2'' 6)) (fill_identity_ts (fields_of (demo_fill ''F2'' 6)))
      = Inr ''A1|NQU6-CME.RITHMIC|F2''"
    and one: "length (fill_events ?s1) = 1" and zero: "length (fill_events demo_host) = 0"
    by code_simp+
  have ne: "fill_events ?s1 \<noteq> fill_events demo_host" using one zero by auto
  have inv: "fill_inv (h_seen_fill_keys demo_host)" and cap: "fill_cap (h_seen_fill_keys demo_host) = 4"
    by (simp_all add: demo_host_def host_new_def)
  have "notified_keys ?nfs = {''A1|NQU6-CME.RITHMIC|F2''}" using k2 by (auto simp: notified_keys_def)
  then have "card (notified_keys ?nfs - {''A1|NQU6-CME.RITHMIC|F1''}) < fill_cap (h_seen_fill_keys demo_host)"
    by (simp add: cap)
  from fill_emitted_once [OF inv k k HOL.refl ne this HOL.refl, of demo_cache0] one show ?thesis
    by (simp add: Let_def)
qed


text \<open>
  Notifications act only on open orders of the node. Every lifecycle event that handling a
  notification sends names an order the cache held, and held as open, when the notification was resolved
  (a stale notification for a closed order goes down the untracked path); an acceptance goes out only
  for a SUBMITTED order, and a trigger only for a limit-style stop that is not already triggered.
\<close>

theorem events_only_for_open_orders:
  assumes "TrEmit e \<in> set (new_items s (snd (handle_order_notification env f s)))" "client_event e = Some c"
  shows "\<exists>order. ne_order env (h_cache (snd (seed_from env f s))) c = Some order \<and> \<not> od_is_closed order
    \<and> event_allowed order e"
proof -
  obtain r1 s1 where seed: "seed_from env f s = (r1, s1)" by fastforce
  have 1: "tracked_trace owner s s1" for owner using tracked_seed_from seed by (rule keepsD_eq)
  have final: "\<exists>order. owner = Some (c, order) \<and> event_allowed order e"
    if "tracked_trace owner s1 (snd (handle_order_notification env f s))" for owner
    using tracked_trace_trans [OF 1 that] assms by (auto simp: tracked_trace_def)
  show ?thesis
  proof (cases r1)
    case (Inl x)
    then have "snd (handle_order_notification env f s) = s1"
      using seed by (simp add: handle_order_notification_def em_simps)
    with final [of None] show ?thesis by (simp add: tracked_trace_def extends_def new_items_def)
  next
    case (Inr u)
    obtain r2 s2 where res: "resolve_client_order_id env f s1 = (r2, s2)" by fastforce
    have s2: "s2 = s1" using unchanged.keeps_resolve [THEN keepsD_eq, OF res] by simp
    consider "\<exists>x. r2 = Inl x" | "r2 = Inr None" | cid where "r2 = Inr (Some cid)"
      by (cases r2) (auto simp: option.exhaust)
    then show ?thesis
    proof cases
      case 1
      then have "snd (handle_order_notification env f s) = s1"
        using seed Inr res s2 by (auto simp: handle_order_notification_def em_simps)
      with final [of None] show ?thesis by (simp add: tracked_trace_def extends_def new_items_def)
    next
      case 2
      then have "snd (handle_order_notification env f s) = snd (handle_untracked_notification env f s1)"
        using seed Inr res s2 by (simp add: handle_order_notification_def em_simps)
      then have "tracked_trace None s1 (snd (handle_order_notification env f s))"
        by (simp add: keepsD [OF untracked_notification])
      with final [of None] show ?thesis by simp
    next
      case 3
      show ?thesis
      proof (cases "ne_order env (h_cache s1) cid")
        case None
        then have "snd (handle_order_notification env f s) = s1"
          using 3 seed Inr res s2 by (simp add: handle_order_notification_def cached_order_def em_simps)
        with final [of None] show ?thesis by (simp add: tracked_trace_def extends_def new_items_def)
      next
        case (Some order)
        then have "snd (handle_order_notification env f s) = snd (handle_tracked_notification env f cid order s1)"
          using 3 seed Inr res s2 by (simp add: handle_order_notification_def cached_order_def em_simps)
        then have "tracked_trace (Some (cid, order)) s1 (snd (handle_order_notification env f s))"
          by (simp add: keepsD [OF tracked_notification])
        with final [of "Some (cid, order)"] have "c = cid" "event_allowed order e" by auto
        with Some seed resolve_client_order_id_open [OF res [unfolded 3] Some] show ?thesis by auto
      qed
    qed
  qed
qed

text \<open>
  A fill in doubt latches the plant. A new fill of a tracked order whose quantity or price cannot be
  built (price absent or pending included) is not emitted, leaves its identity unmarked so that recon can
  still deliver it, and latches the order plant; a fill larger than the order's open quantity latches it
  too.
\<close>

theorem doubtful_fill_latches:
  assumes "oa_fill_qty action = Some q" "oa_trade_id action = Some tid"
    and "fill_dedup_key f (fill_identity_ts f) = Inr k" "\<not> fst (has_seen k (h_seen_fill_keys s))"
    and "fill_inv (h_seen_fill_keys s)"
    and "s' = snd (handle_tracked_fill env order cid void f ts action s)"
  shows "((case ne_quantity env q of Some e \<Rightarrow> catchable e
            | None \<Rightarrow> oa_fill_px action = PNone
                \<or> (\<exists>e. fst (price_for_instrument env (od_instrument_id order) (oa_fill_px action) s) = Inl e \<and> catchable e))
          \<longrightarrow> plant_of s' = Latched \<and> fill_events s' = fill_events s \<and> \<not> fst (has_seen k (h_seen_fill_keys s')))
    \<and> (ne_quantity env q = None \<and> oa_fill_px action \<noteq> PNone
         \<and> \<not> isl (fst (price_for_instrument env (od_instrument_id order) (oa_fill_px action) s)) \<and> overfills order q
         \<longrightarrow> plant_of s' = Latched)"
proof -
  obtain b st where hs: "has_seen k (h_seen_fill_keys s) = (b, st)" by fastforce
  let ?s1 = "s\<lparr>h_seen_fill_keys := st\<rparr>"
  let ?go = "bindE (tracked_fill_terms env order q (oa_fill_px action)) (\<lambda>terms.
      case terms of None \<Rightarrow> returnE () | Some (qty, px) \<Rightarrow> emit_tracked_fill env order cid void f ts tid k qty px)"
  have s': "s' = snd (?go ?s1)"
    using assms(1-4,6) hs by (simp add: handle_tracked_fill_def fill_key_seen_def em_simps)
  have price: "price_for_instrument env iid v ?s1 = (fst (price_for_instrument env iid v s), ?s1)" for iid v
    by (simp add: price_for_instrument_def em_simps)
  have unseen: "\<not> fst (has_seen k st)"
  proof -
    have "k \<notin> set (fill_keys (h_seen_fill_keys s))" using assms(4) by (simp add: has_seen_iff [OF assms(5)])
    moreover have "fill_inv st" "fill_keys st = fill_keys (h_seen_fill_keys s)"
      using fills.inv_look [OF assms(5), of k] fills.keys_look [OF assms(5), of k] calculation hs by auto
    ultimately show ?thesis by (simp add: has_seen_iff)
  qed
  have latched: "plant_of (u\<lparr>h_plant := policy_latch (h_plant u)\<rparr>) = Latched" for u :: "'a host"
    by (simp add: plant_of_def policy_latch_def plant_latch_def)
  show ?thesis
  proof (intro conjI impI)
    assume bad: "case ne_quantity env q of Some e \<Rightarrow> catchable e
        | None \<Rightarrow> oa_fill_px action = PNone
            \<or> (\<exists>e. fst (price_for_instrument env (od_instrument_id order) (oa_fill_px action) s) = Inl e \<and> catchable e)"
    then have "tracked_fill_terms env order q (oa_fill_px action) ?s1
        = (Inr None, ?s1\<lparr>h_plant := policy_latch (h_plant ?s1)\<rparr>)"
      by (auto simp: tracked_fill_terms_def em_simps price check_opt_def latch_order_plant_def set_plant_def
          catchable_def is_value_error_def split: option.splits sum.splits)
    then have "s' = ?s1\<lparr>h_plant := policy_latch (h_plant ?s1)\<rparr>" by (simp add: s' em_simps)
    with latched [of ?s1] unseen show "plant_of s' = Latched" "fill_events s' = fill_events s"
      "\<not> fst (has_seen k (h_seen_fill_keys s'))" by (simp_all add: fill_events_def)
  next
    assume ok: "ne_quantity env q = None \<and> oa_fill_px action \<noteq> PNone
         \<and> \<not> isl (fst (price_for_instrument env (od_instrument_id order) (oa_fill_px action) s)) \<and> overfills order q"
    then obtain p where "fst (price_for_instrument env (od_instrument_id order) (oa_fill_px action) s) = Inr p"
      by (auto simp: isl_def) (metis sum.exhaust)
    then have "tracked_fill_terms env order q (oa_fill_px action) ?s1 = (Inr (Some (q, p)), ?s1)"
      using ok by (simp add: tracked_fill_terms_def em_simps price)
    then have "s' = snd (send_tracked_fill env order cid void f ts tid k q p (?s1\<lparr>h_plant := policy_latch (h_plant ?s1)\<rparr>))"
      using ok by (simp add: s' emit_tracked_fill_def em_simps latch_order_plant_def set_plant_def)
    then show "plant_of s' = Latched" by (simp only: keepsD [OF send_tracked_fill_plant] latched)
  qed
qed

end
