(* ===== verification/Lifecycle.thy ===== *)
theory Lifecycle
  imports Commands Intake
begin

text \<open>
  Connection lifecycle of the execution client (\<open>execution.py\<close>): connect and its teardown, the account
  wait, the restore after a session recovery, mid-session resyncs, gap recovery, and the re-arm barrier
  that all of them use: one bounded working-orders drain applied to the cache, then (when the PnL stream
  runs) a fresh observation of it, before the order plant may be armed.

  The main result (\<open>arming_needs_barrier\<close>, stated in \<open>Client\<close>) is about every run of these tasks, whatever the other tasks do
  at their awaits: the plant goes from un-armed to armed only in a task whose own history holds a drain
  that was read and applied without error and, if the PnL stream was connected then, a later observation.

  A wait bounded by a deadline is a loop over the number of tests made before the deadline passes; the
  number is an argument, so every theorem is about any timing.
\<close>

section \<open>Replies\<close>

definition expect_rows :: "sess_value \<Rightarrow> pydict list res" where
  "expect_rows v = (case v of SvRows rows \<Rightarrow> Inr rows | _ \<Rightarrow> Inl (exn_of TypeError ''rows expected''))"

definition expect_dict :: "sess_value \<Rightarrow> pydict option res" where
  "expect_dict v = (case v of SvDict d \<Rightarrow> Inr d | _ \<Rightarrow> Inl (exn_of AttributeError ''dict expected''))"

definition callC :: "session_call \<Rightarrow> ('c, unit) task" where
  "callC call = bindC (awaitC call) (\<lambda>_. returnC ())"

section \<open>Query window and drain\<close>

text \<open>
  A bound of a query: absent, an object with \<open>timestamp()\<close>, a number (ns since the epoch), or anything
  else.
\<close>

datatype time_arg = NoTime | Stamp pyfloat | NumTime pyval | OtherTime

definition to_sec :: "time_arg \<Rightarrow> int option res" where
  "to_sec v = (case v of
       NoTime \<Rightarrow> Inr None
     | Stamp f \<Rightarrow> bindR (py_int (PFloat f)) (\<lambda>i. Inr (Some (max 0 i)))
     | NumTime n \<Rightarrow> bindR (py_int n) (\<lambda>i. Inr (Some (max 0 (i div 1000000000))))
     | OtherTime \<Rightarrow> Inr None)"

definition MAX_RECON_SPAN_S :: int where "MAX_RECON_SPAN_S = 32 * 86400"

definition recon_window :: "int \<Rightarrow> time_arg \<Rightarrow> time_arg \<Rightarrow> (int \<times> int) res" where
  "recon_window now_sec start_arg end_arg =
     bindR (to_sec end_arg) (\<lambda>e.
     bindR (to_sec start_arg) (\<lambda>st.
       (let end_sec = (case e of None \<Rightarrow> now_sec | Some x \<Rightarrow> x);
            start_sec = (case st of None \<Rightarrow> (now_sec div 86400) * 86400 | Some x \<Rightarrow> x);
            start_sec = (if end_sec < start_sec then end_sec else start_sec);
            start_sec = (if end_sec - start_sec > MAX_RECON_SPAN_S then end_sec - MAX_RECON_SPAN_S else start_sec)
        in Inr (start_sec, end_sec))))"

definition recon_window_sec :: "('c, 'x) nt_env_scheme \<Rightarrow> time_arg \<Rightarrow> time_arg \<Rightarrow> ('c, int \<times> int) act" where
  "recon_window_sec env start_arg end_arg =
     (\<lambda>s. (recon_window (ne_time env (h_clock s)) start_arg end_arg, s\<lparr>h_clock := Suc (h_clock s)\<rparr>))"

definition is_recon_unavailable :: "exn \<Rightarrow> bool" where
  "is_recon_unavailable e \<longleftrightarrow> exn_cls e = ReconciliationUnavailableError \<or> exn_cls e = VenueQueryUnavailable
     \<or> exn_code e = Some ''reconciliation_unavailable''"

definition load_orders_events :: "int \<Rightarrow> int \<Rightarrow> ('c, pydict list) task" where
  "load_orders_events start_sec end_sec =
     tryC (bindC (awaitC (CLoadOrders start_sec end_sec)) (\<lambda>v. syncC (liftE (expect_rows v))))
       (\<lambda>e. raiseC (if is_recon_unavailable e then e
                    else exn_of VenueQueryUnavailable (''load_orders recon failed ('' @ int_str start_sec @ ''..''
                           @ int_str end_sec @ ''): '' @ exn_msg e)))
       returnC"

section \<open>Account\<close>

definition refresh_resolved_account :: "('c, unit) task" where
  "refresh_resolved_account =
     bindC (syncC (getE h_resolved_account_raw)) (\<lambda>known.
       if known \<noteq> None then returnC ()
       else tryC (awaitC CResolvedAccount) (\<lambda>_. returnC ()) (\<lambda>v.
         syncC (bindE (liftE (expect_dict v)) (\<lambda>d.
           case d of None \<Rightarrow> returnE () | Some row \<Rightarrow>
             if truthy (dget row ''account_id'')
             then modifyE (\<lambda>s. s\<lparr>h_resolved_account_raw := Some (py_str (dget row ''account_id''))\<rparr>)
             else returnE ()))))"

definition resolve_and_seed_account :: "('c, 'x) client_env_scheme \<Rightarrow> ('c, unit) task" where
  "resolve_and_seed_account env = thenC refresh_resolved_account (syncC (seed_account_if_needed env None))"

fun wait_account_in_cache :: "('c, 'x) client_env_scheme \<Rightarrow> string \<Rightarrow> nat \<Rightarrow> ('c, unit) task" where
  "wait_account_in_cache env aid n =
     bindC (syncC (getE (\<lambda>s. ne_account_known env (h_cache s) aid))) (\<lambda>known.
       if known then returnC ()
       else case n of
         0 \<Rightarrow> raiseC (exn_of RuntimeError (''account '' @ aid @ '' not in cache''))
       | Suc m \<Rightarrow> thenC (callC CSleep) (wait_account_in_cache env aid m))"

fun await_account_id :: "('c, 'x) client_env_scheme \<Rightarrow> nat \<Rightarrow> ('c, unit) task" where
  "await_account_id env 0 = returnC ()"
| "await_account_id env (Suc n) =
     bindC (syncC (getE h_account_id)) (\<lambda>a.
       if a \<noteq> None then returnC ()
       else thenC (resolve_and_seed_account env)
         (bindC (syncC (getE h_account_id)) (\<lambda>a.
            if a \<noteq> None then returnC () else thenC (callC CSleep) (await_account_id env n))))"

definition await_account_registered :: "('c, 'x) client_env_scheme \<Rightarrow> nat \<Rightarrow> nat \<Rightarrow> ('c, unit) task" where
  "await_account_registered env n1 n2 =
     thenC (await_account_id env n1)
     (bindC (syncC (getE h_account_id)) (\<lambda>a.
        case a of
          None \<Rightarrow> if ce_enable_trading env then
              raiseC (exn_of RuntimeError (''no Rithmic account id after connect - ''
                @ ''set RITHMIC_ACCOUNT_ID or wait for plant resolve''))
            else returnC ()
        | Some aid \<Rightarrow> wait_account_in_cache env aid n2))"

text \<open>\<open>CommissionRegistry.load\<close>: the two fetches are independent; a failed one counts as no rows.\<close>

definition load_commission_rates :: "('c, 'x) client_env_scheme \<Rightarrow> ('c, unit) task" where
  "load_commission_rates env =
     bindC (syncC (getE (account_raw env None))) (\<lambda>active.
     thenC (bindC (tryC (bindC (awaitC CLoadProductRms) (\<lambda>v. syncC (liftE (expect_rows v)))) (\<lambda>_. returnC []) returnC) (\<lambda>rows.
              syncC (modifyE (\<lambda>s. s\<lparr>h_commission := load_products (product_rows rows) (h_commission s)\<rparr>))))
     (bindC (tryC (bindC (awaitC CLoadAccountRms) (\<lambda>v. syncC (liftE (expect_rows v)))) (\<lambda>_. returnC []) returnC) (\<lambda>rows.
        syncC (modifyE (\<lambda>s. s\<lparr>h_commission := load_account_default (account_rows rows) active (h_commission s)\<rparr>)))))"

section \<open>The re-arm barrier\<close>

definition await_pnl_snapshot :: "('c, unit) task" where
  "await_pnl_snapshot =
     tryC (awaitC CWaitPnl)
       (\<lambda>e. raiseC (if exn_cls e = TimeoutError then exn_of VenueQueryUnavailable
          (''order plant re-arm aborted: no account/position PnL snapshot '' @ ''observed after reconnect'') else e))
       (\<lambda>_. returnC ())"

definition rearm_after_reconnect :: "('c, 'x) client_env_scheme \<Rightarrow> ('c, unit) task" where
  "rearm_after_reconnect env =
     bindC (syncC (recon_window_sec env NoTime NoTime)) (\<lambda>(start_sec, end_sec).
     bindC (load_orders_events start_sec end_sec) (\<lambda>events.
     thenC (syncC (apply_drain_rows env events))
     (bindC (syncC (getE h_pnl_connected)) (\<lambda>connected.
      thenC (if connected then await_pnl_snapshot else returnC ())
      (resolve_and_seed_account env)))))"

definition rearm_plant :: "bool \<Rightarrow> ('c, bool) act" where
  "rearm_plant poll_alive =
     (\<lambda>s. case policy_rearm poll_alive (h_plant s) of (ok, p) \<Rightarrow> (Inr ok, s\<lparr>h_plant := p\<rparr>))"

definition order_poll_alive :: "'c host \<Rightarrow> bool" where
  "order_poll_alive s \<longleftrightarrow> h_order_poll s = Running"

definition start_poll :: "bool \<Rightarrow> ('c, unit) act" where
  "start_poll order_stream = modifyE (\<lambda>s. if order_stream then s\<lparr>h_order_poll := Running\<rparr>
     else s\<lparr>h_pnl_poll := Running\<rparr>)"

section \<open>Connect and disconnect\<close>

text \<open>\<open>restoring\<close>: whether a restore is in flight (the recovery bridge's own task, joined by \<open>detach\<close>).\<close>

definition stop_background :: "bool \<Rightarrow> ('c, unit) task" where
  "stop_background restoring =
     thenC (if restoring then callC (CJoinTask ''restore'') else returnC ())
     (thenC (bindC (syncC (getE h_order_poll)) (\<lambda>t.
               if t \<noteq> NoTask then thenC (callC (CJoinTask ''order'')) (syncC (modifyE (\<lambda>s. s\<lparr>h_order_poll := NoTask\<rparr>)))
               else returnC ()))
     (bindC (syncC (getE h_pnl_poll)) (\<lambda>t.
        if t \<noteq> NoTask then thenC (callC (CJoinTask ''pnl'')) (syncC (modifyE (\<lambda>s. s\<lparr>h_pnl_poll := NoTask\<rparr>)))
        else returnC ())))"

definition connect_pnl :: "('c, 'x) client_env_scheme \<Rightarrow> ('c, unit) task" where
  "connect_pnl env =
     catchC (thenC (callC CSubscribePnl)
            (thenC (resolve_and_seed_account env)
            (thenC (syncC (start_poll False)) (syncC (modifyE (\<lambda>s. s\<lparr>h_pnl_connected := True\<rparr>))))))
       (\<lambda>e. if ce_soft_fail_pnl env then returnC () else raiseC e)"

definition subscribe_orders :: "('c, unit) task" where
  "subscribe_orders = thenC (callC CSubscribeOrderUpdates) (callC CSubscribeBracketUpdates)"

definition connect_orders :: "('c, 'x) client_env_scheme \<Rightarrow> ('c, unit) task" where
  "connect_orders env =
     thenC (syncC (set_plant policy_begin_connect))
     (thenC (catchC subscribe_orders
        (\<lambda>e. thenC (syncC (set_plant policy_disconnect))
             (thenC (catchC (callC CDisconnectOrderPlant) (\<lambda>_. returnC ())) (raiseC e))))
     (thenC (resolve_and_seed_account env)
     (thenC (load_commission_rates env)
     (thenC (syncC (start_poll True))
     (tryC (rearm_after_reconnect env)
        (\<lambda>_. syncC (set_plant policy_latch))
        (\<lambda>_. bindC (syncC (getE order_poll_alive)) (\<lambda>alive. syncC (thenE (rearm_plant alive) (returnE ())))))))))"

definition connect_attempt :: "('c, 'x) client_env_scheme \<Rightarrow> nat \<Rightarrow> nat \<Rightarrow> ('c, unit) task" where
  "connect_attempt env n1 n2 =
     thenC (syncC forget_pnl_state)
     (thenC (callC CEnsureConnected)
     (thenC (syncC (liftE (check_opt (ce_attach env) ())))
     (thenC (callC (COpenGates (ce_enable_trading env) (ce_cancel_all_requested env)))
     (thenC (syncC (modifyE (\<lambda>s. s\<lparr>h_pnl_connected := False\<rparr>)))
     (thenC (connect_pnl env)
     (thenC (if ce_enable_trading env then connect_orders env else returnC ())
     (await_account_registered env n1 n2)))))))"

definition connect :: "('c, 'x) client_env_scheme \<Rightarrow> nat \<Rightarrow> nat \<Rightarrow> bool \<Rightarrow> ('c, unit) task" where
  "connect env n1 n2 restoring =
     catchC (connect_attempt env n1 n2) (\<lambda>e. thenC (stop_background restoring) (raiseC e))"

definition disconnect :: "bool \<Rightarrow> ('c, unit) task" where
  "disconnect restoring =
     thenC (syncC (set_plant policy_disconnect))
     (thenC (stop_background restoring) (catchC (callC CDisconnect) (\<lambda>_. returnC ())))"

section \<open>Recovery\<close>

definition restore_pnl_stream :: "('c, unit) task" where
  "restore_pnl_stream =
     bindC (syncC (getE h_pnl_connected)) (\<lambda>connected.
       if \<not> connected then returnC () else thenC (callC CSubscribePnl) (syncC (start_poll False)))"

definition state_text :: "'c host \<Rightarrow> string" where
  "state_text s = plant_as_str (plant_of s)"

definition rearm_or_raise :: "string \<Rightarrow> string \<Rightarrow> bool \<Rightarrow> ('c, unit) act" where
  "rearm_or_raise what detail poll_alive =
     bindE (rearm_plant poll_alive) (\<lambda>ok.
       if ok then returnE ()
       else bindE (getE state_text) (\<lambda>st. raiseE (exn_of RuntimeError (what @ '' (state='' @ st @ detail @ '')''))))"

definition restore_plants :: "('c, 'x) client_env_scheme \<Rightarrow> ('c, unit) task" where
  "restore_plants env =
     thenC (syncC forget_pnl_state)
     (if \<not> ce_enable_trading env then restore_pnl_stream
      else
        thenC (syncC (set_plant policy_begin_connect))
        (thenC restore_pnl_stream
        (thenC subscribe_orders
        (thenC (syncC (start_poll True))
        (thenC (rearm_after_reconnect env)
        (bindC (syncC (getE order_poll_alive)) (\<lambda>alive. syncC (rearm_or_raise ''re-arm refused''
          ('', poll_alive='' @ (if alive then ''True'' else ''False'')) alive))))))))"

definition on_transport_down :: "('c, unit) act" where
  "on_transport_down = set_plant policy_latch"

definition on_transport_recovery_failed :: "('c, unit) act" where
  "on_transport_recovery_failed = set_plant policy_latch"

definition resync_order_subscription :: "('c, unit) task" where
  "resync_order_subscription =
     thenC (callC CDisconnectOrderPlant) (thenC subscribe_orders (syncC (set_plant policy_resync_complete)))"

definition clear_pnl_observation :: "('c, unit) act" where
  "clear_pnl_observation = modifyE (\<lambda>s. s\<lparr>h_pnl_epoch := h_pnl_epoch s + 1, h_pnl_snapshot_observed := False\<rparr>)"

definition recover_order_gap :: "('c, 'x) client_env_scheme \<Rightarrow> ('c, unit) task" where
  "recover_order_gap env =
     thenC (syncC (set_plant policy_begin_connect))
     (thenC (syncC clear_pnl_observation)
     (thenC (rearm_after_reconnect env)
     (syncC (rearm_or_raise ''re-arm refused after a gap'' [] True))))"

definition resync_pnl_subscription :: "('c, unit) task" where
  "resync_pnl_subscription =
     thenC (syncC (modifyE (\<lambda>s. s\<lparr>h_pnl_epoch := h_pnl_epoch s + 1, h_pnl_snapshot_observed := False,
              h_pnl_live_since_ns := None,
              h_unreadable_position_symbols := removeAll ANY_SYMBOL (h_unreadable_position_symbols s)\<rparr>)))
     (thenC (callC CDisconnectPnlPlant) (callC CSubscribePnl))"

section \<open>Frames for tasks\<close>

lemma segments_nat:
  "(n = 0 \<Longrightarrow> segments R m) \<Longrightarrow> (\<And>k. n = Suc k \<Longrightarrow> segments R (f k))
    \<Longrightarrow> segments R (case n of 0 \<Rightarrow> m | Suc k \<Rightarrow> f k)"
  by (cases n) auto

lemma segments_prod: "(\<And>a b. p = (a, b) \<Longrightarrow> segments R (f a b)) \<Longrightarrow> segments R (case p of (a, b) \<Rightarrow> f a b)"
  by (cases p) auto

text \<open>
  What the lifecycle tasks do to the state apart from the order plant: session calls that are no order
  commands, the account, the commission table, and the bookkeeping of the PnL stream and the pollers.
\<close>

locale task_frame = binding_frame R for R :: "'c host \<Rightarrow> 'c host \<Rightarrow> bool" +
  assumes call: "call_kind c = None \<Longrightarrow> R s (log_call c s)"
    and resolved: "R s (s\<lparr>h_resolved_account_raw := a\<rparr>)"
    and commission: "R s (s\<lparr>h_commission := t\<rparr>)"
    and pnl_bookkeeping: "R s (s\<lparr>h_pnl_epoch := ep, h_pnl_snapshot_observed := ob, h_pnl_live_since_ns := li,
       h_positions := ps, h_position_seen_ns := se, h_unreadable_position_symbols := un\<rparr>)"
    and pollers: "R s (s\<lparr>h_order_poll := oa, h_pnl_poll := pa, h_pnl_connected := pc\<rparr>)"
begin

lemma order_poll: "R s (s\<lparr>h_order_poll := b\<rparr>)"
  using pollers [of s, where oa = b and pa = "h_pnl_poll s" and pc = "h_pnl_connected s"] by simp

lemma pnl_poll: "R s (s\<lparr>h_pnl_poll := b\<rparr>)"
  using pollers [of s, where oa = "h_order_poll s" and pa = b and pc = "h_pnl_connected s"] by simp

lemma pnl_connected: "R s (s\<lparr>h_pnl_connected := b\<rparr>)"
  using pollers [of s, where oa = "h_order_poll s" and pa = "h_pnl_poll s" and pc = b] by simp

lemma pnl_observation: "R s (s\<lparr>h_pnl_epoch := ep, h_pnl_snapshot_observed := ob\<rparr>)"
  using pnl_bookkeeping [of s, where ep = ep and ob = ob and li = "h_pnl_live_since_ns s" and ps = "h_positions s"
      and se = "h_position_seen_ns s" and un = "h_unreadable_position_symbols s"] by simp

lemma pnl_resync: "R s (s\<lparr>h_pnl_epoch := ep, h_pnl_snapshot_observed := ob, h_pnl_live_since_ns := li,
     h_unreadable_position_symbols := un\<rparr>)"
  using pnl_bookkeeping [of s, where ep = ep and ob = ob and li = li and ps = "h_positions s"
      and se = "h_position_seen_ns s" and un = un] by simp

lemma segments_awaitC: "call_kind c = None \<Longrightarrow> segments R (awaitC c)"
  by (auto simp: awaitC_def call reflpD [OF refl] intro!: segmentsI)

lemma segments_callC: "call_kind c = None \<Longrightarrow> segments R (callC c)"
  unfolding callC_def by (intro segments_rules trans refl segments_awaitC)

lemmas task_rules = segments_rules trans refl segments_awaitC segments_callC frame_rules

lemma segments_load_orders: "segments R (load_orders_events a b)"
  unfolding load_orders_events_def by (intro task_rules) simp

lemma segments_refresh: "segments R refresh_resolved_account"
  unfolding refresh_resolved_account_def by (intro task_rules keeps_modifyE resolved) simp

lemma segments_resolve_and_seed: "segments R (resolve_and_seed_account env)"
  unfolding resolve_and_seed_account_def by (intro task_rules segments_refresh keeps_seed)

lemma segments_wait_account: "segments R (wait_account_in_cache env aid n)"
proof (induction n)
  case 0
  show ?case by (subst wait_account_in_cache.simps) (intro task_rules segments_nat, simp_all)
next
  case (Suc n)
  then show ?case by (subst wait_account_in_cache.simps) (intro task_rules segments_nat, simp_all del: wait_account_in_cache.simps)
qed

lemma segments_await_account_id: "segments R (await_account_id env n)"
  by (induction n) (simp, intro task_rules, simp, intro task_rules segments_resolve_and_seed, simp_all)

lemma segments_await_account: "segments R (await_account_registered env n1 n2)"
  unfolding await_account_registered_def
  by (intro task_rules segments_await_account_id segments_wait_account)

lemma segments_load_commission: "segments R (load_commission_rates env)"
  unfolding load_commission_rates_def by (intro task_rules keeps_modifyE commission) simp_all

lemma segments_await_pnl: "segments R await_pnl_snapshot"
  unfolding await_pnl_snapshot_def by (intro task_rules) simp

lemma keeps_recon_window: "keeps R (recon_window_sec env a b)"
  by (rule keepsI) (simp add: recon_window_sec_def clock)

lemma segments_rearm_barrier: "segments R (rearm_after_reconnect env)"
  unfolding rearm_after_reconnect_def
  by (intro task_rules segments_prod keeps_recon_window segments_load_orders keeps_apply_drain_rows segments_await_pnl
      segments_resolve_and_seed)

lemma keeps_forget_pnl: "keeps R forget_pnl_state"
  unfolding forget_pnl_state_def by (intro keeps_modifyE pnl_bookkeeping)

lemma keeps_clear_pnl: "keeps R clear_pnl_observation"
  unfolding clear_pnl_observation_def by (intro keeps_modifyE pnl_observation)

lemma keeps_start_poll: "keeps R (start_poll b)"
  unfolding start_poll_def by (intro keeps_modifyE) (simp add: order_poll pnl_poll)

lemma segments_stop_background: "segments R (stop_background restoring)"
  unfolding stop_background_def by (intro task_rules keeps_modifyE order_poll pnl_poll) simp_all

lemma segments_connect_pnl: "segments R (connect_pnl env)"
  unfolding connect_pnl_def
  by (intro task_rules segments_resolve_and_seed keeps_start_poll keeps_modifyE pnl_connected) simp

lemma segments_subscribe_orders: "segments R subscribe_orders"
  unfolding subscribe_orders_def by (intro task_rules) simp_all

lemma segments_restore_pnl: "segments R restore_pnl_stream"
  unfolding restore_pnl_stream_def by (intro task_rules keeps_start_poll) simp

lemma segments_resync_pnl: "segments R resync_pnl_subscription"
  unfolding resync_pnl_subscription_def by (intro task_rules keeps_modifyE pnl_resync) simp_all

end

text \<open>Tasks issue no order command unless they are one: the gates of C1 hold for the lifecycle too.\<close>

interpretation gated: task_frame "gated env" for env
  by unfold_locales (auto simp: gated_def log_call_def)

lemma gated_set_plant: "keeps (gated env) (set_plant f)"
  unfolding set_plant_def by (rule keeps_modifyE) (simp add: gated_def)

lemma gated_rearm_plant: "keeps (gated env) (rearm_plant b)"
  by (rule keepsI) (simp add: rearm_plant_def gated_def split: prod.splits)

lemma gated_rearm_or_raise: "keeps (gated env) (rearm_or_raise w d b)"
  unfolding rearm_or_raise_def by (intro gated.frame_rules gated_rearm_plant)

lemmas gated_plant = gated_set_plant gated_rearm_plant gated_rearm_or_raise

lemma gated_connect_orders: "segments (gated env) (connect_orders env)"
  unfolding connect_orders_def
  by (intro gated.task_rules gated_plant gated.segments_subscribe_orders gated.segments_resolve_and_seed
      gated.segments_load_commission gated.keeps_start_poll gated.segments_rearm_barrier) simp

lemma gated_connect: "segments (gated env) (connect env n1 n2 restoring)"
  unfolding connect_def connect_attempt_def
  by (intro gated.task_rules gated.keeps_forget_pnl gated.segments_connect_pnl gated_connect_orders keeps_modifyE
      gated.pnl_connected gated.segments_await_account gated.segments_stop_background) simp_all

lemma gated_disconnect: "segments (gated env) (disconnect restoring)"
  unfolding disconnect_def by (intro gated.task_rules gated_plant gated.segments_stop_background) simp

lemma gated_restore: "segments (gated env) (restore_plants env)"
  unfolding restore_plants_def
  by (intro gated.task_rules gated_plant gated.keeps_forget_pnl gated.segments_restore_pnl
      gated.segments_subscribe_orders gated.keeps_start_poll gated.segments_rearm_barrier)

lemma gated_resync_order: "segments (gated env) resync_order_subscription"
  unfolding resync_order_subscription_def
  by (intro gated.task_rules gated_plant gated.segments_subscribe_orders) simp

lemma gated_recover_gap: "segments (gated env) (recover_order_gap env)"
  unfolding recover_order_gap_def
  by (intro gated.task_rules gated_plant gated.keeps_clear_pnl gated.segments_rearm_barrier)

section \<open>Arming\<close>

definition armed :: "'c host \<Rightarrow> bool" where
  "armed s \<longleftrightarrow> plant_of s = Live \<or> plant_of s = Resyncing"

definition no_arm :: "'c host \<Rightarrow> 'c host \<Rightarrow> bool" where
  "no_arm s s' \<longleftrightarrow> (armed s' \<longrightarrow> armed s)"

lemma no_arm_same: "h_plant s' = h_plant s \<Longrightarrow> no_arm s s'"
  by (simp add: no_arm_def armed_def plant_of_def)

lemma no_arm_log: "no_arm s (log_call c s)"
  by (rule no_arm_same) (simp add: log_call_def)

interpretation no_arm: task_frame no_arm
proof unfold_locales
  show "reflp no_arm" "transp no_arm" by (auto simp: no_arm_def reflp_def transp_def)
qed (auto intro!: no_arm_same simp: log_call_def)

text \<open>
  The evidence a task has collected: a drain it read and applied without error and, if the PnL stream was
  connected when the drain came in, an observation of the stream after it.
\<close>

definition barrier_passed :: "('c, 'x) client_env_scheme \<Rightarrow> ('c host, session_call, reply) history \<Rightarrow> bool" where
  "barrier_passed env h \<longleftrightarrow> (\<exists>h1 a b rows s2 h2. h = h1 @ (CLoadOrders a b, Inr (SvRows rows), s2) # h2
     \<and> fst (apply_drain_rows env rows s2) = Inr ()
     \<and> (h_pnl_connected s2 \<longrightarrow> (\<exists>v s3. (CWaitPnl, Inr v, s3) \<in> set h2)))"

definition arms_with_evidence :: "('c, 'x) client_env_scheme \<Rightarrow> ('c host, session_call, reply) history
    \<Rightarrow> 'c host \<Rightarrow> 'c host \<Rightarrow> bool" where
  "arms_with_evidence env h s s' \<longleftrightarrow> no_arm s s' \<or> barrier_passed env h"

lemma barrier_passed_snoc:
  assumes "barrier_passed env h"
  shows "barrier_passed env (h @ [e])"
proof -
  from assms obtain h1 a b rows s2 h2 where "h = h1 @ (CLoadOrders a b, Inr (SvRows rows), s2) # h2"
    "fst (apply_drain_rows env rows s2) = Inr ()" "h_pnl_connected s2 \<longrightarrow> (\<exists>v s3. (CWaitPnl, Inr v, s3) \<in> set h2)"
    unfolding barrier_passed_def by blast
  then have "h @ [e] = h1 @ (CLoadOrders a b, Inr (SvRows rows), s2) # (h2 @ [e])"
    "h_pnl_connected s2 \<longrightarrow> (\<exists>v s3. (CWaitPnl, Inr v, s3) \<in> set (h2 @ [e]))" by auto
  with \<open>fst (apply_drain_rows env rows s2) = Inr ()\<close> show ?thesis unfolding barrier_passed_def by blast
qed

lemma arms_trans: "transp (arms_with_evidence env h)"
  by (auto simp: arms_with_evidence_def no_arm_def transp_def)

lemma arms_refl: "reflp (arms_with_evidence env h)"
  by (simp add: arms_with_evidence_def no_arm_def reflp_def)

text \<open>A task whose segments never arm keeps any fact about its history that later replies cannot undo.\<close>

lemma sat_no_arm:
  fixes m :: "('c, 'a) task"
  assumes "segments no_arm m" "\<And>h e. I h \<Longrightarrow> I (h @ [e])"
  shows "sat (arms_with_evidence env) (\<lambda>h _. I h) m (\<lambda>h _ _. I h) (\<lambda>h _ _. I h)"
proof -
  have "step_segments no_arm st \<Longrightarrow> I h \<Longrightarrow>
      step_sat (arms_with_evidence env) (\<lambda>h _ _. I h) (\<lambda>h _ _. I h) st h s" for st :: "('c host, session_call, reply, 'a) co_step" and h s
  proof (induction st arbitrary: h s)
    case (CoDone r)
    then show ?case by (cases r) auto
  next
    case (CoAwait q k)
    show ?case
      unfolding step_sat_Await
    proof (intro allI satI)
      fix r h' s1 st2 s2
      assume *: "h' = h @ [(q, r, s1)]" "k r s1 = (st2, s2)"
      have "no_arm s1 s2 \<and> step_segments no_arm st2"
        using CoAwait.prems(1) *(2) unfolding step_segments_Await by (blast dest: segmentsD)
      moreover have "st2 \<in> Basic_BNFs.fsts (k r s1)" using *(2) by (metis fsts.intros fst_conv)
      ultimately show "arms_with_evidence env h' s1 s2
          \<and> step_sat (arms_with_evidence env) (\<lambda>h _ _. I h) (\<lambda>h _ _. I h) st2 h' s2"
        using CoAwait.IH CoAwait.prems(2) assms(2) *(1) unfolding arms_with_evidence_def by blast
    qed
  qed
  then show ?thesis using assms(1) by (auto simp: sat_def segments_def arms_with_evidence_def)
qed

lemma sat_quiet: "segments no_arm m \<Longrightarrow> sat (arms_with_evidence env) P m (\<lambda>_ _ _. True) (\<lambda>_ _ _. True)"
  using sat_no_arm [of m "\<lambda>_. True" env] by (auto intro: sat_conseq)

lemmas arms_rules = sat_bindC [OF arms_trans arms_refl] sat_thenC [OF arms_trans arms_refl]

lemma sat_awaitC:
  assumes "\<And>h v s0 s. P h s0 \<Longrightarrow> Q (h @ [(c, Inr v, s)]) v s" "\<And>h e s0 s. P h s0 \<Longrightarrow> E (h @ [(c, Inl e, s)]) e s"
  shows "sat (arms_with_evidence env) P (awaitC c) Q E"
proof (rule satI)
  fix h s st s'
  assume P: "P h s" and "awaitC c s = (st, s')"
  then have st: "st = CoAwait c (\<lambda>r s'. (CoDone r, s'))" "s' = log_call c s" by (auto simp: awaitC_def)
  have "sat (arms_with_evidence env) (\<lambda>h' s'. h' = h @ [(c, r, s')]) (\<lambda>s'. (CoDone r, s')) Q E" for r
    using assms [OF P] reflpD [OF arms_refl] by (intro satI) (auto split: sum.splits)
  then show "arms_with_evidence env h s s' \<and> step_sat (arms_with_evidence env) Q E st h s'"
    unfolding st step_sat_Await by (simp add: arms_with_evidence_def no_arm_log)
qed

lemma sat_load_orders:
  "sat (arms_with_evidence env) P (load_orders_events a b)
     (\<lambda>h rows s. \<exists>h1. h = h1 @ [(CLoadOrders a b, Inr (SvRows rows), s)]) (\<lambda>_ _ _. True)"
  unfolding load_orders_events_def
proof (rule sat_tryC [OF arms_trans])
  show "sat (arms_with_evidence env) P (bindC (awaitC (CLoadOrders a b)) (\<lambda>v. syncC (liftE (expect_rows v))))
     (\<lambda>h rows s. \<exists>h1. h = h1 @ [(CLoadOrders a b, Inr (SvRows rows), s)]) (\<lambda>_ _ _. True)"
  proof (rule arms_rules(1))
    show "sat (arms_with_evidence env) P (awaitC (CLoadOrders a b))
       (\<lambda>h v s. \<exists>h1. h = h1 @ [(CLoadOrders a b, Inr v, s)]) (\<lambda>_ _ _. True)"
      by (rule sat_awaitC) auto
    show "sat (arms_with_evidence env) (\<lambda>h s. \<exists>h1. h = h1 @ [(CLoadOrders a b, Inr v, s)]) (syncC (liftE (expect_rows v)))
       (\<lambda>h rows s. \<exists>h1. h = h1 @ [(CLoadOrders a b, Inr (SvRows rows), s)]) (\<lambda>_ _ _. True)" for v
      by (rule sat_sync) (auto simp: em_simps expect_rows_def reflpD [OF arms_refl] split: sess_value.splits)
  qed
qed (auto intro!: sat_raise sat_return arms_refl)

text \<open>Applying a drain leaves the plant and the PnL connection flag alone.\<close>

definition plant_kept :: "'c host \<Rightarrow> 'c host \<Rightarrow> bool" where
  "plant_kept s s' \<longleftrightarrow> h_plant s' = h_plant s \<and> h_pnl_connected s' = h_pnl_connected s"

interpretation plant_kept: binding_frame plant_kept
  by unfold_locales (auto simp: plant_kept_def reflp_def transp_def)

definition drained :: "('c, 'x) client_env_scheme \<Rightarrow> ('c host, session_call, reply) history \<Rightarrow> 'c host \<Rightarrow> bool" where
  "drained env h s \<longleftrightarrow> (\<exists>h1 a b rows s2. h = h1 @ [(CLoadOrders a b, Inr (SvRows rows), s2)]
     \<and> fst (apply_drain_rows env rows s2) = Inr () \<and> h_pnl_connected s = h_pnl_connected s2)"

lemma sat_apply_drain:
  fixes env :: "('c, 'x) client_env_scheme"
  shows "sat (arms_with_evidence env) (\<lambda>h s. \<exists>h1. h = h1 @ [(CLoadOrders a b, Inr (SvRows rows), s)])
     (syncC (apply_drain_rows env rows)) (\<lambda>h _ s. drained env h s) (\<lambda>_ _ _. True)"
proof (rule sat_sync)
  fix h :: "('c host, session_call, reply) history" and s x s'
  assume h: "\<exists>h1. h = h1 @ [(CLoadOrders a b, Inr (SvRows rows), s)]" and ap: "apply_drain_rows env rows s = (Inr x, s')"
  have "plant_kept s s'" using ap by (rule keepsD_eq [OF plant_kept.keeps_apply_drain_rows])
  with h ap show "arms_with_evidence env h s s' \<and> drained env h s'"
    by (auto simp: drained_def plant_kept_def arms_with_evidence_def intro!: no_arm_same)
next
  fix h :: "('c host, session_call, reply) history" and s e s'
  assume "apply_drain_rows env rows s = (Inl e, s')"
  then have "plant_kept s s'" by (rule keepsD_eq [OF plant_kept.keeps_apply_drain_rows])
  then show "arms_with_evidence env h s s' \<and> True"
    by (auto simp: plant_kept_def arms_with_evidence_def intro!: no_arm_same)
qed

lemma drained_observed: "drained env h s \<Longrightarrow> barrier_passed env (h @ [(CWaitPnl, Inr v, s')])"
  by (fastforce simp: drained_def barrier_passed_def)

lemma drained_unconnected: "drained env h s \<Longrightarrow> \<not> h_pnl_connected s \<Longrightarrow> barrier_passed env h"
  by (fastforce simp: drained_def barrier_passed_def)

lemma sat_observe:
  "sat (arms_with_evidence env) (\<lambda>h s. drained env h s \<and> h_pnl_connected s = c)
     (if c then await_pnl_snapshot else returnC ()) (\<lambda>h _ _. barrier_passed env h) (\<lambda>_ _ _. True)"
proof (cases c)
  case True
  have "sat (arms_with_evidence env) (\<lambda>h s. drained env h s \<and> h_pnl_connected s = c) await_pnl_snapshot
      (\<lambda>h _ _. barrier_passed env h) (\<lambda>_ _ _. True)"
    unfolding await_pnl_snapshot_def
  proof (rule sat_tryC [OF arms_trans])
    show "sat (arms_with_evidence env) (\<lambda>h s. drained env h s \<and> h_pnl_connected s = c) (awaitC CWaitPnl)
        (\<lambda>h _ _. barrier_passed env h) (\<lambda>_ _ _. True)"
      by (rule sat_awaitC) (auto dest: drained_observed)
  qed (auto intro!: sat_raise sat_return arms_refl)
  with True show ?thesis by simp
qed (auto intro!: sat_return arms_refl dest: drained_unconnected)

lemma sat_after_drain:
  "sat (arms_with_evidence env) (drained env) (bindC (syncC (getE h_pnl_connected)) (\<lambda>connected.
      thenC (if connected then await_pnl_snapshot else returnC ()) (resolve_and_seed_account env)))
      (\<lambda>h _ _. barrier_passed env h) (\<lambda>_ _ _. True)"
proof (rule arms_rules(1))
  show "sat (arms_with_evidence env) (drained env) (syncC (getE h_pnl_connected))
     (\<lambda>h c s. drained env h s \<and> h_pnl_connected s = c) (\<lambda>_ _ _. True)"
    by (rule sat_sync) (auto simp: em_simps reflpD [OF arms_refl])
  fix c
  show "sat (arms_with_evidence env) (\<lambda>h s. drained env h s \<and> h_pnl_connected s = c)
      (thenC (if c then await_pnl_snapshot else returnC ()) (resolve_and_seed_account env))
      (\<lambda>h _ _. barrier_passed env h) (\<lambda>_ _ _. True)"
    by (rule arms_rules(2) [OF sat_observe])
       (rule sat_weaken [OF sat_no_arm [where I = "barrier_passed env", OF no_arm.segments_resolve_and_seed barrier_passed_snoc]], auto)
qed

lemma sat_barrier:
  "sat (arms_with_evidence env) P (rearm_after_reconnect env) (\<lambda>h _ _. barrier_passed env h) (\<lambda>_ _ _. True)"
  unfolding rearm_after_reconnect_def
proof (rule arms_rules(1))
  show "sat (arms_with_evidence env) P (syncC (recon_window_sec env NoTime NoTime)) (\<lambda>_ _ _. True) (\<lambda>_ _ _. True)"
    by (intro sat_quiet segments_syncC no_arm.keeps_recon_window)
next
  fix w :: "int \<times> int"
  show "sat (arms_with_evidence env) (\<lambda>_ _. True) (case w of (start_sec, end_sec) \<Rightarrow>
     bindC (load_orders_events start_sec end_sec) (\<lambda>events.
     thenC (syncC (apply_drain_rows env events))
     (bindC (syncC (getE h_pnl_connected)) (\<lambda>connected.
      thenC (if connected then await_pnl_snapshot else returnC ())
      (resolve_and_seed_account env))))) (\<lambda>h _ _. barrier_passed env h) (\<lambda>_ _ _. True)"
    by (cases w) (simp only: prod.case, rule arms_rules(1) [OF sat_load_orders], rule arms_rules(2) [OF sat_apply_drain],
      rule sat_after_drain)
qed

text \<open>The tasks that use the barrier, from any history.\<close>

lemma no_arm_plants:
  "keeps no_arm (set_plant policy_begin_connect)" "keeps no_arm (set_plant policy_disconnect)"
  "keeps no_arm (set_plant policy_latch)" "keeps no_arm (set_plant policy_resync_start)"
  "keeps no_arm (set_plant policy_resync_complete)" "keeps no_arm (set_plant policy_resync_failed)"
  unfolding set_plant_def
  by (rule keeps_modifyE; auto simp: no_arm_def armed_def plant_of_def policy_defs plant_defs split: plant_state.splits)+

definition passed_or_latched :: "('c, 'x) client_env_scheme \<Rightarrow> ('c host, session_call, reply) history \<Rightarrow> 'c host \<Rightarrow> bool" where
  "passed_or_latched env h s \<longleftrightarrow> barrier_passed env h \<or> plant_of s = Latched"

definition armed_after_barrier :: "('c, 'x) client_env_scheme \<Rightarrow> ('c host, session_call, reply) history \<Rightarrow> 'c host \<Rightarrow> bool" where
  "armed_after_barrier env h s \<longleftrightarrow> barrier_passed env h \<and> plant_of s = Live"

lemma sat_arm:
  assumes "\<And>s x s'. m s = (Inr x, s') \<Longrightarrow> G s'"
  shows "sat (arms_with_evidence env) (\<lambda>h _. barrier_passed env h) (syncC m)
     (\<lambda>h _ s. barrier_passed env h \<and> G s) (\<lambda>_ _ _. True)"
  by (rule sat_sync) (use assms in \<open>auto simp: arms_with_evidence_def\<close>)

lemma sat_read_then_arm:
  assumes "\<And>v s x s'. m v s = (Inr x, s') \<Longrightarrow> G s'"
  shows "sat (arms_with_evidence env) (\<lambda>h _. barrier_passed env h) (bindC (syncC (getE f)) (\<lambda>x. syncC (m x)))
     (\<lambda>h _ s. barrier_passed env h \<and> G s) (\<lambda>_ _ _. True)"
proof (rule arms_rules(1) [where Q = "\<lambda>h _ _. barrier_passed env h"])
  show "sat (arms_with_evidence env) (\<lambda>h _. barrier_passed env h) (syncC (getE f)) (\<lambda>h _ _. barrier_passed env h) (\<lambda>_ _ _. True)"
    by (rule sat_sync) (auto simp: em_simps reflpD [OF arms_refl])
qed (rule sat_arm, rule assms)

lemma rearm_or_raise_live: "rearm_or_raise w d b s = (Inr x, s') \<Longrightarrow> plant_of s' = Live"
  by (auto simp: rearm_or_raise_def rearm_plant_def em_returned policy_defs plant_defs plant_of_def
      split: prod.splits if_splits)

lemmas sat_quiet_then = arms_rules(2) [OF sat_quiet]

lemma sat_connect_orders: "sat (arms_with_evidence env) P (connect_orders env) (\<lambda>h _ s. passed_or_latched env h s) (\<lambda>_ _ _. True)"
  unfolding connect_orders_def
proof (rule sat_quiet_then, goal_cases)
  case 1
  show ?case by (intro segments_syncC no_arm_plants)
next
  case 2
  show ?case
  proof (rule sat_quiet_then, goal_cases)
    case 1
    show ?case by (intro no_arm.task_rules no_arm.segments_subscribe_orders no_arm_plants) simp
  next
    case 2
    have latch: "sat (arms_with_evidence env) P (syncC (set_plant policy_latch)) (\<lambda>h _ s. passed_or_latched env h s) (\<lambda>_ _ _. True)" for P
      using no_arm_plants(3)
      by (intro sat_sync) (auto simp: set_plant_def em_simps passed_or_latched_def plant_of_def policy_defs plant_defs
          arms_with_evidence_def keeps_def)
    have arm: "sat (arms_with_evidence env) P (tryC (rearm_after_reconnect env) (\<lambda>_. syncC (set_plant policy_latch))
        (\<lambda>_. bindC (syncC (getE order_poll_alive)) (\<lambda>alive. syncC (thenE (rearm_plant alive) (returnE ())))))
        (\<lambda>h _ s. passed_or_latched env h s) (\<lambda>_ _ _. True)" for P
      by (rule sat_tryC [OF arms_trans sat_barrier], rule latch,
          rule sat_weaken [OF sat_read_then_arm [where G = "\<lambda>_. True"]]) (auto simp: passed_or_latched_def)
    show ?case
      by (intro sat_quiet_then no_arm.segments_resolve_and_seed no_arm.segments_load_commission segments_syncC
          no_arm.keeps_start_poll arm)
  qed
qed

lemma sat_connect: "sat (arms_with_evidence env) P (connect env n1 n2 restoring) (\<lambda>_ _ _. True) (\<lambda>_ _ _. True)"
proof -
  have orders: "sat (arms_with_evidence env) P (thenC (if ce_enable_trading env then connect_orders env else returnC ())
      (await_account_registered env n1 n2)) (\<lambda>_ _ _. True) (\<lambda>_ _ _. True)" for P
    by (rule arms_rules(2) [where Q = "\<lambda>_ _. True"])
       (auto intro: sat_weaken [OF sat_connect_orders] sat_return arms_refl sat_quiet no_arm.segments_await_account)
  have attempt: "sat (arms_with_evidence env) P (connect_attempt env n1 n2) (\<lambda>_ _ _. True) (\<lambda>_ _ _. True)"
    unfolding connect_attempt_def
    by (intro sat_quiet_then orders segments_syncC no_arm.keeps_forget_pnl no_arm.segments_callC no_arm.frame_rules
        keeps_modifyE no_arm.pnl_connected no_arm.segments_connect_pnl) simp_all
  have stop: "sat (arms_with_evidence env) (\<lambda>_ _. True) (thenC (stop_background restoring) (raiseC e)) (\<lambda>_ _ _. True) (\<lambda>_ _ _. True)"
    for e by (intro sat_quiet no_arm.task_rules no_arm.segments_stop_background)
  show ?thesis unfolding connect_def catchC_def
    by (rule sat_tryC [OF arms_trans attempt]) (auto intro: stop sat_return arms_refl)
qed

lemma sat_restore_armed:
  assumes "ce_enable_trading env"
  shows "sat (arms_with_evidence env) P (restore_plants env) (\<lambda>h _ s. armed_after_barrier env h s) (\<lambda>_ _ _. True)"
proof -
  have arm: "sat (arms_with_evidence env) P (thenC (rearm_after_reconnect env)
      (bindC (syncC (getE order_poll_alive)) (\<lambda>alive. syncC (rearm_or_raise ''re-arm refused''
          ('', poll_alive='' @ (if alive then ''True'' else ''False'')) alive))))
      (\<lambda>h _ s. armed_after_barrier env h s) (\<lambda>_ _ _. True)" for P
    unfolding armed_after_barrier_def
    by (rule arms_rules(2) [OF sat_barrier]) (rule sat_read_then_arm, erule rearm_or_raise_live)
  have "(\<not> ce_enable_trading env) = False" using assms by simp
  then show ?thesis
    unfolding restore_plants_def by (simp only: if_False)
      (intro arm sat_quiet_then segments_syncC no_arm_plants no_arm.segments_restore_pnl
        no_arm.segments_subscribe_orders no_arm.keeps_start_poll no_arm.keeps_forget_pnl)
qed

lemma sat_restore: "sat (arms_with_evidence env) P (restore_plants env) (\<lambda>_ _ _. True) (\<lambda>_ _ _. True)"
proof (cases "ce_enable_trading env")
  case True
  then show ?thesis by (rule sat_weaken [OF sat_restore_armed]) auto
next
  case False
  then show ?thesis
    unfolding restore_plants_def
    by (simp, intro sat_quiet segments_thenC no_arm.trans no_arm.refl segments_syncC no_arm.keeps_forget_pnl
        no_arm.segments_restore_pnl)
qed

lemma sat_recover_gap:
  "sat (arms_with_evidence env) P (recover_order_gap env) (\<lambda>h _ s. armed_after_barrier env h s) (\<lambda>_ _ _. True)"
  unfolding recover_order_gap_def armed_after_barrier_def
  by (intro sat_quiet_then segments_syncC no_arm_plants no_arm.keeps_clear_pnl arms_rules(2) [OF sat_barrier] sat_arm)
     (erule rearm_or_raise_live)

section \<open>Readiness\<close>

definition demo_replies :: "reply list" where
  "demo_replies = [Inr SvUnit, Inr SvUnit, Inr (SvDict (Some [(''account_id'', PStr ''A1'')])), Inr (SvRows []), Inr (SvRows []),
     Inr (SvRows [demo_open_row])]"

text \<open>
  C12: Readiness fails closed. In every run of the order-plant bring-up, whatever other tasks do at its
  awaits: when the bring-up returns, either its own history holds a drain that was applied without error
  (and, if the PnL stream was connected, an observation after it), or the plant is latched. A drain that
  fails, cannot be applied or is followed by a silent PnL stream never leaves the plant trading.
\<close>

theorem connect_fails_closed:
  assumes "co_run (connect_orders env) s h (CoDone (Inr ())) s0 s1"
  shows "barrier_passed env h \<or> plant_of s1 = Latched"
  using co_run_sat [OF sat_connect_orders assms, where P = "\<lambda>_ _. True"] by (simp add: passed_or_latched_def)

theorem connect_fails_closed_witness:
  "(case replay [] demo_host (connect_orders demo_client demo_host) demo_replies of (h, s0, st, s1) \<Rightarrow>
      result st = Some (Inr ()) \<and> plant_of s1 = Live \<and> barrier_passed demo_client h)"
proof -
  obtain h s0 st s1 where r: "replay [] demo_host (connect_orders demo_client demo_host) demo_replies = (h, s0, st, s1)"
    and c: "co_run (connect_orders demo_client) demo_host h st s0 s1" by (rule replay_run)
  have f: "(case replay [] demo_host (connect_orders demo_client demo_host) demo_replies of (h, s0, st, s1) \<Rightarrow>
      result st = Some (Inr ()) \<and> plant_of s1 = Live)" by code_simp
  then have "st = CoDone (Inr ())" "plant_of s1 = Live" using r result_Some by auto
  with connect_fails_closed [of demo_client demo_host h s0 s1] c f r show ?thesis by simp
qed

text \<open>
  C13: A restore or a gap recovery that returns has re-armed. In every run of \<open>_restore_plants_after_transport_up\<close>
  (with trading enabled) or \<open>_recover_order_gap\<close> that returns normally, the barrier was passed in that
  run and the plant is live at its end; a refused re-arm raises instead, so the caller retries.
\<close>

theorem recovery_returns_armed:
  assumes "ce_enable_trading env" "m \<in> {restore_plants env, recover_order_gap env}"
    and "co_run m s h (CoDone (Inr ())) s0 s1"
  shows "barrier_passed env h \<and> plant_of s1 = Live"
proof -
  have "sat (arms_with_evidence env) (\<lambda>_ _. True) m (\<lambda>h _ s. armed_after_barrier env h s) (\<lambda>_ _ _. True)"
    using assms(1,2) sat_restore_armed sat_recover_gap by blast
  from co_run_sat [OF this assms(3)] show ?thesis by (simp add: armed_after_barrier_def)
qed

theorem recovery_returns_armed_witness:
  "(case replay [] demo_host (restore_plants demo_client demo_host) [Inr SvUnit, Inr SvUnit, Inr (SvRows [demo_open_row]),
        Inr (SvDict None)] of (h, s0, st, s1) \<Rightarrow>
      result st = Some (Inr ()) \<and> plant_of s1 = Live \<and> barrier_passed demo_client h)"
proof -
  let ?run = "replay [] demo_host (restore_plants demo_client demo_host) [Inr SvUnit, Inr SvUnit, Inr (SvRows [demo_open_row]),
        Inr (SvDict None)]"
  obtain h s0 st s1 where r: "?run = (h, s0, st, s1)" and c: "co_run (restore_plants demo_client) demo_host h st s0 s1"
    by (rule replay_run)
  have f: "(case ?run of (h, s0, st, s1) \<Rightarrow> result st = Some (Inr ()))" by code_simp
  then have "st = CoDone (Inr ())" using r result_Some by auto
  moreover have "ce_enable_trading demo_client" by code_simp
  ultimately show ?thesis using recovery_returns_armed [of demo_client "restore_plants demo_client" demo_host h s0 s1] c f r by simp
qed

text \<open>
  Query windows are bounded. Whatever bounds a query names, the window it is sent with is ordered, spans
  at most 32 days and does not start before the epoch; a units mistake in a bound cannot ask the venue for
  decades of history. Without bounds the window is the current UTC day up to now.
\<close>

theorem recon_window_bounded:
  assumes "recon_window now st en = Inr (a, b)" "0 \<le> now"
  shows "a \<le> b \<and> b - a \<le> 32 * 86400 \<and> 0 \<le> a
     \<and> (st = NoTime \<and> en = NoTime \<longrightarrow> b = now \<and> a = now - now mod 86400)"
proof -
  have nonneg: "to_sec v = Inr (Some x) \<Longrightarrow> 0 \<le> x" for v x
    by (auto simp: to_sec_def bindR_eq_Inr_iff split: time_arg.splits)
  obtain e x where e: "to_sec en = Inr e" and x: "to_sec st = Inr x" using assms(1) by (auto simp: recon_window_def bindR_eq_Inr_iff)
  define day where "day = now div 86400 * 86400"
  have day: "0 \<le> day" "day = now - now mod 86400" "0 \<le> now mod 86400" "now mod 86400 < 86400"
    using assms(2) by (simp_all add: day_def minus_mod_eq_div_mult pos_imp_zdiv_nonneg_iff)
  define last_sec where "last_sec = (case e of None \<Rightarrow> now | Some y \<Rightarrow> y)"
  define first_sec where "first_sec = (case x of None \<Rightarrow> day | Some y \<Rightarrow> y)"
  have "0 \<le> last_sec" "0 \<le> first_sec"
    using nonneg e x assms(2) day by (auto simp: last_sec_def first_sec_def split: option.splits)
  moreover have "b = last_sec" and a: "a = (let f = (if last_sec < first_sec then last_sec else first_sec)
      in if last_sec - f > MAX_RECON_SPAN_S then last_sec - MAX_RECON_SPAN_S else f)"
    using assms(1) unfolding recon_window_def e x bindR_simps last_sec_def first_sec_def day_def Let_def by auto
  moreover have "last_sec = now \<and> first_sec = day" if "st = NoTime \<and> en = NoTime"
    using that e x by (auto simp: to_sec_def last_sec_def first_sec_def)
  ultimately show ?thesis using day by (auto simp: Let_def MAX_RECON_SPAN_S_def split: if_splits)
qed

end
