(* ===== verification/Queries.thy ===== *)
theory Queries
  imports Lifecycle
begin

text \<open>
  What the engine asks the execution client for (\<open>execution.py\<close>, \<open>recon.py\<close>): order status (one order,
  bulk), fills, positions, the startup mass status, and the exposure of a product root. A query that the
  venue cannot answer raises; unknown is never reported as empty or flat.
\<close>

section \<open>Order status\<close>

definition queried_order :: "('c, 'x) nt_env_scheme \<Rightarrow> string option \<Rightarrow> string option \<Rightarrow> 'c host \<Rightarrow> nt_order option" where
  "queried_order env cid vid s =
     (case Option.bind cid (ne_order env (h_cache s)) of
        Some order \<Rightarrow> Some order
      | None \<Rightarrow> Option.bind (Option.bind vid (ne_client_order_id env (h_cache s))) (ne_order env (h_cache s)))"

definition pick_best :: "string \<Rightarrow> drain_row list \<Rightarrow> drain_row option" where
  "pick_best tag rows = foldl (\<lambda>best row.
     if text_or (of_user_tag (dr_fields row)) = tag \<and> dr_bindable row
        \<and> (case best of None \<Rightarrow> True | Some b \<Rightarrow> dr_ts_event row \<ge> dr_ts_event b)
     then Some row else best) None rows"

definition resolve_from_rows :: "('c, 'x) client_env_scheme \<Rightarrow> nt_order \<Rightarrow> int \<Rightarrow> pydict list
    \<Rightarrow> ('c, order_status_report option) act" where
  "resolve_from_rows env order0 ts_init events =
     bindE (getE (\<lambda>s. case ne_order env (h_cache s) (od_client_order_id order0) of Some ord \<Rightarrow> ord | None \<Rightarrow> order0)) (\<lambda>order.
     bindE (getE (\<lambda>s. ne_venue_order_id env (h_cache s) (od_client_order_id order))) (\<lambda>bound.
       if bound \<noteq> None \<or> od_is_closed order then order_status_report_for env order ts_init
       else bindE (iter_drain_rows env events) (\<lambda>rows.
         case pick_best (od_client_order_id order) rows of
           None \<Rightarrow> returnE None
         | Some best \<Rightarrow> thenE (bind_venue_id env (od_client_order_id order) (row_basket best)) (returnE (dr_report best)))))"

definition resolve_inflight_by_tag :: "('c, 'x) client_env_scheme \<Rightarrow> nt_order \<Rightarrow> int \<Rightarrow> ('c, order_status_report option) task" where
  "resolve_inflight_by_tag env order ts_init =
     bindC (syncC (recon_window_sec env NoTime NoTime)) (\<lambda>(start_sec, end_sec).
     bindC (load_orders_events start_sec end_sec) (\<lambda>events. syncC (resolve_from_rows env order ts_init events)))"

definition generate_order_status_report :: "('c, 'x) client_env_scheme \<Rightarrow> string option \<Rightarrow> string option
    \<Rightarrow> ('c, order_status_report option) task" where
  "generate_order_status_report env cid vid =
     bindC (syncC (getE (queried_order env cid vid))) (\<lambda>found.
       case found of
         None \<Rightarrow> returnC None
       | Some order \<Rightarrow>
           bindC (syncC (timestamp_ns env)) (\<lambda>ts_init.
             if \<not> ce_enable_trading env then syncC (order_status_report_for env order ts_init)
             else bindC (syncC (getE (\<lambda>s. od_is_inflight order \<and> venue_id_for_order env order s = None))) (\<lambda>unbound.
               if unbound then
                 bindC (resolve_inflight_by_tag env order ts_init) (\<lambda>r.
                   case r of
                     Some report \<Rightarrow> returnC (Some report)
                   | None \<Rightarrow> raiseC (exn_of VenueQueryUnavailable (''Rithmic order status unavailable: ''
                       @ ''in-flight order unresolved after the working-orders drain'')))
               else syncC (order_status_report_for env order ts_init))))"

fun cached_reports :: "('c, 'x) nt_env_scheme \<Rightarrow> int \<Rightarrow> nt_order list \<Rightarrow> ('c, order_status_report list) act" where
  "cached_reports env ts_init [] = returnE []"
| "cached_reports env ts_init (order # orders) =
     bindE (order_status_report_for env order ts_init) (\<lambda>r.
     bindE (cached_reports env ts_init orders) (\<lambda>rest.
       returnE (case r of None \<Rightarrow> rest | Some report \<Rightarrow> report # rest)))"

definition cache_backed_order_status_reports :: "('c, 'x) nt_env_scheme \<Rightarrow> string option \<Rightarrow> bool
    \<Rightarrow> ('c, order_status_report list) act" where
  "cache_backed_order_status_reports env iid open_only =
     bindE (timestamp_ns env) (\<lambda>ts_init.
     bindE (getE (\<lambda>s. if open_only then ne_orders_open env (h_cache s) iid None NO_ORDER_SIDE
                      else ne_orders env (h_cache s) iid)) (cached_reports env ts_init))"

definition generate_order_status_reports :: "('c, 'x) client_env_scheme \<Rightarrow> string option \<Rightarrow> time_arg \<Rightarrow> time_arg \<Rightarrow> bool
    \<Rightarrow> ('c, order_status_report list) task" where
  "generate_order_status_reports env iid start_arg end_arg open_only =
     (if \<not> ce_enable_trading env then syncC (cache_backed_order_status_reports env iid open_only)
      else bindC (syncC (recon_window_sec env start_arg end_arg)) (\<lambda>(start_sec, end_sec).
           bindC (load_orders_events start_sec end_sec) (\<lambda>events.
             syncC (order_status_reports_from_events env events iid open_only))))"

section \<open>Fills and positions\<close>

definition generate_fill_reports :: "('c, 'x) client_env_scheme \<Rightarrow> string option \<Rightarrow> string option \<Rightarrow> time_arg \<Rightarrow> time_arg
    \<Rightarrow> ('c, fill_report list) task" where
  "generate_fill_reports env iid vid start_arg end_arg =
     (if \<not> ce_enable_trading env then
        raiseC (exn_of VenueQueryUnavailable ''Rithmic fill reconciliation unavailable (order plant not ready)'')
      else bindC (syncC (recon_window_sec env start_arg end_arg)) (\<lambda>(start_sec, end_sec).
           bindC (load_orders_events start_sec end_sec) (\<lambda>events.
             syncC (fill_reports_from_events env events iid vid))))"

fun position_reports :: "('c, 'x) client_env_scheme \<Rightarrow> string option \<Rightarrow> int \<Rightarrow> position_fields list
    \<Rightarrow> ('c, position_status_report list) act" where
  "position_reports env want ts_init [] = returnE []"
| "position_reports env want ts_init (f # fs) =
     bindE (getE (\<lambda>s. str_strip (pf_symbol f) \<noteq> [] \<and> str_strip (pf_symbol f) \<in> set (h_unreadable_position_symbols s))) (\<lambda>unread.
       if unread then position_reports env want ts_init fs
       else
         bindE (liftE (ne_instrument_id env (pf_instrument_id f))) (\<lambda>iid.
         bindE (getE (\<lambda>s. ne_instrument env (h_cache s) iid)) (\<lambda>ins.
           if (want \<noteq> None \<and> want \<noteq> Some iid) \<or> ins = None then position_reports env want ts_init fs
           else
             bindE (position_report_from_fields env f ts_init) (\<lambda>r.
             bindE (position_reports env want ts_init fs) (\<lambda>rest.
               returnE (case r of None \<Rightarrow> rest | Some report \<Rightarrow> report # rest))))))"

definition generate_position_status_reports :: "('c, 'x) client_env_scheme \<Rightarrow> string option
    \<Rightarrow> ('c, position_status_report list) act" where
  "generate_position_status_reports env want =
     bindE (timestamp_ns env) (\<lambda>ts_init.
     bindE (getE (\<lambda>s. (positions_known s, h_pnl_live_since_ns s))) (\<lambda>(known, live).
       case live of
         None \<Rightarrow> returnE []
       | Some l \<Rightarrow>
           if \<not> known then returnE []
           else bindE (getE (\<lambda>s. map snd (rows_seen_since l s))) (position_reports env want ts_init)))"

section \<open>Mass status\<close>

record mass_status =
  ms_account_id :: "string option"
  ms_ts_init :: int
  ms_lookback_start :: "int option" \<comment> \<open>when declared\<close>
  ms_reports_complete :: "bool option" \<comment> \<open>when declared\<close>
  ms_orders :: "order_status_report list"
  ms_fills :: "fill_report list"
  ms_positions :: "position_status_report list"

text \<open>Declaring the window: by the setter, or attribute by attribute as far as they can be written.\<close>

definition apply_mass_status_report_window :: "window_api \<Rightarrow> int \<Rightarrow> bool \<Rightarrow> (bool \<times> int option \<times> bool option) res" where
  "apply_mass_status_report_window api lookback_start reports_complete =
     (case api of
        WindowSetter (Some e) \<Rightarrow> Inl e
      | WindowSetter None \<Rightarrow> Inr (True, Some lookback_start, Some reports_complete)
      | WindowAttrs a b \<Rightarrow> Inr (a \<or> b, if a then Some lookback_start else None, if b then Some reports_complete else None))"

definition soft_unavailable :: "exn \<Rightarrow> bool" where
  "soft_unavailable e \<longleftrightarrow> exn_cls e = VenueQueryUnavailable \<or> exn_cls e = ReconciliationUnavailableError"

definition set_recon_active :: "bool \<Rightarrow> ('c, unit) act" where
  "set_recon_active b = modifyE (\<lambda>s. s\<lparr>h_reconciliation_active := b\<rparr>)"

definition abort_mass_status :: "('c, mass_status option) task" where
  "abort_mass_status = syncC (thenE (set_recon_active False) (returnE None))"

definition lookback_stamp :: "('c, 'x) nt_env_scheme \<Rightarrow> int option \<Rightarrow> ('c, pyfloat option) act" where
  "lookback_stamp env mins = (\<lambda>s. case mins of
       None \<Rightarrow> (Inr None, s)
     | Some m \<Rightarrow> (Inr (Some (ne_utc_before env (h_clock s) m)), s\<lparr>h_clock := Suc (h_clock s)\<rparr>))"

definition lookback_start_ns :: "pyfloat option \<Rightarrow> int \<Rightarrow> int res" where
  "lookback_start_ns since ts_init =
     (case since of
        None \<Rightarrow> Inr ts_init
      | Some f \<Rightarrow> py_int (PFloat (case f of Fin x \<Rightarrow> to_double (x * 1000000000) | _ \<Rightarrow> f)))"

definition finish_mass_status :: "('c, 'x) client_env_scheme \<Rightarrow> string option \<Rightarrow> int \<Rightarrow> pyfloat option \<Rightarrow> order_status_report list
    \<Rightarrow> position_status_report list \<Rightarrow> ('c, mass_status option) act" where
  "finish_mass_status env acct ts_init since orders positions =
     bindE (liftE (lookback_start_ns since ts_init)) (\<lambda>start_ns.
     bindE (liftE (apply_mass_status_report_window (ne_window_api env) start_ns False)) (\<lambda>(_, lookback, reports_complete).
     bindE (getE positions_known) (\<lambda>known.
     bindE (if known then augment_soft_mass_flat env positions ts_init else returnE positions) (\<lambda>positions.
     thenE (set_recon_active False)
       (returnE (Some \<lparr>ms_account_id = acct, ms_ts_init = ts_init, ms_lookback_start = lookback,
                        ms_reports_complete = reports_complete, ms_orders = orders,
                        ms_fills = [], ms_positions = positions\<rparr>))))))"

definition generate_mass_status :: "('c, 'x) client_env_scheme \<Rightarrow> int option \<Rightarrow> ('c, mass_status option) task" where
  "generate_mass_status env lookback_mins =
     thenC (syncC (set_recon_active True))
     (bindC (syncC (bindE (timestamp_ns env) (\<lambda>ts. bindE (getE h_account_id) (\<lambda>a. returnE (ts, a))))) (\<lambda>(ts_init, acct).
      bindC (syncC (lookback_stamp env lookback_mins)) (\<lambda>since.
      thenC (syncC (thenE (timestamp_ns env) (thenE (timestamp_ns env) (timestamp_ns env))))
      (let window = (case since of None \<Rightarrow> NoTime | Some f \<Rightarrow> Stamp f);
           after_fills = (\<lambda>orders. tryC (syncC (generate_position_status_reports env None)) (\<lambda>_. abort_mass_status)
             (\<lambda>positions. syncC (finish_mass_status env acct ts_init since orders positions)));
           after_orders = (\<lambda>orders. tryC (generate_fill_reports env None None window NoTime)
             (\<lambda>e. if soft_unavailable e then after_fills orders else abort_mass_status) (\<lambda>_. after_fills orders))
       in tryC (generate_order_status_reports env None window NoTime False)
            (\<lambda>e. if soft_unavailable e then after_orders [] else abort_mass_status) after_orders))))"

section \<open>Exposure\<close>

definition working_orders_for_root :: "('c, 'x) client_env_scheme \<Rightarrow> pydict list \<Rightarrow> string \<Rightarrow> ('c, int option) act" where
  "working_orders_for_root env events rt =
     (let root_rows = length (filter (\<lambda>raw. matches_root (text_or (dget raw ''symbol'')) rt) events) in
      bindE (iter_drain_rows env events) (\<lambda>rows.
        (let usable = filter (\<lambda>row. matches_root (of_symbol (dr_fields row)) rt) rows in
         if length usable \<noteq> root_rows then returnE None
         else bindE (latest_drain_rows env events None) (\<lambda>latest.
           returnE (Some (int (length (filter (\<lambda>basket.
             case map_of latest basket of
               Some row \<Rightarrow> (case dr_report row of Some r \<Rightarrow> \<not> is_terminal (sr_order_status r) | None \<Rightarrow> False)
             | None \<Rightarrow> False) (remdups (map row_basket usable))))))))))"

definition request_exposure :: "('c, 'x) client_env_scheme \<Rightarrow> string \<Rightarrow> ('c, exposure_snapshot) task" where
  "request_exposure env rt =
     bindC (tryC (bindC (load_orders_events 0 0) (\<lambda>events.
              syncC (bindE (working_orders_for_root env events rt) (\<lambda>n.
                     bindE (timestamp_ns env) (\<lambda>now. returnE (n, Some now))))))
            (\<lambda>_. returnC (None, None)) returnC) (\<lambda>(open_orders, drain_ts).
       syncC (bindE (exposure_snapshot_of env rt open_orders drain_ts True) (\<lambda>snap.
              thenE (publish_exposure env snap) (returnE snap))))"

section \<open>Frames\<close>

locale query_frame = task_frame R for R :: "'c host \<Rightarrow> 'c host \<Rightarrow> bool" +
  assumes dedup: "R s (s\<lparr>h_seen_fill_keys := st\<rparr>)"
    and recon_flag: "R s (s\<lparr>h_reconciliation_active := b\<rparr>)"
    and exposure: "R s (s\<lparr>h_cache := c, h_trace := h_trace s @ [TrEmit (EvExposure t x)]\<rparr>)"
begin

lemma keeps_fill_key_seen: "keeps R (fill_key_seen k)"
  by (rule keepsI) (simp add: fill_key_seen_def dedup split: prod.splits)

lemma keeps_mark_fill_key: "keeps R (mark_fill_key k)"
  unfolding mark_fill_key_def by (intro keeps_modifyE dedup)

lemma keeps_resolve_from_rows: "keeps R (resolve_from_rows env order ts events)"
  unfolding resolve_from_rows_def
  by (intro frame_rules keeps_order_status_report_for keeps_iter_drain_rows keeps_bind_venue_id)

lemma segments_resolve_inflight: "segments R (resolve_inflight_by_tag env order ts)"
  unfolding resolve_inflight_by_tag_def
  by (intro task_rules segments_prod keeps_recon_window segments_load_orders keeps_resolve_from_rows)

lemma segments_order_status_report: "segments R (generate_order_status_report env cid vid)"
  unfolding generate_order_status_report_def
  by (intro task_rules keeps_timestamp_ns keeps_order_status_report_for segments_resolve_inflight)

lemma keeps_cached_reports: "keeps R (cached_reports env ts orders)"
  by (induction orders) (simp_all, intro frame_rules, intro frame_rules keeps_order_status_report_for)

lemma segments_order_status_reports: "segments R (generate_order_status_reports env iid a b op)"
  unfolding generate_order_status_reports_def cache_backed_order_status_reports_def
  by (intro task_rules segments_prod keeps_timestamp_ns keeps_cached_reports keeps_recon_window segments_load_orders
      keeps_order_status_reports)

lemma keeps_fill_recon_row: "keeps R (fill_recon_row env iid vid reports row)"
  unfolding fill_recon_row_def Let_def
  by (intro frame_rules keeps_ts_or_clock keeps_fill_key_seen keeps_fill_report keeps_drain_row keeps_publish_status
      keeps_mark_fill_key)

lemma segments_fill_reports: "segments R (generate_fill_reports env iid vid a b)"
  unfolding generate_fill_reports_def fill_reports_from_events_def
  by (intro task_rules segments_prod keeps_recon_window segments_load_orders keeps_fold_drain_rows keeps_fill_recon_row)

lemma keeps_position_reports: "keeps R (position_reports env want ts fs)"
  by (induction fs) (simp_all, intro frame_rules, intro frame_rules keeps_position_report)

lemma keeps_position_status_reports: "keeps R (generate_position_status_reports env want)"
  unfolding generate_position_status_reports_def
  by (intro frame_rules keeps_timestamp_ns keeps_position_reports)

lemma keeps_recon_active: "keeps R (set_recon_active b)"
  unfolding set_recon_active_def by (intro keeps_modifyE recon_flag)

lemma keeps_lookback_stamp: "keeps R (lookback_stamp env mins)"
  by (rule keepsI) (auto simp: lookback_stamp_def clock reflpD [OF refl] split: option.splits)

lemma keeps_finish_mass_status: "keeps R (finish_mass_status env acct ts since orders positions)"
  unfolding finish_mass_status_def by (intro frame_rules keeps_augment keeps_recon_active)

lemma segments_abort: "segments R abort_mass_status"
  unfolding abort_mass_status_def by (intro task_rules keeps_recon_active)

lemma segments_mass_status: "segments R (generate_mass_status env mins)"
  unfolding generate_mass_status_def Let_def
  by (intro task_rules segments_prod keeps_recon_active keeps_timestamp_ns keeps_lookback_stamp segments_order_status_reports
      segments_fill_reports keeps_position_status_reports segments_abort keeps_finish_mass_status)

lemma keeps_working_orders: "keeps R (working_orders_for_root env events rt)"
  unfolding working_orders_for_root_def Let_def
  by (intro frame_rules keeps_iter_drain_rows keeps_latest_drain_rows)

lemma keeps_publish_exposure: "keeps R (publish_exposure env snap)"
  unfolding publish_exposure_def
  by (rule keepsI) (auto simp: emit_def cache exposure split: prod.splits option.splits)

lemma keeps_exposure_snapshot: "keeps R (exposure_snapshot_of env rt oo dt rep)"
  unfolding exposure_snapshot_of_def by (intro frame_rules keeps_timestamp_ns)

lemma segments_request_exposure: "segments R (request_exposure env rt)"
  unfolding request_exposure_def
  by (intro task_rules segments_prod segments_load_orders keeps_working_orders keeps_timestamp_ns
      keeps_exposure_snapshot keeps_publish_exposure)

end

interpretation gated: query_frame "gated env" for env
  by unfold_locales (auto simp: gated_def)

interpretation no_arm: query_frame no_arm
  by unfold_locales (auto intro!: no_arm_same)

section \<open>Results of runs\<close>

lemma yields_await: "yields P (awaitC c) (\<lambda>h v s. \<exists>h0 s0. P h0 s0 \<and> h = h0 @ [(c, Inr v, s)])"
  unfolding yields_def
proof (rule satI)
  fix h s st s'
  assume P: "P h s" and "awaitC c s = (st, s')"
  then have st: "st = CoAwait c (\<lambda>r s'. (CoDone r, s'))" by (auto simp: awaitC_def)
  show "True \<and> step_sat (\<lambda>_ _ _. True) (\<lambda>h v s. \<exists>h0 s0. P h0 s0 \<and> h = h0 @ [(c, Inr v, s)]) (\<lambda>_ _ _. True) st h s'"
    using P by (auto simp: st split: sum.splits)
qed

lemma yields_load_orders:
  "yields P (load_orders_events a b) (\<lambda>h rows s. \<exists>h0 s0. P h0 s0 \<and> h = h0 @ [(CLoadOrders a b, Inr (SvRows rows), s)])"
  unfolding load_orders_events_def
  by (intro yields_try yields_bind [OF yields_await] yields_sync yields_raise yields_return)
     (auto simp: em_simps expect_rows_def split: sess_value.splits)

text \<open>What the position queries leave alone.\<close>

definition pnl_kept :: "'c host \<Rightarrow> 'c host \<Rightarrow> bool" where
  "pnl_kept s s' \<longleftrightarrow> h_pnl_live_since_ns s' = h_pnl_live_since_ns s
     \<and> h_unreadable_position_symbols s' = h_unreadable_position_symbols s
     \<and> h_positions s' = h_positions s \<and> h_position_seen_ns s' = h_position_seen_ns s"

interpretation pnl_kept: passive_frame pnl_kept
  by unfold_locales (auto simp: pnl_kept_def reflp_def transp_def)

lemma pnl_kept_position_reports: "keeps pnl_kept (position_reports env want ts fs)"
  by (induction fs) (simp_all, intro pnl_kept.frame_rules, intro pnl_kept.frame_rules pnl_kept.keeps_position_report)

lemma pnl_kept_positions: "keeps pnl_kept (generate_position_status_reports env want)"
  unfolding generate_position_status_reports_def
  by (intro pnl_kept.frame_rules pnl_kept.keeps_timestamp_ns pnl_kept_position_reports)

lemma pnl_kept_known: "pnl_kept s s' \<Longrightarrow> positions_known s' = positions_known s"
  by (simp add: pnl_kept_def positions_known_def)

lemma unknown_positions_no_reports:
  "generate_position_status_reports env want s = (Inr reports, s') \<Longrightarrow> \<not> positions_known s \<Longrightarrow> reports = []"
  by (auto simp: generate_position_status_reports_def em_returned timestamp_ns_def positions_known_def
      split: option.splits if_splits)

lemma finish_mass_status_returned:
  assumes "finish_mass_status env acct ts since orders positions s = (Inr r, s')"
  shows "\<exists>ms. r = Some ms \<and> ms_fills ms = [] \<and> ms_reports_complete ms \<noteq> Some True
    \<and> positions_known s' = positions_known s \<and> (\<not> positions_known s \<longrightarrow> ms_positions ms = positions)"
proof -
  have aug: "augment_soft_mass_flat env positions ts s = (x, s2) \<Longrightarrow> s2 = s" for x s2
    using keepsD_eq [OF unchanged.keeps_augment] by metis
  have "apply_mass_status_report_window api l False = Inr (b, lb, rc) \<Longrightarrow> rc \<noteq> Some True" for api l b lb rc
    by (auto simp: apply_mass_status_report_window_def split: window_api.splits option.splits if_splits)
  with assms show ?thesis
    by (auto simp: finish_mass_status_def em_returned set_recon_active_def positions_known_def
        split: prod.splits if_splits dest!: aug)
qed

text \<open>
  The startup mass status never invents history. In every run that produces one: it carries no fill
  reports (a working-orders drain is no fill history), it is never declared complete, and while venue
  positions are unknown (the PnL stream not live, or a row without a symbol unreadable) it carries no
  position at all, neither a venue row nor a FLAT for a position the cache holds.
\<close>

theorem mass_status_invents_nothing:
  assumes "co_run (generate_mass_status env mins) s h (CoDone (Inr (Some ms))) s0 s1"
  shows "ms_fills ms = [] \<and> ms_reports_complete ms \<noteq> Some True \<and> (\<not> positions_known s1 \<longrightarrow> ms_positions ms = [])"
proof -
  let ?Q = "\<lambda>_ r s1. case r of None \<Rightarrow> True | Some ms \<Rightarrow> ms_fills ms = [] \<and> ms_reports_complete ms \<noteq> Some True
    \<and> (\<not> positions_known s1 \<longrightarrow> ms_positions ms = [])"
  have abort: "yields P abort_mass_status ?Q" for P :: "('a host, session_call, reply) history \<Rightarrow> 'a host \<Rightarrow> bool"
    unfolding abort_mass_status_def by (rule yields_sync) (auto simp: em_returned)
  have fin: "yields (\<lambda>_ s. \<not> positions_known s \<longrightarrow> positions = []) (syncC (finish_mass_status env acct ts since orders positions)) ?Q"
    for acct ts since orders positions
    by (rule yields_sync) (auto dest: finish_mass_status_returned)
  have pos: "yields P (tryC (syncC (generate_position_status_reports env None)) (\<lambda>_. abort_mass_status)
      (\<lambda>positions. syncC (finish_mass_status env acct ts since orders positions))) ?Q" for P acct ts since orders
  proof (rule yields_try)
    show "yields P (syncC (generate_position_status_reports env None)) (\<lambda>_ positions s. \<not> positions_known s \<longrightarrow> positions = [])"
      by (rule yields_sync)
         (metis pnl_kept_known [OF keepsD_eq [OF pnl_kept_positions]] unknown_positions_no_reports)
  qed (rule abort, rule fin)
  have "yields (\<lambda>_ _. True) (generate_mass_status env mins) ?Q"
    unfolding generate_mass_status_def Let_def
    by (intro pos abort yields_if yields_prod yields_then [OF yields_any] yields_bind [OF yields_any] yields_try [OF yields_any])
  from yields_run [OF this assms] show ?thesis by simp
qed

lemma exposure_snapshot_returned:
  assumes "exposure_snapshot_of env rt oo dt rep s = (Inr snap, s')"
  shows "ex_open_orders snap = oo \<and> ex_drain_ts_ns snap = dt \<and> pnl_kept s s'
     \<and> (case ex_net snap of None \<Rightarrow> True | Some n \<Rightarrow> (\<exists>live. h_pnl_live_since_ns s = Some live
          \<and> \<not> position_unreadable_for rt s \<and> signed_net (map snd (rows_seen_since live s)) rt = Inr n
          \<and> ex_pnl_ts_ns snap = Some live))"
  using assms
  by (auto simp: exposure_snapshot_of_def em_returned timestamp_ns_def pnl_kept_def
      split: option.splits if_splits)

lemma pnl_kept_publish: "keeps pnl_kept (publish_exposure env snap)"
  unfolding publish_exposure_def
  by (rule keepsI) (auto simp: emit_def pnl_kept_def split: prod.splits option.splits)

text \<open>
  The orders of a root that a drain shows open: the baskets of its rows whose newest row (the latest time stamp and,
  among equal ones, the last to arrive) reports a status that is not final.
\<close>

definition newest_row :: "drain_row list \<Rightarrow> string \<Rightarrow> drain_row \<Rightarrow> bool" where
  "newest_row rows b row \<longleftrightarrow> (\<exists>i < length rows. rows ! i = row \<and> row_basket row = b
     \<and> (\<forall>j < length rows. row_basket (rows ! j) = b \<longrightarrow>
           dr_ts_event (rows ! j) < dr_ts_event row \<or> dr_ts_event (rows ! j) = dr_ts_event row \<and> j \<le> i))"

definition shows_open :: "drain_row \<Rightarrow> bool" where
  "shows_open row \<longleftrightarrow> (case dr_report row of None \<Rightarrow> False | Some r \<Rightarrow> sr_order_status r \<notin> {FILLED, CANCELED, REJECTED, EXPIRED})"

definition open_baskets :: "string \<Rightarrow> drain_row list \<Rightarrow> drain_row list \<Rightarrow> string set" where
  "open_baskets rt drows again = {b. (\<exists>row \<in> set drows. matches_root (of_symbol (dr_fields row)) rt \<and> row_basket row = b)
     \<and> (\<exists>row. newest_row again b row \<and> shows_open row)}"

lemma newest_row_unique: "newest_row rows b row \<Longrightarrow> newest_row rows b row' \<Longrightarrow> row = row'"
  unfolding newest_row_def by (metis less_asym le_antisym less_irrefl)

lemma latest_newest: "map_of (latest_of_rows rows) b = Some row \<Longrightarrow> newest_row rows b row"
proof -
  let ?ks = "map (\<lambda>row. (row_basket row, dr_ts_event row)) rows"
  assume "map_of (latest_of_rows rows) b = Some row"
  then have "(b, row) \<in> set (latest_of_rows rows)" by (rule map_of_SomeD)
  then obtain i where i: "i \<in> set (freshest_per_key ?ks)" "b = row_basket (rows ! i)" "row = rows ! i" by (auto simp: latest_of_rows_def)
  have "i < length ?ks \<and> (\<forall>j < length ?ks. fst (?ks ! j) = fst (?ks ! i) \<longrightarrow>
      snd (?ks ! j) < snd (?ks ! i) \<or> snd (?ks ! j) = snd (?ks ! i) \<and> j \<le> i)"
    using freshest_row_wins [of ?ks] i(1) by blast
  then have "i < length rows" "\<forall>j < length rows. row_basket (rows ! j) = row_basket (rows ! i) \<longrightarrow>
      dr_ts_event (rows ! j) < dr_ts_event (rows ! i) \<or> dr_ts_event (rows ! j) = dr_ts_event (rows ! i) \<and> j \<le> i" by auto
  then show ?thesis unfolding newest_row_def by (intro exI [of _ i]) (simp add: i)
qed

lemma newest_latest: "newest_row rows b row \<Longrightarrow> map_of (latest_of_rows rows) b = Some row"
proof -
  let ?ks = "map (\<lambda>row. (row_basket row, dr_ts_event row)) rows"
  assume n: "newest_row rows b row"
  then have "b \<in> set (map fst ?ks)" by (auto simp: newest_row_def)
  moreover have "map fst (latest_of_rows rows) = map (\<lambda>i. fst (?ks ! i)) (freshest_per_key ?ks)"
    using freshest_per_key_props(2) [of _ ?ks] by (auto simp: latest_of_rows_def wins_def)
  ultimately have "b \<in> set (map fst (latest_of_rows rows))" by (simp only: freshest_per_key_props set_first_keys)
  then obtain row' where "map_of (latest_of_rows rows) b = Some row'" by (metis map_of_eq_None_iff not_None_eq set_map)
  then show ?thesis using newest_row_unique [OF latest_newest n] by simp
qed

lemma counted_baskets:
  "int (length (filter (\<lambda>b. case map_of (latest_of_rows again) b of
       Some row \<Rightarrow> (case dr_report row of Some r \<Rightarrow> \<not> is_terminal (sr_order_status r) | None \<Rightarrow> False) | None \<Rightarrow> False)
     (remdups (map row_basket (filter (\<lambda>row. matches_root (of_symbol (dr_fields row)) rt) drows)))))
   = int (card (open_baskets rt drows again))"
proof -
  let ?P = "\<lambda>b. case map_of (latest_of_rows again) b of
       Some row \<Rightarrow> (case dr_report row of Some r \<Rightarrow> \<not> is_terminal (sr_order_status r) | None \<Rightarrow> False) | None \<Rightarrow> False"
  have p: "?P b \<longleftrightarrow> (\<exists>row. newest_row again b row \<and> shows_open row)" for b
  proof -
    have "?P b \<longleftrightarrow> (\<exists>row. map_of (latest_of_rows again) b = Some row \<and> shows_open row)"
      by (simp add: shows_open_def is_terminal_def TERMINAL_ORDER_STATUSES_def split: option.splits)
    then show ?thesis using latest_newest newest_latest by metis
  qed
  have "set (filter ?P (remdups (map row_basket (filter (\<lambda>row. matches_root (of_symbol (dr_fields row)) rt) drows)))) = open_baskets rt drows again"
    unfolding p by (auto simp: open_baskets_def)
  then show ?thesis by (metis distinct_card distinct_filter distinct_remdups)
qed

lemma working_orders_returned:
  assumes "working_orders_for_root env rows rt s = (Inr (Some k), s')"
  shows "\<exists>drows again s3 s4. iter_drain_rows env rows s = (Inr drows, s3) \<and> iter_drain_rows env rows s3 = (Inr again, s4)
     \<and> length (filter (\<lambda>row. matches_root (of_symbol (dr_fields row)) rt) drows)
       = length (filter (\<lambda>raw. matches_root (text_or (dget raw ''symbol'')) rt) rows)
     \<and> k = int (card (open_baskets rt drows again))"
proof -
  from assms obtain drows s3 again s4 where "iter_drain_rows env rows s = (Inr drows, s3)" "iter_drain_rows env rows s3 = (Inr again, s4)"
    "length (filter (\<lambda>row. matches_root (of_symbol (dr_fields row)) rt) drows)
       = length (filter (\<lambda>raw. matches_root (text_or (dget raw ''symbol'')) rt) rows)"
    "k = int (length (filter (\<lambda>b. case map_of (latest_of_rows again) b of
       Some row \<Rightarrow> (case dr_report row of Some r \<Rightarrow> \<not> is_terminal (sr_order_status r) | None \<Rightarrow> False) | None \<Rightarrow> False)
     (remdups (map row_basket (filter (\<lambda>row. matches_root (of_symbol (dr_fields row)) rt) drows)))))"
    by (auto simp: working_orders_for_root_def latest_drain_rows_def matches_instrument_def Let_def em_returned split: if_splits)
  then show ?thesis unfolding counted_baskets by blast
qed

definition root_drained :: "('c, 'x) client_env_scheme \<Rightarrow> string \<Rightarrow> int \<Rightarrow> ('c host, session_call, reply) history \<Rightarrow> bool" where
  "root_drained env rt k h \<longleftrightarrow> (\<exists>rows s2 drows again s3 s4. h = [(CLoadOrders 0 0, Inr (SvRows rows), s2)]
     \<and> iter_drain_rows env rows s2 = (Inr drows, s3) \<and> iter_drain_rows env rows s3 = (Inr again, s4)
     \<and> length (filter (\<lambda>row. matches_root (of_symbol (dr_fields row)) rt) drows)
       = length (filter (\<lambda>raw. matches_root (text_or (dget raw ''symbol'')) rt) rows)
     \<and> k = int (card (open_baskets rt drows again)))"

lemma root_drainedI:
  "working_orders_for_root env rows rt s = (Inr (Some k), s') \<Longrightarrow> root_drained env rt k [(CLoadOrders 0 0, Inr (SvRows rows), s)]"
  unfolding root_drained_def by (drule working_orders_returned) blast

lemma yields_exposure_drain:
  "yields (\<lambda>h _. h = []) (tryC (bindC (load_orders_events 0 0) (\<lambda>events.
              syncC (bindE (working_orders_for_root env events rt) (\<lambda>n.
                     bindE (timestamp_ns env) (\<lambda>now. returnE (n, Some now))))))
            (\<lambda>_. returnC (None, None)) returnC) (\<lambda>h p _. \<forall>k. fst p = Some k \<longrightarrow> root_drained env rt k h)"
proof (rule yields_try)
  show "yields (\<lambda>h _. h = []) (bindC (load_orders_events 0 0) (\<lambda>events.
              syncC (bindE (working_orders_for_root env events rt) (\<lambda>n.
                     bindE (timestamp_ns env) (\<lambda>now. returnE (n, Some now))))))
     (\<lambda>h p _. \<forall>k. fst p = Some k \<longrightarrow> root_drained env rt k h)"
    by (rule yields_bind [OF yields_load_orders], rule yields_sync)
       (auto simp: em_returned intro: root_drainedI)
qed (auto intro!: yields_return)

definition snapshot_grounded :: "('c, 'x) client_env_scheme \<Rightarrow> string \<Rightarrow> ('c host, session_call, reply) history
    \<Rightarrow> exposure_snapshot \<Rightarrow> 'c host \<Rightarrow> bool" where
  "snapshot_grounded env rt h snap s1 \<longleftrightarrow> (\<forall>k. ex_open_orders snap = Some k \<longrightarrow> root_drained env rt k h)
     \<and> (case ex_net snap of None \<Rightarrow> True | Some n \<Rightarrow> (\<exists>live. h_pnl_live_since_ns s1 = Some live
          \<and> \<not> position_unreadable_for rt s1 \<and> signed_net (map snd (rows_seen_since live s1)) rt = Inr n
          \<and> ex_pnl_ts_ns snap = Some live))"

lemma yields_request_exposure: "yields (\<lambda>h _. h = []) (request_exposure env rt) (snapshot_grounded env rt)"
  unfolding request_exposure_def
proof (rule yields_bind [OF yields_exposure_drain], rule yields_prod, rule yields_sync)
  fix p oo dt h s snap s'
  assume "p = (oo, dt)" and d: "\<forall>k. fst p = Some k \<longrightarrow> root_drained env rt k h"
    and "bindE (exposure_snapshot_of env rt oo dt True) (\<lambda>snap. thenE (publish_exposure env snap) (returnE snap)) s = (Inr snap, s')"
  then obtain s2 where e: "exposure_snapshot_of env rt oo dt True s = (Inr snap, s2)"
    and pub: "publish_exposure env snap s2 = (Inr (), s')" by (auto simp: em_returned)
  have "pnl_kept s s'" using exposure_snapshot_returned [OF e] keepsD_eq [OF pnl_kept_publish pub]
    by (blast intro: transpD [OF pnl_kept.trans])
  then show "snapshot_grounded env rt h snap s'"
    using exposure_snapshot_returned [OF e] d \<open>p = (oo, dt)\<close>
    by (auto simp: snapshot_grounded_def pnl_kept_def position_unreadable_for_def rows_seen_since_def split: option.splits)
qed

text \<open>
  C28: A complete exposure snapshot is proven. When a request answers with a snapshot that claims to be
  complete, then the working-orders drain of that very request was answered and every row of the root in it
  could be interpreted; the open-order count is exactly the number of the root's baskets whose newest row in the
  drain reports a status that is not final; no position row of the root is unreadable, and the net is the signed sum
  of the position rows seen on the current PnL stream, which had been live for the settle window when the drain
  came in. (The code interprets the drain twice, so its rows are named once for each pass.)
\<close>

theorem complete_exposure_is_proven:
  assumes "co_run (request_exposure env rt) s h (CoDone (Inr snap)) s0 s1" "exposure_complete snap"
  shows "\<exists>rows s2 drows s3 again s4 live n t. h = [(CLoadOrders 0 0, Inr (SvRows rows), s2)]
     \<and> iter_drain_rows env rows s2 = (Inr drows, s3) \<and> iter_drain_rows env rows s3 = (Inr again, s4)
     \<and> length (filter (\<lambda>row. matches_root (of_symbol (dr_fields row)) rt) drows)
       = length (filter (\<lambda>raw. matches_root (text_or (dget raw ''symbol'')) rt) rows)
     \<and> ex_open_orders snap = Some (int (card (open_baskets rt drows again)))
     \<and> h_pnl_live_since_ns s1 = Some live \<and> \<not> position_unreadable_for rt s1
     \<and> signed_net (map snd (rows_seen_since live s1)) rt = Inr n \<and> ex_net snap = Some n
     \<and> ex_drain_ts_ns snap = Some t \<and> PNL_SETTLE_NS \<le> wrap_i64 (t - live)"
proof -
  have g: "snapshot_grounded env rt h snap s1" using yields_run [OF yields_request_exposure assms(1)] by simp
  obtain k n live t where c: "ex_open_orders snap = Some k" "ex_net snap = Some n" "ex_pnl_ts_ns snap = Some live"
    "ex_drain_ts_ns snap = Some t" "PNL_SETTLE_NS \<le> wrap_i64 (t - live)"
    using assms(2) by (auto simp: exposure_complete_def rs_exposure_complete_def split: option.splits)
  then have "root_drained env rt k h" "h_pnl_live_since_ns s1 = Some live" "\<not> position_unreadable_for rt s1"
    "signed_net (map snd (rows_seen_since live s1)) rt = Inr n" using g by (auto simp: snapshot_grounded_def)
  with c show ?thesis unfolding root_drained_def by blast
qed

text \<open>A client whose PnL stream has been live for a while, with one long position of the root.\<close>

definition demo_positions :: "demo_cache host" where
  "demo_positions = demo_host\<lparr>h_pnl_live_since_ns := Some 5, h_positions := [(''NQU6-CME.RITHMIC'', position_of ''NQU6'' ''LONG'' 3)],
     h_position_seen_ns := [(''NQU6-CME.RITHMIC'', 7)]\<rparr>"

theorem complete_exposure_is_proven_witness:
  "(case replay [] demo_positions (request_exposure demo_client ''NQ'' demo_positions) [Inr (SvRows [demo_open_row])] of
     (h, s0, st, s1) \<Rightarrow> (case result st of Some (Inr snap) \<Rightarrow> exposure_complete snap \<and> ex_net snap = Some 3
         \<and> ex_open_orders snap = Some 1 \<and> h_pnl_live_since_ns s1 = Some 5 \<and> \<not> position_unreadable_for ''NQ'' s1 | _ \<Rightarrow> False))"
proof -
  let ?run = "replay [] demo_positions (request_exposure demo_client ''NQ'' demo_positions) [Inr (SvRows [demo_open_row])]"
  obtain h s0 st s1 where r: "?run = (h, s0, st, s1)"
    and c: "co_run (request_exposure demo_client ''NQ'') demo_positions h st s0 s1" by (rule replay_run)
  have f: "(case ?run of (h, s0, st, s1) \<Rightarrow> (case result st of Some (Inr snap) \<Rightarrow> exposure_complete snap \<and> ex_net snap = Some 3
         \<and> ex_open_orders snap = Some 1 \<and> h_pnl_live_since_ns s1 = Some 5 | _ \<Rightarrow> False))" by code_simp
  then obtain snap where snap: "result st = Some (Inr snap)" "exposure_complete snap"
    using r by (auto split: option.splits sum.splits)
  with c have "co_run (request_exposure demo_client ''NQ'') demo_positions h (CoDone (Inr snap)) s0 s1"
    using result_Some by metis
  from complete_exposure_is_proven [OF this snap(2)] f r snap(1) show ?thesis by simp blast
qed

section \<open>In-flight orders\<close>

lemma pick_best_Some:
  assumes "pick_best tag rows = Some row"
  shows "row \<in> set rows \<and> text_or (of_user_tag (dr_fields row)) = tag \<and> dr_bindable row
     \<and> (\<forall>r \<in> set rows. text_or (of_user_tag (dr_fields r)) = tag \<and> dr_bindable r \<longrightarrow> dr_ts_event r \<le> dr_ts_event row)"
proof -
  let ?ok = "\<lambda>r. text_or (of_user_tag (dr_fields r)) = tag \<and> dr_bindable r"
  have "case pick_best tag rows of
      None \<Rightarrow> \<not> list_ex ?ok rows
    | Some b \<Rightarrow> b \<in> set rows \<and> ?ok b \<and> (\<forall>r \<in> set rows. ?ok r \<longrightarrow> dr_ts_event r \<le> dr_ts_event b)"
  proof (induction rows rule: rev_induct)
    case Nil
    then show ?case by (simp add: pick_best_def)
  next
    case (snoc r rows)
    then show ?case by (cases "pick_best tag rows") (auto simp: pick_best_def list_ex_iff)
  qed
  with assms show ?thesis by simp
qed

lemma iter_drain_rows_of_events:
  "iter_drain_rows env events s = (Inr rows, s') \<Longrightarrow> row \<in> set rows \<Longrightarrow> row_of_event events row"
  using fold_drain_rows_returned [of env "[]" events s rows s'] by (auto simp: iter_drain_rows_def)

lemma bind_venue_id_trace: "bind_venue_id env cid v s = (Inr x, s') \<Longrightarrow> TrBind cid v \<in> set (h_trace s')"
  by (auto simp: bind_venue_id_def em_returned split: sum.splits)

definition inflight_evidence :: "('c, 'x) client_env_scheme \<Rightarrow> nt_order \<Rightarrow> pydict list \<Rightarrow> 'c host \<Rightarrow> order_status_report \<Rightarrow> 'c host \<Rightarrow> bool" where
  "inflight_evidence env order rows s2 report s1 \<longleftrightarrow>
     (let current = (case ne_order env (h_cache s2) (od_client_order_id order) of Some ord \<Rightarrow> ord | None \<Rightarrow> order);
          cid = od_client_order_id current
      in ne_venue_order_id env (h_cache s2) cid \<noteq> None \<or> od_is_closed current
         \<or> (\<exists>row. row_of_event rows row \<and> dr_bindable row \<and> row_is_trustworthy (dr_fields row) = Inr True
              \<and> text_or (of_user_tag (dr_fields row)) = cid \<and> dr_report row = Some report
              \<and> TrBind cid (row_basket row) \<in> set (h_trace s1)))"

lemma resolve_from_rows_evidence:
  assumes "resolve_from_rows env order ts rows s2 = (Inr (Some report), s1)"
  shows "inflight_evidence env order rows s2 report s1"
proof -
  let ?cur = "case ne_order env (h_cache s2) (od_client_order_id order) of Some ord \<Rightarrow> ord | None \<Rightarrow> order"
  show ?thesis
  proof (cases "ne_venue_order_id env (h_cache s2) (od_client_order_id ?cur) \<noteq> None \<or> od_is_closed ?cur")
    case False
    with assms obtain drows s3 best where d: "iter_drain_rows env rows s2 = (Inr drows, s3)"
      and b: "pick_best (od_client_order_id ?cur) drows = Some best" "dr_report best = Some report"
      and v: "bind_venue_id env (od_client_order_id ?cur) (row_basket best) s3 = (Inr (), s1)"
      by (auto simp: resolve_from_rows_def em_returned split: option.splits)
    have "row_of_event rows best" using iter_drain_rows_of_events [OF d] pick_best_Some [OF b(1)] by blast
    then show ?thesis
      using pick_best_Some [OF b(1)] b(2) bind_venue_id_trace [OF v]
      unfolding inflight_evidence_def Let_def row_of_event_def row_ok_def by blast
  qed (auto simp: inflight_evidence_def)
qed

text \<open>
  An in-flight order is never answered by guess. When trading is enabled and the queried order is in
  flight without a venue id, a query that returns at all returns a report (never "no such order"), after
  exactly one drain of the venue; and either the live stream had resolved the order meanwhile (bound or
  closed, which then answers), or the report is the one of a drain row that carries the order's own tag and
  real terms, and the row's basket was bound to the order. Otherwise the query raises.
\<close>

theorem inflight_query_fails_closed:
  assumes "co_run (generate_order_status_report env cid vid) s h (CoDone (Inr r)) s0 s1"
    and "queried_order env cid vid s = Some order" "ce_enable_trading env"
    and "od_is_inflight order" "venue_id_for_order env order s = None"
  shows "\<exists>report a b rows s2. r = Some report \<and> h = [(CLoadOrders a b, Inr (SvRows rows), s2)]
     \<and> inflight_evidence env order rows s2 report s1"
proof -
  let ?Q = "\<lambda>h r s1. case r of None \<Rightarrow> True | Some report \<Rightarrow>
    (\<exists>a b rows s2. h = [(CLoadOrders a b, Inr (SvRows rows), s2)] \<and> inflight_evidence env order rows s2 report s1)"
  have res: "yields (\<lambda>h _. h = []) (resolve_inflight_by_tag env order ts) ?Q" for ts
    unfolding resolve_inflight_by_tag_def
    by (rule yields_bind [where Q = "\<lambda>h _ _. h = []"], rule yields_sync, simp, rule yields_prod,
        rule yields_bind [OF yields_load_orders], rule yields_sync)
       (auto dest: resolve_from_rows_evidence split: option.splits)
  let ?W = "\<lambda>h r s1. r \<noteq> None \<and> ?Q h r s1"
  have unbound: "yields (\<lambda>h s'. h = [] \<and> h_cache s' = h_cache s)
      (syncC (getE (\<lambda>s. od_is_inflight order \<and> venue_id_for_order env order s = None))) (\<lambda>h u s'. h = [] \<and> u)"
    using assms(4,5) by (intro yields_sync) (auto simp: em_returned venue_id_for_order_def)
  have clock: "yields (\<lambda>h s'. h = [] \<and> s' = s) (syncC (timestamp_ns env)) (\<lambda>h _ s'. h = [] \<and> h_cache s' = h_cache s)"
    by (rule yields_sync) (auto simp: timestamp_ns_def em_returned)
  have found_row: "yields (\<lambda>h _. h = []) (bindC (resolve_inflight_by_tag env order ts)
      (\<lambda>r. case r of Some report \<Rightarrow> returnC (Some report) | None \<Rightarrow> raiseC e)) ?W" for ts e
    by (rule yields_bind [OF res]) (auto intro: yields_return yields_raise split: option.split)
  have known: "yields (\<lambda>h s'. h = [] \<and> s' = s) (bindC (syncC (timestamp_ns env)) (\<lambda>ts. bindC
      (syncC (getE (\<lambda>s. od_is_inflight order \<and> venue_id_for_order env order s = None))) (\<lambda>unbound. if unbound
        then bindC (resolve_inflight_by_tag env order ts) (\<lambda>r. case r of Some report \<Rightarrow> returnC (Some report)
          | None \<Rightarrow> raiseC e) else syncC (m ts)))) ?W" for e m
    by (rule yields_bind [OF clock], rule yields_bind [OF unbound])
       (use found_row in \<open>auto intro!: yields_vacuous\<close>)
  have found: "yields (\<lambda>h s'. h = [] \<and> s' = s) (syncC (getE (queried_order env cid vid)))
      (\<lambda>h f s'. h = [] \<and> s' = s \<and> f = Some order)"
    using assms(2) by (intro yields_sync) (auto simp: em_returned)
  have "yields (\<lambda>h s'. h = [] \<and> s' = s) (generate_order_status_report env cid vid) ?W"
    unfolding generate_order_status_report_def
    apply (rule yields_bind [OF found])
    subgoal for f using known assms(3) by (cases "f = Some order") (auto intro: yields_vacuous)
    done
  from yields_run [OF this assms(1)] show ?thesis by auto
qed

end
