(* ===== verification/Polling.thy ===== *)
theory Polling
  imports Coro
begin

text \<open>
  The stream poller (\<open>polling.py\<close>) and the classification of poll failures (\<open>errors.py\<close>). A poller is a
  record of callbacks, as in \<open>PlantPoller.__init__\<close>; its methods are tasks.

  Two loops of the source have no bound: \<open>run\<close> and the retry in \<open>_recover_gap\<close>. Here each takes the number
  of rounds after which the model is cut off (\<open>Cut\<close>, \<open>False\<close>). Every round of either loop awaits at least once,
  so a finite prefix of the unbounded loop is a prefix of the bounded one for every larger number, and a
  statement for all numbers is one about every prefix.

  A delay is a rational: the source doubles a binary float, which is exact, and compares it with 2.0.
\<close>

section \<open>Failures of a poll\<close>

definition is_channel_error :: "exn \<Rightarrow> bool" where
  "is_channel_error e \<longleftrightarrow> exn_cls e \<in> {ChannelLaggedError, ChannelClosedError, NotConnectedError, ChannelError}"

definition RECONNECTABLE_GATEWAY_CODES :: "string list" where
  "RECONNECTABLE_GATEWAY_CODES = [''not_connected'', ''eof'', ''shutting_down'', ''transport_reset'', ''frame_too_large'']"

definition is_reconnectable_poll_error :: "exn \<Rightarrow> bool" where
  "is_reconnectable_poll_error e \<longleftrightarrow> is_channel_error e
     \<or> (case exn_code e of Some code \<Rightarrow> str_lower code \<in> set RECONNECTABLE_GATEWAY_CODES | None \<Rightarrow> False)
     \<or> (\<exists>t \<in> set [''forced logout'', ''connection closed'', ''not connected'', ''not_connected'', ''channel closed'',
          ''channel lagged'']. str_contains t (str_lower (exn_msg e)))"

definition is_terminal_poll_error :: "exn \<Rightarrow> bool" where
  "is_terminal_poll_error e \<longleftrightarrow>
     (if exn_cls e = ChannelClosedError \<or> exn_cls e = NotConnectedError then True
      else if exn_cls e = ChannelLaggedError then False
      else str_contains ''forced logout'' (str_lower (exn_msg e)) \<or> str_contains ''session closed'' (str_lower (exn_msg e)))"

section \<open>The poller\<close>

text \<open>
  \<open>pp_fetch\<close> is \<open>asyncio.to_thread(batch_fn)\<close> (or \<open>poll_fn\<close>, with an absent event as no events), with the
  epoch the fetching thread noted; \<open>pp_batch\<close> says which of the two it is.
\<close>

record ('s, 'q, 'r) poller =
  pp_name :: string
  pp_batch :: bool
  pp_fetch :: "('s, 'q, 'r, int \<times> pydict list) co"
  pp_on_event :: "int \<Rightarrow> pydict \<Rightarrow> ('s, exn, unit) em"
  pp_on_resync :: "('s, 'q, 'r, unit) co"
  pp_on_gap :: "('s, 'q, 'r, unit) co option"
  pp_max_transient :: int
  pp_on_latch :: "(string \<Rightarrow> string \<Rightarrow> ('s, exn, unit) em) option"
  pp_on_resync_start :: "('s, exn, unit) em option"
  pp_on_resync_failed :: "('s, exn, unit) em option"
  pp_sleep :: "rat \<Rightarrow> ('s, 'q, 'r, unit) co"

datatype poll_outcome = Next rat int | Stopped | Cut

definition is_order :: "('s, 'q, 'r) poller \<Rightarrow> bool" where
  "is_order p \<longleftrightarrow> pp_name p = ''order''"

definition call_opt :: "('s, exn, unit) em option \<Rightarrow> ('s, exn, unit) em" where
  "call_opt f = (case f of None \<Rightarrow> returnE () | Some m \<Rightarrow> m)"

definition order_resync_failed :: "('s, 'q, 'r) poller \<Rightarrow> ('s, exn, unit) em" where
  "order_resync_failed p = (if is_order p then call_opt (pp_on_resync_failed p) else returnE ())"

definition call_latch :: "('s, 'q, 'r) poller \<Rightarrow> string \<Rightarrow> string \<Rightarrow> ('s, exn, unit) em" where
  "call_latch p action reason = call_opt (map_option (\<lambda>f. f action reason) (pp_on_latch p))"

definition poll_session_events :: "('s, 'q, 'r) poller \<Rightarrow> ('s, 'q, 'r, int \<times> pydict list) co" where
  "poll_session_events p =
     tryC (pp_fetch p)
       (\<lambda>e. if is_channel_error e \<or> is_terminal_poll_error e \<or> is_reconnectable_poll_error e then raiseC e
            else raiseC (exn_of PollTransientError (exn_msg e)))
       returnC"

definition poll_session_event :: "('s, 'q, 'r) poller \<Rightarrow> ('s, 'q, 'r, pydict option) co" where
  "poll_session_event p = bindC (poll_session_events p) (\<lambda>(_, events).
     returnC (case events of [] \<Rightarrow> None | e # _ \<Rightarrow> Some e))"

definition MAX_DELAY :: rat where "MAX_DELAY = 2"
definition MIN_DELAY :: rat where "MIN_DELAY = 1 / 20"

definition resync :: "('s, 'q, 'r) poller \<Rightarrow> rat \<Rightarrow> int \<Rightarrow> ('s, 'q, 'r, rat \<times> int) co" where
  "resync p backoff streak =
     thenC (syncC (if is_order p then call_opt (pp_on_resync_start p) else returnE ()))
     (bindC (tryC (pp_on_resync p)
               (\<lambda>_. thenC (syncC (order_resync_failed p)) (returnC (min (backoff * 2) MAX_DELAY, streak)))
               (\<lambda>_. returnC (MIN_DELAY, if is_order p then 0 else streak)))
        (\<lambda>(backoff, streak). thenC (pp_sleep p backoff) (returnC (backoff, streak))))"

fun recover_gap :: "('s, 'q, 'r) poller \<Rightarrow> ('s, 'q, 'r, unit) co \<Rightarrow> nat \<Rightarrow> rat \<Rightarrow> ('s, 'q, 'r, bool) co" where
  "recover_gap p on_gap 0 delay = returnC False"
| "recover_gap p on_gap (Suc n) delay =
     tryC on_gap
       (\<lambda>_. thenC (syncC (order_resync_failed p))
            (thenC (pp_sleep p delay) (recover_gap p on_gap n (min (delay * 2) MAX_DELAY))))
       (\<lambda>_. returnC True)"

text \<open>
  One batch: the number of events lost in it, or \<open>None\<close> when a handler failure stops the order stream
  (the rest of the batch is not handled).
\<close>

fun handle_batch :: "('s, 'q, 'r) poller \<Rightarrow> int \<Rightarrow> nat \<Rightarrow> pydict list \<Rightarrow> ('s, exn, nat option) em" where
  "handle_batch p epoch lost [] = returnE (Some lost)"
| "handle_batch p epoch lost (event # events) =
     (if dget event ''type'' = PStr ''gap'' then handle_batch p epoch (Suc lost) events
      else tryE (pp_on_event p epoch event)
        (\<lambda>e. if exn_cls e = UnreadableEventError then handle_batch p epoch (Suc lost) events
             else if is_order p then
               thenE (call_latch p ''order handler failure'' (''order stream stopped; cache/venue state divergent: '' @ exn_msg e))
                     (returnE None)
             else handle_batch p epoch lost events)
        (\<lambda>_. handle_batch p epoch lost events))"

definition after_batch :: "('s, 'q, 'r) poller \<Rightarrow> nat \<Rightarrow> rat \<Rightarrow> int \<Rightarrow> nat option \<Rightarrow> ('s, 'q, 'r, poll_outcome) co" where
  "after_batch p n backoff streak lost =
     (case lost of
        None \<Rightarrow> returnC Stopped
      | Some k \<Rightarrow>
          if k = 0 then returnC (Next backoff streak)
          else case pp_on_gap p of
            Some on_gap \<Rightarrow> bindC (recover_gap p on_gap n MIN_DELAY) (\<lambda>ok. returnC (if ok then Next backoff streak else Cut))
          | None \<Rightarrow> bindC (resync p backoff streak) (\<lambda>(b, t). returnC (Next b t)))"

definition poll_failed :: "('s, 'q, 'r) poller \<Rightarrow> rat \<Rightarrow> int \<Rightarrow> exn \<Rightarrow> ('s, 'q, 'r, poll_outcome) co" where
  "poll_failed p backoff streak e =
     (if exn_cls e = PollTransientError then
        (if is_order p \<and> streak + 1 \<ge> pp_max_transient p then
           thenC (syncC (call_latch p ''order poll stream failure'' (exn_msg e))) (returnC Stopped)
         else thenC (pp_sleep p (1 / 10)) (returnC (Next backoff (if is_order p then streak + 1 else streak))))
      else if is_terminal_poll_error e then thenC (syncC (order_resync_failed p)) (returnC Stopped)
      else if \<not> is_channel_error e then thenC (pp_sleep p backoff) (returnC (Next (min (backoff * 2) MAX_DELAY) streak))
      else bindC (resync p backoff streak) (\<lambda>(b, t). returnC (Next b t)))"

definition poll_iteration :: "('s, 'q, 'r) poller \<Rightarrow> nat \<Rightarrow> rat \<Rightarrow> int \<Rightarrow> ('s, 'q, 'r, poll_outcome) co" where
  "poll_iteration p n backoff streak =
     tryC (poll_session_events p) (poll_failed p backoff streak)
       (\<lambda>(epoch, events).
          if events = [] \<and> \<not> pp_batch p then thenC (pp_sleep p MIN_DELAY) (returnC (Next backoff streak))
          else bindC (syncC (handle_batch p epoch 0 events)) (after_batch p n backoff streak))"

text \<open>The result: whether the loop stopped by itself.\<close>

fun poller_loop :: "('s, 'q, 'r) poller \<Rightarrow> nat \<Rightarrow> nat \<Rightarrow> rat \<Rightarrow> int \<Rightarrow> ('s, 'q, 'r, bool) co" where
  "poller_loop p n 0 backoff streak = returnC False"
| "poller_loop p n (Suc m) backoff streak =
     bindC (poll_iteration p n backoff streak) (\<lambda>outcome. case outcome of
       Next b t \<Rightarrow> poller_loop p n m b t
     | Stopped \<Rightarrow> returnC True
     | Cut \<Rightarrow> returnC False)"

definition poller_run :: "('s, 'q, 'r) poller \<Rightarrow> nat \<Rightarrow> nat \<Rightarrow> ('s, 'q, 'r, bool) co" where
  "poller_run p n m = poller_loop p n m MIN_DELAY 0"

section \<open>Frames\<close>

text \<open>
  What a poller relies on: its callbacks respect a relation between states. Then every segment of its loop
  does.
\<close>

locale poller_frame =
  fixes p :: "('s, 'q, 'r) poller" and R :: "'s \<Rightarrow> 's \<Rightarrow> bool"
  assumes refl: "reflp R" and trans: "transp R"
    and fetch: "segments R (pp_fetch p)" and sleep: "segments R (pp_sleep p d)"
    and event: "keeps R (pp_on_event p ep ev)" and on_resync: "segments R (pp_on_resync p)"
    and on_gap: "pp_on_gap p = Some g \<Longrightarrow> segments R g"
    and on_latch: "pp_on_latch p = Some f \<Longrightarrow> keeps R (f a r)"
    and on_start: "pp_on_resync_start p = Some m \<Longrightarrow> keeps R m"
    and on_failed: "pp_on_resync_failed p = Some m \<Longrightarrow> keeps R m"
begin

lemmas poller_rules = segments_rules keeps_rules trans refl fetch sleep event on_resync

lemma keeps_call_opt: "(\<And>m. f = Some m \<Longrightarrow> keeps R m) \<Longrightarrow> keeps R (call_opt f)"
  unfolding call_opt_def by (cases f) (auto intro: poller_rules)

lemma keeps_failed: "keeps R (order_resync_failed p)"
  unfolding order_resync_failed_def by (intro poller_rules keeps_call_opt on_failed)

lemma keeps_latch: "keeps R (call_latch p a r)"
  unfolding call_latch_def by (rule keeps_call_opt) (auto intro: on_latch)

lemma segments_resync: "segments R (resync p b t)"
  unfolding resync_def
  by (intro poller_rules keeps_call_opt on_start keeps_failed) (auto intro!: poller_rules split: prod.split)

lemma segments_recover_gap: "segments R g \<Longrightarrow> segments R (recover_gap p g n d)"
  by (induction n arbitrary: d) (auto intro!: poller_rules keeps_failed)

lemma keeps_handle_batch: "keeps R (handle_batch p ep lost evs)"
  by (induction evs arbitrary: lost) (auto intro!: poller_rules keeps_latch)

lemma segments_after_resync: "segments R (bindC (resync p b t) (\<lambda>(b, t). returnC (Next b t)))"
  by (intro poller_rules segments_resync) (auto intro!: poller_rules split: prod.split)

lemma segments_after_batch: "segments R (after_batch p n b t lost)"
  unfolding after_batch_def
  by (intro poller_rules segments_after_resync segments_recover_gap on_gap)

lemma segments_poll_failed: "segments R (poll_failed p b t e)"
  unfolding poll_failed_def by (intro poller_rules segments_after_resync keeps_latch keeps_failed)

lemma segments_poll_iteration: "segments R (poll_iteration p n b t)"
  unfolding poll_iteration_def poll_session_events_def
  by (intro poller_rules segments_poll_failed)
     (auto intro!: poller_rules keeps_handle_batch segments_after_batch split: prod.split)

lemma segments_poller_loop: "segments R (poller_loop p n m b t)"
  by (induction m arbitrary: b t)
     (auto intro!: poller_rules segments_poll_iteration split: poll_outcome.split)

lemma segments_poller_run: "segments R (poller_run p n m)"
  unfolding poller_run_def by (rule segments_poller_loop)

end

end
