(* ===== verification/Streams.thy ===== *)
theory Streams
  imports Queries Polling
begin

text \<open>
  The order and PnL streams of the execution client: the two pollers of \<open>_make_poll_task\<close> with the callbacks of
  \<open>_plant_poll_loop\<close>, on the generic poller of \<open>Polling\<close>.
\<close>

section \<open>The pollers\<close>

definition expect_batch :: "sess_value \<Rightarrow> (int \<times> pydict list) res" where
  "expect_batch v = (case v of SvBatch ep evs \<Rightarrow> Inr (ep, evs) | _ \<Rightarrow> Inl (exn_of TypeError ''events expected''))"

definition fetch_stream :: "string \<Rightarrow> ('c, int \<times> pydict list) task" where
  "fetch_stream stream = bindC (awaitC (CNextEvents stream)) (\<lambda>v. syncC (liftE (expect_batch v)))"

definition ORDER_POLL_MAX_TRANSIENT :: int where "ORDER_POLL_MAX_TRANSIENT = 5"

text \<open>\<open>dispatch_current\<close>: a PnL batch fetched before the stream was invalidated is dropped.\<close>

definition dispatch_current_pnl :: "('c, 'x) client_env_scheme \<Rightarrow> int \<Rightarrow> pydict \<Rightarrow> ('c, unit) act" where
  "dispatch_current_pnl env epoch event =
     bindE (getE h_pnl_epoch) (\<lambda>current. if epoch = current then dispatch_pnl_event env event else returnE ())"

definition order_poller :: "('c, 'x) client_env_scheme \<Rightarrow> ('c host, session_call, reply) poller" where
  "order_poller env = \<lparr>pp_name = ''order'', pp_batch = True, pp_fetch = fetch_stream ''order'',
     pp_on_event = (\<lambda>_. dispatch_order_event env), pp_on_resync = resync_order_subscription,
     pp_on_gap = Some (recover_order_gap env), pp_max_transient = ORDER_POLL_MAX_TRANSIENT,
     pp_on_latch = Some (\<lambda>_ _. latch_order_plant), pp_on_resync_start = Some (set_plant policy_resync_start),
     pp_on_resync_failed = Some (set_plant policy_resync_failed), pp_sleep = (\<lambda>_. callC CSleep)\<rparr>"

definition pnl_poller :: "('c, 'x) client_env_scheme \<Rightarrow> ('c host, session_call, reply) poller" where
  "pnl_poller env = \<lparr>pp_name = ''pnl'', pp_batch = True, pp_fetch = fetch_stream ''pnl'',
     pp_on_event = dispatch_current_pnl env, pp_on_resync = resync_pnl_subscription,
     pp_on_gap = None, pp_max_transient = ORDER_POLL_MAX_TRANSIENT,
     pp_on_latch = Some (\<lambda>_ _. latch_order_plant), pp_on_resync_start = None,
     pp_on_resync_failed = None, pp_sleep = (\<lambda>_. callC CSleep)\<rparr>"

section \<open>Frames for events and commands\<close>

text \<open>The handlers of stream events also emit any event, keep their stores, and may latch the plant.\<close>

locale event_frame = query_frame R for R :: "'c host \<Rightarrow> 'c host \<Rightarrow> bool" +
  assumes emitted: "R s (s\<lparr>h_cache := c, h_trace := h_trace s @ [TrEmit e]\<rparr>)"
    and book: "R s (s\<lparr>h_untracked_status_keys := bk\<rparr>)"
    and account_key: "R s (s\<lparr>h_last_account_state_key := ak\<rparr>)"
    and latched: "keeps R (set_plant policy_latch)"
begin

lemma keeps_emit_any: "keeps R (emit env e)"
  by (rule keepsI) (auto simp: emit_def cache emitted split: prod.splits option.splits)

lemma keeps_latch: "keeps R latch_order_plant"
  unfolding latch_order_plant_def by (rule latched)

lemma keeps_last_status: "keeps R (last_status k)"
  by (rule keepsI) (simp add: last_status_def book split: prod.splits)

lemmas event_rules = frame_rules keeps_emit_any keeps_latch keeps_fill_key_seen keeps_mark_fill_key keeps_timestamp_ns
  keeps_mk_id keeps_seed keeps_last_status

lemma keeps_seed_from: "keeps R (seed_from env f)"
  unfolding seed_from_def by (intro event_rules)

lemma keeps_event_time: "keeps R (event_time env f)"
  unfolding event_time_def by (intro event_rules)

lemma keeps_tracked_fill: "keeps R (handle_tracked_fill env order cid void f ts action)"
  unfolding handle_tracked_fill_def tracked_fill_terms_def emit_tracked_fill_def send_tracked_fill_def
  by (intro event_rules keeps_price_for_instrument keeps_commission_for)

lemma keeps_perform_action: "keeps R (perform_action env order cid void f ts action)"
  unfolding perform_action_def Let_def emit_accepted_def emit_triggered_guarded_def
  by (intro event_rules keeps_tracked_fill)

lemma keeps_untracked: "keeps R (handle_untracked_notification env f)"
  unfolding handle_untracked_notification_def publish_untracked_status_def publish_untracked_fill_def
  by (intro event_rules keeps_event_time keeps_seed_from keeps_drain_row keeps_basket_client_id keeps_publish_status
      keeps_fill_report keeps_modifyE book)

lemma keeps_tracked: "keeps R (handle_tracked_notification env f cid order)"
  unfolding handle_tracked_notification_def
  by (intro event_rules keeps_event_time keeps_bind_venue_id keeps_venue_id_for keeps_perform_action)

lemma keeps_dispatch_order: "keeps R (dispatch_order_event env event)"
  unfolding dispatch_order_event_def handle_order_notification_def
  by (intro event_rules keeps_seed_from keeps_resolve keeps_cached_order keeps_untracked keeps_tracked)

text \<open>Any change of the bookkeeping of the PnL stream, field by field.\<close>

lemma pnl_fields:
  assumes "\<And>s. g s = s\<lparr>h_pnl_epoch := h_pnl_epoch (g s), h_pnl_snapshot_observed := h_pnl_snapshot_observed (g s),
     h_pnl_live_since_ns := h_pnl_live_since_ns (g s), h_positions := h_positions (g s),
     h_position_seen_ns := h_position_seen_ns (g s), h_unreadable_position_symbols := h_unreadable_position_symbols (g s)\<rparr>"
  shows "keeps R (modifyE g)"
  by (rule keeps_modifyE, subst assms) (rule pnl_bookkeeping)

lemma keeps_note_pnl: "keeps R (note_pnl_observed env now)"
  unfolding note_pnl_observed_def by (intro event_rules pnl_fields) simp_all

lemma keeps_publish_account: "keeps R (publish_account env event)"
  unfolding publish_account_def Let_def
  by (intro event_rules keeps_note_pnl keeps_modifyE account_key) (simp add: account reflpD [OF refl])

lemma keeps_cache_position: "keeps R (cache_position env event)"
  unfolding cache_position_def Let_def
  by (intro event_rules keeps_note_pnl keeps_exposure_snapshot keeps_publish_exposure pnl_fields) simp_all

lemma keeps_dispatch_pnl: "keeps R (dispatch_current_pnl env epoch event)"
  unfolding dispatch_current_pnl_def dispatch_pnl_event_def
  by (intro event_rules keeps_publish_account keeps_cache_position)

lemma segments_fetch: "segments R (fetch_stream stream)"
  unfolding fetch_stream_def by (intro task_rules) simp

lemma segments_sleep: "segments R (callC CSleep)"
  by (rule segments_callC) simp

lemma pnl_poller_frame: "poller_frame (pnl_poller env) R"
  by unfold_locales
     (auto simp: pnl_poller_def refl trans segments_fetch segments_sleep keeps_dispatch_pnl segments_resync_pnl keeps_latch)

end

text \<open>No order command is issued by an event handler, and none arms the plant.\<close>

interpretation gated: event_frame "gated env" for env
proof unfold_locales
  show "keeps (gated env) (set_plant policy_latch)" by (rule gated_set_plant)
qed (auto simp: gated_def)

interpretation no_arm: event_frame no_arm
proof unfold_locales
  show "keeps no_arm (set_plant policy_latch)" by (rule no_arm_plants(3))
qed (auto intro!: no_arm_same)

interpretation gated_orders: poller_frame "order_poller env" "gated env" for env
  by unfold_locales
     (auto simp: order_poller_def gated.refl gated.trans gated.segments_fetch gated.segments_sleep
       gated.keeps_dispatch_order gated_resync_order gated_recover_gap gated.keeps_latch gated_set_plant)

interpretation gated_pnl: poller_frame "pnl_poller env" "gated env" for env
  by (rule gated.pnl_poller_frame)

interpretation no_arm_pnl: poller_frame "pnl_poller env" no_arm for env
  by (rule no_arm.pnl_poller_frame)

section \<open>Commands never arm\<close>

lemma no_arm_log_any: "segments no_arm (awaitC c)"
  by (auto simp: awaitC_def no_arm_log reflpD [OF no_arm.refl] intro!: segmentsI)

lemma no_arm_answers:
  "keeps no_arm (deny_all env orders r)" "keeps no_arm (reject_all env orders r)" "keeps no_arm (announce env order)"
  "keeps no_arm (modify_rejected env cmd v r)" "keeps no_arm (cancel_rejected env cmd' v r)"
  unfolding deny_all_def reject_all_def announce_def modify_rejected_def cancel_rejected_def
  by (intro no_arm.event_rules)+

lemma no_arm_terms:
  "keeps no_arm (submit_terms env order)" "keeps no_arm (bracket_terms env order)" "keeps no_arm (modify_terms env cmd order)"
  unfolding submit_terms_def bracket_terms_def modify_terms_def
  by (intro no_arm.event_rules no_arm.keeps_route)+

lemma no_arm_issue: "(\<And>r. keeps no_arm (reject r)) \<Longrightarrow> segments no_arm (issue c reject)"
  unfolding issue_def order_command_failed_def mark_order_plant_failed_def Let_def
  by (intro no_arm.task_rules no_arm_log_any no_arm.keeps_latch) simp_all

lemma no_arm_try_terms:
  "keeps no_arm m \<Longrightarrow> (\<And>r. keeps no_arm (deny r)) \<Longrightarrow> (\<And>x. segments no_arm (go x)) \<Longrightarrow> segments no_arm (try_terms m deny go)"
  unfolding try_terms_def by (intro no_arm.task_rules) simp_all

lemmas no_arm_command = no_arm.task_rules no_arm_answers no_arm_terms no_arm_issue no_arm_try_terms segments_prod
  no_arm.keeps_timestamp_ns no_arm.keeps_cached_order

lemma no_arm_submit: "segments no_arm (submit_order env order)"
  unfolding submit_order_def by (intro no_arm_command)

lemma no_arm_submit_list: "segments no_arm (submit_order_list env orders)"
  unfolding submit_order_list_def submit_bracket_def by (intro no_arm_command no_arm_submit)

lemma no_arm_modify: "segments no_arm (modify_order env cmd)"
  unfolding modify_order_def by (intro no_arm_command)

lemma no_arm_cancel: "segments no_arm (cancel_order env cmd)"
  unfolding cancel_order_def by (intro no_arm_command)

lemma no_arm_cancel_all: "segments no_arm (cancel_all_orders env cmd)"
  unfolding cancel_all_orders_def by (intro no_arm_command no_arm_cancel)

lemma no_arm_batch_cancel: "segments no_arm (batch_cancel_orders env cmds)"
  unfolding batch_cancel_orders_def by (intro no_arm_command no_arm_cancel)

section \<open>A stream that stops\<close>

lemma call_latch_order: "call_latch (order_poller env) a r s = (Inr (), s\<lparr>h_plant := policy_latch (h_plant s)\<rparr>)"
  by (simp add: call_latch_def call_opt_def order_poller_def latch_order_plant_def set_plant_def modifyE_def)

lemma order_resync_failed_order:
  "order_resync_failed (order_poller env) s = (Inr (), s\<lparr>h_plant := policy_resync_failed (h_plant s)\<rparr>)"
  by (simp add: order_resync_failed_def is_order_def call_opt_def order_poller_def set_plant_def modifyE_def)

lemma unarmed_after:
  "\<not> armed (s\<lparr>h_plant := policy_latch p\<rparr>)" "\<not> armed (s\<lparr>h_plant := policy_resync_failed p\<rparr>)"
  by (auto simp: armed_def plant_of_def policy_defs plant_defs)

lemma handle_batch_stopped:
  "handle_batch (order_poller env) ep k evs s = (Inr None, s') \<Longrightarrow> \<not> armed s'"
  by (induction evs arbitrary: k s)
     (auto simp: em_simps call_latch_order unarmed_after split: if_splits prod.splits sum.splits)

definition stop_unarmed :: "poll_outcome \<Rightarrow> 'c host \<Rightarrow> bool" where
  "stop_unarmed out s \<longleftrightarrow> (out = Stopped \<longrightarrow> \<not> armed s)"

lemma yields_not_stopped: "(\<And>x. f x \<noteq> Stopped) \<Longrightarrow> yields P (bindC m (\<lambda>x. returnC (f x))) (\<lambda>_ out s. stop_unarmed out s)"
  by (rule yields_bind [OF yields_any], rule yields_return) (simp add: stop_unarmed_def)

lemma yields_resynced: "yields P (bindC (resync p b t) (\<lambda>(b, t). returnC (Next b t))) (\<lambda>_ out s. stop_unarmed out s)"
  by (rule yields_bind [OF yields_any], rule yields_prod, rule yields_return) (simp add: stop_unarmed_def)

lemma yields_stopped:
  "(\<And>s x s'. m s = (Inr x, s') \<Longrightarrow> \<not> armed s')
    \<Longrightarrow> yields P (bindC (syncC m) (\<lambda>_. returnC Stopped)) (\<lambda>_ out s. stop_unarmed out s)"
  by (rule yields_bind [where Q = "\<lambda>_ _ s. \<not> armed s"], rule yields_sync) (auto intro: yields_return simp: stop_unarmed_def)

lemma yields_poll_failed: "yields P (poll_failed (order_poller env) b t e) (\<lambda>_ out s. stop_unarmed out s)"
  unfolding poll_failed_def thenC_def
  by (intro yields_if yields_resynced yields_stopped)
     (auto simp: call_latch_order order_resync_failed_order unarmed_after intro!: yields_not_stopped)

lemma order_poller_gap: "pp_on_gap (order_poller env) = Some (recover_order_gap env)"
  by (simp add: order_poller_def)

lemma yields_after_batch:
  "yields (\<lambda>_ s. lost = None \<longrightarrow> \<not> armed s) (after_batch (order_poller env) n b t lost) (\<lambda>_ out s. stop_unarmed out s)"
  by (cases lost) (auto simp: after_batch_def order_poller_gap intro!: yields_not_stopped,
      auto simp: stop_unarmed_def intro!: yields_return split: if_splits)

lemma yields_iteration: "yields P (poll_iteration (order_poller env) n b t) (\<lambda>_ out s. stop_unarmed out s)"
  unfolding poll_iteration_def
proof (rule yields_try [OF yields_any yields_poll_failed], rule yields_prod, rule yields_if)
  show "yields P (thenC m (returnC (Next b t))) (\<lambda>_ out s. stop_unarmed out s)" for P :: "('a host, session_call, reply) history \<Rightarrow> 'a host \<Rightarrow> bool" and m :: "('a, unit) task"
    unfolding thenC_def by (rule yields_not_stopped) simp
  show "yields P (bindC (syncC (handle_batch (order_poller env) ep 0 evs)) (after_batch (order_poller env) n b t))
      (\<lambda>_ out s. stop_unarmed out s)" for P :: "('a host, session_call, reply) history \<Rightarrow> 'a host \<Rightarrow> bool" and ep evs
    by (rule yields_bind [OF yields_sync yields_after_batch]) (auto dest: handle_batch_stopped)
qed

lemma yields_loop: "yields P (poller_loop (order_poller env) n m b t) (\<lambda>_ stopped s. stopped \<longrightarrow> \<not> armed s)"
proof (induction m arbitrary: b t P)
  case (Suc m)
  show ?case
    by (simp, rule yields_bind [OF yields_iteration])
       (auto split: poll_outcome.split intro!: yields_return intro: yields_conseq [OF Suc] simp: stop_unarmed_def)
qed (auto intro: yields_return)

text \<open>
  The order stream never stops on an armed plant. Whenever the order poller ends its loop (a terminal
  poll error, too many transient errors in a row, a handler failure), after any number of rounds and
  whatever other tasks did meanwhile, the plant is not armed in the state it ends in: no order can be
  submitted, modified or cancelled while nobody reads the order stream.
\<close>

theorem stopped_order_stream_is_unarmed:
  assumes "co_run (poller_run (order_poller env) n m) s h (CoDone (Inr True)) s0 s1"
  shows "\<not> armed s1"
  using yields_run [OF yields_loop assms [unfolded poller_run_def], of "\<lambda>_ _. True"] by simp

section \<open>Transient failures\<close>

definition transient_error :: "exn \<Rightarrow> bool" where
  "transient_error e \<longleftrightarrow> \<not> is_channel_error e \<and> \<not> is_terminal_poll_error e \<and> \<not> is_reconnectable_poll_error e"

text \<open>A reply of a stretch of transient failures: a fetch that failed, or a sleep that ended.\<close>

definition transient_reply :: "session_call \<times> reply \<times> 'c host \<Rightarrow> bool" where
  "transient_reply x = (case x of (c, r, _) \<Rightarrow>
     c = CNextEvents ''order'' \<and> (case r of Inl e \<Rightarrow> transient_error e | Inr _ \<Rightarrow> False)
   \<or> c = CSleep \<and> (case r of Inl _ \<Rightarrow> False | Inr _ \<Rightarrow> True))"

definition after_iteration :: "('s, 'q, 'r) poller \<Rightarrow> nat \<Rightarrow> nat \<Rightarrow> poll_outcome \<Rightarrow> ('s, 'q, 'r, bool) co" where
  "after_iteration p n m outcome = (case outcome of
     Next b t \<Rightarrow> poller_loop p n m b t | Stopped \<Rightarrow> returnC True | Cut \<Rightarrow> returnC False)"

lemma loop_fetches:
  obtains k where "poller_loop (order_poller env) n (Suc m) b t s = (CoAwait (CNextEvents ''order'') k, log_call (CNextEvents ''order'') s)"
    "\<And>e. transient_error e \<Longrightarrow> k (Inl e) =
       bindC (poll_failed (order_poller env) b t (exn_of PollTransientError (exn_msg e))) (after_iteration (order_poller env) n m)"
    "\<And>ep evs s2 s3. handle_batch (order_poller env) ep 0 evs s2 = (Inr (Some 0), s3) \<Longrightarrow>
       k (Inr (SvBatch ep evs)) s2 = poller_loop (order_poller env) n m b t s3"
proof -
  let ?p = "order_poller env"
  define kf where "kf = (\<lambda>r. bindC (\<lambda>s. (CoDone r, s)) (\<lambda>v. syncC (liftE (expect_batch v))) :: ('a, int \<times> pydict list) task)"
  have f: "pp_fetch ?p s = (CoAwait (CNextEvents ''order'') kf, log_call (CNextEvents ''order'') s)"
    unfolding kf_def by (simp add: order_poller_def fetch_stream_def, rule bindC_await) (simp add: awaitC_def)
  have e: "kf (Inl e) s2 = (CoDone (Inl e), s2)" for e s2 unfolding kf_def by (simp add: bindC_def tryC_def raiseC_def)
  let ?k = "\<lambda>r. bindC (tryC (tryC (kf r)
       (\<lambda>e. if is_channel_error e \<or> is_terminal_poll_error e \<or> is_reconnectable_poll_error e then raiseC e
            else raiseC (exn_of PollTransientError (exn_msg e))) returnC) (poll_failed ?p b t)
       (\<lambda>(epoch, events). if events = [] \<and> \<not> pp_batch ?p then thenC (pp_sleep ?p MIN_DELAY) (returnC (Next b t))
          else bindC (syncC (handle_batch ?p epoch 0 events)) (after_batch ?p n b t))) (after_iteration ?p n m)"
  have "poller_loop ?p n (Suc m) b t s = (CoAwait (CNextEvents ''order'') ?k, log_call (CNextEvents ''order'') s)"
    unfolding poller_loop.simps poll_iteration_def poll_session_events_def after_iteration_def [symmetric]
    by (intro bindC_await tryC_await f)
  moreover have "?k (Inl e) = bindC (poll_failed ?p b t (exn_of PollTransientError (exn_msg e))) (after_iteration ?p n m)"
    if "transient_error e" for e
    using that by (auto simp: fun_eq_iff transient_error_def raiseC_def bindC_def tryC_def e)
  moreover have "?k (Inr (SvBatch ep evs)) s2 = poller_loop ?p n m b t s3"
    if "handle_batch ?p ep 0 evs s2 = (Inr (Some 0), s3)" for ep evs s2 s3
  proof -
    have "kf (Inr (SvBatch ep evs)) s2 = (CoDone (Inr (ep, evs)), s2)"
      unfolding kf_def by (simp add: bindC_def tryC_def expect_batch_def syncC_def em_simps)
    moreover have "pp_batch ?p" by (simp add: order_poller_def)
    ultimately show ?thesis using that
      by (simp add: bindC_def tryC_def syncC_def returnC_def after_batch_def after_iteration_def)
  qed
  ultimately show thesis using that by blast
qed

lemma loop_gives_up:
  "t + 1 \<ge> ORDER_POLL_MAX_TRANSIENT \<Longrightarrow>
   bindC (poll_failed (order_poller env) b t (exn_of PollTransientError msg)) (after_iteration (order_poller env) n m) s
     = (CoDone (Inr True), s\<lparr>h_plant := policy_latch (h_plant s)\<rparr>)"
  by (simp add: poll_failed_def is_order_def order_poller_def em_simps call_latch_def call_opt_def
      latch_order_plant_def set_plant_def after_iteration_def)

lemma loop_retries:
  assumes "t + 1 < ORDER_POLL_MAX_TRANSIENT"
  obtains k where "bindC (poll_failed (order_poller env) b t (exn_of PollTransientError msg))
      (after_iteration (order_poller env) n m) s = (CoAwait CSleep k, log_call CSleep s)"
    "\<And>v. k (Inr v) = poller_loop (order_poller env) n m b (t + 1)"
proof -
  let ?p = "order_poller env"
  let ?k = "\<lambda>r. bindC (bindC (bindC (\<lambda>s. (CoDone r, s)) (\<lambda>_. returnC ())) (\<lambda>_. returnC (Next b (t + 1)))) (after_iteration ?p n m)"
  have "poll_failed ?p b t (exn_of PollTransientError msg) = bindC (callC CSleep) (\<lambda>_. returnC (Next b (t + 1)))"
    using assms by (simp add: poll_failed_def is_order_def order_poller_def thenC_def)
  then have "bindC (poll_failed ?p b t (exn_of PollTransientError msg)) (after_iteration ?p n m) s = (CoAwait CSleep ?k, log_call CSleep s)"
    by (simp only: callC_def) (intro bindC_await, simp add: awaitC_def)
  moreover have "?k (Inr v) = poller_loop ?p n m b (t + 1)" for v
    by (simp add: fun_eq_iff bindC_def tryC_def returnC_def after_iteration_def)
  ultimately show thesis using that by blast
qed

lemma transient_stretch:
  assumes "co_run (poller_loop (order_poller env) n m b t) s h st s0 s1" "list_all transient_reply h"
    "int j = ORDER_POLL_MAX_TRANSIENT - t" "0 < j" "j \<le> m"
  shows "length h < 2 * j \<and> (if Suc (length h) = 2 * j then st = CoDone (Inr True) \<and> plant_of s1 = Latched
     else awaiting st \<noteq> None)"
  using assms
proof (induction j arbitrary: m t s h st s0 s1)
  case (Suc j)
  then obtain m' where m: "m = Suc m'" by (cases m) auto
  obtain k where k: "poller_loop (order_poller env) n (Suc m') b t s = (CoAwait (CNextEvents ''order'') k, log_call (CNextEvents ''order'') s)"
    "\<And>e. transient_error e \<Longrightarrow> k (Inl e) =
       bindC (poll_failed (order_poller env) b t (exn_of PollTransientError (exn_msg e))) (after_iteration (order_poller env) n m')"
    by (rule loop_fetches [of env n m' b t s]) blast
  show ?case
  proof (cases h)
    case Nil
    with co_run_Nil Suc.prems(1) k(1) m have "st = CoAwait (CNextEvents ''order'') k" by fastforce
    with Nil show ?thesis by (simp add: awaiting_def)
  next
    case (Cons x h1)
    with co_run_Cons [OF Suc.prems(1)] k(1) obtain r s2 where x: "x = (CNextEvents ''order'', r, s2)" "co_run (k r) s2 h1 st s0 s1"
      unfolding m by (cases x) fastforce
    then obtain e where r: "r = Inl e" "transient_error e"
      using Suc.prems(2) Cons by (auto simp: transient_reply_def split: sum.splits)
    let ?next = "bindC (poll_failed (order_poller env) b t (exn_of PollTransientError (exn_msg e)))
       (after_iteration (order_poller env) n m')"
    have run: "co_run ?next s2 h1 st s0 s1" using x(2) k(2) r by simp
    show ?thesis
    proof (cases "j = 0")
      case True
      with Suc.prems(3) have "t + 1 \<ge> ORDER_POLL_MAX_TRANSIENT" by simp
      from loop_gives_up [OF this] have n: "?next s2 = (CoDone (Inr True), s2\<lparr>h_plant := policy_latch (h_plant s2)\<rparr>)" .
      have "h1 = []" using co_run_Cons [OF run] n by (cases h1) auto
      with co_run_Nil run n have "st = CoDone (Inr True)" "s1 = s2\<lparr>h_plant := policy_latch (h_plant s2)\<rparr>" by fastforce+
      with \<open>h1 = []\<close> True Cons show ?thesis by (simp add: plant_of_def policy_defs plant_defs)
    next
      case False
      with Suc.prems(3) have t: "t + 1 < ORDER_POLL_MAX_TRANSIENT" by simp
      obtain k' where k': "?next s2 = (CoAwait CSleep k', log_call CSleep s2)"
        "\<And>v. k' (Inr v) = poller_loop (order_poller env) n m' b (t + 1)" using loop_retries [OF t, of env b "exn_msg e" n m' s2] by metis
      show ?thesis
      proof (cases h1)
        case Nil
        with co_run_Nil run k'(1) have "st = CoAwait CSleep k'" by fastforce
        with Nil Cons False show ?thesis by (simp add: awaiting_def)
      next
        case (Cons y h2)
        with co_run_Cons [OF run] k'(1) obtain r' s4 where y: "y = (CSleep, r', s4)" "co_run (k' r') s4 h2 st s0 s1"
          by (cases y) fastforce
        then obtain v where "r' = Inr v"
          using Suc.prems(2) \<open>h = x # h1\<close> Cons by (auto simp: transient_reply_def split: sum.splits)
        with y(2) k'(2) have "co_run (poller_loop (order_poller env) n m' b (t + 1)) s4 h2 st s0 s1" by simp
        from Suc.IH [OF this] Suc.prems(2,3,5) False \<open>h = x # h1\<close> Cons m show ?thesis by simp
      qed
    qed
  qed
qed simp

text \<open>
  C29: A failing order stream ends. When every fetch of the order poller fails with a transient error (one
  that is neither a channel error nor terminal nor a connection loss) and every sleep ends, then the loop
  is over after at most five fetches and four sleeps, and it leaves the plant latched: it neither polls
  for ever nor gives up early (within any bound of at least five rounds, whatever happens in between).
\<close>

theorem transient_failures_end_the_stream:
  assumes "co_run (poller_run (order_poller env) n m) s h st s0 s1" "list_all transient_reply h" "5 \<le> m"
  shows "length h \<le> 9 \<and> (if length h = 9 then st = CoDone (Inr True) \<and> plant_of s1 = Latched else awaiting st \<noteq> None)"
  using transient_stretch [OF assms(1) [unfolded poller_run_def] assms(2), of 5] assms(3)
  by (simp add: ORDER_POLL_MAX_TRANSIENT_def split: if_splits)

definition demo_failures :: "reply list" where
  "demo_failures = (let e = Inl (exn_of RuntimeError ''busy'') in [e, Inr SvUnit, e, Inr SvUnit, e, Inr SvUnit, e, Inr SvUnit, e])"

theorem transient_failures_end_the_stream_witness:
  "(case replay [] demo_live (poller_run (order_poller demo_client) 1 7 demo_live) demo_failures of
     (h, s0, st, s1) \<Rightarrow> result st = Some (Inr True) \<and> plant_of s1 = Latched \<and> list_all transient_reply h)"
proof -
  let ?run = "replay [] demo_live (poller_run (order_poller demo_client) 1 7 demo_live) demo_failures"
  obtain h s0 st s1 where r: "?run = (h, s0, st, s1)"
    and c: "co_run (poller_run (order_poller demo_client) 1 7) demo_live h st s0 s1" by (rule replay_run)
  have f: "case ?run of (h, s0, st, s1) \<Rightarrow> list_all transient_reply h \<and> length h = 9" by code_simp
  then have l: "list_all transient_reply h" "length h = 9" unfolding r prod.case by blast+
  from transient_failures_end_the_stream [OF c l(1)] l show ?thesis unfolding r prod.case by (simp add: result_def)
qed

text \<open>A poll that works: it brings a batch, possibly empty, whose events are all handled and none is lost.\<close>

definition clean_poll :: "('c, 'x) client_env_scheme \<Rightarrow> session_call \<times> reply \<times> 'c host \<Rightarrow> bool" where
  "clean_poll env x = (case x of (c, r, s) \<Rightarrow> c = CNextEvents ''order'' \<and>
     (case r of Inr (SvBatch ep evs) \<Rightarrow> fst (handle_batch (order_poller env) ep 0 evs s) = Inr (Some 0) | _ \<Rightarrow> False))"

definition failed_fetch :: "session_call \<times> reply \<times> 'c host \<Rightarrow> bool" where
  "failed_fetch x \<longleftrightarrow> fst x = CNextEvents ''order'' \<and> isl (fst (snd x))"

lemma co_run_from:
  assumes "co_run m s h st s0 s1" "m s = m' s'"
  shows "\<exists>s0'. co_run m' s' h st s0' s1"
  using assms(1)
proof induction
  case (start st s1)
  then show ?case using co_run.start [of m' s'] assms(2) by metis
next
  case (resume h q k s0 s1 r s2 st s3)
  then show ?case using co_run.resume by metis
qed

lemma isolated_stretch:
  assumes "co_run (poller_loop (order_poller env) n m b t) s h st s0 s1" "list_all (\<lambda>x. transient_reply x \<or> clean_poll env x) h"
    "length h < m" "int j = ORDER_POLL_MAX_TRANSIENT - t" "0 < j"
  shows "length (filter failed_fetch h) \<le> j \<and> (if length (filter failed_fetch h) = j then st = CoDone (Inr True) \<and> plant_of s1 = Latched
     else awaiting st \<noteq> None)"
  using assms
proof (induction m arbitrary: t s h st s0 s1 j)
  case (Suc m)
  let ?p = "order_poller env"
  obtain k where k: "poller_loop ?p n (Suc m) b t s = (CoAwait (CNextEvents ''order'') k, log_call (CNextEvents ''order'') s)"
    "\<And>e. transient_error e \<Longrightarrow> k (Inl e) = bindC (poll_failed ?p b t (exn_of PollTransientError (exn_msg e))) (after_iteration ?p n m)"
    "\<And>ep evs s2 s3. handle_batch ?p ep 0 evs s2 = (Inr (Some 0), s3) \<Longrightarrow> k (Inr (SvBatch ep evs)) s2 = poller_loop ?p n m b t s3"
    by (rule loop_fetches [of env n m b t s]) blast
  show ?case
  proof (cases h)
    case Nil
    with co_run_Nil Suc.prems(1) k(1) have "st = CoAwait (CNextEvents ''order'') k" by fastforce
    with Nil Suc.prems(5) show ?thesis by (simp add: awaiting_def)
  next
    case (Cons x h1)
    with co_run_Cons [OF Suc.prems(1)] k(1) obtain r s2 where x: "x = (CNextEvents ''order'', r, s2)" "co_run (k r) s2 h1 st s0 s1"
      by (cases x) fastforce
    have rest: "list_all (\<lambda>x. transient_reply x \<or> clean_poll env x) h1" "length h1 < m" using Suc.prems(2,3) Cons by simp_all
    consider (failed) e where "r = Inl e" "transient_error e"
      | (clean) ep evs s3 where "r = Inr (SvBatch ep evs)" "handle_batch ?p ep 0 evs s2 = (Inr (Some 0), s3)"
      using Suc.prems(2) Cons x(1)
      by (auto simp: transient_reply_def clean_poll_def prod_eq_iff split: sum.splits sess_value.splits)
    then show ?thesis
    proof cases
      case clean
      then have "k r s2 = poller_loop ?p n m b t s3" using k(3) by simp
      from co_run_from [where m' = "poller_loop ?p n m b t" and s' = s3, OF x(2) this]
      obtain s0' where "co_run (poller_loop ?p n m b t) s3 h1 st s0' s1" by blast
      from Suc.IH [OF this rest Suc.prems(4,5)] show ?thesis using Cons x(1) clean by (simp add: failed_fetch_def)
    next
      case failed
      let ?next = "bindC (poll_failed ?p b t (exn_of PollTransientError (exn_msg e))) (after_iteration ?p n m)"
      have run: "co_run ?next s2 h1 st s0 s1" using x(2) k(2) failed by simp
      have fx: "failed_fetch x" by (simp add: x(1) failed failed_fetch_def)
      show ?thesis
      proof (cases "j = 1")
        case True
        with Suc.prems(4) have "t + 1 \<ge> ORDER_POLL_MAX_TRANSIENT" by simp
        from loop_gives_up [OF this] have n: "?next s2 = (CoDone (Inr True), s2\<lparr>h_plant := policy_latch (h_plant s2)\<rparr>)" .
        have "h1 = []" using co_run_Cons [OF run] n by (cases h1) auto
        with co_run_Nil run n have "st = CoDone (Inr True)" "s1 = s2\<lparr>h_plant := policy_latch (h_plant s2)\<rparr>" by fastforce+
        with \<open>h1 = []\<close> True Cons fx show ?thesis by (simp add: plant_of_def policy_defs plant_defs)
      next
        case False
        with Suc.prems(4,5) have t: "t + 1 < ORDER_POLL_MAX_TRANSIENT" and j: "int (j - 1) = ORDER_POLL_MAX_TRANSIENT - (t + 1)" "0 < j - 1" by simp_all
        obtain k' where k': "?next s2 = (CoAwait CSleep k', log_call CSleep s2)" "\<And>v. k' (Inr v) = poller_loop ?p n m b (t + 1)"
          using loop_retries [OF t, of env b "exn_msg e" n m s2] by metis
        show ?thesis
        proof (cases h1)
          case Nil
          with co_run_Nil run k'(1) have "st = CoAwait CSleep k'" by fastforce
          with Nil \<open>h = x # h1\<close> fx j(2) show ?thesis by (simp add: awaiting_def)
        next
          case (Cons y h2)
          with co_run_Cons [OF run] k'(1) obtain r' s4 where y: "y = (CSleep, r', s4)" "co_run (k' r') s4 h2 st s0 s1"
            by (cases y) fastforce
          then obtain v where "r' = Inr v" using rest(1) Cons by (auto simp: transient_reply_def clean_poll_def split: sum.splits)
          with y(2) k'(2) have "co_run (poller_loop ?p n m b (t + 1)) s4 h2 st s0 s1" by simp
          from Suc.IH [OF this _ _ j] rest Cons have "length (filter failed_fetch h2) \<le> j - 1 \<and>
            (if length (filter failed_fetch h2) = j - 1 then st = CoDone (Inr True) \<and> plant_of s1 = Latched else awaiting st \<noteq> None)" by simp
          moreover have "length (filter failed_fetch h) = Suc (length (filter failed_fetch h2))"
            using \<open>h = x # h1\<close> Cons fx y(1) by (simp add: failed_fetch_def)
          ultimately show ?thesis using Suc.prems(5) by auto
        qed
      qed
    qed
  qed
qed simp

text \<open>
  C35: The count of transient failures is never reset by a poll that works. Take any run of the order poller in
  which every fetch either fails with a transient error or brings a batch that is handled without loss, and
  every sleep ends; however many working polls lie between the failures. The loop goes on after up to four
  failures in the whole run, and with the fifth it ends and leaves the plant latched, just as after five in a row.
\<close>

theorem isolated_failures_stop_the_stream:
  assumes "co_run (poller_run (order_poller env) n m) s h st s0 s1" "list_all (\<lambda>x. transient_reply x \<or> clean_poll env x) h" "length h < m"
  shows "length (filter failed_fetch h) \<le> 5 \<and>
    (if length (filter failed_fetch h) = 5 then st = CoDone (Inr True) \<and> plant_of s1 = Latched else awaiting st \<noteq> None)"
  using isolated_stretch [OF assms(1) [unfolded poller_run_def] assms(2,3), of 5] by (simp add: ORDER_POLL_MAX_TRANSIENT_def)

definition demo_isolated_failures :: "reply list" where
  "demo_isolated_failures = (let e = Inl (exn_of RuntimeError ''busy''); ok = Inr (SvBatch 0 []) in
     [ok, e, Inr SvUnit, ok, ok, e, Inr SvUnit, ok, e, Inr SvUnit, ok, ok, ok, e, Inr SvUnit, ok, e])"

theorem isolated_failures_stop_the_stream_witness:
  "(case replay [] demo_live (poller_run (order_poller demo_client) 1 20 demo_live) demo_isolated_failures of
     (h, s0, st, s1) \<Rightarrow> result st = Some (Inr True) \<and> plant_of s1 = Latched \<and> length (filter (clean_poll demo_client) h) = 8)"
proof -
  let ?run = "replay [] demo_live (poller_run (order_poller demo_client) 1 20 demo_live) demo_isolated_failures"
  obtain h s0 st s1 where r: "?run = (h, s0, st, s1)"
    and c: "co_run (poller_run (order_poller demo_client) 1 20) demo_live h st s0 s1" by (rule replay_run)
  have "case ?run of (h, s0, st, s1) \<Rightarrow> list_all (\<lambda>x. transient_reply x \<or> clean_poll demo_client x) h \<and> length h = 17
      \<and> length (filter failed_fetch h) = 5 \<and> length (filter (clean_poll demo_client) h) = 8" by code_simp
  then have l: "list_all (\<lambda>x. transient_reply x \<or> clean_poll demo_client x) h" "length h = 17" "length (filter failed_fetch h) = 5"
    "length (filter (clean_poll demo_client) h) = 8" unfolding r prod.case by blast+
  from isolated_failures_stop_the_stream [OF c l(1)] l show ?thesis unfolding r prod.case by (simp add: result_def)
qed

section \<open>Stale PnL batches\<close>

lemma stale_pnl_event: "ep \<noteq> h_pnl_epoch s \<Longrightarrow> pp_on_event (pnl_poller env) ep ev s = (Inr (), s)"
  by (simp add: pnl_poller_def dispatch_current_pnl_def em_simps)

lemma stale_batch: "ep \<noteq> h_pnl_epoch s \<Longrightarrow> \<exists>k. handle_batch (pnl_poller env) ep lost evs s = (Inr (Some k), s)"
  by (induction evs arbitrary: lost) (auto simp: em_simps stale_pnl_event)

text \<open>
  A PnL batch that was fetched before its stream was invalidated is dropped whole. Take the epoch a
  fetching thread notes in some state, then let the PnL evidence be discarded (on connect, restore or gap
  recovery); in that state, and in any later one (the epoch never decreases), handling the batch changes
  nothing: no position is cached, no account is published, and the observation that the re-arm barrier
  waits for is not set.
\<close>

theorem stale_pnl_batch_changes_nothing:
  assumes "s1 = snd (forget_pnl_state s) \<or> s1 = snd (clear_pnl_observation s)" "h_pnl_epoch s1 \<le> h_pnl_epoch s2"
  shows "snd (handle_batch (pnl_poller env) (h_pnl_epoch s) 0 evs s2) = s2"
proof -
  from assms have "h_pnl_epoch s \<noteq> h_pnl_epoch s2"
    by (auto simp: forget_pnl_state_def clear_pnl_observation_def em_simps)
  from stale_batch [OF this] show ?thesis by (metis snd_conv)
qed

end
