(* ===== verification/Tasks.thy ===== *)
theory Tasks
  imports Coro
begin

text \<open>
  An event loop with any number of tasks: the state, and the steps of the tasks that are under way. A step
  of the loop starts a task for an entry point, resumes one that is suspended with any reply, cancels one, or
  changes what the tasks do not own. \<open>task_relation\<close> lifts a relation that every uninterrupted segment keeps
  to all reachable states.
\<close>

type_synonym ('s, 'q, 'r) tasks = "'s \<times> ('s, 'q, 'r, unit) co_step list"

inductive task_step :: "('e \<Rightarrow> ('s, 'q, 'r, unit) co) \<Rightarrow> ('s \<Rightarrow> 's \<Rightarrow> bool) \<Rightarrow> ('s, 'q, 'r) tasks \<Rightarrow> ('s, 'q, 'r) tasks \<Rightarrow> bool"
  for task outside where
  begin_task: "task e s = (st, s') \<Longrightarrow> task_step task outside (s, ts) (s', ts @ [st])"
| resume_task: "i < length ts \<Longrightarrow> ts ! i = CoAwait q k \<Longrightarrow> k r s = (st, s') \<Longrightarrow> task_step task outside (s, ts) (s', ts[i := st])"
| cancel_task: "task_step task outside (s, ts1 @ st # ts2) (s, ts1 @ ts2)"
| outside_step: "outside s s' \<Longrightarrow> task_step task outside (s, ts) (s', ts)"

abbreviation task_reach where
  "task_reach task outside \<equiv> (task_step task outside)\<^sup>*\<^sup>*"

locale task_relation =
  fixes task :: "'e \<Rightarrow> ('s, 'q, 'r, unit) co" and outside :: "'s \<Rightarrow> 's \<Rightarrow> bool" and R :: "'s \<Rightarrow> 's \<Rightarrow> bool"
  assumes R_refl: "reflp R" and R_trans: "transp R" and task_segments: "segments R (task e)"
    and outside_R: "outside s s' \<Longrightarrow> R s s'"
begin

definition tasks_inv :: "'s \<Rightarrow> ('s, 'q, 'r) tasks \<Rightarrow> bool" where
  "tasks_inv s0 = (\<lambda>(s, ts). R s0 s \<and> list_all (step_segments R) ts)"

lemma tasks_inv_step:
  assumes "task_step task outside c c'" "tasks_inv s0 c"
  shows "tasks_inv s0 c'"
  using assms
proof cases
  case (begin_task e s st s' ts)
  have "R s s' \<and> step_segments R st" using task_segments begin_task(3) by (rule segmentsD)
  with assms(2) begin_task show ?thesis by (auto simp: tasks_inv_def intro: transpD [OF R_trans])
next
  case (resume_task i ts q k r s st s')
  have "step_segments R (CoAwait q k)"
    using assms(2) resume_task by (auto simp: tasks_inv_def list_all_length dest: spec [of _ i])
  then have "R s s' \<and> step_segments R st"
    using resume_task(5) unfolding step_segments_Await by (blast dest: segmentsD)
  with assms(2) resume_task show ?thesis
    by (auto simp: tasks_inv_def list_all_iff intro: transpD [OF R_trans] dest!: set_update_subset_insert [THEN subsetD])
next
  case (outside_step s s' ts)
  with assms(2) show ?thesis by (auto simp: tasks_inv_def intro: transpD [OF R_trans] outside_R)
qed (use assms(2) in \<open>auto simp: tasks_inv_def\<close>)

lemma reach_R:
  assumes "task_reach task outside (s0, []) (s, ts)"
  shows "R s0 s"
proof -
  from assms have "tasks_inv s0 (s, ts)"
  proof (induction rule: rtranclp_induct)
    case base
    show ?case by (simp add: tasks_inv_def reflpD [OF R_refl])
  next
    case (step c c')
    then show ?case by (blast intro: tasks_inv_step)
  qed
  then show ?thesis by (simp add: tasks_inv_def)
qed

end

end
