(* ===== verification/Client.thy ===== *)
theory Client
  imports Streams Tasks
begin

text \<open>
  The execution client as a whole: its entry points as tasks of one event loop, and the runs of any number
  of them. A step of the system starts a task, resumes one that is suspended with any reply, cancels one,
  or changes what the client does not own (the platform's cache, the session's gate, the clock, a poll task
  that ends, a latch from the transport thread).
\<close>

section \<open>Entry points\<close>

datatype entry =
    ESubmit nt_order | ESubmitList "nt_order list" | EModify modify_command | ECancel cancel_command
  | ECancelAll cancel_all_command | EBatchCancel "cancel_command list"
  | EConnect nat nat bool | EDisconnect bool | ERestore
  | EOrderPoll nat nat | EPnlPoll nat nat | EResyncOrders | EResyncPnl | ERecoverGap
  | EOrderEvent pydict | EPnlEvent int pydict
  | EOrderStatus "string option" "string option" | EOrderReports "string option" time_arg time_arg bool
  | EFillReports "string option" "string option" time_arg time_arg | EPositionReports "string option"
  | EMassStatus "int option" | EExposure string

definition voidC :: "('c, 'a) task \<Rightarrow> ('c, unit) task" where
  "voidC m = bindC m (\<lambda>_. returnC ())"

fun entry_task :: "('c, 'x) client_env_scheme \<Rightarrow> entry \<Rightarrow> ('c, unit) task" where
  "entry_task env (ESubmit order) = submit_order env order"
| "entry_task env (ESubmitList orders) = submit_order_list env orders"
| "entry_task env (EModify cmd) = modify_order env cmd"
| "entry_task env (ECancel cmd) = cancel_order env cmd"
| "entry_task env (ECancelAll cmd) = cancel_all_orders env cmd"
| "entry_task env (EBatchCancel cmds) = batch_cancel_orders env cmds"
| "entry_task env (EConnect n1 n2 r) = connect env n1 n2 r"
| "entry_task env (EDisconnect r) = disconnect r"
| "entry_task env ERestore = restore_plants env"
| "entry_task env (EOrderPoll n m) = voidC (poller_run (order_poller env) n m)"
| "entry_task env (EPnlPoll n m) = voidC (poller_run (pnl_poller env) n m)"
| "entry_task env EResyncOrders = resync_order_subscription"
| "entry_task env EResyncPnl = resync_pnl_subscription"
| "entry_task env ERecoverGap = recover_order_gap env"
| "entry_task env (EOrderEvent event) = syncC (dispatch_order_event env event)"
| "entry_task env (EPnlEvent ep event) = syncC (dispatch_current_pnl env ep event)"
| "entry_task env (EOrderStatus cid vid) = voidC (generate_order_status_report env cid vid)"
| "entry_task env (EOrderReports iid a b op) = voidC (generate_order_status_reports env iid a b op)"
| "entry_task env (EFillReports iid vid a b) = voidC (generate_fill_reports env iid vid a b)"
| "entry_task env (EPositionReports iid) = voidC (syncC (generate_position_status_reports env iid))"
| "entry_task env (EMassStatus mins) = voidC (generate_mass_status env mins)"
| "entry_task env (EExposure rt) = voidC (request_exposure env rt)"

lemmas command_segments = segments_submit_order segments_submit_order_list segments_modify_order segments_cancel_order
  segments_cancel_all segments_batch_cancel

lemma segments_voidC: "transp R \<Longrightarrow> reflp R \<Longrightarrow> segments R m \<Longrightarrow> segments R (voidC m)"
  unfolding voidC_def by (intro segments_rules)

lemma gated_entry: "segments (gated env) (entry_task env e)"
  by (cases e)
     (auto simp: command_segments gated_connect gated_disconnect gated_restore gated_resync_order gated_recover_gap
       gated.segments_resync_pnl
       intro!: segments_voidC gated.refl gated.trans segments_syncC gated_orders.segments_poller_run
       gated_pnl.segments_poller_run gated.keeps_dispatch_order gated.keeps_dispatch_pnl
       gated.segments_order_status_report gated.segments_order_status_reports gated.segments_fill_reports
       gated.keeps_position_status_reports gated.segments_mass_status gated.segments_request_exposure)

section \<open>The system\<close>

type_synonym 'c sys = "('c host, session_call, reply) tasks"

text \<open>What happens outside the client's own tasks.\<close>

inductive outside :: "'c host \<Rightarrow> 'c host \<Rightarrow> bool" where
  cache: "outside s (s\<lparr>h_cache := c\<rparr>)"
| gate: "outside s (s\<lparr>h_session_trading := g\<rparr>)"
| time: "outside s (s\<lparr>h_clock := h_clock s + n\<rparr>)"
| order_poll_ends: "outside s (s\<lparr>h_order_poll := Finished\<rparr>)"
| pnl_poll_ends: "outside s (s\<lparr>h_pnl_poll := Finished\<rparr>)"
| transport_latch: "outside s (s\<lparr>h_plant := policy_latch (h_plant s)\<rparr>)"

inductive_cases outsideE: "outside s s'"

abbreviation sys_reach :: "('c, 'x) client_env_scheme \<Rightarrow> 'c sys \<Rightarrow> 'c sys \<Rightarrow> bool" where
  "sys_reach env \<equiv> task_reach (entry_task env) outside"

lemma gated_outside: "outside s s' \<Longrightarrow> gated env s s'"
  by (erule outsideE) (auto simp: gated_def)

interpretation gated_sys: task_relation "entry_task env" outside "gated env" for env
  by unfold_locales (rule gated.refl gated.trans gated_entry gated_outside, assumption?)+

text \<open>
  C1: No order command slips past the gates. Start any number of the client's tasks (commands, connects,
  restores, pollers, queries), interleave their segments in any way, cancel any of them, and let the
  platform and the session do what they like in between: in every state reached, each place, modify and
  cancel call that was issued to the session was issued with trading enabled, with the session's own gate
  not closed, and in a plant state that allows that kind of command at that moment.
\<close>

theorem order_calls_gated:
  assumes "sys_reach env (s0, []) (s, ts)" "list_all (call_gated env) (h_trace s0)"
  shows "list_all (call_gated env) (h_trace s)"
  using gated_sys.reach_R [OF assms(1)] assms(2) by (auto simp: gated_def)

theorem order_calls_gated_witness:
  "\<exists>s ts. sys_reach demo_client (demo_live, []) (s, ts) \<and> TrCall demo_place Live (Some True) \<in> set (h_trace s)
     \<and> list_all (call_gated demo_client) (h_trace s)"
proof -
  obtain st s where s: "entry_task demo_client (ESubmit demo_order) demo_live = (st, s)" by fastforce
  have r: "sys_reach demo_client (demo_live, []) (s, [st])"
    using task_step.begin_task [of "entry_task demo_client", OF s, of outside "[]"] by (intro r_into_rtranclp) simp
  have "TrCall demo_place Live (Some True) \<in> set (h_trace (snd (entry_task demo_client (ESubmit demo_order) demo_live)))"
    "list_all (call_gated demo_client) (h_trace demo_live)" by code_simp+
  with order_calls_gated [OF r] r s show ?thesis by auto
qed

section \<open>Arming\<close>

definition may_arm :: "entry \<Rightarrow> bool" where
  "may_arm e = (case e of EConnect _ _ _ \<Rightarrow> True | ERestore \<Rightarrow> True | ERecoverGap \<Rightarrow> True | _ \<Rightarrow> False)"

definition is_order_poll :: "entry \<Rightarrow> bool" where
  "is_order_poll e = (case e of EOrderPoll _ _ \<Rightarrow> True | _ \<Rightarrow> False)"

lemma no_arm_disconnect: "segments no_arm (disconnect r)"
  unfolding disconnect_def by (intro no_arm.task_rules no_arm_plants no_arm.segments_stop_background) simp

lemma no_arm_resync_orders: "segments no_arm resync_order_subscription"
  unfolding resync_order_subscription_def
  by (intro no_arm.task_rules no_arm_plants no_arm.segments_subscribe_orders) simp

lemma no_arm_entry: "\<not> may_arm e \<Longrightarrow> \<not> is_order_poll e \<Longrightarrow> segments no_arm (entry_task env e)"
  by (cases e)
     (auto simp: may_arm_def is_order_poll_def no_arm_submit no_arm_submit_list no_arm_modify no_arm_cancel no_arm_cancel_all
       no_arm_batch_cancel no_arm_disconnect no_arm_resync_orders no_arm.segments_resync_pnl
       intro!: segments_voidC no_arm.refl no_arm.trans segments_syncC no_arm_pnl.segments_poller_run
       no_arm.keeps_dispatch_order no_arm.keeps_dispatch_pnl
       no_arm.segments_order_status_report no_arm.segments_order_status_reports no_arm.segments_fill_reports
       no_arm.keeps_position_status_reports no_arm.segments_mass_status no_arm.segments_request_exposure)

lemma sat_entry:
  "\<not> is_order_poll e \<Longrightarrow> sat (arms_with_evidence env) (\<lambda>_ _. True) (entry_task env e) (\<lambda>_ _ _. True) (\<lambda>_ _ _. True)"
proof (cases "may_arm e")
  case False
  moreover assume "\<not> is_order_poll e"
  ultimately show ?thesis by (intro sat_quiet no_arm_entry)
qed (auto simp: may_arm_def intro: sat_connect sat_restore sat_weaken [OF sat_recover_gap] split: entry.splits)

text \<open>
  C3: Arming needs evidence. Take any task of the client (for the order poller, its callbacks one by one) and
  any run of it with arbitrary interference at its awaits. If a segment of it turns an un-armed plant into
  an armed one, the task is a connect, a restore after a session recovery or a gap recovery, and its own
  history holds a working-orders drain that was read and applied without error and, if the PnL stream was
  connected at that point, a later observation of it. Commands, events, queries and resyncs never arm.
\<close>

theorem arming_needs_barrier:
  assumes "co_run (entry_task env e) s h st s0 s1" "\<not> is_order_poll e" "\<not> armed s0" "armed s1"
  shows "may_arm e \<and> barrier_passed env h"
proof
  have "arms_with_evidence env h s0 s1" using co_run_sat [OF sat_entry [OF assms(2)] assms(1)] by blast
  then show "barrier_passed env h" using assms(3,4) by (simp add: arms_with_evidence_def no_arm_def)
  show "may_arm e"
  proof (rule ccontr)
    assume "\<not> may_arm e"
    from co_run_sat [OF sat_segments [OF no_arm_entry [OF this assms(2)], of "\<lambda>_ _. True"] assms(1)] assms(3,4)
    show False by (simp add: no_arm_def)
  qed
qed

theorem arming_needs_barrier_witness:
  "(case replay [] demo_host (entry_task demo_client ERestore demo_host) [Inr SvUnit, Inr SvUnit, Inr (SvRows [demo_open_row]),
        Inr (SvDict None)] of (h, s0, st, s1) \<Rightarrow> \<not> armed s0 \<and> armed s1 \<and> barrier_passed demo_client h)"
proof -
  let ?run = "replay [] demo_host (entry_task demo_client ERestore demo_host) [Inr SvUnit, Inr SvUnit, Inr (SvRows [demo_open_row]),
        Inr (SvDict None)]"
  obtain h s0 st s1 where r: "?run = (h, s0, st, s1)" and c: "co_run (entry_task demo_client ERestore) demo_host h st s0 s1"
    by (rule replay_run)
  have "case ?run of (h, s0, st, s1) \<Rightarrow> \<not> armed s0 \<and> armed s1" by code_simp
  then have a: "\<not> armed s0" "armed s1" unfolding r prod.case by blast+
  have "\<not> is_order_poll ERestore" by code_simp
  from arming_needs_barrier [OF c this a] a show ?thesis unfolding r prod.case by blast
qed

end
