(* ===== verification/Recovery.thy ===== *)
theory Recovery
  imports Client
begin

text \<open>
  The session-recovery bridge (\<open>recovery_bridge.py\<close>): events of the transport thread hop onto the client's
  loop, a restore runs for each new generation with bounded retries, and a break of the session cancels it.

  The loop is a first-in-first-out queue of callbacks. Events append their handler; the reply of the restore
  task's await appends its wake-up. The bridge state and the host are one pair, so that the methods of the
  bridge are tasks on the pair and the client's callbacks are lifted to it.
\<close>

section \<open>Tasks on a part of the state\<close>

primrec lift_step :: "('s, 'q, 'r, 'a) co_step \<Rightarrow> ('s \<times> 'b, 'q, 'r, 'a) co_step" where
  "lift_step (CoDone r) = CoDone r"
| "lift_step (CoAwait q k) = CoAwait q (\<lambda>r (s, b). (\<lambda>(c, s'). (c, (s', b))) (map_prod lift_step id (k r s)))"

definition liftC :: "('s, 'q, 'r, 'a) co \<Rightarrow> ('s \<times> 'b, 'q, 'r, 'a) co" where
  "liftC m = (\<lambda>(s, b). case m s of (st, s') \<Rightarrow> (lift_step st, (s', b)))"

definition on_fst :: "('s, exn, 'a) em \<Rightarrow> ('s \<times> 'b, exn, 'a) em" where
  "on_fst m = (\<lambda>(s, b). case m s of (r, s') \<Rightarrow> (r, (s', b)))"

section \<open>The bridge\<close>

record bridge =
  br_subscribed :: bool \<comment> \<open>\<open>_subscription\<close> is set\<close>
  br_pending_generation :: int
  br_last_generation :: int

definition bridge_new :: bridge where
  "bridge_new = \<lparr>br_subscribed = False, br_pending_generation = 0, br_last_generation = 0\<rparr>"

definition MAX_ATTEMPTS :: nat where "MAX_ATTEMPTS = 5"

type_synonym ('c, 'a) btask = "('c host \<times> bridge, session_call, reply, 'a) co"

text \<open>\<open>_attempts\<close> from one attempt on, with the number of attempts left.\<close>

fun attempts_from :: "('c, 'x) client_env_scheme \<Rightarrow> int \<Rightarrow> nat \<Rightarrow> ('c, unit) btask" where
  "attempts_from env generation 0 = returnC ()"
| "attempts_from env generation (Suc left) =
     tryC (liftC (restore_plants env))
       (\<lambda>_. thenC (syncC (on_fst (set_plant policy_latch)))
            (if left = 0 then returnC ()
             else thenC (liftC (callC CSleep)) (attempts_from env generation left)))
       (\<lambda>_. syncC (modifyE (\<lambda>(s, b). (s, b\<lparr>br_last_generation := generation\<rparr>))))"

definition attempts :: "('c, 'x) client_env_scheme \<Rightarrow> int \<Rightarrow> ('c, unit) btask" where
  "attempts env generation = attempts_from env generation MAX_ATTEMPTS"

definition take_pending :: "('c host \<times> bridge, exn, int) em" where
  "take_pending = (\<lambda>(s, b). (Inr (br_pending_generation b), (s, b\<lparr>br_pending_generation := 0\<rparr>)))"

text \<open>\<open>_run\<close>: every further round restores a newer generation; the argument bounds the rounds.\<close>

fun restore_run :: "('c, 'x) client_env_scheme \<Rightarrow> nat \<Rightarrow> int \<Rightarrow> ('c, unit) btask" where
  "restore_run env 0 generation = returnC ()"
| "restore_run env (Suc n) generation =
     thenC (bindC (syncC (getE (\<lambda>(_, b). br_last_generation b))) (\<lambda>last_gen.
              if generation > last_gen then attempts env generation else returnC ()))
     (bindC (syncC take_pending) (\<lambda>pending.
      bindC (syncC (getE (\<lambda>(_, b). br_last_generation b))) (\<lambda>last_gen.
        if pending \<le> max generation last_gen then returnC () else restore_run env n pending)))"

section \<open>The loop\<close>

datatype hop = Start int | StopDown | StopFailed

datatype ready = Hop hop | Wake reply

text \<open>A task is scheduled when it is created; its first segment runs at its first wake-up.\<close>

datatype 'c restore_task = Fresh "('c, unit) btask" | Suspended "('c host \<times> bridge, session_call, reply, unit) co_step"

record 'c loop =
  lp_host :: "'c host"
  lp_bridge :: bridge
  lp_task :: "'c restore_task option" \<comment> \<open>until it is done\<close>
  lp_ready :: "ready list"

definition live_task :: "('c host \<times> bridge, session_call, reply, unit) co_step \<Rightarrow> 'c restore_task option" where
  "live_task st = (case st of CoDone _ \<Rightarrow> None | CoAwait _ _ \<Rightarrow> Some (Suspended st))"

definition run_segment :: "('c, unit) btask \<Rightarrow> 'c loop \<Rightarrow> 'c loop" where
  "run_segment m l = (case m (lp_host l, lp_bridge l) of
     (st, (s, b)) \<Rightarrow> l\<lparr>lp_host := s, lp_bridge := b, lp_task := live_task st\<rparr>)"

text \<open>\<open>schedule\<close>'s callback: an old generation is ignored, a newer one waits behind a running restore.\<close>

definition start_restore :: "('c, 'x) client_env_scheme \<Rightarrow> nat \<Rightarrow> int \<Rightarrow> 'c loop \<Rightarrow> 'c loop" where
  "start_restore env n generation l =
     (if generation \<le> br_last_generation (lp_bridge l) then l
      else if lp_task l \<noteq> None then
        l\<lparr>lp_bridge := (lp_bridge l)\<lparr>br_pending_generation := max (br_pending_generation (lp_bridge l)) generation\<rparr>\<rparr>
      else l\<lparr>lp_task := Some (Fresh (restore_run env n generation)), lp_ready := lp_ready l @ [Wake (Inr SvUnit)]\<rparr>)"

text \<open>\<open>_stop_restore\<close>: a cancelled task does not run again, so its wake-up is dropped.\<close>

definition is_wake :: "ready \<Rightarrow> bool" where
  "is_wake x = (case x of Wake _ \<Rightarrow> True | Hop _ \<Rightarrow> False)"

definition stop_restore :: "'c loop \<Rightarrow> 'c loop" where
  "stop_restore l =
     l\<lparr>lp_bridge := (lp_bridge l)\<lparr>br_pending_generation := 0\<rparr>, lp_task := None,
       lp_ready := filter (Not \<circ> is_wake) (lp_ready l), lp_host := snd (set_plant policy_latch (lp_host l))\<rparr>"

text \<open>What the unsubscription raises is logged and swallowed; what the subscription raises is not.\<close>

definition drop_listener :: "'c loop \<Rightarrow> 'c loop" where
  "drop_listener l = l\<lparr>lp_bridge := (lp_bridge l)\<lparr>br_subscribed := False\<rparr>\<rparr>"

definition attach :: "exn option \<Rightarrow> 'c loop \<Rightarrow> unit res \<times> 'c loop" where
  "attach subscribe l = (let l = drop_listener l in case subscribe of
     Some e \<Rightarrow> (Inl e, l)
   | None \<Rightarrow> (Inr (), l\<lparr>lp_bridge := (lp_bridge l)\<lparr>br_subscribed := True\<rparr>\<rparr>))"

definition detach :: "'c loop \<Rightarrow> 'c loop" where
  "detach l = (let l = drop_listener l in
     l\<lparr>lp_bridge := (lp_bridge l)\<lparr>br_pending_generation := 0, br_last_generation := 0\<rparr>, lp_task := None,
       lp_ready := filter (Not \<circ> is_wake) (lp_ready l)\<rparr>)"

text \<open>
  \<open>on_event\<close> on the transport thread: the plant is latched at once, the handler hops onto the loop. Without a
  loop the handler runs in place and nothing is scheduled; a closed loop takes nothing. The latch and the hop are
  one step of the model: what the loop's thread may do between the two statements is not covered.
\<close>

datatype session_event = Interrupted | Resumed int | RecoveryFailed

datatype loop_state = LoopRunning | LoopMissing | LoopClosed

definition latch_and_hop :: "loop_state \<Rightarrow> hop \<Rightarrow> 'c loop \<Rightarrow> 'c loop" where
  "latch_and_hop st h l =
     (let l = l\<lparr>lp_host := snd (set_plant policy_latch (lp_host l))\<rparr>
      in case st of LoopRunning \<Rightarrow> l\<lparr>lp_ready := lp_ready l @ [Hop h]\<rparr> | LoopMissing \<Rightarrow> stop_restore l | LoopClosed \<Rightarrow> l)"

definition on_event :: "loop_state \<Rightarrow> session_event \<Rightarrow> 'c loop \<Rightarrow> 'c loop" where
  "on_event st ev l = (case ev of
     Interrupted \<Rightarrow> latch_and_hop st StopDown l
   | Resumed g \<Rightarrow> if st = LoopRunning then l\<lparr>lp_ready := lp_ready l @ [Hop (Start g)]\<rparr> else l
   | RecoveryFailed \<Rightarrow> latch_and_hop st StopFailed l)"

definition run_ready :: "('c, 'x) client_env_scheme \<Rightarrow> nat \<Rightarrow> 'c loop \<Rightarrow> 'c loop" where
  "run_ready env n l = (case lp_ready l of
     [] \<Rightarrow> l
   | Hop (Start g) # rest \<Rightarrow> start_restore env n g (l\<lparr>lp_ready := rest\<rparr>)
   | Hop _ # rest \<Rightarrow> stop_restore (l\<lparr>lp_ready := rest\<rparr>)
   | Wake r # rest \<Rightarrow> (case lp_task l of
       Some (Fresh m) \<Rightarrow> run_segment m (l\<lparr>lp_ready := rest\<rparr>)
     | Some (Suspended (CoAwait q k)) \<Rightarrow> run_segment (k r) (l\<lparr>lp_ready := rest\<rparr>)
     | _ \<Rightarrow> l\<lparr>lp_ready := rest\<rparr>))"

text \<open>What the rest of the client does to the plant here: nothing, or less.\<close>

definition others :: "'c host \<Rightarrow> 'c host \<Rightarrow> bool" where
  "others s s' \<longleftrightarrow> no_arm s s' \<and> (plant_of s = Latched \<longrightarrow> plant_of s' = Latched)"

inductive loop_step :: "('c, 'x) client_env_scheme \<Rightarrow> 'c loop \<Rightarrow> 'c loop \<Rightarrow> bool" for env where
  event: "loop_step env l (on_event st ev l)"
| reply: "lp_task l \<noteq> None \<Longrightarrow> \<not> list_ex is_wake (lp_ready l) \<Longrightarrow> loop_step env l (l\<lparr>lp_ready := lp_ready l @ [Wake r]\<rparr>)"
| run: "loop_step env l (run_ready env n l)"
| others: "others (lp_host l) s \<Longrightarrow> loop_step env l (l\<lparr>lp_host := s\<rparr>)"
| attached: "loop_step env l (snd (attach subscribe l))"
| detached: "loop_step env l (detach l)"

section \<open>Segments that start quietly\<close>

lemma step_segments_mono: "step_segments B st \<Longrightarrow> (\<And>s s'. B s s' \<Longrightarrow> R s s') \<Longrightarrow> step_segments R st"
proof (induction st)
  case (CoAwait q k)
  show ?case unfolding step_segments_Await
  proof (intro allI segmentsI)
    fix r s
    obtain st1 s1 where k: "k r s = (st1, s1)" by fastforce
    then have B: "B s s1 \<and> step_segments B st1" using CoAwait.prems(1) unfolding step_segments_Await by (blast dest: segmentsD)
    have "st1 \<in> Basic_BNFs.fsts (k r s)" using k by (metis fsts.intros fst_conv)
    then have "step_segments R st1" using B CoAwait.prems(2) by (intro CoAwait.IH [of "k r" "k r s" st1]) auto
    with B k CoAwait.prems(2) show "R s (snd (k r s))" "step_segments R (fst (k r s))" by auto
  qed
qed simp

text \<open>
  The first segment keeps \<open>B\<close> and every later one \<open>R\<close>. If what keeps \<open>R\<close> and then \<open>B\<close> keeps \<open>R\<close>, this
  follows the combinators: a handler or continuation starts in the middle of a later segment.
\<close>

definition quiet_start :: "('s \<Rightarrow> 's \<Rightarrow> bool) \<Rightarrow> ('s \<Rightarrow> 's \<Rightarrow> bool) \<Rightarrow> ('s, 'q, 'r, 'a) co \<Rightarrow> bool" where
  "quiet_start B R m \<longleftrightarrow> (\<forall>s. B s (snd (m s)) \<and> step_segments R (fst (m s)))"

lemma quiet_startD: "quiet_start B R m \<Longrightarrow> m s = (st, s') \<Longrightarrow> B s s' \<and> step_segments R st"
  by (auto simp: quiet_start_def dest: spec [of _ s])

lemma quiet_startI: "(\<And>s st s'. m s = (st, s') \<Longrightarrow> B s s' \<and> step_segments R st) \<Longrightarrow> quiet_start B R m"
  unfolding quiet_start_def by (metis prod.collapse)

locale quiet_relations =
  fixes B R :: "'s \<Rightarrow> 's \<Rightarrow> bool"
  assumes refl: "reflp B" and trans: "transp B" and later: "R s s1 \<Longrightarrow> B s1 s2 \<Longrightarrow> R s s2" and weaker: "B s s' \<Longrightarrow> R s s'"
begin

lemma step_try_quiet:
  assumes h: "\<And>e. quiet_start B R (h e)" and f: "\<And>x. quiet_start B R (f x)"
  shows "step_segments R st \<Longrightarrow> step_try st h f s = (st', s') \<Longrightarrow> B s s' \<and> step_segments R st'"
proof (induction st arbitrary: s st' s')
  case (CoDone r)
  then show ?case using quiet_startD [OF h] quiet_startD [OF f] by (cases r) auto
next
  case (CoAwait q k)
  have "segments R (\<lambda>s. (\<lambda>(c, s''). c h f s'') (map_prod step_try id (k r s)))" for r
  proof (rule segmentsI)
    fix s
    obtain st1 s1 where k: "k r s = (st1, s1)" by fastforce
    then have 1: "R s s1 \<and> step_segments R st1"
      using CoAwait.prems(1) unfolding step_segments_Await by (blast dest: segmentsD)
    obtain st2 s2 where e: "step_try st1 h f s1 = (st2, s2)" by fastforce
    have "st1 \<in> Basic_BNFs.fsts (k r s)" using k by (metis fsts.intros fst_conv)
    then have "B s1 s2 \<and> step_segments R st2" using CoAwait.IH [of "k r" "k r s" st1] 1 e by auto
    then show "R s (snd ((\<lambda>(c, s''). c h f s'') (map_prod step_try id (k r s))))"
      "step_segments R (fst ((\<lambda>(c, s''). c h f s'') (map_prod step_try id (k r s))))"
      using k e 1 by (auto intro: later)
  qed
  then have "step_segments R (CoAwait q (\<lambda>r s. (\<lambda>(c, s''). c h f s'') (map_prod step_try id (k r s))))"
    by (simp only: step_segments_Await simp_thms)
  then show ?case using CoAwait.prems(2) refl by (auto simp: reflpD)
qed

lemma quiet_tryC:
  assumes "quiet_start B R m" "\<And>e. quiet_start B R (h e)" "\<And>x. quiet_start B R (f x)"
  shows "quiet_start B R (tryC m h f)"
proof (rule quiet_startI)
  fix s st s'
  assume t: "tryC m h f s = (st, s')"
  obtain st1 s1 where m: "m s = (st1, s1)" by fastforce
  with t have "step_try st1 h f s1 = (st, s')" by (simp add: tryC_def)
  from step_try_quiet [OF assms(2,3) _ this] quiet_startD [OF assms(1) m] show "B s s' \<and> step_segments R st"
    using trans by (blast dest: transpD)
qed

lemma quiet_returnC: "quiet_start B R (returnC x)"
  by (simp add: quiet_start_def returnC_def reflpD [OF refl])

lemma quiet_raiseC: "quiet_start B R (raiseC e)"
  by (simp add: quiet_start_def raiseC_def reflpD [OF refl])

lemma quiet_bindC: "quiet_start B R m \<Longrightarrow> (\<And>x. quiet_start B R (f x)) \<Longrightarrow> quiet_start B R (bindC m f)"
  unfolding bindC_def by (rule quiet_tryC) (auto intro: quiet_raiseC)

lemma quiet_thenC: "quiet_start B R m \<Longrightarrow> quiet_start B R n \<Longrightarrow> quiet_start B R (thenC m n)"
  unfolding thenC_def by (rule quiet_bindC)

lemma quiet_segments: "segments B m \<Longrightarrow> quiet_start B R m"
  unfolding segments_def quiet_start_def by (blast intro: step_segments_mono [of B] weaker)

lemma quiet_syncC: "keeps B m \<Longrightarrow> quiet_start B R (syncC m)"
  by (intro quiet_segments segments_syncC)

lemma quiet_if: "(b \<Longrightarrow> quiet_start B R m) \<Longrightarrow> (\<not> b \<Longrightarrow> quiet_start B R n) \<Longrightarrow> quiet_start B R (if b then m else n)"
  by simp

lemmas quiet_rules = quiet_tryC quiet_bindC quiet_thenC quiet_returnC quiet_raiseC quiet_if

end

text \<open>A task that suspends at once, with a tail whose segments keep a transitive relation.\<close>

definition suspends :: "('s, 'q, 'r, 'a) co \<Rightarrow> bool" where
  "suspends m \<longleftrightarrow> (\<forall>s. \<exists>q k s'. m s = (CoAwait q k, s'))"

lemma quiet_then_tail:
  assumes T: "transp T" "reflp T" and m: "suspends m" "segments T m" "segments B m" and n: "segments T n"
    and weaker: "\<And>s s'. T s s' \<Longrightarrow> R s s'"
  shows "quiet_start B R (thenC m n)"
proof (rule quiet_startI)
  fix s st s'
  assume t: "thenC m n s = (st, s')"
  from m(1) obtain q k s1 where k: "m s = (CoAwait q k, s1)" unfolding suspends_def by blast
  then have st: "st = CoAwait q (\<lambda>r. bindC (k r) (\<lambda>_. n))" "s' = s1"
    using t bindC_await [of m s q k s1 "\<lambda>_. n"] by (auto simp: thenC_def)
  have "segments T (k r)" for r using segmentsD [OF m(2) k] by (simp add: step_segments_Await del: step_segments.simps)
  then have "segments T (bindC (k r) (\<lambda>_. n))" for r by (intro segments_bindC T n)
  then have "step_segments T st" unfolding st step_segments_Await by simp
  then have "step_segments R st" by (rule step_segments_mono) (rule weaker)
  then show "B s s' \<and> step_segments R st" using segmentsD [OF m(3) k] st(2) by simp
qed

section \<open>Restores\<close>

text \<open>A segment that arms the plant starts with the plant connecting.\<close>

definition arms_from_connecting :: "'c host \<Rightarrow> 'c host \<Rightarrow> bool" where
  "arms_from_connecting s s' \<longleftrightarrow> (armed s' \<longrightarrow> armed s \<or> plant_of s = Connecting)"

definition only_arms :: "'c host \<Rightarrow> 'c host \<Rightarrow> bool" where
  "only_arms s s' \<longleftrightarrow> arms_from_connecting s s' \<and> (plant_of s' = Connecting \<longrightarrow> plant_of s = Connecting)"

lemma only_arms_same: "h_plant s' = h_plant s \<Longrightarrow> only_arms s s'"
  by (simp add: only_arms_def arms_from_connecting_def armed_def plant_of_def)

interpretation only_arms: task_frame only_arms
proof unfold_locales
  show "reflp only_arms" by (simp add: reflp_def only_arms_same)
  show "transp only_arms" by (auto simp: transp_def only_arms_def arms_from_connecting_def)
qed (auto intro!: only_arms_same simp: log_call_def)

interpretation host_quiet: quiet_relations no_arm arms_from_connecting
  by unfold_locales (auto simp: no_arm_def arms_from_connecting_def reflp_def transp_def)

lemma only_arms_rearm: "keeps only_arms (rearm_or_raise w d b)"
proof -
  have "keeps only_arms (rearm_plant b)" for b
    by (rule keepsI) (auto simp: rearm_plant_def only_arms_def arms_from_connecting_def armed_def plant_of_def
        policy_defs plant_defs split: prod.splits plant_state.splits)
  then show ?thesis unfolding rearm_or_raise_def by (intro only_arms.frame_rules)
qed

lemma suspends_subscribe: "suspends subscribe_orders"
  unfolding suspends_def subscribe_orders_def thenC_def callC_def
  by (metis bindC_await awaitC_def)

lemma quiet_restore: "quiet_start no_arm arms_from_connecting (restore_plants env)"
proof -
  have tail: "quiet_start no_arm arms_from_connecting (thenC subscribe_orders (thenC (syncC (start_poll True))
      (thenC (rearm_after_reconnect env) (bindC (syncC (getE order_poll_alive)) (\<lambda>alive. syncC (rearm_or_raise w (d alive) alive))))))"
    for w d
    by (rule quiet_then_tail [OF only_arms.trans only_arms.refl suspends_subscribe only_arms.segments_subscribe_orders
          no_arm.segments_subscribe_orders])
       (intro only_arms.task_rules only_arms.keeps_start_poll only_arms.segments_rearm_barrier only_arms_rearm,
        simp add: only_arms_def)
  show ?thesis
    unfolding restore_plants_def
    by (intro tail host_quiet.quiet_rules host_quiet.quiet_syncC no_arm.keeps_forget_pnl no_arm_plants
        host_quiet.quiet_segments no_arm.segments_restore_pnl)
qed

section \<open>The restore task\<close>

text \<open>A relation on the host, for the pair with the bridge.\<close>

definition of_host :: "('s \<Rightarrow> 's \<Rightarrow> bool) \<Rightarrow> 's \<times> 'b \<Rightarrow> 's \<times> 'b \<Rightarrow> bool" where
  "of_host R p p' = R (fst p) (fst p')"

lemma lift_step_segments:
  fixes R :: "'s \<Rightarrow> 's \<Rightarrow> bool" and st :: "('s, 'q, 'r, 'a) co_step"
  shows "step_segments R st \<Longrightarrow> step_segments (of_host R :: 's \<times> 'b \<Rightarrow> 's \<times> 'b \<Rightarrow> bool) (lift_step st)"
proof (induction st)
  case (CoAwait q k)
  let ?f = "\<lambda>r. (\<lambda>(s, b). (\<lambda>(c, s'). (c, (s', b))) (map_prod lift_step id (k r s))) :: ('s \<times> 'b, 'q, 'r, 'a) co"
  have "segments (of_host R) (?f r)" for r
  proof (rule segmentsI)
    fix p :: "'s \<times> 'b"
    obtain s b where p: "p = (s, b)" by fastforce
    obtain st1 s1 where k: "k r s = (st1, s1)" by fastforce
    have 1: "R s s1 \<and> step_segments R st1" using CoAwait.prems k unfolding step_segments_Await by (blast dest: segmentsD)
    have "st1 \<in> Basic_BNFs.fsts (k r s)" using k by (metis fsts.intros fst_conv)
    then have "step_segments (of_host R :: 's \<times> 'b \<Rightarrow> 's \<times> 'b \<Rightarrow> bool) (lift_step st1)"
      using 1 by (intro CoAwait.IH [of "k r" "k r s" st1]) auto
    with 1 show "of_host R p (snd (?f r p))" "step_segments (of_host R) (fst (?f r p))" by (auto simp: p k of_host_def)
  qed
  then show ?case unfolding lift_step.simps step_segments_Await by blast
qed simp

lemma quiet_liftC:
  assumes "quiet_start B R m"
  shows "quiet_start (of_host B) (of_host R) (liftC m)"
proof (rule quiet_startI)
  fix p st p'
  assume l: "liftC m p = (st, p')"
  obtain s b where p: "p = (s, b)" by fastforce
  obtain st1 s1 where m: "m s = (st1, s1)" by fastforce
  with l p have "st = lift_step st1" "p' = (s1, b)" by (auto simp: liftC_def)
  with quiet_startD [OF assms m] p show "of_host B p p' \<and> step_segments (of_host R) st"
    by (simp add: of_host_def lift_step_segments)
qed

lemma keeps_on_fst: "keeps R m \<Longrightarrow> keeps (of_host R) (on_fst m)"
  by (auto simp: keeps_def on_fst_def of_host_def split: prod.splits) (metis snd_conv)

interpretation pair_quiet: quiet_relations "of_host no_arm" "of_host arms_from_connecting"
  by unfold_locales (auto simp: of_host_def no_arm_def arms_from_connecting_def reflp_def transp_def)

lemma keeps_bridge: "keeps (of_host no_arm) (modifyE (\<lambda>(s, b). (s, f b)))" "keeps (of_host no_arm) (getE g)"
  "keeps (of_host no_arm) take_pending"
  by (auto simp: keeps_def em_simps take_pending_def of_host_def no_arm_def)

lemma quiet_attempts: "quiet_start (of_host no_arm) (of_host arms_from_connecting) (attempts_from env g n)"
  by (induction n)
     (auto intro!: pair_quiet.quiet_rules pair_quiet.quiet_syncC quiet_liftC quiet_restore keeps_on_fst no_arm_plants
       keeps_bridge host_quiet.quiet_segments no_arm.segments_callC)

lemma quiet_restore_run: "quiet_start (of_host no_arm) (of_host arms_from_connecting) (restore_run env n g)"
  by (induction n arbitrary: g)
     (auto simp: attempts_def intro!: pair_quiet.quiet_rules pair_quiet.quiet_syncC keeps_bridge quiet_attempts)

section \<open>A break is never overtaken\<close>

definition is_stop :: "ready \<Rightarrow> bool" where
  "is_stop x \<longleftrightarrow> x = Hop StopDown \<or> x = Hop StopFailed"

definition wake_first :: "ready list \<Rightarrow> bool" where
  "wake_first xs \<longleftrightarrow> list_ex is_wake (takeWhile (Not \<circ> is_stop) xs)"

fun task_ok :: "'c restore_task \<Rightarrow> bool" where
  "task_ok (Fresh m) \<longleftrightarrow> quiet_start (of_host no_arm) (of_host arms_from_connecting) m"
| "task_ok (Suspended st) \<longleftrightarrow> step_segments (of_host arms_from_connecting) st"

definition loop_inv :: "'c loop \<Rightarrow> bool" where
  "loop_inv l \<longleftrightarrow> (list_ex is_stop (lp_ready l) \<longrightarrow> \<not> armed (lp_host l)
       \<and> (wake_first (lp_ready l) \<longrightarrow> plant_of (lp_host l) = Latched))
     \<and> length (filter is_wake (lp_ready l)) \<le> 1 \<and> (list_ex is_wake (lp_ready l) \<longrightarrow> lp_task l \<noteq> None)
     \<and> (\<forall>t. lp_task l = Some t \<longrightarrow> task_ok t)"

lemma latched_unarmed: "plant_of s = Latched \<Longrightarrow> \<not> armed s"
  by (simp add: armed_def)

lemma plant_latch: "plant_of (snd (set_plant policy_latch s)) = Latched"
  by (simp add: set_plant_def em_simps plant_of_def policy_defs plant_defs)

lemma filter_wake: "\<not> list_ex is_wake xs \<longleftrightarrow> filter is_wake xs = []" "list_ex is_wake (filter (Not \<circ> is_wake) xs) = False"
  "filter is_wake (filter (Not \<circ> is_wake) xs) = []"
  by (auto simp: list_ex_iff filter_empty_conv)

lemma wake_first_wakes: "wake_first xs \<Longrightarrow> list_ex is_wake xs"
  by (auto simp: wake_first_def list_ex_iff dest: set_takeWhileD)

lemma wake_first_append: "list_ex is_stop xs \<Longrightarrow> wake_first (xs @ ys) = wake_first xs"
  by (auto simp: wake_first_def list_ex_iff intro: arg_cong [of _ _ "\<lambda>zs. \<exists>x \<in> set zs. is_wake x"])

lemma stop_of_filter: "list_ex is_stop (filter (Not \<circ> is_wake) xs) = list_ex is_stop xs"
  by (auto simp: list_ex_iff is_stop_def is_wake_def)

lemma wake_first_hop: "wake_first (Hop (Start g) # xs) = wake_first xs"
  by (simp add: wake_first_def is_stop_def is_wake_def)

lemma loop_inv_stop: "loop_inv (stop_restore l)"
  by (auto simp: stop_restore_def loop_inv_def plant_latch latched_unarmed filter_wake)

lemma loop_inv_segment:
  assumes "m (lp_host l, lp_bridge l) = (st, (s, b))"
    "step_segments (of_host arms_from_connecting) st" "arms_from_connecting (lp_host l) s"
    "\<not> list_ex is_wake (lp_ready l)" "list_ex is_stop (lp_ready l) \<longrightarrow> plant_of (lp_host l) = Latched"
  shows "loop_inv (run_segment m l)"
proof -
  have "\<not> wake_first (lp_ready l)" using assms(4) wake_first_wakes by blast
  with assms show ?thesis
    by (auto simp: run_segment_def loop_inv_def live_task_def arms_from_connecting_def armed_def filter_wake split: co_step.splits)
qed

lemma loop_inv_wake:
  assumes "loop_inv l" "lp_ready l = Wake r # rest"
  shows "\<not> list_ex is_wake rest" "list_ex is_stop rest \<longrightarrow> plant_of (lp_host l) = Latched"
  using assms by (auto simp: loop_inv_def filter_wake is_wake_def wake_first_def is_stop_def)

lemma loop_inv_run:
  assumes "loop_inv l"
  shows "loop_inv (run_ready env n l)"
proof (cases "lp_ready l")
  case (Cons x rest)
  show ?thesis
  proof (cases x)
    case (Hop h)
    show ?thesis
    proof (cases h)
      case (Start g)
      then show ?thesis using assms Cons Hop quiet_restore_run [of env n g]
        by (auto simp: run_ready_def start_restore_def loop_inv_def is_stop_def is_wake_def filter_wake wake_first_append
            wake_first_hop)
    qed (use Cons Hop in \<open>auto simp: run_ready_def loop_inv_stop\<close>)
  next
    case (Wake r)
    let ?l = "l\<lparr>lp_ready := rest\<rparr>"
    note w = loop_inv_wake [OF assms Cons [unfolded Wake]]
    obtain t where t: "lp_task l = Some t" "task_ok t" using assms Cons Wake by (auto simp: loop_inv_def is_wake_def)
    have seg: "loop_inv (run_segment m ?l)"
      if "\<And>p st p'. m p = (st, p') \<Longrightarrow> of_host arms_from_connecting p p' \<and> step_segments (of_host arms_from_connecting) st" for m
    proof -
      obtain st s b where m: "m (lp_host ?l, lp_bridge ?l) = (st, (s, b))" by (metis prod.exhaust)
      from that [OF this] w show ?thesis by (intro loop_inv_segment [of m ?l st s b, OF m]) (auto simp: of_host_def)
    qed
    have first: "loop_inv (run_segment m ?l)" if "task_ok (Fresh m)" for m
      using that unfolding task_ok.simps by (intro seg) (blast dest: quiet_startD intro: pair_quiet.weaker)
    have nxt: "loop_inv (run_segment (k r) ?l)" if "task_ok (Suspended (CoAwait q k))" for q k
      using that unfolding task_ok.simps step_segments_Await by (intro seg) (blast dest: segmentsD)
    have none: "loop_inv ?l" using assms Cons Wake w by (auto simp: loop_inv_def filter_wake is_wake_def is_stop_def dest: wake_first_wakes)
    show ?thesis using Cons Wake t first nxt none
      by (auto simp: run_ready_def simp del: task_ok.simps split: restore_task.splits co_step.splits)
  qed
qed (use assms in \<open>simp add: run_ready_def\<close>)

lemma loop_inv_step: "loop_step env l l' \<Longrightarrow> loop_inv l \<Longrightarrow> loop_inv l'"
proof (induction rule: loop_step.induct)
  case (event l st ev)
  have "loop_inv (latch_and_hop st h l)" if "is_stop (Hop h)" for h
    using event that
    by (cases st; simp add: latch_and_hop_def loop_inv_stop; simp add: loop_inv_def plant_latch latched_unarmed is_wake_def)
  then show ?case using event
    by (cases ev) (auto simp: on_event_def is_stop_def loop_inv_def is_wake_def wake_first_append)
next
  case (reply l r)
  then show ?case by (auto simp: loop_inv_def filter_wake is_wake_def is_stop_def wake_first_append)
next
  case (others l s)
  then show ?case by (auto simp: loop_inv_def others_def no_arm_def)
next
  case (attached l subscribe)
  then show ?case by (cases subscribe) (simp_all add: loop_inv_def attach_def drop_listener_def Let_def)
next
  case (detached l)
  then show ?case
    by (auto simp: loop_inv_def detach_def drop_listener_def Let_def filter_wake stop_of_filter dest: wake_first_wakes)
qed (rule loop_inv_run)

text \<open>
  C5: A restore never overtakes a break of the session. Start the bridge with no restore and an empty loop,
  and let session events, replies to the restore's awaits, turns of the loop and other tasks (that leave a
  latch alone and do not arm) come in any order. Whenever the handler of an interruption or of a failed
  recovery is still waiting in the loop, the plant is not armed: neither a restore that was about to re-arm
  when the session broke, nor a retry, nor a newly scheduled restore gets ahead of it; and no restore task
  survives the handler. (The latch and the scheduling of the handler are one step of the transport thread here.)
\<close>

theorem break_is_never_overtaken:
  assumes "(loop_step env)\<^sup>*\<^sup>* l0 l" "lp_ready l0 = []" "lp_task l0 = None" "list_ex is_stop (lp_ready l)"
  shows "\<not> armed (lp_host l) \<and> lp_task (stop_restore l) = None \<and> \<not> list_ex is_wake (lp_ready (stop_restore l))"
proof -
  from assms(1) have "loop_inv l"
  proof (induction rule: rtranclp_induct)
    case base
    show ?case using assms(2,3) by (simp add: loop_inv_def)
  next
    case (step l1 l2)
    then show ?case by (blast intro: loop_inv_step)
  qed
  then show ?thesis using assms(4) by (simp add: loop_inv_def stop_restore_def filter_wake)
qed

text \<open>
  A restore has drained and its last reply is in: its next segment would re-arm. The session breaks first.
\<close>

definition demo_loop :: "demo_cache loop" where
  "demo_loop = \<lparr>lp_host = demo_host, lp_bridge = bridge_new, lp_task = None, lp_ready = []\<rparr>"

definition wake_with :: "reply \<Rightarrow> 'c loop \<Rightarrow> 'c loop" where
  "wake_with r l = (if lp_task l \<noteq> None \<and> \<not> list_ex is_wake (lp_ready l) then l\<lparr>lp_ready := lp_ready l @ [Wake r]\<rparr> else l)"

lemma wake_with_step: "(loop_step env)\<^sup>*\<^sup>* l (wake_with r l)"
  by (auto simp: wake_with_def intro: loop_step.reply)

definition demo_turns :: "reply list \<Rightarrow> demo_cache loop" where
  "demo_turns rs = foldl (\<lambda>l r. run_ready demo_client 1 (wake_with r l))
     (run_ready demo_client 1 (run_ready demo_client 1 (on_event LoopRunning (Resumed 1) demo_loop))) rs"

lemma demo_turns_reach: "(loop_step demo_client)\<^sup>*\<^sup>* demo_loop (demo_turns rs)"
  unfolding demo_turns_def
proof (induction rs rule: rev_induct)
  case Nil
  show ?case by (simp only: foldl.simps) (meson loop_step.event loop_step.run rtranclp.rtrancl_refl rtranclp.rtrancl_into_rtrancl)
next
  case (snoc r rs)
  then show ?case by (simp, meson wake_with_step loop_step.run rtranclp_trans rtranclp.rtrancl_into_rtrancl)
qed

definition demo_broken :: "demo_cache loop" where
  "demo_broken = run_ready demo_client 1 (on_event LoopRunning Interrupted (wake_with (Inr (SvDict None))
     (demo_turns [Inr SvUnit, Inr SvUnit, Inr (SvRows [demo_open_row])])))"

theorem break_is_never_overtaken_witness:
  "armed (lp_host (demo_turns [Inr SvUnit, Inr SvUnit, Inr (SvRows [demo_open_row]), Inr (SvDict None)]))
   \<and> list_ex is_stop (lp_ready demo_broken) \<and> \<not> armed (lp_host demo_broken)"
proof -
  have r: "(loop_step demo_client)\<^sup>*\<^sup>* demo_loop demo_broken"
    unfolding demo_broken_def
    by (meson demo_turns_reach wake_with_step loop_step.event loop_step.run rtranclp_trans rtranclp.rtrancl_into_rtrancl)
  have f: "lp_ready demo_loop = []" "lp_task demo_loop = None" by (simp_all add: demo_loop_def)
  have s: "list_ex is_stop (lp_ready demo_broken)" by code_simp
  have a: "armed (lp_host (demo_turns [Inr SvUnit, Inr SvUnit, Inr (SvRows [demo_open_row]), Inr (SvDict None)]))" by code_simp
  from break_is_never_overtaken [OF r f s] s a show ?thesis by blast
qed

end
