(* ===== verification/Inventory.thy ===== *)
theory Inventory
  imports OrderRows Exposure "HOL-Library.List_Lexorder" "HOL-Library.Char_ord"
begin

text \<open>
  The venue inventory without a node (\<open>inventory.py\<close>, rules in \<open>inventory.rs\<close>): order and PnL events reduced
  to working orders and net positions. Unknown is never absent: an order whose unfilled size is unknown stays
  working, a position row that cannot be read is not flat.

  Positions are specified by a reference that keeps no state (the last row of a contract decides), and the
  incremental reduction is shown to implement it.
\<close>

section \<open>Rules (inventory.rs)\<close>

datatype status_class = Working | Filled | OtherTerminal

definition order_is_gone :: "status_class \<Rightarrow> int option \<Rightarrow> int option \<Rightarrow> int option \<Rightarrow> bool" where
  "order_is_gone cls unfilled quantity total_fill = (case cls of
     Working \<Rightarrow> False
   | OtherTerminal \<Rightarrow> True
   | Filled \<Rightarrow> (case unfilled of
       Some u \<Rightarrow> u \<le> 0
     | None \<Rightarrow> (case (quantity, total_fill) of (Some q, Some f) \<Rightarrow> q > 0 \<and> f \<ge> q | _ \<Rightarrow> False)))"

datatype position_change = UnknownChange | FlatChange | NetChange int

definition position_change_of :: "int option \<Rightarrow> position_change" where
  "position_change_of net = (case net of
     None \<Rightarrow> UnknownChange | Some n \<Rightarrow> if n = 0 then FlatChange else NetChange n)"

fun float_ge :: "pyfloat \<Rightarrow> pyfloat \<Rightarrow> bool" where
  "float_ge (Fin x) (Fin y) = (x \<ge> y)"
| "float_ge NaN _ = False"
| "float_ge _ NaN = False"
| "float_ge PInf _ = True"
| "float_ge _ NInf = True"
| "float_ge _ _ = False"

definition rs_pnl_live :: "pyfloat option \<Rightarrow> pyfloat option \<Rightarrow> bool \<Rightarrow> pyfloat \<Rightarrow> bool" where
  "rs_pnl_live first_seen observed_until any_unreadable settle =
     (case (first_seen, observed_until) of
        (Some first, Some until) \<Rightarrow> \<not> any_unreadable \<and> float_ge (float_sub until first) settle
      | _ \<Rightarrow> False)"

definition rs_side_from_txn :: "int option \<Rightarrow> string \<Rightarrow> string option" where
  "rs_side_from_txn code txt =
     (if code = Some 1 then Some ''BUY''
      else if code = Some 2 then Some ''SELL''
      else (let t = str_upper (strip_with rs_space txt) in
        if t = ''BUY'' \<or> t = ''B'' \<or> t = ''1'' then Some ''BUY''
        else if t = ''SELL'' \<or> t = ''S'' \<or> t = ''2'' then Some ''SELL'' else None))"

definition flatten_side :: "int \<Rightarrow> string" where
  "flatten_side net = (if net > 0 then ''SELL'' else ''BUY'')"

section \<open>Reading values\<close>

definition as_int :: "pyval \<Rightarrow> int option res" where
  "as_int raw =
     (if raw = PNone \<or> raw = PStr [] then Inr None
      else case py_int (PStr (py_str raw)) of
        Inr i \<Rightarrow> Inr (Some i)
      | Inl _ \<Rightarrow> (case bindR (py_float (PStr (py_str raw))) (\<lambda>f. py_int (PFloat f)) of
          Inr i \<Rightarrow> Inr (Some i)
        | Inl e \<Rightarrow> if exn_cls e = TypeError \<or> exn_cls e = ValueError then Inr None else Inl e))"

definition as_float :: "pyval \<Rightarrow> pyfloat option" where
  "as_float raw =
     (if raw = PNone \<or> raw = PStr [] then None
      else case py_float (PStr (py_str raw)) of Inr f \<Rightarrow> Some f | Inl _ \<Rightarrow> None)"

text \<open>An optional integer argument of the extension.\<close>

definition opt_i64 :: "int option \<Rightarrow> int option res" where
  "opt_i64 v = (case v of None \<Rightarrow> Inr None | Some i \<Rightarrow> bindR (to_i64 i) (\<lambda>n. Inr (Some n)))"

definition side_from_txn :: "pyval \<Rightarrow> string option res" where
  "side_from_txn raw =
     bindR (as_int raw) (\<lambda>code. bindR (opt_i64 code) (\<lambda>code. Inr (rs_side_from_txn code (text_or raw))))"

section \<open>The reduction\<close>

record working_order =
  wo_basket_id :: string
  wo_symbol :: string
  wo_exchange :: string
  wo_side :: "string option"
  wo_qty :: "int option"
  wo_unfilled :: "int option"
  wo_status :: "string option"
  wo_kind :: "string option"
  wo_user_tag :: "string option"
  wo_price :: "pyfloat option"

record open_position =
  po_symbol :: string
  po_exchange :: string
  po_net_qty :: int

definition position_as_dict :: "open_position \<Rightarrow> (string \<times> pyval) list res" where
  "position_as_dict p = bindR (to_i64 (po_net_qty p)) (\<lambda>net. Inr
     [(''symbol'', PStr (po_symbol p)), (''exchange'', PStr (po_exchange p)), (''net_qty'', PInt (po_net_qty p)),
      (''flatten_side'', PStr (flatten_side net)), (''flatten_qty'', PInt \<bar>po_net_qty p\<bar>)])"

record inventory =
  iv_orders :: "(string \<times> working_order) list"
  iv_positions :: "(string \<times> open_position) list"
  iv_pnl_events :: nat
  iv_pnl_first_s :: "pyfloat option"
  iv_observed_until_s :: "pyfloat option"
  iv_done_baskets :: "string list"
  iv_unknown_positions :: "string list"

definition inventory_new :: inventory where
  "inventory_new = \<lparr>iv_orders = [], iv_positions = [], iv_pnl_events = 0, iv_pnl_first_s = None,
     iv_observed_until_s = None, iv_done_baskets = [], iv_unknown_positions = []\<rparr>"

definition PNL_SETTLE_S :: pyfloat where "PNL_SETTLE_S = to_double (of_int PNL_SETTLE_NS / 1000000000)"

definition pnl_live :: "inventory \<Rightarrow> bool" where
  "pnl_live iv = rs_pnl_live (iv_pnl_first_s iv) (iv_observed_until_s iv) (iv_unknown_positions iv \<noteq> []) PNL_SETTLE_S"

definition mark_observed :: "pyfloat \<Rightarrow> inventory \<Rightarrow> inventory" where
  "mark_observed now iv = iv\<lparr>iv_observed_until_s := Some now\<rparr>"

definition is_gone :: "order_fields \<Rightarrow> int option \<Rightarrow> bool res" where
  "is_gone f unfilled =
     bindR (order_status_from_fields f) (\<lambda>status.
     bindR (as_int (of_quantity f)) (\<lambda>quantity.
     bindR (as_int (of_total_fill_size f)) (\<lambda>total_fill.
     bindR (opt_i64 unfilled) (\<lambda>unfilled.
     bindR (opt_i64 quantity) (\<lambda>quantity.
     bindR (opt_i64 total_fill) (\<lambda>total_fill.
       Inr (order_is_gone (if status \<notin> set TERMINAL_ORDER_STATUSES then Working
                           else if status = FILLED then Filled else OtherTerminal) unfilled quantity total_fill)))))))"

text \<open>\<open>event.get(key) or (prev.field if prev else default)\<close>, as text.\<close>

definition text_else :: "pyval \<Rightarrow> string \<Rightarrow> string" where
  "text_else v d = (if truthy v then py_str v else d)"

definition order_row :: "pydict \<Rightarrow> string \<Rightarrow> string \<Rightarrow> pyval \<Rightarrow> int option \<Rightarrow> working_order option \<Rightarrow> working_order res" where
  "order_row event basket symbol kind unfilled prev =
     bindR (side_from_txn (dget event ''transaction_type'')) (\<lambda>side.
     bindR (as_int (dget event ''quantity'')) (\<lambda>qty.
       (let ex = text_else (dget event ''exchange'') (case prev of Some p \<Rightarrow> wo_exchange p | None \<Rightarrow> ''CME'') in
        Inr \<lparr>wo_basket_id = basket, wo_symbol = symbol, wo_exchange = (if ex = [] then ''CME'' else ex),
             wo_side = (if side \<noteq> None then side else Option.bind prev wo_side),
             wo_qty = (if qty \<noteq> None then qty else Option.bind prev wo_qty),
             wo_unfilled = (if unfilled \<noteq> None then unfilled else Option.bind prev wo_unfilled),
             wo_status = (let st = str_upper (text_or (dget event ''status'')) in if st = [] then None else Some st),
             wo_kind = (if kind \<noteq> PNone then Some (py_str kind) else Option.bind prev wo_kind),
             wo_user_tag = (if dget event ''user_tag'' \<noteq> PNone then Some (py_str (dget event ''user_tag''))
                            else Option.bind prev wo_user_tag),
             wo_price = (if dget event ''price'' \<noteq> PNone then as_float (dget event ''price'')
                         else Option.bind prev wo_price)\<rparr>)))"

definition finish_basket :: "string \<Rightarrow> inventory \<Rightarrow> inventory" where
  "finish_basket basket iv = iv\<lparr>iv_orders := dict_pop basket (iv_orders iv),
     iv_done_baskets := List.insert basket (iv_done_baskets iv)\<rparr>"

definition keep_order :: "string \<Rightarrow> working_order \<Rightarrow> inventory \<Rightarrow> inventory" where
  "keep_order basket row iv = iv\<lparr>iv_orders := dict_set basket row (iv_orders iv)\<rparr>"

definition ingest_order :: "pydict \<Rightarrow> inventory \<Rightarrow> inventory res" where
  "ingest_order event iv =
     (let basket = str_strip (text_or (dget event ''basket_id'')) in
      if basket = [] \<or> basket \<in> set (iv_done_baskets iv) then Inr iv
      else
        (let fields = (case order_notification_to_fields event of Inr f \<Rightarrow> Some f | Inl _ \<Rightarrow> None);
             kind = (case fields of Some f \<Rightarrow> of_kind f | None \<Rightarrow> dget event ''kind'')
         in bindR (as_int (dget event ''total_unfilled_size'')) (\<lambda>unfilled.
            bindR (case fields of Some f \<Rightarrow> is_gone f unfilled | None \<Rightarrow> Inr False) (\<lambda>gone.
              if gone then Inr (finish_basket basket iv)
              else
                (let prev = map_of (iv_orders iv) basket;
                     symbol = str_strip (text_else (dget event ''symbol'') (case prev of Some p \<Rightarrow> wo_symbol p | None \<Rightarrow> []))
                 in if symbol = [] then Inr iv
                    else bindR (order_row event basket symbol kind unfilled prev) (\<lambda>row.
                      Inr (keep_order basket row iv)))))))"

definition position_key :: "pydict \<Rightarrow> string option" where
  "position_key event =
     (let symbol = str_strip (text_or (dget event ''symbol'')) in
      if symbol = [] then None else Some (symbol @ ''.'' @ text_else (dget event ''exchange'') ''CME''))"

definition apply_change :: "string \<Rightarrow> pydict \<Rightarrow> position_change \<Rightarrow> inventory \<Rightarrow> inventory" where
  "apply_change key event change iv = (case change of
     UnknownChange \<Rightarrow> iv\<lparr>iv_positions := dict_pop key (iv_positions iv),
                          iv_unknown_positions := List.insert key (iv_unknown_positions iv)\<rparr>
   | FlatChange \<Rightarrow> iv\<lparr>iv_positions := dict_pop key (iv_positions iv),
                       iv_unknown_positions := removeAll key (iv_unknown_positions iv)\<rparr>
   | NetChange n \<Rightarrow> iv\<lparr>iv_positions := dict_set key
         \<lparr>po_symbol = str_strip (text_or (dget event ''symbol'')),
          po_exchange = text_else (dget event ''exchange'') ''CME'', po_net_qty = n\<rparr> (iv_positions iv),
       iv_unknown_positions := removeAll key (iv_unknown_positions iv)\<rparr>)"

definition ingest_position :: "pydict \<Rightarrow> inventory \<Rightarrow> inventory res" where
  "ingest_position event iv =
     (case position_key event of
        None \<Rightarrow> Inr iv
      | Some key \<Rightarrow>
          bindR (as_int (dget event ''net_quantity'')) (\<lambda>net. bindR (opt_i64 net) (\<lambda>net.
            Inr (apply_change key event (position_change_of net) iv))))"

definition event_type :: "pydict \<Rightarrow> string" where
  "event_type event = text_or (dget event ''type'')"

definition is_order_row :: "pydict \<Rightarrow> bool" where
  "is_order_row event \<longleftrightarrow> event_type event \<in> {[], ''order_notification''}
     \<and> (truthy (dget event ''basket_id'')
        \<or> event_type event = ''order_notification'' \<and> dget event ''source'' \<in> {PStr ''rithmic'', PStr ''exchange''})"

definition note_pnl :: "pyfloat \<Rightarrow> inventory \<Rightarrow> inventory" where
  "note_pnl now iv =
     (let iv = iv\<lparr>iv_pnl_events := Suc (iv_pnl_events iv),
                    iv_pnl_first_s := (case iv_pnl_first_s iv of None \<Rightarrow> Some now | Some t \<Rightarrow> Some t)\<rparr>;
          seen = (case iv_observed_until_s iv of Some t \<Rightarrow> if t = Fin 0 then now else t | None \<Rightarrow> now)
      in mark_observed (if float_ge seen now \<and> seen \<noteq> now then seen else now) iv)"

definition ingest :: "pydict \<Rightarrow> pyfloat \<Rightarrow> inventory \<Rightarrow> inventory res" where
  "ingest event now iv =
     (if is_order_row event then ingest_order event iv
      else
        (let iv = (if event_type event \<in> {''account_pnl'', ''instrument_pnl''} then note_pnl now iv else iv)
         in if event_type event = ''instrument_pnl'' then ingest_position event iv else Inr iv))"

fun ingest_all :: "(pydict \<times> pyfloat) list \<Rightarrow> inventory \<Rightarrow> inventory res" where
  "ingest_all [] iv = Inr iv"
| "ingest_all ((event, now) # events) iv = bindR (ingest event now iv) (ingest_all events)"

definition working :: "inventory \<Rightarrow> working_order list" where
  "working iv = map (\<lambda>k. the (map_of (iv_orders iv) k)) (sort (map fst (iv_orders iv)))"

definition positions :: "inventory \<Rightarrow> open_position list" where
  "positions iv = map (\<lambda>k. the (map_of (iv_positions iv) k)) (sort (map fst (iv_positions iv)))"

section \<open>Polling\<close>

text \<open>
  One turn of the poll loop: what the two getters answer (an event or nothing, or what they raise), the
  time of each reading, and the time at the end of the turn. The deadline decides the number of turns.
\<close>

record poll_turn =
  pt_order :: "pydict option res"
  pt_pnl :: "pydict option res"
  pt_order_now :: pyfloat
  pt_pnl_now :: pyfloat
  pt_end :: pyfloat

definition feed :: "pydict option res \<Rightarrow> pyfloat \<Rightarrow> nat \<times> inventory \<Rightarrow> (nat \<times> inventory) res" where
  "feed answer now = (\<lambda>(seen, iv). bindR answer (\<lambda>ev. case ev of
     None \<Rightarrow> Inr (seen, iv) | Some e \<Rightarrow> bindR (ingest e now iv) (\<lambda>iv. Inr (Suc seen, iv))))"

fun poll_into :: "poll_turn list \<Rightarrow> nat \<times> inventory \<Rightarrow> (nat \<times> inventory) res" where
  "poll_into [] acc = Inr acc"
| "poll_into (t # ts) acc =
     bindR (feed (pt_order t) (pt_order_now t) acc) (\<lambda>acc.
     bindR (feed (pt_pnl t) (pt_pnl_now t) acc) (\<lambda>(seen, iv).
       poll_into ts (seen, mark_observed (pt_end t) iv)))"

definition venue_inventory_snapshot :: "unit res \<Rightarrow> (pydict \<times> pyfloat) list res \<Rightarrow> unit res \<Rightarrow> poll_turn list \<Rightarrow> inventory res" where
  "venue_inventory_snapshot subscribe_orders load_orders subscribe_pnl turns =
     bindR subscribe_orders (\<lambda>_.
     bindR load_orders (\<lambda>events.
     bindR (ingest_all events inventory_new) (\<lambda>iv.
     bindR subscribe_pnl (\<lambda>_.
     bindR (poll_into turns (0, iv)) (\<lambda>(_, iv). Inr iv)))))"

section \<open>Positions implement the reference\<close>

lemma bindR_Inr: "bindR r f = Inr y \<longleftrightarrow> (\<exists>x. r = Inr x \<and> f x = Inr y)"
  by (cases r) auto

datatype net_view = NoPosition | UnknownNet | OpenNet int

text \<open>What the inventory says about a contract.\<close>

definition position_view :: "inventory \<Rightarrow> string \<Rightarrow> net_view" where
  "position_view iv k = (if k \<in> set (iv_unknown_positions iv) then UnknownNet
     else case map_of (iv_positions iv) k of None \<Rightarrow> NoPosition | Some p \<Rightarrow> OpenNet (po_net_qty p))"

text \<open>The reference: the last position row of the contract, read on its own.\<close>

definition decides :: "string \<Rightarrow> pydict \<Rightarrow> bool" where
  "decides k event \<longleftrightarrow> event_type event = ''instrument_pnl'' \<and> position_key event = Some k"

definition row_view :: "pydict \<Rightarrow> net_view" where
  "row_view event = (case as_int (dget event ''net_quantity'') of
     Inr (Some n) \<Rightarrow> if n = 0 then NoPosition else OpenNet n
   | _ \<Rightarrow> UnknownNet)"

definition positions_ref :: "pydict list \<Rightarrow> string \<Rightarrow> net_view" where
  "positions_ref events k = (case filter (decides k) (rev events) of [] \<Rightarrow> NoPosition | event # _ \<Rightarrow> row_view event)"

lemma ingest_order_cases:
  assumes "ingest_order event iv = Inr iv'"
  obtains "iv' = iv" | basket where "iv' = finish_basket basket iv"
    | basket row where "basket \<notin> set (iv_done_baskets iv)" "iv' = keep_order basket row iv"
proof -
  let ?b = "str_strip (text_or (dget event ''basket_id''))"
  have "iv' = iv \<or> iv' = finish_basket ?b iv \<or> (\<exists>row. ?b \<notin> set (iv_done_baskets iv) \<and> iv' = keep_order ?b row iv)"
    using assms unfolding ingest_order_def Let_def bindR_Inr
    by (cases "?b = [] \<or> ?b \<in> set (iv_done_baskets iv)") (simp, force simp: bindR_Inr split: if_split_asm)
  then show thesis using that by blast
qed

lemma ingest_order_positions: "ingest_order event iv = Inr iv' \<Longrightarrow> position_view iv' k = position_view iv k"
  by (erule ingest_order_cases) (auto simp: finish_basket_def keep_order_def position_view_def)

lemma note_pnl_positions: "position_view (note_pnl now iv) k = position_view iv k"
  by (simp add: note_pnl_def mark_observed_def Let_def position_view_def)

lemma opt_i64_Inr: "opt_i64 v = Inr w \<Longrightarrow> w = v"
  by (auto simp: opt_i64_def to_i64_def split: option.splits if_splits)

lemma apply_change_view:
  "position_view (apply_change key event (position_change_of net) iv) k =
     (if k = key then (case net of None \<Rightarrow> UnknownNet | Some n \<Rightarrow> if n = 0 then NoPosition else OpenNet n) else position_view iv k)"
  by (cases net) (auto simp: apply_change_def position_change_of_def position_view_def split: option.splits)

lemma ingest_position_view:
  assumes "ingest_position event iv = Inr iv'"
  shows "position_view iv' k = (if position_key event = Some k then row_view event else position_view iv k)"
proof (cases "position_key event")
  case (Some key)
  with assms obtain net where "as_int (dget event ''net_quantity'') = Inr net"
    "iv' = apply_change key event (position_change_of net) iv"
    by (auto simp: ingest_position_def bindR_Inr dest!: opt_i64_Inr)
  with Some show ?thesis by (auto simp: apply_change_view row_view_def split: option.splits)
qed (use assms in \<open>auto simp: ingest_position_def\<close>)

lemma ingest_view:
  assumes "ingest event now iv = Inr iv'"
  shows "position_view iv' k = (if decides k event then row_view event else position_view iv k)"
  using assms
  by (auto simp: ingest_def decides_def is_order_row_def note_pnl_positions dest!: ingest_order_positions ingest_position_view
      split: if_splits)

lemma ingest_all_view:
  "ingest_all evs iv = Inr iv' \<Longrightarrow> position_view iv' k =
    (case filter (decides k) (rev (map fst evs)) of [] \<Rightarrow> position_view iv k | event # _ \<Rightarrow> row_view event)"
proof (induction evs arbitrary: iv)
  case (Cons e evs)
  obtain event now where e: "e = (event, now)" by fastforce
  with Cons.prems obtain iv1 where 1: "ingest event now iv = Inr iv1" "ingest_all evs iv1 = Inr iv'" by (auto simp: bindR_Inr)
  from Cons.IH [OF 1(2)] ingest_view [OF 1(1), of k] e show ?case by (auto split: list.splits)
qed simp

text \<open>
  C31: The incremental inventory implements its reference. Reduce any sequence of order and PnL events without
  an exception: for every contract the book then shows exactly what the contract's last position row says
  when read alone (a net, flat or unknown; nothing if there was none), whatever other rows came in between;
  and the inventory claims a live PnL stream only if no contract's last row is unreadable and the stream was
  observed for the settle window.
\<close>

theorem inventory_implements_reference:
  assumes "ingest_all events inventory_new = Inr iv"
  shows "position_view iv k = positions_ref (map fst events) k
     \<and> (pnl_live iv \<longrightarrow> positions_ref (map fst events) k \<noteq> UnknownNet
          \<and> (\<exists>first until. iv_pnl_first_s iv = Some first \<and> iv_observed_until_s iv = Some until
               \<and> float_ge (float_sub until first) PNL_SETTLE_S))"
proof -
  have "position_view inventory_new k = NoPosition" by (simp add: inventory_new_def position_view_def)
  with ingest_all_view [OF assms, of k] have v: "position_view iv k = positions_ref (map fst events) k"
    by (auto simp: positions_ref_def split: list.splits)
  moreover have "position_view iv k \<noteq> UnknownNet" if "iv_unknown_positions iv = []"
    using that by (simp add: position_view_def split: option.splits)
  ultimately show ?thesis by (auto simp: pnl_live_def rs_pnl_live_def split: option.splits)
qed

definition demo_position :: "pyval \<Rightarrow> pydict" where
  "demo_position net = [(''type'', PStr ''instrument_pnl''), (''symbol'', PStr ''NQU6''), (''exchange'', PStr ''CME''), (''net_quantity'', net)]"

definition demo_inventory :: "inventory res" where
  "demo_inventory = ingest_all [(demo_position (PInt 2), Fin 1), (demo_open_row, Fin 2), (demo_position (PStr ''x''), Fin 3),
     (demo_position (PInt (- 3)), Fin 5)] inventory_new"

theorem inventory_implements_reference_witness:
  "(case demo_inventory of Inr iv \<Rightarrow> pnl_live iv \<and> position_view iv ''NQU6.CME'' = OpenNet (- 3)
      \<and> length (working iv) = 1 | Inl _ \<Rightarrow> False)"
proof -
  have f: "case demo_inventory of Inr iv \<Rightarrow> pnl_live iv \<and> length (working iv) = 1 | Inl _ \<Rightarrow> False" by code_simp
  then obtain iv where iv: "demo_inventory = Inr iv" by (auto split: sum.splits)
  have "positions_ref (map fst [(demo_position (PInt 2), Fin 1), (demo_open_row, Fin 2), (demo_position (PStr ''x''), Fin 3),
     (demo_position (PInt (- 3)), Fin 5)]) ''NQU6.CME'' = OpenNet (- 3)" by code_simp
  with inventory_implements_reference [OF iv [unfolded demo_inventory_def], of "''NQU6.CME''"] f show ?thesis unfolding iv sum.case by simp
qed

section \<open>Finished baskets\<close>

definition disjoint_done :: "inventory \<Rightarrow> bool" where
  "disjoint_done iv \<longleftrightarrow> (\<forall>b \<in> set (iv_done_baskets iv). map_of (iv_orders iv) b = None)"

lemma ingest_order_done:
  "ingest_order event iv = Inr iv' \<Longrightarrow> set (iv_done_baskets iv) \<subseteq> set (iv_done_baskets iv')
     \<and> (disjoint_done iv \<longrightarrow> disjoint_done iv')"
  by (erule ingest_order_cases) (auto simp: finish_basket_def keep_order_def disjoint_done_def)

lemma apply_change_orders:
  "iv_done_baskets (apply_change key event c iv) = iv_done_baskets iv" "iv_orders (apply_change key event c iv) = iv_orders iv"
  by (cases c; simp add: apply_change_def)+

lemma ingest_done:
  assumes "ingest event now iv = Inr iv'"
  shows "set (iv_done_baskets iv) \<subseteq> set (iv_done_baskets iv')
     \<and> (disjoint_done iv \<longrightarrow> disjoint_done iv')"
proof (cases "is_order_row event")
  case True
  with assms show ?thesis by (auto simp: ingest_def dest!: ingest_order_done)
next
  case False
  have p: "iv_done_baskets iv2 = iv_done_baskets iv1 \<and> iv_orders iv2 = iv_orders iv1" if "ingest_position event iv1 = Inr iv2" for iv1 iv2
    using that by (auto simp: ingest_position_def bindR_Inr apply_change_orders split: option.splits)
  have n: "iv_done_baskets (note_pnl now iv) = iv_done_baskets iv \<and> iv_orders (note_pnl now iv) = iv_orders iv"
    by (simp add: note_pnl_def mark_observed_def Let_def)
  have "iv_done_baskets iv' = iv_done_baskets iv \<and> iv_orders iv' = iv_orders iv"
    using assms False n by (auto simp: ingest_def dest!: p split: if_splits)
  then show ?thesis by (simp add: disjoint_done_def)
qed

lemma ingest_all_done:
  "ingest_all evs iv = Inr iv' \<Longrightarrow> set (iv_done_baskets iv) \<subseteq> set (iv_done_baskets iv')
     \<and> (disjoint_done iv \<longrightarrow> disjoint_done iv')"
proof (induction evs arbitrary: iv)
  case (Cons e evs)
  obtain event now where e: "e = (event, now)" by fastforce
  with Cons.prems obtain iv1 where "ingest event now iv = Inr iv1" "ingest_all evs iv1 = Inr iv'" by (auto simp: bindR_Inr)
  then show ?case using ingest_done Cons.IH by blast
qed simp

text \<open>
  A finished order never comes back. Once a sequence of events has finished a basket (a terminal row, or
  a fill that is provably complete), no later events (a late status row, a replayed snapshot, a bare
  notification) make it working again: it stays finished and is in no later list of working orders.
\<close>

theorem finished_basket_stays_finished:
  assumes "ingest_all before inventory_new = Inr iv1" "b \<in> set (iv_done_baskets iv1)" "ingest_all later iv1 = Inr iv2"
  shows "b \<in> set (iv_done_baskets iv2) \<and> map_of (iv_orders iv2) b = None"
proof -
  have "disjoint_done iv1" using ingest_all_done [OF assms(1)] by (simp add: inventory_new_def disjoint_done_def)
  with ingest_all_done [OF assms(3)] assms(2) show ?thesis by (auto simp: disjoint_done_def)
qed

end
