(* ===== verification/Market.thy ===== *)
theory Market
  imports Host
begin

text \<open>
  Market data objects of the platform and their construction from converted venue fields (\<open>data.py\<close>,
  first part): trade and quote ticks, and the conversion of a history reply of trades. Constructors that
  validate are a parameter (\<open>md_env\<close>), as in \<open>Nautilus\<close>.

  Trade ids carry a number of a module-level sequence (\<open>itertools.count(1)\<close>). The functions that draw from
  it run on any state that has it (\<open>trade_seq\<close> and its extensions).
\<close>

section \<open>Objects\<close>

datatype aggressor_side = NO_AGGRESSOR | BUYER | SELLER

record trade_tick =
  tt_instrument_id :: string
  tt_price :: nt_price
  tt_size :: int
  tt_aggressor :: aggressor_side
  tt_trade_id :: string
  tt_ts_event :: int
  tt_ts_init :: int

record quote_tick =
  qt_instrument_id :: string
  qt_bid_price :: nt_price
  qt_ask_price :: nt_price
  qt_bid_size :: int
  qt_ask_size :: int
  qt_ts_event :: int
  qt_ts_init :: int

datatype book_action = ADD | UPDATE | DELETE | CLEAR

record book_order =
  bo_side :: order_side
  bo_price :: nt_price
  bo_size :: int
  bo_order_id :: int

record book_delta =
  bd_instrument_id :: string
  bd_action :: book_action
  bd_order :: "book_order option"
  bd_flags :: int
  bd_sequence :: int
  bd_ts_event :: int
  bd_ts_init :: int

record book_deltas =
  bs_instrument_id :: string
  bs_deltas :: "book_delta list"

datatype bar_aggregation =
    TICK | TICK_IMBALANCE | TICK_RUNS | VOLUME | VOLUME_IMBALANCE | VOLUME_RUNS | VALUE | VALUE_IMBALANCE
  | VALUE_RUNS | MILLISECOND | SECOND | MINUTE | HOUR | BAR_DAY | WEEK | MONTH | YEAR | RENKO

record bar_type =
  bt_instrument_id :: string
  bt_step :: int
  bt_aggregation :: bar_aggregation
  bt_price_type :: string
  bt_external :: bool \<comment> \<open>\<open>is_externally_aggregated()\<close>\<close>

record md_bar =
  ba_bar_type :: bar_type
  ba_open :: nt_price
  ba_high :: nt_price
  ba_low :: nt_price
  ba_close :: nt_price
  ba_volume :: int
  ba_ts_event :: int
  ba_ts_init :: int

text \<open>What the data client hands to the engine: live data, and the answer to a request.\<close>

datatype md_item =
    MdInstrument string
  | MdTrade trade_tick
  | MdQuote quote_tick
  | MdBook book_deltas
  | MdBar md_bar
  | MdTradesReply string "trade_tick list" string \<comment> \<open>instrument, ticks, request id\<close>
  | MdBarsReply bar_type "md_bar list" string \<comment> \<open>bar type, bars, request id\<close>

record 'c md_env = "'c nt_env" +
  me_trade_tick :: "trade_tick \<Rightarrow> exn option" \<comment> \<open>what the constructors raise\<close>
  me_quote_tick :: "quote_tick \<Rightarrow> exn option"
  me_bar :: "md_bar \<Rightarrow> exn option"
  me_book_order :: "book_order \<Rightarrow> exn option"
  me_delta :: "book_delta \<Rightarrow> exn option"
  me_deltas :: "book_deltas \<Rightarrow> exn option"
  me_bar_type_str :: "bar_type \<Rightarrow> string" \<comment> \<open>\<open>str(bar_type)\<close>\<close>
  me_agg_repr :: "bar_aggregation \<Rightarrow> string" \<comment> \<open>\<open>repr(aggregation)\<close>\<close>
  me_handle :: "'c \<Rightarrow> md_item \<Rightarrow> exn option \<times> 'c" \<comment> \<open>\<open>_handle_data\<close>, \<open>_handle_trade_ticks\<close>, \<open>_handle_bars\<close>\<close>

record trade_seq =
  sq_next :: int \<comment> \<open>\<open>_TRADE_ID_SEQ\<close>\<close>

section \<open>Ticks\<close>

text \<open>\<open>v in (n, s1, s2, ...)\<close>: numbers compare by value, across types.\<close>

definition val_in :: "pyval \<Rightarrow> int \<Rightarrow> string list \<Rightarrow> bool" where
  "val_in v n ss \<longleftrightarrow> int_eq_val n v \<or> (case v of PStr s \<Rightarrow> s \<in> set ss | _ \<Rightarrow> False)"

definition aggressor :: "pyval \<Rightarrow> aggressor_side res" where
  "aggressor v =
     (if val_in v 1 [''1'', ''BUY'', ''BUYER'', ''bid''] then Inr BUYER
      else if val_in v 2 [''2'', ''SELL'', ''SELLER'', ''ask''] then Inr SELLER
      else if v = PNone then Inr NO_AGGRESSOR
      else Inl (exn_of ValueError (''unknown aggressor value: '' @ py_repr v)))"

definition trade_id :: "('c, 'x) nt_env_scheme \<Rightarrow> trade_fields \<Rightarrow> ('s trade_seq_scheme, exn, string) em" where
  "trade_id env f =
     bindE (getE sq_next) (\<lambda>n.
     thenE (modifyE (sq_next_update (\<lambda>k. k + 1)))
     (let t = int_str (tf_ts_event f) @ ''-'' @ int_str n in liftE (check_opt (ne_id env t) t)))"

definition fields_to_trade_tick :: "('c, 'x) md_env_scheme \<Rightarrow> trade_fields \<Rightarrow> int \<Rightarrow> int option
    \<Rightarrow> ('s trade_seq_scheme, exn, trade_tick) em" where
  "fields_to_trade_tick env f ts_init prec =
     bindE (liftE (py_int (PFloat (tf_size f)))) (\<lambda>sz.
       if sz < 1 then raiseE (exn_of ConvertError (''trade size must be >= 1, got '' @ int_str sz))
       else
         bindE (liftE (ne_instrument_id env (tf_instrument_id f))) (\<lambda>iid.
         bindE (liftE (price_from_wire env (PFloat (tf_price f)) prec)) (\<lambda>px.
         bindE (liftE (check_opt (ne_quantity env sz) sz)) (\<lambda>qty.
         bindE (liftE (aggressor (tf_aggressor f))) (\<lambda>ag.
         bindE (trade_id env f) (\<lambda>tid.
           (let t = \<lparr>tt_instrument_id = iid, tt_price = px, tt_size = qty, tt_aggressor = ag, tt_trade_id = tid,
                     tt_ts_event = tf_ts_event f, tt_ts_init = ts_init\<rparr>
            in liftE (check_opt (me_trade_tick env t) t))))))))"

definition fields_to_quote_tick :: "('c, 'x) md_env_scheme \<Rightarrow> quote_fields \<Rightarrow> int \<Rightarrow> int option \<Rightarrow> quote_tick res" where
  "fields_to_quote_tick env f ts_init prec =
     bindR (py_int (PFloat (qf_bid_size f))) (\<lambda>bsz.
     bindR (py_int (PFloat (qf_ask_size f))) (\<lambda>asz.
       if bsz < 1 \<or> asz < 1 then
         Inl (exn_of ConvertError (''quote sizes must be >= 1, got bid='' @ int_str bsz @ '' ask='' @ int_str asz))
       else
         bindR (ne_instrument_id env (qf_instrument_id f)) (\<lambda>iid.
         bindR (price_from_wire env (PFloat (qf_bid_price f)) prec) (\<lambda>bid.
         bindR (price_from_wire env (PFloat (qf_ask_price f)) prec) (\<lambda>ask.
         bindR (check_opt (ne_quantity env bsz) bsz) (\<lambda>bq.
         bindR (check_opt (ne_quantity env asz) asz) (\<lambda>aq.
           (let q = \<lparr>qt_instrument_id = iid, qt_bid_price = bid, qt_ask_price = ask, qt_bid_size = bq,
                     qt_ask_size = aq, qt_ts_event = qf_ts_event f, qt_ts_init = ts_init\<rparr>
            in check_opt (me_quote_tick env q) q)))))))) "

section \<open>History replies\<close>

text \<open>The integer a \<open>bar_type\<close> field stands for, or \<open>-1\<close>.\<close>

definition rtype_int :: "pyval \<Rightarrow> int" where
  "rtype_int v = (case v of PInt i \<Rightarrow> i
     | PStr s \<Rightarrow> (case parse_int s of Some i \<Rightarrow> i | None \<Rightarrow> -1) | _ \<Rightarrow> -1)"

definition validate_history_identity :: "pydict \<Rightarrow> string \<Rightarrow> string \<Rightarrow> int option \<Rightarrow> unit res" where
  "validate_history_identity d symbol exchange expected_rtype =
     (let raw_symbol = dget d ''symbol''; raw_exchange = dget d ''exchange''; raw_rtype = dget d ''bar_type''
      in if raw_symbol \<noteq> PNone \<and> py_str raw_symbol \<noteq> symbol then
           Inl (exn_of ConvertError (''history symbol mismatch: '' @ py_repr raw_symbol @ '' != '' @ str_repr symbol))
         else if raw_exchange \<noteq> PNone \<and> py_str raw_exchange \<noteq> exchange then
           Inl (exn_of ConvertError (''history exchange mismatch: '' @ py_repr raw_exchange @ '' != '' @ str_repr exchange))
         else case expected_rtype of
           None \<Rightarrow> Inr ()
         | Some expected \<Rightarrow>
             if raw_rtype \<noteq> PNone \<and> rtype_int raw_rtype \<noteq> expected then
               Inl (exn_of ConvertError (''history bar type mismatch: '' @ py_repr raw_rtype @ '' != '' @ int_str expected))
             else Inr ())"

text \<open>The row with the request's symbol and exchange filled in where the venue left them out.\<close>

definition with_identity :: "pydict \<Rightarrow> string \<Rightarrow> string \<Rightarrow> pydict" where
  "with_identity d symbol exchange =
     (let d1 = (if dget d ''symbol'' = PNone then dict_set ''symbol'' (PStr symbol) d else d)
      in if dget d1 ''exchange'' = PNone then dict_set ''exchange'' (PStr exchange) d1 else d1)"

text \<open>
  The loop both replies share: rows are validated, converted by \<open>conv\<close> and collected in order;
  \<open>on_invalid\<close> is the optional callback for a row that does not convert.
\<close>

fun convert_rows :: "(pydict \<Rightarrow> unit res) \<Rightarrow> (pydict \<Rightarrow> ('s, exn, 'a) em) \<Rightarrow> (exn \<Rightarrow> ('s, exn, unit) em) option
    \<Rightarrow> pydict list \<Rightarrow> ('s, exn, 'a list) em" where
  "convert_rows check conv on_invalid [] = returnE []"
| "convert_rows check conv on_invalid (d # ds) =
     thenE (liftE (check d))
     (tryE (conv d)
       (\<lambda>e. if exn_cls e \<noteq> ConvertError then raiseE e
            else case on_invalid of None \<Rightarrow> raiseE e
              | Some f \<Rightarrow> thenE (f e) (convert_rows check conv on_invalid ds))
       (\<lambda>x. bindE (convert_rows check conv on_invalid ds) (\<lambda>xs. returnE (x # xs))))"

definition tick_row :: "('c, 'x) md_env_scheme \<Rightarrow> string \<Rightarrow> string \<Rightarrow> int \<Rightarrow> int \<Rightarrow> pydict
    \<Rightarrow> ('s trade_seq_scheme, exn, trade_tick) em" where
  "tick_row env symbol exchange prec ts_init d =
     bindE (liftE (last_trade_to_fields (with_identity d symbol exchange))) (\<lambda>f.
       fields_to_trade_tick env f ts_init (Some prec))"

definition payloads_to_trade_ticks :: "('c, 'x) md_env_scheme \<Rightarrow> pydict list \<Rightarrow> string \<Rightarrow> string \<Rightarrow> int \<Rightarrow> int
    \<Rightarrow> (exn \<Rightarrow> ('s trade_seq_scheme, exn, unit) em) option \<Rightarrow> ('s trade_seq_scheme, exn, trade_tick list) em" where
  "payloads_to_trade_ticks env raw symbol exchange prec ts_init on_invalid =
     bindE (convert_rows (\<lambda>d. validate_history_identity d symbol exchange None)
              (tick_row env symbol exchange prec ts_init) on_invalid raw)
       (\<lambda>ticks. returnE (sort_key tt_ts_event ticks))"

section \<open>A concrete platform\<close>

definition demo_md_env :: "demo_cache md_env" where
  "demo_md_env = nt_env.extend demo_env (md_env.fields
     (\<lambda>t. demo_check (0 \<le> tt_ts_event t)) (\<lambda>q. demo_check (0 \<le> qt_ts_event q)) (\<lambda>b. demo_check (0 \<le> ba_ts_event b))
     (\<lambda>_. None) (\<lambda>d. demo_check (0 \<le> bd_ts_event d)) (\<lambda>b. demo_check (bs_deltas b \<noteq> []))
     (\<lambda>b. bt_instrument_id b @ ''-'' @ int_str (bt_step b)) (\<lambda>_. ''aggregation'') (\<lambda>c _. (None, c)))"

section \<open>Rows of a history reply\<close>

text \<open>What a loop over pure row conversions returns: the rows that convert, in order.\<close>

lemma convert_rows_pure:
  assumes conv: "\<And>d s. conv d s = (g d, s)" and "convert_rows check conv on_invalid ds s = (Inr xs, s')"
  shows "xs = concat (map (\<lambda>d. case g d of Inr x \<Rightarrow> [x] | Inl _ \<Rightarrow> []) ds) \<and> (\<forall>d \<in> set ds. check d = Inr ())"
  using assms(2)
proof (induction ds arbitrary: xs s)
  case (Cons d ds)
  then have c: "check d = Inr ()" by (auto simp: em_returned)
  show ?case
  proof (cases "g d")
    case (Inl e)
    with Cons.prems obtain f s1 where "on_invalid = Some f" "convert_rows check conv on_invalid ds s1 = (Inr xs, s')"
      by (auto simp: em_returned tryE_def conv [of d s] split: if_splits option.splits)
    then show ?thesis using Cons.IH c Inl by auto
  next
    case (Inr x)
    with Cons.prems obtain ys where "convert_rows check conv on_invalid ds s = (Inr ys, s')" "xs = x # ys"
      by (auto simp: em_returned tryE_def conv [of d s])
    then show ?thesis using Cons.IH c Inr by auto
  qed
qed (simp add: em_returned)

text \<open>
  A row that cannot be read fails the whole history reply. The reply's documentation says that a row that
  cannot be converted is handed to the caller's \<open>on_invalid_row\<close> and skipped; the code does that for its own
  \<open>ConvertError\<close> only. A row whose price, size or time is not a number raises another error, which no callback
  sees: nothing of the reply is delivered, whatever the other rows hold.
\<close>

theorem unreadable_row_fails_the_reply:
  assumes "validate_history_identity d symbol exchange None = Inr ()"
    "last_trade_to_fields (with_identity d symbol exchange) = Inl e" "exn_cls e \<noteq> ConvertError"
  shows "payloads_to_trade_ticks env (d # ds) symbol exchange prec ts_init (Some on_invalid) s = (Inl e, s)"
  using assms by (simp add: payloads_to_trade_ticks_def tick_row_def em_simps)

end
