(* ===== verification/Books.thy ===== *)
theory Books
  imports Market
begin

unbundle bit_operations_syntax

text \<open>
  Order books (\<open>data.py\<close>): venue book messages become delta batches of the platform. \<open>BookAssembler\<close>
  collects the parts of a multi-message update per instrument and emits them together.

  The abstract side is a book as a map from a side and a price key to a size. \<open>venue_step\<close> says what a
  message does to the venue's book, \<open>apply_batch\<close> what a batch does to a consumer's book; the refinement
  theorem relates the two over any well-framed message sequence of any number of instruments.
\<close>

section \<open>Deltas\<close>

definition F_LAST :: int where "F_LAST = 128"
definition F_SNAPSHOT :: int where "F_SNAPSHOT = 32"
definition F_SNAPSHOT_LAST :: int where "F_SNAPSHOT_LAST = F_SNAPSHOT OR F_LAST"

definition book_delta_of :: "('c, 'x) md_env_scheme \<Rightarrow> string \<Rightarrow> book_action \<Rightarrow> book_order option \<Rightarrow> int \<Rightarrow> int \<Rightarrow> int
    \<Rightarrow> book_delta res" where
  "book_delta_of env iid action order flags ts_event ts_init =
     (let d = \<lparr>bd_instrument_id = iid, bd_action = action, bd_order = order, bd_flags = flags, bd_sequence = 0,
               bd_ts_event = ts_event, bd_ts_init = ts_init\<rparr>
      in check_opt (me_delta env d) d)"

definition deltas_of :: "('c, 'x) md_env_scheme \<Rightarrow> string \<Rightarrow> book_delta list \<Rightarrow> book_deltas res" where
  "deltas_of env iid ds =
     (let b = \<lparr>bs_instrument_id = iid, bs_deltas = ds\<rparr> in check_opt (me_deltas env b) b)"

definition level_order :: "('c, 'x) md_env_scheme \<Rightarrow> int option \<Rightarrow> book_level \<Rightarrow> int \<Rightarrow> book_order res" where
  "level_order env prec l sz =
     bindR (price_from_wire env (PFloat (bl_price l)) prec) (\<lambda>px.
     bindR (check_opt (ne_quantity env sz) sz) (\<lambda>q.
       (let b = \<lparr>bo_side = (if bl_side l = ''BUY'' then BUY else SELL), bo_price = px, bo_size = q,
                 bo_order_id = bl_order_id l\<rparr>
        in check_opt (me_book_order env b) b)))"

definition level_size :: "book_level \<Rightarrow> int res" where
  "level_size l =
     bindR (py_int (PFloat (bl_size l))) (\<lambda>sz.
       if sz < 0 then Inl (exn_of ConvertError (''order book level size must be >= 0, got '' @ int_str sz)) else Inr sz)"

text \<open>The orders of a snapshot: one per level with a size.\<close>

fun snapshot_orders :: "('c, 'x) md_env_scheme \<Rightarrow> int option \<Rightarrow> book_level list \<Rightarrow> book_order list res" where
  "snapshot_orders env prec [] = Inr []"
| "snapshot_orders env prec (l # ls) =
     bindR (level_size l) (\<lambda>sz.
       if sz = 0 then snapshot_orders env prec ls
       else bindR (level_order env prec l sz) (\<lambda>b.
            bindR (snapshot_orders env prec ls) (\<lambda>bs. Inr (b # bs))))"

text \<open>The additions of a snapshot: the last one closes the batch.\<close>

fun add_deltas :: "('c, 'x) md_env_scheme \<Rightarrow> string \<Rightarrow> int \<Rightarrow> int \<Rightarrow> book_order list \<Rightarrow> book_delta list res" where
  "add_deltas env iid ts_event ts_init [] = Inr []"
| "add_deltas env iid ts_event ts_init (b # bs) =
     bindR (book_delta_of env iid ADD (Some b) (if bs = [] then F_SNAPSHOT_LAST else F_SNAPSHOT) ts_event ts_init) (\<lambda>d.
     bindR (add_deltas env iid ts_event ts_init bs) (\<lambda>ds. Inr (d # ds)))"

definition fields_to_order_book_deltas :: "('c, 'x) md_env_scheme \<Rightarrow> order_book_fields \<Rightarrow> int \<Rightarrow> int option
    \<Rightarrow> book_deltas res" where
  "fields_to_order_book_deltas env f ts_init prec =
     bindR (ne_instrument_id env (ob_instrument_id f)) (\<lambda>iid.
     bindR (snapshot_orders env prec (ob_levels f)) (\<lambda>adds.
       if adds = [] then
         bindR (book_delta_of env iid CLEAR None F_SNAPSHOT_LAST (ob_ts_event f) ts_init) (\<lambda>d. deltas_of env iid [d])
       else
         bindR (book_delta_of env iid CLEAR None F_SNAPSHOT (ob_ts_event f) ts_init) (\<lambda>d.
         bindR (add_deltas env iid (ob_ts_event f) ts_init adds) (\<lambda>ds. deltas_of env iid (d # ds)))))"

definition level_delta :: "('c, 'x) md_env_scheme \<Rightarrow> int option \<Rightarrow> string \<Rightarrow> int \<Rightarrow> int \<Rightarrow> book_level \<Rightarrow> book_delta res" where
  "level_delta env prec iid ts_event ts_init l =
     bindR (level_size l) (\<lambda>sz.
     bindR (level_order env prec l sz) (\<lambda>b.
       book_delta_of env iid (if sz = 0 then DELETE else UPDATE) (Some b) 0 ts_event ts_init))"

fun level_deltas :: "('c, 'x) md_env_scheme \<Rightarrow> int option \<Rightarrow> string \<Rightarrow> int \<Rightarrow> int \<Rightarrow> book_level list \<Rightarrow> book_delta list res" where
  "level_deltas env prec iid ts_event ts_init [] = Inr []"
| "level_deltas env prec iid ts_event ts_init (l # ls) =
     bindR (level_delta env prec iid ts_event ts_init l) (\<lambda>d.
     bindR (level_deltas env prec iid ts_event ts_init ls) (\<lambda>ds. Inr (d # ds)))"

definition changed_levels :: "('c, 'x) md_env_scheme \<Rightarrow> order_book_fields \<Rightarrow> int \<Rightarrow> int option \<Rightarrow> book_delta list res" where
  "changed_levels env f ts_init prec =
     bindR (ne_instrument_id env (ob_instrument_id f)) (\<lambda>iid.
       level_deltas env prec iid (ob_ts_event f) ts_init (ob_levels f))"

text \<open>\<open>deltas[-1]\<close> of an empty list raises; the callers never pass one.\<close>

definition closed_batch :: "('c, 'x) md_env_scheme \<Rightarrow> string \<Rightarrow> book_delta list \<Rightarrow> book_deltas res" where
  "closed_batch env iid ds =
     (if ds = [] then Inl (exn_of IndexError ''list index out of range'')
      else let d = last ds; d' = d\<lparr>bd_flags := bd_flags d OR F_LAST\<rparr>
           in bindR (check_opt (me_delta env d') d') (\<lambda>d'. deltas_of env iid (butlast ds @ [d'])))"

section \<open>The assembler\<close>

type_synonym pending = "(string \<times> book_delta list) list"

definition assembler_new :: pending where "assembler_new = []"

definition assembler_reset :: "pending \<Rightarrow> pending" where "assembler_reset p = []"

definition pending_of :: "string \<Rightarrow> pending \<Rightarrow> book_delta list" where
  "pending_of key p = (case map_of p key of None \<Rightarrow> [] | Some ds \<Rightarrow> ds)"

text \<open>The deltas an update completes: nothing yet inside a multi-message update.\<close>

definition collect :: "string \<Rightarrow> string \<Rightarrow> book_delta list \<Rightarrow> (pending, exn, book_delta list) em" where
  "collect kind key changed =
     (if kind = ''begin'' then thenE (modifyE (dict_set key changed)) (returnE [])
      else if kind = ''middle'' then thenE (modifyE (\<lambda>p. dict_set key (pending_of key p @ changed) p)) (returnE [])
      else if kind = ''end'' then
        bindE (getE (pending_of key)) (\<lambda>ds. thenE (modifyE (dict_pop key)) (returnE (ds @ changed)))
      else returnE changed)"

definition assembler_feed :: "('c, 'x) md_env_scheme \<Rightarrow> order_book_fields \<Rightarrow> int \<Rightarrow> int option
    \<Rightarrow> (pending, exn, book_deltas option) em" where
  "assembler_feed env f ts_init prec =
     (let key = ob_instrument_id f; kind = ob_update_kind f
      in bindE (liftE (ne_instrument_id env key)) (\<lambda>iid.
         if kind = ''snapshot'' then
           thenE (modifyE (dict_pop key))
           (bindE (liftE (fields_to_order_book_deltas env f ts_init prec)) (\<lambda>b. returnE (Some b)))
         else if kind = ''clear'' \<or> kind = ''no_book'' then
           thenE (modifyE (dict_pop key))
           (bindE (liftE (book_delta_of env iid CLEAR None F_SNAPSHOT_LAST (ob_ts_event f) ts_init)) (\<lambda>d.
            bindE (liftE (deltas_of env iid [d])) (\<lambda>b. returnE (Some b))))
         else
           bindE (liftE (changed_levels env f ts_init prec)) (\<lambda>changed.
           bindE (collect kind key changed) (\<lambda>ds.
             if ds = [] then returnE None
             else bindE (liftE (closed_batch env iid ds)) (\<lambda>b. returnE (Some b))))))"

section \<open>Books\<close>

type_synonym 'k book = "order_side \<times> 'k \<Rightarrow> int option"

text \<open>A consumer's book, keyed by a function \<open>pk\<close> of the price.\<close>

definition order_key :: "(nt_price \<Rightarrow> 'k) \<Rightarrow> book_order \<Rightarrow> order_side \<times> 'k" where
  "order_key pk b = (bo_side b, pk (bo_price b))"

definition put_order :: "(nt_price \<Rightarrow> 'k) \<Rightarrow> book_order \<Rightarrow> 'k book \<Rightarrow> 'k book" where
  "put_order pk b m = m(order_key pk b \<mapsto> bo_size b)"

definition apply_delta :: "(nt_price \<Rightarrow> 'k) \<Rightarrow> book_delta \<Rightarrow> 'k book \<Rightarrow> 'k book" where
  "apply_delta pk d m =
     (case (bd_action d, bd_order d) of
        (CLEAR, _) \<Rightarrow> Map.empty
      | (_, None) \<Rightarrow> m
      | (DELETE, Some b) \<Rightarrow> m(order_key pk b := None)
      | (_, Some b) \<Rightarrow> put_order pk b m)"

definition apply_deltas :: "(nt_price \<Rightarrow> 'k) \<Rightarrow> book_delta list \<Rightarrow> 'k book \<Rightarrow> 'k book" where
  "apply_deltas pk ds m = fold (apply_delta pk) ds m"

definition apply_batch :: "(nt_price \<Rightarrow> 'k) \<Rightarrow> book_deltas option \<Rightarrow> 'k book \<Rightarrow> 'k book" where
  "apply_batch pk b m = (case b of None \<Rightarrow> m | Some b \<Rightarrow> apply_deltas pk (bs_deltas b) m)"

text \<open>The venue's book: a level of a message sets the size at its price, zero removes it.\<close>

definition venue_level :: "('c, 'x) md_env_scheme \<Rightarrow> (nt_price \<Rightarrow> 'k) \<Rightarrow> int option \<Rightarrow> book_level \<Rightarrow> 'k book \<Rightarrow> 'k book" where
  "venue_level env pk prec l m =
     (case (level_size l, price_from_wire env (PFloat (bl_price l)) prec) of
        (Inr sz, Inr px) \<Rightarrow> m((if bl_side l = ''BUY'' then BUY else SELL, pk px) := (if sz = 0 then None else Some sz))
      | _ \<Rightarrow> m)"

definition venue_step :: "('c, 'x) md_env_scheme \<Rightarrow> (nt_price \<Rightarrow> 'k) \<Rightarrow> order_book_fields \<Rightarrow> int option \<Rightarrow> 'k book \<Rightarrow> 'k book" where
  "venue_step env pk f prec m =
     (let kind = ob_update_kind f
      in if kind = ''snapshot'' then fold (venue_level env pk prec) (filter (\<lambda>l. level_size l \<noteq> Inr 0) (ob_levels f)) Map.empty
         else if kind = ''clear'' \<or> kind = ''no_book'' then Map.empty
         else fold (venue_level env pk prec) (ob_levels f) m)"

text \<open>Messages with the time and the precision they are handled with; the batches they produce, by instrument.\<close>

type_synonym book_msg = "order_book_fields \<times> int \<times> int option"

fun feed_all :: "('c, 'x) md_env_scheme \<Rightarrow> book_msg list \<Rightarrow> (pending, exn, (string \<times> book_deltas option) list) em" where
  "feed_all env [] = returnE []"
| "feed_all env ((f, ts_init, prec) # ms) =
     bindE (assembler_feed env f ts_init prec) (\<lambda>b.
     bindE (feed_all env ms) (\<lambda>bs. returnE ((ob_instrument_id f, b) # bs)))"

definition consumer_book :: "(nt_price \<Rightarrow> 'k) \<Rightarrow> string \<Rightarrow> (string \<times> book_deltas option) list \<Rightarrow> 'k book \<Rightarrow> 'k book" where
  "consumer_book pk key outs m = fold (\<lambda>(k, b). if k = key then apply_batch pk b else id) outs m"

definition venue_book :: "('c, 'x) md_env_scheme \<Rightarrow> (nt_price \<Rightarrow> 'k) \<Rightarrow> string \<Rightarrow> book_msg list \<Rightarrow> 'k book \<Rightarrow> 'k book" where
  "venue_book env pk key ms m =
     fold (\<lambda>(f, _, prec). if ob_instrument_id f = key then venue_step env pk f prec else id) ms m"

text \<open>
  Framing of one instrument's messages: inside an open multi-message update no new update begins and no
  solo update comes. The first argument says whether an update is open; \<open>open_after\<close> is the same at the end.
\<close>

definition still_open :: "string \<Rightarrow> bool" where
  "still_open kind \<longleftrightarrow> kind = ''begin'' \<or> kind = ''middle''"

definition needs_closed :: "string \<Rightarrow> bool" where
  "needs_closed kind \<longleftrightarrow> kind \<notin> set [''snapshot'', ''clear'', ''no_book'', ''middle'', ''end'']"

fun framed :: "bool \<Rightarrow> string list \<Rightarrow> bool" where
  "framed opn [] = True"
| "framed opn (k # ks) = ((opn \<longrightarrow> \<not> needs_closed k) \<and> framed (still_open k) ks)"

definition open_after :: "string list \<Rightarrow> bool" where
  "open_after ks = (ks \<noteq> [] \<and> still_open (last ks))"

definition kinds_of :: "string \<Rightarrow> book_msg list \<Rightarrow> string list" where
  "kinds_of key ms = map (\<lambda>(f, _, _). ob_update_kind f) (filter (\<lambda>(f, _, _). ob_instrument_id f = key) ms)"

section \<open>Levels and deltas agree\<close>

lemma apply_deltas_simps [simp]:
  "apply_deltas pk [] m = m" "apply_deltas pk (d # ds) m = apply_deltas pk ds (apply_delta pk d m)"
  "apply_deltas pk (ds @ es) m = apply_deltas pk es (apply_deltas pk ds m)"
  by (simp_all add: apply_deltas_def)

lemma apply_delta_flags [simp]: "apply_delta pk (d\<lparr>bd_flags := fl\<rparr>) m = apply_delta pk d m"
  by (simp add: apply_delta_def)

lemma book_delta_of_Inr:
  "book_delta_of env iid action order flags te ti = Inr d \<Longrightarrow>
     bd_action d = action \<and> bd_order d = order \<and> bd_flags d = flags"
  by (auto simp: book_delta_of_def Let_def)

lemma deltas_of_Inr: "deltas_of env iid ds = Inr b \<Longrightarrow> bs_deltas b = ds"
  by (auto simp: deltas_of_def Let_def)

lemma level_order_Inr:
  assumes "level_order env prec l sz = Inr b" "level_size l = Inr sz"
  shows "bo_size b = sz"
    "venue_level env pk prec l m = m(order_key pk b := (if sz = 0 then None else Some sz))"
  using assms by (auto simp: level_order_def bindR_eq_Inr_iff Let_def venue_level_def order_key_def)

lemma level_delta_apply:
  assumes "level_delta env prec iid te ti l = Inr d"
  shows "apply_delta pk d m = venue_level env pk prec l m" "bd_flags d = 0" "bd_action d \<noteq> CLEAR"
proof -
  from assms obtain sz b where sz: "level_size l = Inr sz" and b: "level_order env prec l sz = Inr b"
    and d: "book_delta_of env iid (if sz = 0 then DELETE else UPDATE) (Some b) 0 te ti = Inr d"
    by (auto simp: level_delta_def bindR_eq_Inr_iff)
  show "apply_delta pk d m = venue_level env pk prec l m"
    using book_delta_of_Inr [OF d] level_order_Inr(1) [OF b sz]
    by (simp add: apply_delta_def put_order_def level_order_Inr(2) [OF b sz])
  show "bd_flags d = 0" "bd_action d \<noteq> CLEAR" using book_delta_of_Inr [OF d] by (auto split: if_splits)
qed

lemma level_deltas_apply:
  "level_deltas env prec iid te ti ls = Inr ds \<Longrightarrow>
     apply_deltas pk ds m = fold (venue_level env pk prec) ls m \<and> list_all (\<lambda>d. bd_flags d = 0 \<and> bd_action d \<noteq> CLEAR) ds"
  by (induction ls arbitrary: ds m) (fastforce simp: bindR_eq_Inr_iff level_delta_apply)+

lemma changed_levels_apply:
  assumes "changed_levels env f ti prec = Inr ds"
  shows "apply_deltas pk ds m = fold (venue_level env pk prec) (ob_levels f) m"
    "list_all (\<lambda>d. bd_flags d = 0 \<and> bd_action d \<noteq> CLEAR) ds"
  using assms by (auto simp: changed_levels_def bindR_eq_Inr_iff level_deltas_apply)

lemma add_deltas_apply:
  assumes "add_deltas env iid te ti bs = Inr ds"
  shows "apply_deltas pk ds m = fold (put_order pk) bs m"
    "bs \<noteq> [] \<Longrightarrow> map bd_flags ds = replicate (length bs - 1) F_SNAPSHOT @ [F_SNAPSHOT_LAST]"
    "list_all (\<lambda>d. bd_action d = ADD) ds"
  using assms
proof (induction bs arbitrary: ds m)
  case (Cons b bs)
  {
    case 1
    then show ?case using Cons.IH by (auto simp: bindR_eq_Inr_iff apply_delta_def dest: book_delta_of_Inr)
  next
    case 2
    then show ?case using Cons.IH(2)
      by (cases bs) (auto simp: bindR_eq_Inr_iff dest: book_delta_of_Inr)
  next
    case 3
    then show ?case using Cons.IH by (auto simp: bindR_eq_Inr_iff dest: book_delta_of_Inr)
  }
qed simp_all

lemma snapshot_orders_apply:
  "snapshot_orders env prec ls = Inr bs \<Longrightarrow>
     fold (put_order pk) bs m
       = fold (venue_level env pk prec) (filter (\<lambda>l. level_size l \<noteq> Inr 0) ls) m"
proof (induction ls arbitrary: bs m)
  case (Cons l ls)
  then obtain sz where sz: "level_size l = Inr sz" by (auto simp: bindR_eq_Inr_iff)
  show ?case
  proof (cases "sz = 0")
    case True
    with Cons sz show ?thesis by simp
  next
    case False
    with Cons.prems sz obtain b bs' where b: "level_order env prec l sz = Inr b"
      and bs: "snapshot_orders env prec ls = Inr bs'" "bs = b # bs'"
      by (auto simp: bindR_eq_Inr_iff)
    have "put_order pk b m = venue_level env pk prec l m"
      using False level_order_Inr(1) [OF b sz] by (simp add: put_order_def level_order_Inr(2) [OF b sz])
    then show ?thesis using Cons.IH [OF bs(1)] False by (simp add: bs(2) sz)
  qed
qed simp

section \<open>The assembler follows the venue\<close>

lemma snapshot_apply:
  assumes "fields_to_order_book_deltas env f ti prec = Inr b"
  shows "apply_deltas pk (bs_deltas b) m
     = fold (venue_level env pk prec) (filter (\<lambda>l. level_size l \<noteq> Inr 0) (ob_levels f)) Map.empty"
proof -
  from assms obtain iid adds where adds: "snapshot_orders env prec (ob_levels f) = Inr adds"
    and b: "(if adds = [] then
         bindR (book_delta_of env iid CLEAR None F_SNAPSHOT_LAST (ob_ts_event f) ti) (\<lambda>d. deltas_of env iid [d])
       else bindR (book_delta_of env iid CLEAR None F_SNAPSHOT (ob_ts_event f) ti) (\<lambda>d.
         bindR (add_deltas env iid (ob_ts_event f) ti adds) (\<lambda>ds. deltas_of env iid (d # ds)))) = Inr b"
    by (auto simp: fields_to_order_book_deltas_def bindR_eq_Inr_iff)
  have "apply_deltas pk (bs_deltas b) m = fold (put_order pk) adds Map.empty"
    using b by (auto simp: bindR_eq_Inr_iff apply_delta_def add_deltas_apply(1) dest!: book_delta_of_Inr deltas_of_Inr
        split: if_splits)
  then show ?thesis by (simp only: snapshot_orders_apply [OF adds])
qed

lemma closed_batch_apply:
  assumes "closed_batch env iid ds = Inr b"
  shows "apply_deltas pk (bs_deltas b) m = apply_deltas pk ds m"
proof -
  from assms have "ds \<noteq> []" and b: "bs_deltas b = butlast ds @ [(last ds)\<lparr>bd_flags := bd_flags (last ds) OR F_LAST\<rparr>]"
    by (auto simp: closed_batch_def Let_def bindR_eq_Inr_iff dest!: deltas_of_Inr split: if_splits)
  have "apply_deltas pk ds m = apply_deltas pk (butlast ds @ [last ds]) m" using \<open>ds \<noteq> []\<close> by simp
  then show ?thesis by (simp only: b apply_deltas_simps apply_delta_flags)
qed

text \<open>What one message does, by its kind.\<close>

lemma feed_image:
  assumes "assembler_feed env f ti prec p = (Inr b, p')" "ob_update_kind f \<in> set [''snapshot'', ''clear'', ''no_book'']"
  shows "p' = dict_pop (ob_instrument_id f) p" "apply_batch pk b m = venue_step env pk f prec m'"
  using assms by (auto simp: assembler_feed_def Let_def em_returned venue_step_def apply_batch_def snapshot_apply
      apply_delta_def split: if_splits dest!: book_delta_of_Inr deltas_of_Inr)

lemma feed_update:
  assumes "assembler_feed env f ti prec p = (Inr b, p')" "ob_update_kind f \<notin> set [''snapshot'', ''clear'', ''no_book'']"
  obtains iid changed ds where "changed_levels env f ti prec = Inr changed"
    "collect (ob_update_kind f) (ob_instrument_id f) changed p = (Inr ds, p')"
    "(ds = [] \<and> b = None) \<or> (ds \<noteq> [] \<and> (\<exists>x. closed_batch env iid ds = Inr x \<and> b = Some x))"
proof -
  from assms obtain iid changed ds where *: "changed_levels env f ti prec = Inr changed"
    "collect (ob_update_kind f) (ob_instrument_id f) changed p = (Inr ds, p')"
    "(if ds = [] then returnE None else bindE (liftE (closed_batch env iid ds)) (\<lambda>b. returnE (Some b))) p' = (Inr b, p')"
    by (auto simp: assembler_feed_def Let_def em_returned split: if_splits)
  from *(3) have "(ds = [] \<and> b = None) \<or> (ds \<noteq> [] \<and> (\<exists>x. closed_batch env iid ds = Inr x \<and> b = Some x))"
    by (auto simp: em_returned split: if_splits)
  with *(1,2) show thesis by (rule that)
qed

lemma venue_step_update:
  "ob_update_kind f \<notin> set [''snapshot'', ''clear'', ''no_book''] \<Longrightarrow>
     venue_step env pk f prec m = fold (venue_level env pk prec) (ob_levels f) m"
  by (simp add: venue_step_def Let_def)

lemma collect_spec:
  assumes "collect kind key changed p = (Inr ds, p')" "pending_of key p \<noteq> [] \<longrightarrow> \<not> needs_closed kind"
    "kind \<notin> set [''snapshot'', ''clear'', ''no_book'']"
  shows "ds @ pending_of key p' = pending_of key p @ changed" "pending_of key p' \<noteq> [] \<longrightarrow> still_open kind"
  using assms by (auto simp: collect_def em_returned needs_closed_def still_open_def pending_of_def split: if_splits)

text \<open>The simulation step for the message's own instrument.\<close>

lemma feed_simulates:
  assumes fd: "assembler_feed env f ti prec p = (Inr b, p')" and ok: "pending_of (ob_instrument_id f) p \<noteq> [] \<longrightarrow> \<not> needs_closed (ob_update_kind f)"
    and sim: "apply_deltas pk (pending_of (ob_instrument_id f) p) m = v"
  shows "apply_deltas pk (pending_of (ob_instrument_id f) p') (apply_batch pk b m) = venue_step env pk f prec v
    \<and> (pending_of (ob_instrument_id f) p' \<noteq> [] \<longrightarrow> still_open (ob_update_kind f))"
proof (cases "ob_update_kind f \<in> set [''snapshot'', ''clear'', ''no_book'']")
  case True
  then show ?thesis using feed_image [OF fd True] by (simp add: pending_of_def)
next
  case False
  from fd False obtain iid changed ds where ch: "changed_levels env f ti prec = Inr changed"
    and co: "collect (ob_update_kind f) (ob_instrument_id f) changed p = (Inr ds, p')"
    and b: "(ds = [] \<and> b = None) \<or> (ds \<noteq> [] \<and> (\<exists>x. closed_batch env iid ds = Inr x \<and> b = Some x))"
    by (rule feed_update)
  have "apply_batch pk b m = apply_deltas pk ds m"
    using b by (auto simp: apply_batch_def closed_batch_apply)
  then have "apply_deltas pk (pending_of (ob_instrument_id f) p') (apply_batch pk b m)
      = apply_deltas pk (ds @ pending_of (ob_instrument_id f) p') m" by simp
  also have "\<dots> = apply_deltas pk changed v"
    using sim by (simp only: collect_spec(1) [OF co ok False] apply_deltas_simps)
  also have "\<dots> = venue_step env pk f prec v"
    by (simp only: changed_levels_apply(1) [OF ch] venue_step_update [OF False])
  finally show ?thesis using collect_spec(2) [OF co ok False] by simp
qed

lemma feed_other:
  assumes "assembler_feed env f ti prec p = (Inr b, p')" "key \<noteq> ob_instrument_id f"
  shows "pending_of key p' = pending_of key p"
  using assms by (auto simp: assembler_feed_def collect_def Let_def em_returned pending_of_def split: if_splits)

lemma feed_all_simulates:
  assumes "feed_all env ms p = (Inr outs, p')" "framed opn (kinds_of key ms)"
    "pending_of key p \<noteq> [] \<longrightarrow> opn" "apply_deltas pk (pending_of key p) m = v"
  shows "apply_deltas pk (pending_of key p') (consumer_book pk key outs m) = venue_book env pk key ms v
    \<and> (pending_of key p' \<noteq> [] \<longrightarrow> (if kinds_of key ms = [] then opn else open_after (kinds_of key ms)))"
  using assms
proof (induction env ms arbitrary: p opn m v outs rule: feed_all.induct)
  case (1 env)
  then show ?case by (auto simp: em_returned consumer_book_def venue_book_def kinds_of_def)
next
  case (2 env f ti prec ms)
  from 2(2) obtain b p1 bs where fd: "assembler_feed env f ti prec p = (Inr b, p1)" and rest: "feed_all env ms p1 = (Inr bs, p')"
    and outs: "outs = (ob_instrument_id f, b) # bs" by (auto simp: em_returned)
  show ?case
  proof (cases "ob_instrument_id f = key")
    case True
    then have kinds: "kinds_of key ((f, ti, prec) # ms) = ob_update_kind f # kinds_of key ms"
      by (simp add: kinds_of_def)
    have ok: "pending_of (ob_instrument_id f) p \<noteq> [] \<longrightarrow> \<not> needs_closed (ob_update_kind f)"
      and fr: "framed (still_open (ob_update_kind f)) (kinds_of key ms)"
      using 2(3,4) True by (auto simp: kinds)
    note st = feed_simulates [OF fd ok, of pk m v] 
    have "apply_deltas pk (pending_of key p1) (apply_batch pk b m) = venue_step env pk f prec v"
      "pending_of key p1 \<noteq> [] \<longrightarrow> still_open (ob_update_kind f)" using st 2(5) True by auto
    from 2(1) [OF rest fr this(2,1)] show ?thesis
      by (auto simp: outs True kinds consumer_book_def venue_book_def open_after_def)
  next
    case False
    then have kinds: "kinds_of key ((f, ti, prec) # ms) = kinds_of key ms" by (simp add: kinds_of_def)
    have "pending_of key p1 = pending_of key p" using feed_other [OF fd] False by metis
    with 2(1) [OF rest, of opn m v] 2(3-5) show ?thesis
      using False by (simp add: outs kinds consumer_book_def venue_book_def)
  qed
qed

section \<open>Closing flags\<close>

definition has_flag :: "int \<Rightarrow> book_delta \<Rightarrow> bool" where
  "has_flag fl d \<longleftrightarrow> bd_flags d AND fl \<noteq> 0"

text \<open>
  A well-formed batch: only its last delta is marked last, and its deltas are marked as a snapshot exactly
  when it starts by clearing the book.
\<close>

definition well_closed :: "book_deltas \<Rightarrow> bool" where
  "well_closed b \<longleftrightarrow>
     (let ds = bs_deltas b
      in ds \<noteq> [] \<and> map (has_flag F_LAST) ds = replicate (length ds - 1) False @ [True]
         \<and> list_all (\<lambda>d. has_flag F_SNAPSHOT d \<longleftrightarrow> bd_action (hd ds) = CLEAR) ds
         \<and> list_all (\<lambda>d. bd_action d \<noteq> CLEAR) (tl ds))"

lemmas flag_defs = has_flag_def F_LAST_def F_SNAPSHOT_def F_SNAPSHOT_LAST_def

lemma has_flag_cong: "bd_flags d = fl \<Longrightarrow> has_flag k d \<longleftrightarrow> fl AND k \<noteq> 0"
  by (simp add: has_flag_def)

lemma add_deltas_flags:
  assumes "add_deltas env iid te ti bs = Inr ds" "bs \<noteq> []"
  shows "map (has_flag F_LAST) ds = replicate (length ds - 1) False @ [True]" "list_all (has_flag F_SNAPSHOT) ds" "ds \<noteq> []"
proof -
  have fl: "map bd_flags ds = replicate (length bs - 1) F_SNAPSHOT @ [F_SNAPSHOT_LAST]"
    using add_deltas_apply(2) [OF assms] .
  have len: "length bs - 1 = length ds - 1" using arg_cong [OF fl, of length] by simp
  have hf: "map (has_flag k) ds = map (\<lambda>fl. fl AND k \<noteq> 0) (map bd_flags ds)" for k by (simp add: has_flag_def)
  show "map (has_flag F_LAST) ds = replicate (length ds - 1) False @ [True]"
    unfolding hf fl len [symmetric] by (simp add: flag_defs)
  have "list_all id (map (has_flag F_SNAPSHOT) ds)" unfolding hf fl by (simp add: flag_defs list_all_length nth_append)
  then show "list_all (has_flag F_SNAPSHOT) ds" by (simp add: list_all_length)
  show "ds \<noteq> []" using fl by auto
qed

lemma clear_well_closed:
  "book_delta_of env iid CLEAR None F_SNAPSHOT_LAST te ti = Inr d \<Longrightarrow> deltas_of env iid [d] = Inr b \<Longrightarrow> well_closed b"
  by (auto simp: well_closed_def flag_defs dest!: book_delta_of_Inr deltas_of_Inr)

lemma snapshot_well_closed:
  assumes "fields_to_order_book_deltas env f ti prec = Inr b"
  shows "well_closed b"
proof -
  from assms obtain iid adds where
    b: "(if adds = [] then
         bindR (book_delta_of env iid CLEAR None F_SNAPSHOT_LAST (ob_ts_event f) ti) (\<lambda>d. deltas_of env iid [d])
       else bindR (book_delta_of env iid CLEAR None F_SNAPSHOT (ob_ts_event f) ti) (\<lambda>d.
         bindR (add_deltas env iid (ob_ts_event f) ti adds) (\<lambda>ds. deltas_of env iid (d # ds)))) = Inr b"
    by (auto simp: fields_to_order_book_deltas_def bindR_eq_Inr_iff)
  show ?thesis
  proof (cases "adds = []")
    case True
    then show ?thesis using b by (auto simp: bindR_eq_Inr_iff intro: clear_well_closed)
  next
    case False
    with b obtain d ds where d: "book_delta_of env iid CLEAR None F_SNAPSHOT (ob_ts_event f) ti = Inr d"
      and ds: "add_deltas env iid (ob_ts_event f) ti adds = Inr ds" and bs: "bs_deltas b = d # ds"
      by (auto simp: bindR_eq_Inr_iff dest!: deltas_of_Inr)
    have d': "\<not> has_flag F_LAST d" "has_flag F_SNAPSHOT d" "bd_action d = CLEAR"
      using book_delta_of_Inr [OF d] by (auto simp: flag_defs)
    obtain n where "length ds = Suc n" using add_deltas_flags(3) [OF ds False] by (cases ds) auto
    then show ?thesis
      using add_deltas_flags [OF ds False] add_deltas_apply(3) [OF ds] d'
      by (auto simp: well_closed_def bs list_all_iff)
  qed
qed

definition plain :: "book_delta \<Rightarrow> bool" where
  "plain d \<longleftrightarrow> bd_flags d = 0 \<and> bd_action d \<noteq> CLEAR"

lemma closed_batch_well_closed:
  assumes "closed_batch env iid ds = Inr b" "list_all plain ds"
  shows "well_closed b"
proof -
  let ?e = "(last ds)\<lparr>bd_flags := bd_flags (last ds) OR F_LAST\<rparr>"
  from assms(1) have ne: "ds \<noteq> []" and b: "bs_deltas b = butlast ds @ [?e]"
    by (auto simp: closed_batch_def Let_def bindR_eq_Inr_iff dest!: deltas_of_Inr split: if_splits)
  have "plain (last ds)" using assms(2) ne by (simp add: list_all_iff)
  then have e: "has_flag F_LAST ?e" "\<not> has_flag F_SNAPSHOT ?e" "bd_action ?e \<noteq> CLEAR"
    by (simp_all add: plain_def flag_defs)
  have bl: "list_all plain (butlast ds)" using assms(2) by (auto simp: list_all_iff dest: in_set_butlastD)
  then have "map (has_flag F_LAST) (butlast ds) = replicate (length (butlast ds)) False"
    by (intro nth_equalityI) (auto simp: list_all_length plain_def has_flag_def)
  moreover have "list_all (\<lambda>d. \<not> has_flag F_SNAPSHOT d \<and> bd_action d \<noteq> CLEAR) (butlast ds)"
    using bl by (auto simp: list_all_iff plain_def has_flag_def)
  ultimately show ?thesis
    using e by (cases "butlast ds") (auto simp: well_closed_def b list_all_iff)
qed

definition pending_plain :: "pending \<Rightarrow> bool" where
  "pending_plain p \<longleftrightarrow> (\<forall>key. list_all plain (pending_of key p))"

lemma collect_plain:
  assumes "collect kind key changed p = (Inr ds, p')" "pending_plain p" "list_all plain changed"
  shows "pending_plain p'" "list_all plain ds"
  using assms by (auto simp: collect_def em_returned pending_plain_def pending_of_def split: if_splits)

lemma feed_well_closed:
  assumes "assembler_feed env f ti prec p = (Inr b, p')" "pending_plain p"
  shows "pending_plain p' \<and> (case b of None \<Rightarrow> True | Some x \<Rightarrow> well_closed x)"
proof (cases "ob_update_kind f \<in> set [''snapshot'', ''clear'', ''no_book'']")
  case True
  have "pending_plain p'" using feed_image(1) [OF assms(1) True] assms(2) by (auto simp: pending_plain_def pending_of_def)
  moreover have "case b of None \<Rightarrow> True | Some x \<Rightarrow> well_closed x"
    using assms(1) True by (auto simp: assembler_feed_def Let_def em_returned snapshot_well_closed
        split: if_splits intro: clear_well_closed)
  ultimately show ?thesis ..
next
  case False
  from assms(1) False obtain iid changed ds where ch: "changed_levels env f ti prec = Inr changed"
    and co: "collect (ob_update_kind f) (ob_instrument_id f) changed p = (Inr ds, p')"
    and b: "(ds = [] \<and> b = None) \<or> (ds \<noteq> [] \<and> (\<exists>x. closed_batch env iid ds = Inr x \<and> b = Some x))"
    by (rule feed_update)
  have "list_all plain changed" using changed_levels_apply(2) [OF ch] by (simp add: plain_def [abs_def])
  with collect_plain [OF co assms(2)] b show ?thesis by (auto dest: closed_batch_well_closed)
qed

lemma feed_all_well_closed:
  "feed_all env ms p = (Inr outs, p') \<Longrightarrow> pending_plain p \<Longrightarrow>
     list_all (\<lambda>(_, b). case b of None \<Rightarrow> True | Some x \<Rightarrow> well_closed x) outs"
  by (induction env ms arbitrary: p outs rule: feed_all.induct)
     (auto simp: em_returned dest!: feed_well_closed split: option.splits)

section \<open>Properties\<close>

text \<open>
  C24: the books the platform sees follow the venue's. Take any sequence of venue book messages, of any
  instruments in any interleaving, that convert. For an instrument whose own messages are framed (no update
  starts inside an open one), a consumer's book that applied the batches emitted for it, plus the parts the
  assembler still holds, is the venue's book; when no update is open the batches alone give the venue's book.
  Prices may be identified in any way the consumer likes.
\<close>

theorem books_follow_the_venue:
  assumes "feed_all env ms assembler_new = (Inr outs, p)" "framed False (kinds_of key ms)"
  shows "apply_deltas pk (pending_of key p) (consumer_book pk key outs Map.empty) = venue_book env pk key ms Map.empty
    \<and> (open_after (kinds_of key ms) \<or> consumer_book pk key outs Map.empty = venue_book env pk key ms Map.empty)"
proof -
  have "apply_deltas pk (pending_of key p) (consumer_book pk key outs Map.empty) = venue_book env pk key ms Map.empty
    \<and> (pending_of key p \<noteq> [] \<longrightarrow> (if kinds_of key ms = [] then False else open_after (kinds_of key ms)))"
    using assms by (rule feed_all_simulates) (simp_all add: pending_of_def assembler_new_def)
  then show ?thesis by (cases "pending_of key p = []") (auto split: if_splits)
qed

theorem books_follow_the_venue_witness:
  "let key = ''NQU6-CME.RITHMIC''; lv = (\<lambda>side px sz n. \<lparr>bl_side = side, bl_price = Fin px, bl_size = Fin sz, bl_order_id = n\<rparr>);
       msg = (\<lambda>kind ls. (\<lparr>ob_instrument_id = key, ob_symbol = ''NQU6'', ob_exchange = PStr ''CME'', ob_update_type = PNone,
          ob_update_kind = kind, ob_levels = ls, ob_ts_event = 5\<rparr>, 7, Some 2));
       ms = [msg ''snapshot'' [lv ''BUY'' 10 3 1, lv ''SELL'' 11 2 1000001], msg ''begin'' [lv ''BUY'' 10 0 1],
             msg ''end'' [lv ''BUY'' 9 4 1]]
   in consumer_book px_text key (projr (fst (feed_all demo_md_env ms assembler_new))) Map.empty (BUY, ''9.00'') = Some 4"
proof -
  let ?key = "''NQU6-CME.RITHMIC''"
  let ?lv = "\<lambda>side px sz n. \<lparr>bl_side = side, bl_price = Fin px, bl_size = Fin sz, bl_order_id = n\<rparr>"
  let ?msg = "\<lambda>kind ls. (\<lparr>ob_instrument_id = ?key, ob_symbol = ''NQU6'', ob_exchange = PStr ''CME'', ob_update_type = PNone,
          ob_update_kind = kind, ob_levels = ls, ob_ts_event = 5\<rparr>, 7, Some 2)"
  let ?ms = "[?msg ''snapshot'' [?lv ''BUY'' 10 3 1, ?lv ''SELL'' 11 2 1000001], ?msg ''begin'' [?lv ''BUY'' 10 0 1],
             ?msg ''end'' [?lv ''BUY'' 9 4 1]]"
  let ?r = "feed_all demo_md_env ?ms assembler_new"
  have "\<not> isl (fst ?r)" by code_simp
  then have run: "?r = (Inr (projr (fst ?r)), snd ?r)" by simp
  have "framed False (kinds_of ?key ?ms)" "\<not> open_after (kinds_of ?key ?ms)" by code_simp+
  with books_follow_the_venue [OF run, of ?key px_text]
  have "consumer_book px_text ?key (projr (fst ?r)) Map.empty = venue_book demo_md_env px_text ?key ?ms Map.empty" by simp
  moreover have "venue_book demo_md_env px_text ?key ?ms Map.empty (BUY, ''9.00'') = Some 4" by code_simp
  ultimately show ?thesis unfolding Let_def by simp
qed

text \<open>
  Every batch the assembler emits is closed once: only its last delta carries \<open>F_LAST\<close>, however many
  messages it was collected from, and its deltas carry \<open>F_SNAPSHOT\<close> exactly when the batch starts with the
  only clear it contains.
\<close>

theorem batches_are_closed_once:
  assumes "feed_all env ms assembler_new = (Inr outs, p)"
  shows "list_all (\<lambda>(_, b). case b of None \<Rightarrow> True | Some x \<Rightarrow> well_closed x) outs"
  using assms by (rule feed_all_well_closed) (simp add: pending_plain_def pending_of_def assembler_new_def)

end
