(* ===== verification/Bars.thy ===== *)
theory Bars
  imports Market
begin

text \<open>
  Bars (\<open>data.py\<close>): the mapping of platform bar types to the venue's types and periods, the registry that
  finds the bar types of a live event, the conversion of live and history bars, the filter that drops the
  still-forming bar, and the guard that keeps a bar type's time increasing.

  The venue echoes a bar's period in an unreliable unit, so a bar type is registered under its native period
  and under its seconds. Sets of bar types are lists without repetition, in the order of insertion; Python
  iterates a set in an unspecified order, and no statement depends on it.
\<close>

section \<open>Bar types\<close>

definition RITHMIC_SECOND :: int where "RITHMIC_SECOND = 1"
definition RITHMIC_MINUTE :: int where "RITHMIC_MINUTE = 2"
definition RITHMIC_DAILY :: int where "RITHMIC_DAILY = 3"
definition RITHMIC_WEEKLY :: int where "RITHMIC_WEEKLY = 4"

lemmas rithmic_types = RITHMIC_SECOND_def RITHMIC_MINUTE_def RITHMIC_DAILY_def RITHMIC_WEEKLY_def

definition bar_type_duration_ns :: "bar_type \<Rightarrow> int" where
  "bar_type_duration_ns bt =
     (let step = bt_step bt in
      case bt_aggregation bt of
        SECOND \<Rightarrow> step * 1000000000
      | MINUTE \<Rightarrow> step * 60 * 1000000000
      | HOUR \<Rightarrow> step * 60 * 60 * 1000000000
      | _ \<Rightarrow> 0)"

definition external_bar_advertised :: "bar_type \<Rightarrow> bool" where
  "external_bar_advertised bt \<longleftrightarrow>
     (let agg = bt_aggregation bt; step = bt_step bt
      in agg = MINUTE \<and> (step = 1 \<or> step = 15 \<or> step = 60) \<or> agg = HOUR \<and> step = 1 \<or> agg = BAR_DAY \<and> step = 1)"

definition bar_type_to_rithmic :: "('c, 'x) md_env_scheme \<Rightarrow> bar_type \<Rightarrow> (int \<times> int) res" where
  "bar_type_to_rithmic env bt =
     (let step = bt_step bt
      in if step < 1 then Inl (exn_of ValueError (''bar step must be >= 1, got '' @ int_str step))
         else case bt_aggregation bt of
           SECOND \<Rightarrow> Inr (RITHMIC_SECOND, step)
         | MINUTE \<Rightarrow> Inr (RITHMIC_MINUTE, step)
         | HOUR \<Rightarrow> Inr (RITHMIC_MINUTE, step * 60)
         | BAR_DAY \<Rightarrow> Inr (RITHMIC_DAILY, step)
         | WEEK \<Rightarrow> Inr (RITHMIC_WEEKLY, step)
         | agg \<Rightarrow> Inl (exn_of ValueError (''unsupported bar aggregation '' @ me_agg_repr env agg
             @ '' for Rithmic history (supported: SECOND, MINUTE, HOUR'' @ [CHR 0xE2, CHR 0x86, CHR 0x92]
             @ ''minute, DAY, WEEK)'')))"

definition bar_seconds :: "bar_type \<Rightarrow> int" where
  "bar_seconds bt =
     (let step = bt_step bt in
      case bt_aggregation bt of
        SECOND \<Rightarrow> step | MINUTE \<Rightarrow> step * 60 | HOUR \<Rightarrow> step * 3600 | BAR_DAY \<Rightarrow> step * 86400 | WEEK \<Rightarrow> step * 604800
      | _ \<Rightarrow> 0)"

definition bar_wire_period_keys :: "('c, 'x) md_env_scheme \<Rightarrow> bar_type \<Rightarrow> int list res" where
  "bar_wire_period_keys env bt =
     bindR (bar_type_to_rithmic env bt) (\<lambda>(_, period).
       (let seconds = bar_seconds bt
        in Inr (if seconds \<noteq> 0 \<and> seconds \<noteq> period then [period, seconds] else [period])))"

section \<open>The registry\<close>

type_synonym bar_key = "string \<times> string \<times> int \<times> int"
type_synonym bar_registry = "(bar_key \<times> bar_type list) list"

definition registered :: "bar_registry \<Rightarrow> bar_key \<Rightarrow> bar_type list" where
  "registered reg k = (case map_of reg k of None \<Rightarrow> [] | Some bts \<Rightarrow> bts)"

definition register_key :: "bar_type \<Rightarrow> bar_key \<Rightarrow> bar_registry \<Rightarrow> bar_registry" where
  "register_key bt k reg = dict_set k (List.insert bt (registered reg k)) reg"

definition unregister_key :: "bar_type \<Rightarrow> bar_key \<Rightarrow> bar_registry \<Rightarrow> bar_registry" where
  "unregister_key bt k reg =
     (case map_of reg k of
        None \<Rightarrow> reg
      | Some bts \<Rightarrow> (let bts' = removeAll bt bts in if bts' = [] then dict_pop k reg else dict_set k bts' reg))"

text \<open>\<open>int(period)\<close>, one when it is absent, empty or does not parse.\<close>

definition event_period :: "pyval \<Rightarrow> int res" where
  "event_period v =
     (if v = PNone \<or> v = PStr [] then Inr 1
      else case py_int v of
        Inr p \<Rightarrow> Inr p
      | Inl e \<Rightarrow> if exn_cls e = TypeError \<or> is_value_error e then Inr 1 else Inl e)"

definition bar_types_for_event :: "bar_registry \<Rightarrow> pydict \<Rightarrow> bar_type list res" where
  "bar_types_for_event reg event =
     bindR (py_int (py_or (dget event ''bar_type'') (PInt 0))) (\<lambda>rtype.
     bindR (event_period (dget event ''period'')) (\<lambda>period.
       Inr (registered reg (py_str (py_or (dget event ''symbol'') (PStr [])),
                            py_str (py_or (dget event ''exchange'') (PStr [])), rtype, period))))"

fun resync_of :: "('c, 'x) md_env_scheme \<Rightarrow> string \<Rightarrow> string \<Rightarrow> bar_type list \<Rightarrow> bar_key list \<Rightarrow> bar_key list res" where
  "resync_of env symbol exchange [] subs = Inr subs"
| "resync_of env symbol exchange (bt # bts) subs =
     bindR (bar_type_to_rithmic env bt) (\<lambda>(rtype, period).
       resync_of env symbol exchange bts (List.insert (symbol, exchange, rtype, period) subs))"

fun resync_from :: "('c, 'x) md_env_scheme \<Rightarrow> bar_registry \<Rightarrow> bar_key list \<Rightarrow> bar_key list res" where
  "resync_from env [] subs = Inr subs"
| "resync_from env (((symbol, exchange, _, _), mapped) # reg) subs =
     bindR (resync_of env symbol exchange mapped subs) (\<lambda>subs'. resync_from env reg subs')"

definition bar_resync_subscriptions :: "('c, 'x) md_env_scheme \<Rightarrow> bar_registry \<Rightarrow> bar_key list res" where
  "bar_resync_subscriptions env reg = resync_from env reg []"

section \<open>Conversion\<close>

definition fields_to_bar :: "('c, 'x) md_env_scheme \<Rightarrow> bar_fields \<Rightarrow> bar_type \<Rightarrow> int \<Rightarrow> int option \<Rightarrow> bool \<Rightarrow> md_bar res" where
  "fields_to_bar env f bt ts_init prec timestamp_on_close =
     bindR (py_int (PFloat (bf_volume f))) (\<lambda>volume.
       if volume < 0 then Inl (exn_of ConvertError (''bar volume must be >= 0, got '' @ int_str volume))
       else
         (let ts_event = (if timestamp_on_close then bf_ts_event f else bf_ts_event f - bar_type_duration_ns bt)
          in bindR (price_from_wire env (PFloat (bf_open f)) prec) (\<lambda>op.
             bindR (price_from_wire env (PFloat (bf_high f)) prec) (\<lambda>hi.
             bindR (price_from_wire env (PFloat (bf_low f)) prec) (\<lambda>lo.
             bindR (price_from_wire env (PFloat (bf_close f)) prec) (\<lambda>cl.
             bindR (check_opt (ne_quantity env volume) volume) (\<lambda>vol.
               (let b = \<lparr>ba_bar_type = bt, ba_open = op, ba_high = hi, ba_low = lo, ba_close = cl, ba_volume = vol,
                         ba_ts_event = ts_event, ba_ts_init = ts_init\<rparr>
                in check_opt (me_bar env b) b)))))))) "

definition bar_row :: "('c, 'x) md_env_scheme \<Rightarrow> string \<Rightarrow> string \<Rightarrow> bar_type \<Rightarrow> int \<Rightarrow> int \<Rightarrow> bool \<Rightarrow> pydict \<Rightarrow> md_bar res" where
  "bar_row env symbol exchange bt prec ts_init on_close d =
     bindR (time_bar_to_fields (with_identity d symbol exchange)) (\<lambda>f.
       fields_to_bar env f bt ts_init (Some prec) on_close)"

definition payloads_to_bars :: "('c, 'x) md_env_scheme \<Rightarrow> pydict list \<Rightarrow> string \<Rightarrow> string \<Rightarrow> bar_type \<Rightarrow> int \<Rightarrow> int
    \<Rightarrow> (exn \<Rightarrow> ('s, exn, unit) em) option \<Rightarrow> bool \<Rightarrow> ('s, exn, md_bar list) em" where
  "payloads_to_bars env raw symbol exchange bt prec ts_init on_invalid on_close =
     bindE (liftE (bar_type_to_rithmic env bt)) (\<lambda>(rtype, _).
     bindE (convert_rows (\<lambda>d. validate_history_identity d symbol exchange (Some rtype))
              (\<lambda>d. liftE (bar_row env symbol exchange bt prec ts_init on_close d)) on_invalid raw)
       (\<lambda>bars. returnE (sort_key ba_ts_event bars)))"

definition calendar_ns :: "bar_type \<Rightarrow> int" where
  "calendar_ns bt = (if bt_aggregation bt = WEEK then 7 else 1) * max 1 (bt_step bt) * 86400 * 1000000000"

definition closed_bars :: "md_bar list \<Rightarrow> bar_type \<Rightarrow> int \<Rightarrow> bool \<Rightarrow> md_bar list" where
  "closed_bars bars bt end_ns timestamp_on_close =
     (let dur = bar_type_duration_ns bt
      in if dur \<noteq> 0 \<and> timestamp_on_close then filter (\<lambda>b. ba_ts_event b \<le> end_ns) bars
         else (let dur' = (if dur = 0 then calendar_ns bt else dur)
               in filter (\<lambda>b. ba_ts_event b + dur' \<le> end_ns) bars))"

section \<open>The sequence guard\<close>

type_synonym bar_guard = "(bar_type \<times> int) list"

definition guard_get :: "bar_guard \<Rightarrow> bar_type \<Rightarrow> int \<Rightarrow> int" where
  "guard_get g bt dflt = (case map_of g bt of None \<Rightarrow> dflt | Some t \<Rightarrow> t)"

definition guard_note :: "md_bar \<Rightarrow> bar_guard \<Rightarrow> bar_guard" where
  "guard_note b g = dict_set (ba_bar_type b) (max (guard_get g (ba_bar_type b) 0) (ba_ts_event b)) g"

definition guard_admit :: "md_bar \<Rightarrow> bar_guard \<Rightarrow> bool \<times> bar_guard" where
  "guard_admit b g =
     (if ba_ts_event b \<le> guard_get g (ba_bar_type b) (-1) then (False, g)
      else (True, dict_set (ba_bar_type b) (ba_ts_event b) g))"

section \<open>The registry as a set of subscriptions\<close>

text \<open>The registry keys of a bar type on a route.\<close>

definition bar_keys :: "('c, 'x) md_env_scheme \<Rightarrow> string \<Rightarrow> string \<Rightarrow> bar_type \<Rightarrow> bar_key list" where
  "bar_keys env symbol exchange bt =
     (case (bar_type_to_rithmic env bt, bar_wire_period_keys env bt) of
        (Inr (rtype, _), Inr ps) \<Rightarrow> map (\<lambda>p. (symbol, exchange, rtype, p)) ps
      | _ \<Rightarrow> [])"

text \<open>The registry holds the subscriptions \<open>S\<close>: under each key exactly the bar types whose keys include it.\<close>

definition holds_subs :: "('c, 'x) md_env_scheme \<Rightarrow> bar_registry \<Rightarrow> (string \<times> string \<times> bar_type) set \<Rightarrow> bool" where
  "holds_subs env reg S \<longleftrightarrow>
     (\<forall>k. set (registered reg k) = {bt. \<exists>s e. (s, e, bt) \<in> S \<and> k \<in> set (bar_keys env s e bt)})"

lemma holds_subsD:
  "holds_subs env reg S \<Longrightarrow> set (registered reg k) = {bt. \<exists>s e. (s, e, bt) \<in> S \<and> k \<in> set (bar_keys env s e bt)}"
  unfolding holds_subs_def by (rule spec)

lemma bar_keys_route: "k \<in> set (bar_keys env s e bt) \<Longrightarrow> \<exists>r p. k = (s, e, r, p)"
  by (auto simp: bar_keys_def split: sum.splits prod.splits)

lemma registered_register_key:
  "set (registered (register_key bt k reg) k') = (if k' = k then insert bt else id) (set (registered reg k'))"
  by (auto simp: register_key_def registered_def)

lemma registered_unregister_key:
  "set (registered (unregister_key bt k reg) k') = set (registered reg k') - (if k' = k then {bt} else {})"
proof (cases "map_of reg k")
  case None
  then show ?thesis by (auto simp: unregister_key_def registered_def)
next
  case (Some bts)
  have "set bts - {bt} = {}" if "removeAll bt bts = []"
    using that by (metis set_removeAll list.set(1))
  with Some show ?thesis by (auto simp: unregister_key_def registered_def Let_def)
qed

lemma registered_register_all:
  "set (registered (fold (register_key bt) ks reg) k) = (if k \<in> set ks then insert bt else id) (set (registered reg k))"
  by (induction ks arbitrary: reg) (auto simp: registered_register_key)

lemma registered_unregister_all:
  "set (registered (fold (unregister_key bt) ks reg) k) = set (registered reg k) - (if k \<in> set ks then {bt} else {})"
  by (induction ks arbitrary: reg) (auto simp: registered_unregister_key)

lemma holds_subs_empty: "holds_subs env [] {}"
  by (simp add: holds_subs_def registered_def)

lemma holds_subs_register:
  assumes "holds_subs env reg S"
  shows "holds_subs env (fold (register_key bt) (bar_keys env s e bt) reg) (insert (s, e, bt) S)"
  unfolding holds_subs_def
proof
  fix k
  show "set (registered (fold (register_key bt) (bar_keys env s e bt) reg) k) =
    {b. \<exists>s' e'. (s', e', b) \<in> insert (s, e, bt) S \<and> k \<in> set (bar_keys env s' e' b)}"
    by (auto simp: holds_subsD [OF assms] registered_register_all)
qed

lemma holds_subs_unregister:
  assumes "holds_subs env reg S"
  shows "holds_subs env (fold (unregister_key bt) (bar_keys env s e bt) reg) (S - {(s, e, bt)})"
  unfolding holds_subs_def
proof
  fix k
  show "set (registered (fold (unregister_key bt) (bar_keys env s e bt) reg) k) =
    {b. \<exists>s' e'. (s', e', b) \<in> S - {(s, e, bt)} \<and> k \<in> set (bar_keys env s' e' b)}"
  proof (cases "k \<in> set (bar_keys env s e bt)")
    case True
    then obtain r p where k: "k = (s, e, r, p)" using bar_keys_route by blast
    have "s' = s \<and> e' = e" if "k \<in> set (bar_keys env s' e' b)" for s' e' b
      using bar_keys_route [OF that] k by auto
    then have key: "(\<exists>s' e'. (s', e', b) \<in> X \<and> k \<in> set (bar_keys env s' e' b)) \<longleftrightarrow> (s, e, b) \<in> X \<and> k \<in> set (bar_keys env s e b)"
      for X b by blast
    have "{b. (s, e, b) \<in> S \<and> k \<in> set (bar_keys env s e b)} - {bt}
        = {b. (s, e, b) \<in> S - {(s, e, bt)} \<and> k \<in> set (bar_keys env s e b)}" by auto
    then show ?thesis unfolding registered_unregister_all holds_subsD [OF assms] key using True by simp
  next
    case False
    then show ?thesis by (auto simp: holds_subsD [OF assms] registered_unregister_all)
  qed
qed

lemma resync_of_set:
  "resync_of env s e bts subs = Inr out \<Longrightarrow>
     set out = set subs \<union> {(s, e, r, p) | r p. \<exists>bt \<in> set bts. bar_type_to_rithmic env bt = Inr (r, p)}"
proof (induction bts arbitrary: subs)
  case (Cons bt bts)
  then obtain r p where rp: "bar_type_to_rithmic env bt = Inr (r, p)"
    and rest: "resync_of env s e bts (List.insert (s, e, r, p) subs) = Inr out"
    by (auto simp: bindR_eq_Inr_iff)
  show ?case using Cons.IH [OF rest] rp by auto
qed simp

lemma resync_of_distinct: "resync_of env s e bts subs = Inr out \<Longrightarrow> distinct subs \<Longrightarrow> distinct out"
  by (induction bts arbitrary: subs) (auto simp: bindR_eq_Inr_iff distinct_insert)

lemma resync_from_distinct: "resync_from env reg subs = Inr out \<Longrightarrow> distinct subs \<Longrightarrow> distinct out"
  by (induction env reg subs rule: resync_from.induct) (auto simp: bindR_eq_Inr_iff dest: resync_of_distinct)

lemma resync_from_set:
  "resync_from env reg subs = Inr out \<Longrightarrow>
     set out = set subs \<union> {(s, e, r, p) | s e r p. \<exists>r' p' bts bt. ((s, e, r', p'), bts) \<in> set reg \<and> bt \<in> set bts
                             \<and> bar_type_to_rithmic env bt = Inr (r, p)}"
proof (induction env reg subs rule: resync_from.induct)
  case (2 env s e r0 p0 mapped reg subs)
  then obtain subs' where a: "resync_of env s e mapped subs = Inr subs'" and b: "resync_from env reg subs' = Inr out"
    by (auto simp: bindR_eq_Inr_iff)
  show ?case unfolding 2(1) [OF b] resync_of_set [OF a] by (rule set_eqI) (simp, blast)
qed simp

section \<open>Operations on the registry\<close>

datatype bar_op = Subscribe string string bar_type | Unsubscribe string string bar_type

fun apply_bar_op :: "('c, 'x) md_env_scheme \<Rightarrow> bar_op \<Rightarrow> bar_registry \<Rightarrow> bar_registry" where
  "apply_bar_op env (Subscribe s e bt) reg = fold (register_key bt) (bar_keys env s e bt) reg"
| "apply_bar_op env (Unsubscribe s e bt) reg = fold (unregister_key bt) (bar_keys env s e bt) reg"

fun spec_bar_op :: "bar_op \<Rightarrow> (string \<times> string \<times> bar_type) set \<Rightarrow> (string \<times> string \<times> bar_type) set" where
  "spec_bar_op (Subscribe s e bt) S = insert (s, e, bt) S"
| "spec_bar_op (Unsubscribe s e bt) S = S - {(s, e, bt)}"

lemma holds_subs_ops: "holds_subs env reg S \<Longrightarrow> holds_subs env (fold (apply_bar_op env) ops reg) (fold spec_bar_op ops S)"
proof (induction ops arbitrary: reg S)
  case (Cons x ops)
  have "holds_subs env (apply_bar_op env x reg) (spec_bar_op x S)"
    using Cons.prems by (cases x) (simp_all add: holds_subs_register holds_subs_unregister)
  from Cons.IH [OF this] show ?case by simp
qed simp

lemma distinct_registry_fold:
  "(\<And>k r. distinct (map fst r) \<Longrightarrow> distinct (map fst (f k r))) \<Longrightarrow> distinct (map fst reg) \<Longrightarrow> distinct (map fst (fold f ks reg))"
  by (induction ks arbitrary: reg) simp_all

lemma distinct_ops: "distinct (map fst reg) \<Longrightarrow> distinct (map fst (fold (apply_bar_op env) ops reg))"
proof (rule distinct_registry_fold)
  fix x and r :: bar_registry
  assume d: "distinct (map fst r)"
  have "distinct (map fst (register_key bt k q))" "distinct (map fst (unregister_key bt k q))"
    if "distinct (map fst q)" for bt k and q :: bar_registry
    using that by (simp_all add: register_key_def unregister_key_def Let_def split: option.split)
  then show "distinct (map fst (apply_bar_op env x r))"
    using d by (cases x) (auto intro!: distinct_registry_fold)
qed simp

lemma registered_mem:
  assumes "distinct (map fst reg)"
  shows "(\<exists>bts. (k, bts) \<in> set reg \<and> bt \<in> set bts) \<longleftrightarrow> bt \<in> set (registered reg k)"
  using assms by (auto simp: registered_def split: option.splits dest: map_of_SomeD)

lemma native_key: "bar_type_to_rithmic env bt = Inr (r, p) \<Longrightarrow> (s, e, r, p) \<in> set (bar_keys env s e bt)"
  by (auto simp: bar_keys_def bar_wire_period_keys_def Let_def)

lemma resync_holds:
  assumes "holds_subs env reg S" "distinct (map fst reg)" "bar_resync_subscriptions env reg = Inr out"
  shows "set out = {(s, e, r, p) | s e r p. \<exists>bt. (s, e, bt) \<in> S \<and> bar_type_to_rithmic env bt = Inr (r, p)}"
proof -
  have "set out = {(s, e, r, p) | s e r p. \<exists>r' p' bts bt. ((s, e, r', p'), bts) \<in> set reg \<and> bt \<in> set bts
      \<and> bar_type_to_rithmic env bt = Inr (r, p)}"
    using resync_from_set [OF assms(3) [unfolded bar_resync_subscriptions_def]] by simp
  also have "\<dots> = {(s, e, r, p) | s e r p. \<exists>r' p' bt. bt \<in> set (registered reg (s, e, r', p'))
      \<and> bar_type_to_rithmic env bt = Inr (r, p)}"
    unfolding registered_mem [OF assms(2), symmetric] by blast
  also have "\<dots> = {(s, e, r, p) | s e r p. \<exists>bt. (s, e, bt) \<in> S \<and> bar_type_to_rithmic env bt = Inr (r, p)}"
  proof -
    have "(\<exists>r' p'. bt \<in> set (registered reg (s, e, r', p'))) \<longleftrightarrow> (s, e, bt) \<in> S"
      if "bar_type_to_rithmic env bt = Inr (r, p)" for s e bt r p
    proof
      assume "\<exists>r' p'. bt \<in> set (registered reg (s, e, r', p'))"
      then obtain r' p' s' e' where "(s', e', bt) \<in> S" "(s, e, r', p') \<in> set (bar_keys env s' e' bt)"
        unfolding holds_subsD [OF assms(1)] by blast
      with bar_keys_route [OF this(2)] show "(s, e, bt) \<in> S" by auto
    next
      assume "(s, e, bt) \<in> S"
      with native_key [OF that] show "\<exists>r' p'. bt \<in> set (registered reg (s, e, r', p'))"
        unfolding holds_subsD [OF assms(1)] by blast
    qed
    then have "(\<exists>r' p' bt. bt \<in> set (registered reg (s, e, r', p')) \<and> bar_type_to_rithmic env bt = Inr (r, p))
        \<longleftrightarrow> (\<exists>bt. (s, e, bt) \<in> S \<and> bar_type_to_rithmic env bt = Inr (r, p))" for s e r p by metis
    then show ?thesis by (simp only:)
  qed
  finally show ?thesis .
qed

text \<open>The registry key a live event is looked up under.\<close>

definition event_key :: "pydict \<Rightarrow> int \<Rightarrow> int \<Rightarrow> bar_key" where
  "event_key event rtype period =
     (py_str (py_or (dget event ''symbol'') (PStr [])), py_str (py_or (dget event ''exchange'') (PStr [])), rtype, period)"

lemma bar_types_for_event_Inr:
  assumes "bar_types_for_event reg event = Inr bts"
  obtains rtype period where "py_int (py_or (dget event ''bar_type'') (PInt 0)) = Inr rtype"
    "event_period (dget event ''period'') = Inr period" "bts = registered reg (event_key event rtype period)"
  using assms that by (auto simp: bar_types_for_event_def bindR_eq_Inr_iff event_key_def)

section \<open>Stamping\<close>

definition shift_bar :: "bar_type \<Rightarrow> md_bar \<Rightarrow> md_bar" where
  "shift_bar bt b = b\<lparr>ba_ts_event := ba_ts_event b - bar_type_duration_ns bt\<rparr>"

lemma closed_bars_shift:
  "closed_bars (map (shift_bar bt) bars) bt end_ns False = map (shift_bar bt) (closed_bars bars bt end_ns True)"
  by (simp add: closed_bars_def Let_def filter_map o_def shift_bar_def)

lemma fields_to_bar_shift:
  "fields_to_bar env f bt ti prec True = Inr b \<Longrightarrow> fields_to_bar env f bt ti prec False = Inr b' \<Longrightarrow> b' = shift_bar bt b"
  by (auto simp: fields_to_bar_def bindR_eq_Inr_iff Let_def shift_bar_def split: if_splits)

lemma rows_shift:
  "list_all2 (\<lambda>f b. fields_to_bar env f bt ti prec True = Inr b) fs bars \<Longrightarrow>
   list_all2 (\<lambda>f b. fields_to_bar env f bt ti prec False = Inr b) fs bars' \<Longrightarrow> bars' = map (shift_bar bt) bars"
  by (induction fs arbitrary: bars bars') (auto simp: list_all2_Cons1 fields_to_bar_shift)

section \<open>Properties\<close>

text \<open>
  The bar registry is the set of subscriptions. After any sequence of subscribes and unsubscribes, a live
  event finds exactly the subscribed bar types one of whose wire keys (native period or seconds) is the event's,
  and a resync re-issues exactly the native request of every subscribed bar type, each once.
\<close>

theorem registry_is_the_subscription_set:
  assumes "bar_types_for_event (fold (apply_bar_op env) ops []) event = Inr bts"
    "bar_resync_subscriptions env (fold (apply_bar_op env) ops []) = Inr out"
    "py_int (py_or (dget event ''bar_type'') (PInt 0)) = Inr rtype" "event_period (dget event ''period'') = Inr period"
  shows "set bts = {bt. \<exists>s e. (s, e, bt) \<in> fold spec_bar_op ops {} \<and> event_key event rtype period \<in> set (bar_keys env s e bt)}
    \<and> set out = {(s, e, r, p) | s e r p. \<exists>bt. (s, e, bt) \<in> fold spec_bar_op ops {} \<and> bar_type_to_rithmic env bt = Inr (r, p)}
    \<and> distinct out"
proof -
  note h = holds_subs_ops [OF holds_subs_empty, of env ops]
  have "bts = registered (fold (apply_bar_op env) ops []) (event_key event rtype period)"
    using assms(3,4) by (cases rule: bar_types_for_event_Inr [OF assms(1)]) simp
  then have "set bts = {bt. \<exists>s e. (s, e, bt) \<in> fold spec_bar_op ops {} \<and> event_key event rtype period \<in> set (bar_keys env s e bt)}"
    by (simp only: holds_subsD [OF h])
  moreover have "set out = {(s, e, r, p) | s e r p. \<exists>bt. (s, e, bt) \<in> fold spec_bar_op ops {} \<and> bar_type_to_rithmic env bt = Inr (r, p)}"
    using h distinct_ops [of "[]"] assms(2) by (intro resync_holds) simp_all
  moreover have "distinct out" using assms(2) unfolding bar_resync_subscriptions_def by (rule resync_from_distinct) simp
  ultimately show ?thesis by blast
qed

text \<open>
  C36: the bars of \<open>n\<close> minutes reach the subscribers of \<open>n\<close> hours. The two wire keys of a bar type (native period and
  seconds) are not told apart, and the seconds of \<open>n\<close> minutes are the native minutes of \<open>n\<close> hours. Take any sequence of
  subscribes and unsubscribes after which both an \<open>n\<close>-minute and an \<open>n\<close>-hour bar type are subscribed on a route; then an
  event of the minute type on that route with the period \<open>60 * n\<close>, as the venue echoes an
  \<open>n\<close>-minute bar (in seconds), is dispatched to the minute bar type and also to the hourly one, so that an hourly subscriber
  is fed minute bars (with \<open>n = 1\<close>: the one-minute bar and the one-hour subscription).
\<close>

theorem minute_bar_reaches_hourly_subscribers:
  assumes "(s, e, minute) \<in> fold spec_bar_op ops {}" "bt_aggregation minute = MINUTE" "bt_step minute = n"
    "(s, e, hour) \<in> fold spec_bar_op ops {}" "bt_aggregation hour = HOUR" "bt_step hour = n"
    "dget event ''symbol'' = PStr s" "dget event ''exchange'' = PStr e" "s \<noteq> []" "e \<noteq> []"
    "dget event ''bar_type'' = PInt 2" "event_period (dget event ''period'') = Inr (60 * n)" "1 \<le> n"
  shows "\<exists>bts. bar_types_for_event (fold (apply_bar_op env) ops []) event = Inr bts \<and> minute \<in> set bts \<and> hour \<in> set bts"
proof -
  note h = holds_subs_ops [OF holds_subs_empty, of env ops]
  have k: "(s, e, 2, 60 * n) \<in> set (bar_keys env s e bt)" if "bt \<in> {minute, hour}" for bt
    using that assms(2,3,5,6,13)
    by (auto simp: bar_keys_def bar_wire_period_keys_def bar_type_to_rithmic_def bar_seconds_def rithmic_types)
  have "bar_types_for_event (fold (apply_bar_op env) ops []) event = Inr (registered (fold (apply_bar_op env) ops []) (s, e, 2, 60 * n))"
    using assms(7-12) by (simp add: bar_types_for_event_def py_or_def py_str_def py_int_def)
  moreover have "bt \<in> set (registered (fold (apply_bar_op env) ops []) (s, e, 2, 60 * n))" if "bt \<in> {minute, hour}" for bt
    unfolding holds_subsD [OF h] using k [OF that] that assms(1,4) by blast
  ultimately show ?thesis by blast
qed

theorem minute_bar_reaches_hourly_subscribers_witness:
  "let bar = (\<lambda>agg n. \<lparr>bt_instrument_id = ''NQU6-CME.RITHMIC'', bt_step = n, bt_aggregation = agg, bt_price_type = ''LAST'',
         bt_external = True\<rparr>);
       event = [(''symbol'', PStr ''NQU6''), (''exchange'', PStr ''CME''), (''bar_type'', PInt 2), (''period'', PStr ''60'')];
       reg = fold (apply_bar_op demo_md_env) [Subscribe ''NQU6'' ''CME'' (bar MINUTE 1), Subscribe ''NQU6'' ''CME'' (bar HOUR 1)] []
   in \<exists>bts. bar_types_for_event reg event = Inr bts \<and> bar MINUTE 1 \<in> set bts \<and> bar HOUR 1 \<in> set bts"
proof -
  let ?bar = "\<lambda>agg n. \<lparr>bt_instrument_id = ''NQU6-CME.RITHMIC'', bt_step = n, bt_aggregation = agg, bt_price_type = ''LAST'',
         bt_external = True\<rparr>"
  let ?ops = "[Subscribe ''NQU6'' ''CME'' (?bar MINUTE 1), Subscribe ''NQU6'' ''CME'' (?bar HOUR 1)]"
  have "event_period (PStr ''60'') = Inr (60 * 1)" by code_simp
  with minute_bar_reaches_hourly_subscribers [of "''NQU6''" "''CME''" "?bar MINUTE 1" ?ops 1 "?bar HOUR 1"
    "[(''symbol'', PStr ''NQU6''), (''exchange'', PStr ''CME''), (''bar_type'', PInt 2), (''period'', PStr ''60'')]" demo_md_env]
  show ?thesis unfolding Let_def by (simp add: dget_def)
qed

text \<open>
  C32: how bars are stamped does not change which are delivered. Convert the same history rows with the close
  time as their stamp and with the open time: the still-forming bar filter keeps the same rows, and the bars
  differ only by the shift of their stamp by the bar's duration.
\<close>

theorem stamping_keeps_the_same_bars:
  assumes "list_all2 (\<lambda>f b. fields_to_bar env f bt ti prec True = Inr b) fs bars"
    "list_all2 (\<lambda>f b. fields_to_bar env f bt ti prec False = Inr b) fs bars'"
  shows "closed_bars bars' bt end_ns False = map (shift_bar bt) (closed_bars bars bt end_ns True)"
  unfolding rows_shift [OF assms] by (rule closed_bars_shift)

theorem stamping_keeps_the_same_bars_witness:
  "let bt = \<lparr>bt_instrument_id = ''NQU6-CME.RITHMIC'', bt_step = 1, bt_aggregation = MINUTE, bt_price_type = ''LAST'', bt_external = True\<rparr>;
       f = (\<lambda>t. \<lparr>bf_instrument_id = ''NQU6-CME.RITHMIC'', bf_symbol = ''NQU6'', bf_exchange = PStr ''CME'', bf_open = Fin 1, bf_high = Fin 2,
          bf_low = Fin 1, bf_close = Fin 2, bf_volume = Fin 3, bf_num_trades = PNone, bf_bar_type = PInt 2, bf_period = PInt 1,
          bf_marker = PNone, bf_ts_event = t\<rparr>);
       bars = (\<lambda>c. map (\<lambda>t. projr (fields_to_bar demo_md_env (f t) bt 9 (Some 2) c)) [60000000000, 120000000000])
   in map ba_ts_event (closed_bars (bars False) bt 60000000000 False) = [0]
      \<and> closed_bars (bars False) bt 60000000000 False = map (shift_bar bt) (closed_bars (bars True) bt 60000000000 True)"
proof -
  let ?bt = "\<lparr>bt_instrument_id = ''NQU6-CME.RITHMIC'', bt_step = 1, bt_aggregation = MINUTE, bt_price_type = ''LAST'', bt_external = True\<rparr>"
  let ?f = "\<lambda>t. \<lparr>bf_instrument_id = ''NQU6-CME.RITHMIC'', bf_symbol = ''NQU6'', bf_exchange = PStr ''CME'', bf_open = Fin 1, bf_high = Fin 2,
          bf_low = Fin 1, bf_close = Fin 2, bf_volume = Fin 3, bf_num_trades = PNone, bf_bar_type = PInt 2, bf_period = PInt 1,
          bf_marker = PNone, bf_ts_event = t\<rparr>"
  let ?fs = "map ?f [60000000000, 120000000000]"
  let ?bars = "\<lambda>c. map (\<lambda>t. projr (fields_to_bar demo_md_env (?f t) ?bt 9 (Some 2) c)) [60000000000, 120000000000]"
  have ok: "list_all2 (\<lambda>f b. fields_to_bar demo_md_env f ?bt 9 (Some 2) c = Inr b) ?fs (?bars c)"
    if "list_all (\<lambda>t. \<not> isl (fields_to_bar demo_md_env (?f t) ?bt 9 (Some 2) c)) [60000000000, 120000000000]" for c
    using that by simp
  have "list_all (\<lambda>t. \<not> isl (fields_to_bar demo_md_env (?f t) ?bt 9 (Some 2) True)) [60000000000, 120000000000]"
    "list_all (\<lambda>t. \<not> isl (fields_to_bar demo_md_env (?f t) ?bt 9 (Some 2) False)) [60000000000, 120000000000]" by code_simp+
  note eq = stamping_keeps_the_same_bars [OF ok [OF this(1)] ok [OF this(2)], of 60000000000]
  have "map ba_ts_event (closed_bars (?bars False) ?bt 60000000000 False) = [0]" by code_simp
  with eq show ?thesis unfolding Let_def by blast
qed

end
