(* ===== verification/DataClient.thy ===== *)
theory DataClient
  imports Books Bars Polling Tasks
begin

text \<open>
  The market data client (\<open>RithmicDataClient\<close>, \<open>data.py\<close>): its state, the dispatch of live events,
  subscriptions with their rollbacks, the replay of subscriptions after a reconnect or a gap, the two poll
  loops and the history requests. Methods that await are tasks; \<open>md_trace\<close> records what was handed to the
  engine and which session calls were issued.

  The set of intents of a ticker key is a Python object that a suspended subscribe still refers to, so the
  sets live in a store (\<open>md_sets\<close>) and the dictionary maps keys to their addresses. Sets that are only
  iterated are lists without repetition.
\<close>

section \<open>State\<close>

type_synonym wire_key = "string \<times> string"

datatype md_call =
    McEnsureConnected | McInitProvider | McDisconnect | McDetach | McJoin string
  | McSubscribe wire_key | McUnsubscribe wire_key
  | McSubscribeBook wire_key | McUnsubscribeBook wire_key
  | McSubscribeBars bar_key | McUnsubscribeBars bar_key
  | McLoadTicks wire_key int int | McLoadBars wire_key int int int int
  | McNextEvents string | McResyncLock | McSleep

datatype md_value = MvUnit | MvRows "pydict list"

type_synonym md_reply = "exn + md_value"

datatype md_trace_item = MtPublish md_item | MtCall md_call

record 'c md = trade_seq +
  md_subscriptions :: "wire_key list"
  md_sets :: "string list list"
  md_ticker_intents :: "(wire_key \<times> nat) list"
  md_book_subscriptions :: "wire_key list"
  md_bar_types :: bar_registry
  md_routes :: "(string \<times> wire_key) list"
  md_poll :: poll_task
  md_history_poll :: poll_task
  md_poll_closing :: bool
  md_attached :: bool \<comment> \<open>the recovery bridge is subscribed\<close>
  md_resync_locked :: bool
  md_resync_generation :: int
  md_bbo_state :: "(string \<times> bbo_state) list"
  md_books :: pending
  md_bars_on_close :: bool
  md_bar_seq :: bar_guard
  md_skip_counts :: "(string \<times> int) list"
  md_skip_last_flush :: rat
  md_bars_errors :: "(string \<times> string) list" \<comment> \<open>\<open>_REQUEST_BARS_ERRORS\<close>, oldest first\<close>
  md_cache :: 'c
  md_clock :: nat
  md_monotonic :: nat
  md_trace :: "md_trace_item list"

record 'c mdc_env = "'c md_env" +
  mc_instruments :: "'c \<Rightarrow> nt_instrument list" \<comment> \<open>\<open>provider.list_all()\<close>\<close>
  mc_attach :: "exn option" \<comment> \<open>what subscribing to session events raises\<close>
  mc_monotonic :: "nat \<Rightarrow> rat" \<comment> \<open>the \<open>n\<close>-th read of \<open>time.monotonic()\<close>\<close>

type_synonym ('c, 'a) mact = "('c md, exn, 'a) em"
type_synonym ('c, 'a) mtask = "('c md, md_call, md_reply, 'a) co"

text \<open>The attributes \<open>__init__\<close> sets; the sequence and the error table are module state.\<close>

definition md_new :: "'c \<Rightarrow> bool \<Rightarrow> 'c md" where
  "md_new cache on_close = \<lparr>sq_next = 1, md_subscriptions = [], md_sets = [], md_ticker_intents = [],
     md_book_subscriptions = [], md_bar_types = [], md_routes = [], md_poll = NoTask, md_history_poll = NoTask,
     md_poll_closing = False, md_attached = False, md_resync_locked = False, md_resync_generation = 0, md_bbo_state = [],
     md_books = assembler_new, md_bars_on_close = on_close, md_bar_seq = [], md_skip_counts = [],
     md_skip_last_flush = 0, md_bars_errors = [], md_cache = cache, md_clock = 0, md_monotonic = 0, md_trace = []\<rparr>"

section \<open>The platform\<close>

definition publish :: "('c, 'x) md_env_scheme \<Rightarrow> md_item \<Rightarrow> ('c, unit) mact" where
  "publish env i = (\<lambda>s. case me_handle env (md_cache s) i of
       (Some x, c) \<Rightarrow> (Inl x, s\<lparr>md_cache := c\<rparr>)
     | (None, c) \<Rightarrow> (Inr (), s\<lparr>md_cache := c, md_trace := md_trace s @ [MtPublish i]\<rparr>))"

definition md_timestamp_ns :: "('c, 'x) md_env_scheme \<Rightarrow> ('c, int) mact" where
  "md_timestamp_ns env = (\<lambda>s. (Inr (ne_clock env (md_clock s)), s\<lparr>md_clock := Suc (md_clock s)\<rparr>))"

definition md_monotonic_now :: "('c, 'x) mdc_env_scheme \<Rightarrow> ('c, rat) mact" where
  "md_monotonic_now env = (\<lambda>s. (Inr (mc_monotonic env (md_monotonic s)), s\<lparr>md_monotonic := Suc (md_monotonic s)\<rparr>))"

definition awaitM :: "md_call \<Rightarrow> ('c, md_value) mtask" where
  "awaitM call = (\<lambda>s. (CoAwait call (\<lambda>r s'. (CoDone r, s')), s\<lparr>md_trace := md_trace s @ [MtCall call]\<rparr>))"

definition callM :: "md_call \<Rightarrow> ('c, unit) mtask" where
  "callM call = bindC (awaitM call) (\<lambda>_. returnC ())"

text \<open>An await that cannot raise (\<open>asyncio.sleep\<close>, waiting for a lock).\<close>

definition pauseM :: "md_call \<Rightarrow> ('c, unit) mtask" where
  "pauseM call = (\<lambda>s. (CoAwait call (\<lambda>_ s'. (CoDone (Inr ()), s')), s\<lparr>md_trace := md_trace s @ [MtCall call]\<rparr>))"

definition md_price_precision :: "('c, 'x) md_env_scheme \<Rightarrow> string \<Rightarrow> ('c, int) mact" where
  "md_price_precision env iid =
     bindE (getE (\<lambda>s. ne_instrument env (md_cache s) iid)) (\<lambda>ins. case ins of
       None \<Rightarrow> raiseE (exn_of ConvertError (''instrument not in cache: '' @ iid))
     | Some i \<Rightarrow> returnE (in_price_precision i))"

definition md_route :: "string \<Rightarrow> ('c, wire_key) mact" where
  "md_route iid =
     bindE (getE (\<lambda>s. map_of (md_routes s) iid)) (\<lambda>r. case r of
       None \<Rightarrow> raiseE (exn_of ValueError (''no Rithmic route for '' @ iid @ ''; load instruments before subscribe/request''))
     | Some k \<Rightarrow> returnE k)"

definition SKIP_LOG_INTERVAL_SECS :: rat where "SKIP_LOG_INTERVAL_SECS = 60"

definition count_skip :: "('c, 'x) mdc_env_scheme \<Rightarrow> string \<Rightarrow> ('c, unit) mact" where
  "count_skip env reason =
     thenE (modifyE (\<lambda>s. s\<lparr>md_skip_counts :=
        dict_set reason ((case map_of (md_skip_counts s) reason of None \<Rightarrow> 0 | Some n \<Rightarrow> n) + 1) (md_skip_counts s)\<rparr>))
     (bindE (md_monotonic_now env) (\<lambda>now.
      bindE (getE md_skip_last_flush) (\<lambda>flushed.
        if now - flushed < SKIP_LOG_INTERVAL_SECS then returnE ()
        else modifyE (\<lambda>s. s\<lparr>md_skip_counts := [], md_skip_last_flush := now\<rparr>))))"

section \<open>Live events\<close>

definition with_bbo :: "string \<Rightarrow> (bbo_state, exn, 'a) em \<Rightarrow> ('c, 'a) mact" where
  "with_bbo key m = (\<lambda>s.
     case m (case map_of (md_bbo_state s) key of None \<Rightarrow> bbo_empty | Some st \<Rightarrow> st) of
       (r, st) \<Rightarrow> (r, s\<lparr>md_bbo_state := dict_set key st (md_bbo_state s)\<rparr>))"

definition with_books :: "(pending, exn, 'a) em \<Rightarrow> ('c, 'a) mact" where
  "with_books m = (\<lambda>s. case m (md_books s) of (r, p) \<Rightarrow> (r, s\<lparr>md_books := p\<rparr>))"

definition admit_bar :: "md_bar \<Rightarrow> ('c, bool) mact" where
  "admit_bar b = (\<lambda>s. case guard_admit b (md_bar_seq s) of (ok, g) \<Rightarrow> (Inr ok, s\<lparr>md_bar_seq := g\<rparr>))"

definition dispatch_trade :: "('c, 'x) mdc_env_scheme \<Rightarrow> pydict \<Rightarrow> int \<Rightarrow> ('c, unit) mact" where
  "dispatch_trade env event ts_init =
     (if dget event ''trade_price'' = PNone then count_skip env ''last_trade_summary''
      else
        bindE (liftE (last_trade_to_fields event)) (\<lambda>f.
        bindE (liftE (ne_instrument_id env (tf_instrument_id f))) (\<lambda>iid.
        bindE (md_price_precision env iid) (\<lambda>prec.
        bindE (fields_to_trade_tick env f ts_init (Some prec)) (\<lambda>t. publish env (MdTrade t))))))"

definition dispatch_bbo :: "('c, 'x) mdc_env_scheme \<Rightarrow> pydict \<Rightarrow> int \<Rightarrow> ('c, unit) mact" where
  "dispatch_bbo env event ts_init =
     (let symbol = py_str (py_or (dget event ''symbol'') (PStr []));
          key = symbol @ '':'' @ py_str (py_or (dget event ''exchange'') (PStr []))
      in if symbol = [] then raiseE (exn_of ConvertError ''missing required fields: symbol'')
         else bindE (with_bbo key (bbo_to_fields event)) (\<lambda>q. case q of
             None \<Rightarrow> count_skip env ''bbo_one_sided''
           | Some f \<Rightarrow>
               bindE (liftE (ne_instrument_id env (qf_instrument_id f))) (\<lambda>iid.
               bindE (md_price_precision env iid) (\<lambda>prec.
               bindE (liftE (fields_to_quote_tick env f ts_init (Some prec))) (\<lambda>t. publish env (MdQuote t))))))"

definition dispatch_book :: "('c, 'x) mdc_env_scheme \<Rightarrow> pydict \<Rightarrow> int \<Rightarrow> ('c, unit) mact" where
  "dispatch_book env event ts_init =
     bindE (liftE (order_book_to_fields event (Some ts_init))) (\<lambda>f.
     bindE (liftE (ne_instrument_id env (ob_instrument_id f))) (\<lambda>iid.
     bindE (md_price_precision env iid) (\<lambda>prec.
     bindE (with_books (assembler_feed env f ts_init (Some prec))) (\<lambda>b. case b of
       None \<Rightarrow> returnE () | Some batch \<Rightarrow> publish env (MdBook batch)))))"

definition dispatch_bar :: "('c, 'x) mdc_env_scheme \<Rightarrow> bar_fields \<Rightarrow> int \<Rightarrow> bar_type \<Rightarrow> ('c, unit) mact" where
  "dispatch_bar env f ts_init bt =
     bindE (md_price_precision env (bt_instrument_id bt)) (\<lambda>prec.
     bindE (getE md_bars_on_close) (\<lambda>on_close.
     bindE (liftE (fields_to_bar env f bt ts_init (Some prec) on_close)) (\<lambda>b.
     bindE (admit_bar b) (\<lambda>ok.
       if ok then publish env (MdBar b) else count_skip env ''time_bar_repeat''))))"

definition dispatch_time_bar :: "('c, 'x) mdc_env_scheme \<Rightarrow> pydict \<Rightarrow> int \<Rightarrow> ('c, unit) mact" where
  "dispatch_time_bar env event ts_init =
     bindE (getE md_bar_types) (\<lambda>reg.
     bindE (liftE (bar_types_for_event reg event)) (\<lambda>bts.
       if bts = [] then count_skip env ''time_bar_unsubscribed''
       else bindE (liftE (time_bar_to_fields event)) (\<lambda>f. forE bts (dispatch_bar env f ts_init))))"

definition dispatch_body :: "('c, 'x) mdc_env_scheme \<Rightarrow> pydict \<Rightarrow> int \<Rightarrow> ('c, unit) mact" where
  "dispatch_body env event ts_init =
     (let etype = dget event ''type''
      in if etype = PStr ''last_trade'' then dispatch_trade env event ts_init
         else if etype = PStr ''bbo'' then dispatch_bbo env event ts_init
         else if etype = PStr ''order_book'' then dispatch_book env event ts_init
         else if etype = PStr ''time_bar'' then dispatch_time_bar env event ts_init
         else returnE ())"

definition dispatch_event :: "('c, 'x) mdc_env_scheme \<Rightarrow> pydict \<Rightarrow> ('c, unit) mact" where
  "dispatch_event env event =
     bindE (md_timestamp_ns env) (\<lambda>ts_init.
       catchE (dispatch_body env event ts_init) (\<lambda>e.
         if exn_cls e = ConvertError then count_skip env (py_str (dget event ''type'') @ '': '' @ exn_msg e)
         else returnE ()))"

section \<open>Replaying subscriptions\<close>

definition is_duplicate_subscribe_error :: "exn \<Rightarrow> bool" where
  "is_duplicate_subscribe_error e \<longleftrightarrow>
     str_contains ''[8]'' (str_lower (exn_msg e)) \<and> str_contains ''already exists'' (str_lower (exn_msg e))"

definition subscribe_replay :: "md_call \<Rightarrow> ('c, unit) mtask" where
  "subscribe_replay call = catchC (callM call) (\<lambda>e. if is_duplicate_subscribe_error e then returnC () else raiseC e)"

definition replay_subscription_intent :: "wire_key list \<Rightarrow> wire_key list \<Rightarrow> bar_key list \<Rightarrow> ('c, unit) mtask" where
  "replay_subscription_intent subs books bars =
     thenC (forC subs (\<lambda>k. subscribe_replay (McSubscribe k)))
     (thenC (forC books (\<lambda>k. subscribe_replay (McSubscribeBook k)))
            (forC bars (\<lambda>k. subscribe_replay (McSubscribeBars k))))"

definition resync_ticker_session :: "wire_key list \<Rightarrow> wire_key list \<Rightarrow> bar_key list \<Rightarrow> ('c, unit) mtask" where
  "resync_ticker_session subs books bars = replay_subscription_intent subs books bars"

definition ticker_keys :: "'c md \<Rightarrow> wire_key list" where
  "ticker_keys s = (let ks = map fst (md_ticker_intents s) in if ks = [] then md_subscriptions s else ks)"

text \<open>What is replayed: the remembered ticker, book and bar subscriptions.\<close>

definition replay_terms :: "('c, 'x) md_env_scheme \<Rightarrow> ('c, wire_key list \<times> wire_key list \<times> bar_key list) mact" where
  "replay_terms env =
     bindE (getE (\<lambda>s. (ticker_keys s, md_book_subscriptions s, md_bar_types s))) (\<lambda>(subs, books, reg).
     bindE (liftE (bar_resync_subscriptions env reg)) (\<lambda>bars. returnE (subs, books, bars)))"

definition clear_md_state :: "('c, unit) mact" where
  "clear_md_state = modifyE (\<lambda>s. s\<lparr>md_bbo_state := [], md_books := assembler_reset (md_books s)\<rparr>)"

definition ensure_history_poll_task :: "('c, unit) mact" where
  "ensure_history_poll_task = modifyE (\<lambda>s. if md_history_poll s \<noteq> NoTask then s else s\<lparr>md_history_poll := Running\<rparr>)"

definition restart_history_poll :: "('c, unit) mact" where
  "restart_history_poll =
     bindE (getE md_bar_types) (\<lambda>reg. if reg = [] then returnE () else ensure_history_poll_task)"

section \<open>Connection\<close>

definition load_instrument :: "('c, 'x) md_env_scheme \<Rightarrow> nt_instrument \<Rightarrow> ('c, unit) mact" where
  "load_instrument env i =
     thenE (publish env (MdInstrument (in_id i)))
     (case (map_of (in_info i) ''rithmic_exchange'', map_of (in_info i) ''rithmic_symbol'') of
        (Some ex, Some sy) \<Rightarrow> modifyE (\<lambda>s. s\<lparr>md_routes := dict_set (in_id i) (py_str sy, py_str ex) (md_routes s)\<rparr>)
      | _ \<Rightarrow> raiseE (exn_of ValueError (''instrument '' @ in_id i @ '' missing rithmic route fields in info'')))"

definition md_attach :: "('c, 'x) mdc_env_scheme \<Rightarrow> ('c, unit) mact" where
  "md_attach env = thenE (liftE (check_opt (mc_attach env) ())) (modifyE (\<lambda>s. s\<lparr>md_attached := True\<rparr>))"

definition md_connect :: "('c, 'x) mdc_env_scheme \<Rightarrow> ('c, unit) mtask" where
  "md_connect env =
     thenC (callM McEnsureConnected)
     (thenC (syncC (md_attach env))
     (thenC (callM McInitProvider)
     (bindC (syncC (getE (\<lambda>s. mc_instruments env (md_cache s)))) (\<lambda>instruments.
      thenC (syncC (forE instruments (load_instrument env)))
     (bindC (syncC (replay_terms env)) (\<lambda>(subs, books, bars).
      thenC (replay_subscription_intent subs books bars)
      (syncC (thenE clear_md_state (thenE restart_history_poll
        (modifyE (\<lambda>s. s\<lparr>md_poll_closing := False, md_poll := Running\<rparr>))))))))))) "

definition reconcile_md_after_resumed :: "('c, unit) mact" where
  "reconcile_md_after_resumed = thenE clear_md_state restart_history_poll"

definition join_poll :: "('c md \<Rightarrow> poll_task) \<Rightarrow> (poll_task \<Rightarrow> 'c md \<Rightarrow> 'c md) \<Rightarrow> string \<Rightarrow> ('c, unit) mtask" where
  "join_poll get_task set_task label =
     bindC (syncC (getE get_task)) (\<lambda>t.
       if t = NoTask then returnC () else thenC (callM (McJoin label)) (syncC (modifyE (set_task NoTask))))"

definition md_disconnect :: "('c, unit) mtask" where
  "md_disconnect =
     thenC (syncC (modifyE (\<lambda>s. s\<lparr>md_poll_closing := True\<rparr>)))
     (thenC (callM McDetach)
     (thenC (syncC (modifyE (\<lambda>s. s\<lparr>md_attached := False\<rparr>)))
     (thenC (join_poll md_poll (\<lambda>t s. s\<lparr>md_poll := t\<rparr>) ''_poll_task'')
     (thenC (join_poll md_history_poll (\<lambda>t s. s\<lparr>md_history_poll := t\<rparr>) ''_history_poll_task'')
            (callM McDisconnect)))))"

section \<open>Resync after a gap\<close>

text \<open>\<open>async with self._resync_lock\<close>: a free lock is taken at once; a waiter resumes with the lock in hand.\<close>

definition acquire_resync :: "('c, unit) mtask" where
  "acquire_resync =
     bindC (syncC (getE md_resync_locked)) (\<lambda>locked.
     thenC (if locked then pauseM McResyncLock else returnC ())
           (syncC (modifyE (\<lambda>s. s\<lparr>md_resync_locked := True\<rparr>))))"

definition release_resync :: "('c, unit) mact" where
  "release_resync = modifyE (\<lambda>s. s\<lparr>md_resync_locked := False\<rparr>)"

definition resync_body :: "('c, 'x) md_env_scheme \<Rightarrow> int \<Rightarrow> ('c, unit) mtask" where
  "resync_body env start_gen =
     bindC (syncC (getE md_resync_generation)) (\<lambda>gen.
       if gen \<noteq> start_gen then returnC ()
       else
         thenC (syncC clear_md_state)
         (bindC (syncC (replay_terms env)) (\<lambda>(subs, books, bars).
          thenC (resync_ticker_session subs books bars)
                (syncC (modifyE (\<lambda>s. s\<lparr>md_resync_generation := md_resync_generation s + 1\<rparr>))))))"

definition resync_ticker_subscription :: "('c, 'x) md_env_scheme \<Rightarrow> ('c, unit) mtask" where
  "resync_ticker_subscription env =
     bindC (syncC (getE md_resync_generation)) (\<lambda>start_gen.
     thenC acquire_resync
     (tryC (resync_body env start_gen)
        (\<lambda>e. thenC (syncC release_resync) (raiseC e))
        (\<lambda>_. syncC release_resync)))"

section \<open>Poll loops\<close>

definition resync_channel :: "('c, 'x) md_env_scheme \<Rightarrow> rat \<Rightarrow> ('c, rat) mtask" where
  "resync_channel env backoff =
     bindC (tryC (resync_ticker_subscription env)
              (\<lambda>_. returnC (min (backoff * 2) MAX_DELAY)) (\<lambda>_. returnC MIN_DELAY))
       (\<lambda>next_backoff. thenC (pauseM McSleep) (returnC next_backoff))"

fun handle_events :: "('c, 'x) mdc_env_scheme \<Rightarrow> rat \<Rightarrow> pydict list \<Rightarrow> ('c, rat) mtask" where
  "handle_events env backoff [] = returnC backoff"
| "handle_events env backoff (event # events) =
     (if dget event ''type'' = PStr ''gap'' then
        bindC (resync_channel env backoff) (\<lambda>b. handle_events env b events)
      else thenC (syncC (dispatch_event env event)) (handle_events env backoff events))"

text \<open>One round: the next backoff, or \<open>None\<close> when the stream ended.\<close>

definition rows_of :: "md_value \<Rightarrow> pydict list" where
  "rows_of v = (case v of MvRows rs \<Rightarrow> rs | MvUnit \<Rightarrow> [])"

definition poll_round :: "('c, 'x) mdc_env_scheme \<Rightarrow> bool \<Rightarrow> rat \<Rightarrow> ('c, rat option) mtask" where
  "poll_round env history backoff =
     bindC (syncC (getE md_bar_types)) (\<lambda>reg.
       if history \<and> reg = [] then thenC (pauseM McSleep) (returnC (Some backoff))
       else tryC (awaitM (McNextEvents (if history then ''history'' else ''ticker'')))
         (\<lambda>e. if is_terminal_poll_error e then returnC None
              else thenC (pauseM McSleep) (returnC (Some (min (backoff * 2) MAX_DELAY))))
         (\<lambda>v. bindC (handle_events env MIN_DELAY (rows_of v)) (\<lambda>b. returnC (Some b))))"

text \<open>The loop, cut off after a number of rounds; the result says whether it ended by itself.\<close>

fun poll_channel_loop :: "('c, 'x) mdc_env_scheme \<Rightarrow> bool \<Rightarrow> nat \<Rightarrow> rat \<Rightarrow> ('c, bool) mtask" where
  "poll_channel_loop env history 0 backoff = returnC False"
| "poll_channel_loop env history (Suc n) backoff =
     bindC (poll_round env history backoff) (\<lambda>r. case r of
       None \<Rightarrow> returnC True | Some b \<Rightarrow> poll_channel_loop env history n b)"

definition poll_loop :: "('c, 'x) mdc_env_scheme \<Rightarrow> nat \<Rightarrow> ('c, bool) mtask" where
  "poll_loop env n = poll_channel_loop env False n MIN_DELAY"

definition history_poll_loop :: "('c, 'x) mdc_env_scheme \<Rightarrow> nat \<Rightarrow> ('c, bool) mtask" where
  "history_poll_loop env n = poll_channel_loop env True n MIN_DELAY"

section \<open>Ticker subscriptions\<close>

text \<open>\<open>setdefault(key, set())\<close>: the address of the key's set.\<close>

definition intent_set :: "wire_key \<Rightarrow> ('c, nat) mact" where
  "intent_set key = (\<lambda>s. case map_of (md_ticker_intents s) key of
       Some a \<Rightarrow> (Inr a, s)
     | None \<Rightarrow> (Inr (length (md_sets s)), s\<lparr>md_sets := md_sets s @ [[]],
                   md_ticker_intents := dict_set key (length (md_sets s)) (md_ticker_intents s)\<rparr>))"

definition update_set :: "nat \<Rightarrow> (string list \<Rightarrow> string list) \<Rightarrow> ('c, unit) mact" where
  "update_set a f = modifyE (\<lambda>s. s\<lparr>md_sets := (md_sets s)[a := f (md_sets s ! a)]\<rparr>)"

definition del_intents :: "wire_key \<Rightarrow> ('c, unit) mact" where
  "del_intents key =
     bindE (getE (\<lambda>s. map_of (md_ticker_intents s) key)) (\<lambda>a.
       if a = None then raiseE (exn_of KeyError ''ticker intents'')
       else modifyE (\<lambda>s. s\<lparr>md_ticker_intents := dict_pop key (md_ticker_intents s)\<rparr>))"

definition note_subscribed :: "wire_key \<Rightarrow> ('c, unit) mact" where
  "note_subscribed key = modifyE (\<lambda>s. s\<lparr>md_subscriptions := List.insert key (md_subscriptions s)\<rparr>)"

definition note_unsubscribed :: "wire_key \<Rightarrow> ('c, unit) mact" where
  "note_unsubscribed key = modifyE (\<lambda>s. s\<lparr>md_subscriptions := removeAll key (md_subscriptions s)\<rparr>)"

definition undo_intent :: "wire_key \<Rightarrow> nat \<Rightarrow> string \<Rightarrow> ('c, unit) mact" where
  "undo_intent key a kind =
     thenE (update_set a (removeAll kind))
     (bindE (getE (\<lambda>s. md_sets s ! a)) (\<lambda>left. if left = [] then del_intents key else returnE ()))"

definition add_ticker_intent :: "string \<Rightarrow> string \<Rightarrow> ('c, unit) mtask" where
  "add_ticker_intent iid kind =
     bindC (syncC (md_route iid)) (\<lambda>key.
     bindC (syncC (intent_set key)) (\<lambda>a.
     bindC (syncC (getE (\<lambda>s. (kind \<in> set (md_sets s ! a), key \<notin> set (md_subscriptions s))))) (\<lambda>(known, needs_subscribe).
       if known then returnC ()
       else thenC (syncC (update_set a (List.insert kind)))
         (if needs_subscribe then
            catchC (thenC (callM (McSubscribe key)) (syncC (note_subscribed key)))
              (\<lambda>e. thenC (syncC (undo_intent key a kind)) (raiseC e))
          else returnC ()))))"

definition subscribe_trade_ticks :: "string \<Rightarrow> ('c, unit) mtask" where
  "subscribe_trade_ticks iid = add_ticker_intent iid ''trade''"

definition subscribe_quote_ticks :: "string \<Rightarrow> ('c, unit) mtask" where
  "subscribe_quote_ticks iid = add_ticker_intent iid ''quote''"

definition drop_wire :: "wire_key \<Rightarrow> ('c, unit) mtask" where
  "drop_wire key = thenC (callM (McUnsubscribe key)) (syncC (note_unsubscribed key))"

text \<open>\<open>self._ticker_intents[key] = {kind}\<close>.\<close>

definition restore_intent :: "wire_key \<Rightarrow> string \<Rightarrow> ('c, unit) mact" where
  "restore_intent key kind = modifyE (\<lambda>s. s\<lparr>md_sets := md_sets s @ [[kind]],
     md_ticker_intents := dict_set key (length (md_sets s)) (md_ticker_intents s)\<rparr>)"

definition remove_last_intent :: "wire_key \<Rightarrow> string \<Rightarrow> ('c, unit) mtask" where
  "remove_last_intent key kind =
     thenC (syncC (del_intents key))
     (bindC (syncC (getE (\<lambda>s. key \<in> set (md_subscriptions s)))) (\<lambda>subscribed.
        if subscribed then catchC (drop_wire key) (\<lambda>e. thenC (syncC (restore_intent key kind)) (raiseC e))
        else returnC ()))"

definition remove_ticker_intent :: "string \<Rightarrow> string \<Rightarrow> bool \<Rightarrow> ('c, unit) mtask" where
  "remove_ticker_intent iid kind clear_bbo =
     bindC (syncC (md_route iid)) (\<lambda>key.
     thenC (syncC (if clear_bbo then modifyE (\<lambda>s. s\<lparr>md_bbo_state := dict_pop (fst key @ '':'' @ snd key) (md_bbo_state s)\<rparr>)
                   else returnE ()))
     (bindC (syncC (getE (\<lambda>s. map_of (md_ticker_intents s) key))) (\<lambda>a.
      bindC (syncC (getE (\<lambda>s. (case a of None \<Rightarrow> False | Some a \<Rightarrow> kind \<in> set (md_sets s ! a), key \<in> set (md_subscriptions s)))))
        (\<lambda>(known, subscribed). case a of
           Some a' \<Rightarrow>
             if known then
               thenC (syncC (update_set a' (removeAll kind)))
               (bindC (syncC (getE (\<lambda>s. md_sets s ! a'))) (\<lambda>left.
                  if left = [] then remove_last_intent key kind else returnC ()))
             else if subscribed then drop_wire key else returnC ()
         | None \<Rightarrow> if subscribed then drop_wire key else returnC ()))))"

definition unsubscribe_trade_ticks :: "string \<Rightarrow> ('c, unit) mtask" where
  "unsubscribe_trade_ticks iid = remove_ticker_intent iid ''trade'' False"

definition unsubscribe_quote_ticks :: "string \<Rightarrow> ('c, unit) mtask" where
  "unsubscribe_quote_ticks iid = remove_ticker_intent iid ''quote'' True"

section \<open>Book and bar subscriptions\<close>

definition subscribe_order_book_deltas :: "string \<Rightarrow> ('c, unit) mtask" where
  "subscribe_order_book_deltas iid =
     bindC (syncC (md_route iid)) (\<lambda>key.
     thenC (callM (McSubscribeBook key))
           (syncC (modifyE (\<lambda>s. s\<lparr>md_book_subscriptions := List.insert key (md_book_subscriptions s)\<rparr>))))"

definition unsubscribe_order_book_deltas :: "string \<Rightarrow> ('c, unit) mtask" where
  "unsubscribe_order_book_deltas iid =
     bindC (syncC (md_route iid)) (\<lambda>key.
     thenC (callM (McUnsubscribeBook key))
           (syncC (modifyE (\<lambda>s. s\<lparr>md_book_subscriptions := removeAll key (md_book_subscriptions s)\<rparr>))))"

definition route_bar_keys :: "('c, 'x) md_env_scheme \<Rightarrow> wire_key \<Rightarrow> int \<Rightarrow> bar_type \<Rightarrow> bar_key list res" where
  "route_bar_keys env key rtype bt =
     bindR (bar_wire_period_keys env bt) (\<lambda>ps. Inr (map (\<lambda>p. (fst key, snd key, rtype, p)) ps))"

definition set_bar_types :: "(bar_registry \<Rightarrow> bar_registry) \<Rightarrow> ('c, unit) mact" where
  "set_bar_types f = modifyE (\<lambda>s. s\<lparr>md_bar_types := f (md_bar_types s)\<rparr>)"

definition subscribe_bars :: "('c, 'x) md_env_scheme \<Rightarrow> bar_type \<Rightarrow> ('c, unit) mtask" where
  "subscribe_bars env bt =
     (if \<not> bt_external bt then returnC ()
      else if \<not> external_bar_advertised bt then
        raiseC (exn_of ValueError (''live EXTERNAL bars not advertised for '' @ me_bar_type_str env bt
          @ ''; use request_bars for lookback or INTERNAL 1s from ticks''))
      else
        bindC (syncC (md_route (bt_instrument_id bt))) (\<lambda>key.
        bindC (syncC (liftE (bar_type_to_rithmic env bt))) (\<lambda>(rtype, period).
        thenC (callM (McSubscribeBars (fst key, snd key, rtype, period)))
        (bindC (syncC (liftE (route_bar_keys env key rtype bt))) (\<lambda>ks.
         thenC (syncC (set_bar_types (fold (register_key bt) ks)))
               (syncC ensure_history_poll_task))))))"

definition rollback_bars :: "(bar_key \<times> bar_type list) list \<Rightarrow> bar_registry \<Rightarrow> bar_registry" where
  "rollback_bars saved reg = fold (\<lambda>(k, v) r. if v = [] then dict_pop k r else dict_set k v r) saved reg"

definition unsubscribe_bars :: "('c, 'x) md_env_scheme \<Rightarrow> bar_type \<Rightarrow> ('c, unit) mtask" where
  "unsubscribe_bars env bt =
     (if \<not> bt_external bt \<or> \<not> external_bar_advertised bt then returnC ()
      else
        bindC (syncC (md_route (bt_instrument_id bt))) (\<lambda>key.
        bindC (syncC (liftE (bar_type_to_rithmic env bt))) (\<lambda>(rtype, period).
        bindC (syncC (liftE (route_bar_keys env key rtype bt))) (\<lambda>ks.
        bindC (syncC (getE (\<lambda>s. map (\<lambda>k. (k, registered (md_bar_types s) k)) ks))) (\<lambda>saved.
        thenC (syncC (set_bar_types (fold (unregister_key bt) ks)))
        (bindC (syncC (getE (\<lambda>s. list_ex (\<lambda>k. map_of (md_bar_types s) k \<noteq> None) ks))) (\<lambda>still_registered.
           if still_registered then returnC ()
           else catchC (callM (McUnsubscribeBars (fst key, snd key, rtype, period)))
             (\<lambda>e. thenC (syncC (set_bar_types (rollback_bars saved))) (raiseC e))))))))) "

section \<open>Requests\<close>

text \<open>The failure tags of bar requests: at most 256, the oldest dropped first.\<close>

definition MAX_REQUEST_BARS_ERRORS :: nat where "MAX_REQUEST_BARS_ERRORS = 256"

definition note_request_bars_error :: "string \<Rightarrow> string \<Rightarrow> (string \<times> string) list \<Rightarrow> (string \<times> string) list" where
  "note_request_bars_error rid tag d =
     (let d' = dict_set rid tag d in drop (length d' - MAX_REQUEST_BARS_ERRORS) d')"

definition request_bars_error :: "string \<Rightarrow> (string \<times> string) list \<Rightarrow> string option \<times> (string \<times> string) list" where
  "request_bars_error rid d = (map_of d rid, dict_pop rid d)"

definition is_live_md_history_denied :: "exn \<Rightarrow> bool" where
  "is_live_md_history_denied e \<longleftrightarrow>
     exn_code e = Some ''capability_denied'' \<or> str_contains ''history_denied_live_md'' (exn_msg e)
     \<or> str_contains ''capability_denied'' (exn_msg e)"

text \<open>\<open>max(low, float(raw))\<close> of an environment variable, with a default text and a fallback.\<close>

definition env_seconds :: "string option \<Rightarrow> string \<Rightarrow> rat \<Rightarrow> rat \<Rightarrow> pyfloat" where
  "env_seconds raw dflt low fallback =
     (case py_float (PStr (str_strip (case raw of None \<Rightarrow> dflt | Some r \<Rightarrow> r))) of
        Inl _ \<Rightarrow> Fin fallback
      | Inr (Fin x) \<Rightarrow> Fin (max low x)
      | Inr PInf \<Rightarrow> PInf
      | Inr _ \<Rightarrow> Fin low)"

definition history_live_md_wait_sec :: "string option \<Rightarrow> pyfloat" where
  "history_live_md_wait_sec raw = env_seconds raw ''45'' 0 45"

definition history_live_md_retry_sec :: "string option \<Rightarrow> pyfloat" where
  "history_live_md_retry_sec raw = env_seconds raw ''2'' (3602879701896397 / 18014398509481984) 2"

record md_request =
  rq_id :: string
  rq_start :: "pyfloat option" \<comment> \<open>\<open>timestamp()\<close> of the request's times\<close>
  rq_end :: "pyfloat option"
  rq_limit :: int

text \<open>\<open>xs[-n:]\<close> for \<open>n \<noteq> 0\<close>.\<close>

definition py_tail :: "int \<Rightarrow> 'a list \<Rightarrow> 'a list" where
  "py_tail n xs = (if n > 0 then drop (length xs - nat n) xs else drop (nat (- n)) xs)"

definition limited :: "int \<Rightarrow> 'a list \<Rightarrow> 'a list" where
  "limited n xs = (if n = 0 then xs else py_tail n xs)"

definition answer_ticks :: "('c, 'x) md_env_scheme \<Rightarrow> string \<Rightarrow> md_request \<Rightarrow> trade_tick list \<Rightarrow> ('c, unit) mact" where
  "answer_ticks env iid rq ticks = publish env (MdTradesReply iid ticks (rq_id rq))"

definition convert_ticks :: "('c, 'x) mdc_env_scheme \<Rightarrow> string \<Rightarrow> wire_key \<Rightarrow> pydict list \<Rightarrow> ('c, trade_tick list) mact" where
  "convert_ticks env iid key raw =
     bindE (md_timestamp_ns env) (\<lambda>ts_init.
     catchE (bindE (md_price_precision env iid) (\<lambda>prec.
             payloads_to_trade_ticks env raw (fst key) (snd key) prec ts_init
               (Some (\<lambda>_. count_skip env ''history_tick_invalid''))))
       (\<lambda>e. if is_value_error e then returnE [] else raiseE e))"

definition request_trade_ticks :: "('c, 'x) mdc_env_scheme \<Rightarrow> string \<Rightarrow> md_request \<Rightarrow> ('c, unit) mtask" where
  "request_trade_ticks env iid rq =
     tryC (syncC (md_route iid))
       (\<lambda>e. if is_value_error e then syncC (answer_ticks env iid rq []) else raiseC e)
       (\<lambda>key. case (rq_start rq, rq_end rq) of
          (Some st, Some en) \<Rightarrow>
            bindC (syncC (liftE (py_int (PFloat st)))) (\<lambda>start.
            bindC (syncC (liftE (py_int (PFloat en)))) (\<lambda>stop.
            tryC (awaitM (McLoadTicks key start stop))
              (\<lambda>_. syncC (answer_ticks env iid rq []))
              (\<lambda>v. syncC (bindE (convert_ticks env iid key (rows_of v)) (\<lambda>ticks.
                           answer_ticks env iid rq (limited (rq_limit rq) ticks))))))
        | _ \<Rightarrow> syncC (answer_ticks env iid rq []))"

definition answer_bars :: "('c, 'x) md_env_scheme \<Rightarrow> bar_type \<Rightarrow> md_request \<Rightarrow> md_bar list \<Rightarrow> ('c, unit) mact" where
  "answer_bars env bt rq bars = publish env (MdBarsReply bt bars (rq_id rq))"

definition note_error :: "string \<Rightarrow> string \<Rightarrow> ('c, unit) mact" where
  "note_error rid tag = modifyE (\<lambda>s. s\<lparr>md_bars_errors := note_request_bars_error rid tag (md_bars_errors s)\<rparr>)"

text \<open>
  The load with its retries: while live data blocks history, the load is repeated until the deadline;
  the argument is the number of tests made before it passes.
\<close>

fun load_bars :: "bar_key \<Rightarrow> int \<Rightarrow> int \<Rightarrow> nat \<Rightarrow> ('c, md_value) mtask" where
  "load_bars k start stop n =
     tryC (awaitM (case k of (sy, ex, rt, pd) \<Rightarrow> McLoadBars (sy, ex) start stop rt pd))
       (\<lambda>e. case n of
          0 \<Rightarrow> raiseC e
        | Suc n' \<Rightarrow> if is_live_md_history_denied e then thenC (pauseM McSleep) (load_bars k start stop n') else raiseC e)
       returnC"

declare load_bars.simps [simp del]

definition end_ns_of :: "pyfloat \<Rightarrow> int res" where
  "end_ns_of f = py_int (PFloat (case f of Fin x \<Rightarrow> to_double (x * 1000000000) | _ \<Rightarrow> f))"

definition note_bars :: "md_bar list \<Rightarrow> ('c, unit) mact" where
  "note_bars bars = modifyE (\<lambda>s. s\<lparr>md_bar_seq := fold guard_note bars (md_bar_seq s)\<rparr>)"

definition convert_bars :: "('c, 'x) mdc_env_scheme \<Rightarrow> bar_type \<Rightarrow> wire_key \<Rightarrow> pydict list \<Rightarrow> ('c, md_bar list res) mact" where
  "convert_bars env bt key raw =
     bindE (md_timestamp_ns env) (\<lambda>ts_init.
     bindE (getE md_bars_on_close) (\<lambda>on_close.
     catchE (bindE (md_price_precision env (bt_instrument_id bt)) (\<lambda>prec.
             bindE (payloads_to_bars env raw (fst key) (snd key) bt prec ts_init
                     (Some (\<lambda>_. count_skip env ''history_bar_invalid'')) on_close) (\<lambda>bars. returnE (Inr bars))))
       (\<lambda>e. if is_value_error e then returnE (Inl e) else raiseE e)))"

definition deliver_bars :: "('c, 'x) mdc_env_scheme \<Rightarrow> bar_type \<Rightarrow> md_request \<Rightarrow> pyfloat \<Rightarrow> wire_key \<Rightarrow> pydict list \<Rightarrow> ('c, unit) mact" where
  "deliver_bars env bt rq en key raw =
     bindE (convert_bars env bt key raw) (\<lambda>r. case r of
       Inl _ \<Rightarrow> answer_bars env bt rq []
     | Inr bars0 \<Rightarrow>
         bindE (liftE (end_ns_of en)) (\<lambda>end_ns.
         bindE (getE md_bars_on_close) (\<lambda>on_close.
           (let bars = limited (rq_limit rq) (closed_bars bars0 bt end_ns on_close)
            in thenE (note_bars bars) (answer_bars env bt rq bars)))))"

definition bars_failed :: "('c, 'x) mdc_env_scheme \<Rightarrow> bar_type \<Rightarrow> md_request \<Rightarrow> exn \<Rightarrow> ('c, unit) mact" where
  "bars_failed env bt rq e =
     thenE (note_error (rq_id rq) (if is_live_md_history_denied e then ''hydrate_blocked_live_md'' else ''history_error''))
           (answer_bars env bt rq [])"

definition request_bars :: "('c, 'x) mdc_env_scheme \<Rightarrow> nat \<Rightarrow> bar_type \<Rightarrow> md_request \<Rightarrow> ('c, unit) mtask" where
  "request_bars env n bt rq =
     tryC (bindC (syncC (md_route (bt_instrument_id bt))) (\<lambda>key.
           bindC (syncC (liftE (bar_type_to_rithmic env bt))) (\<lambda>tp. returnC (key, tp))))
       (\<lambda>e. if is_value_error e then syncC (answer_bars env bt rq []) else raiseC e)
       (\<lambda>(key, rtype, period). case (rq_start rq, rq_end rq) of
          (Some st, Some en) \<Rightarrow>
            bindC (syncC (liftE (py_int (PFloat st)))) (\<lambda>start.
            bindC (syncC (liftE (py_int (PFloat en)))) (\<lambda>stop.
            tryC (load_bars (fst key, snd key, rtype, period) start stop n)
              (\<lambda>e. syncC (bars_failed env bt rq e))
              (\<lambda>v. syncC (deliver_bars env bt rq en key (rows_of v)))))
        | _ \<Rightarrow> syncC (answer_bars env bt rq []))"

section \<open>A concrete client\<close>

definition demo_mdc_env :: "demo_cache mdc_env" where
  "demo_mdc_env = md_env.extend demo_md_env (mdc_env.fields (\<lambda>c. map snd (dc_instruments c)) None (\<lambda>n. of_nat n))"

definition demo_nq :: nt_instrument where
  "demo_nq = \<lparr>in_id = ''NQU6-CME.RITHMIC'', in_info = [(''rithmic_symbol'', PStr ''NQU6''), (''rithmic_exchange'', PStr ''CME'')],
     in_price_increment = Fin (1 / 4), in_price_precision = 2, in_size_precision = 0\<rparr>"

definition demo_minute :: bar_type where
  "demo_minute = \<lparr>bt_instrument_id = ''NQU6-CME.RITHMIC'', bt_step = 1, bt_aggregation = MINUTE, bt_price_type = ''LAST'',
     bt_external = True\<rparr>"

text \<open>A client with one instrument and its one-minute bars subscribed.\<close>

definition demo_md :: "demo_cache md" where
  "demo_md = (md_new \<lparr>dc_orders = [], dc_venue_ids = [], dc_instruments = [(''NQU6-CME.RITHMIC'', demo_nq)], dc_positions = []\<rparr> True)
     \<lparr>md_routes := [(''NQU6-CME.RITHMIC'', (''NQU6'', ''CME''))],
      md_bar_types := [((''NQU6'', ''CME'', 2, 1), [demo_minute]), ((''NQU6'', ''CME'', 2, 60), [demo_minute])]\<rparr>"

text \<open>A one-minute bar as the venue sends it: the period comes back in seconds.\<close>

definition demo_bar_event :: "int \<Rightarrow> pydict" where
  "demo_bar_event m = [(''type'', PStr ''time_bar''), (''symbol'', PStr ''NQU6''), (''exchange'', PStr ''CME''),
     (''bar_type'', PInt 2), (''period'', PStr ''60''), (''marker'', PInt m), (''open_price'', PInt 10), (''high_price'', PInt 12),
     (''low_price'', PInt 9), (''close_price'', PInt 11), (''volume'', PInt 5)]"

end
