(* ===== verification/MarketData.thy ===== *)
theory MarketData
  imports DataClient
begin

text \<open>
  The data client as a system of tasks, and its properties. \<open>md_frame\<close> collects what a relation between
  states must allow so that every segment of every task keeps it; it is interpreted for the growth of the
  trace and for the order of bars.
\<close>

section \<open>Entry points\<close>

datatype md_entry =
    MConnect | MDisconnect | MResumed | MPoll nat | MHistoryPoll nat | MEvent pydict
  | MSubTrades string | MUnsubTrades string | MSubQuotes string | MUnsubQuotes string
  | MSubBook string | MUnsubBook string | MSubBars bar_type | MUnsubBars bar_type
  | MRequestTicks string md_request | MRequestBars nat bar_type md_request

definition discardC :: "('s, 'q, 'r, 'a) co \<Rightarrow> ('s, 'q, 'r, unit) co" where
  "discardC m = bindC m (\<lambda>_. returnC ())"

fun md_entry_task :: "('c, 'x) mdc_env_scheme \<Rightarrow> md_entry \<Rightarrow> ('c, unit) mtask" where
  "md_entry_task env MConnect = md_connect env"
| "md_entry_task env MDisconnect = md_disconnect"
| "md_entry_task env MResumed = syncC reconcile_md_after_resumed"
| "md_entry_task env (MPoll n) = discardC (poll_loop env n)"
| "md_entry_task env (MHistoryPoll n) = discardC (history_poll_loop env n)"
| "md_entry_task env (MEvent event) = syncC (dispatch_event env event)"
| "md_entry_task env (MSubTrades iid) = subscribe_trade_ticks iid"
| "md_entry_task env (MUnsubTrades iid) = unsubscribe_trade_ticks iid"
| "md_entry_task env (MSubQuotes iid) = subscribe_quote_ticks iid"
| "md_entry_task env (MUnsubQuotes iid) = unsubscribe_quote_ticks iid"
| "md_entry_task env (MSubBook iid) = subscribe_order_book_deltas iid"
| "md_entry_task env (MUnsubBook iid) = unsubscribe_order_book_deltas iid"
| "md_entry_task env (MSubBars bt) = subscribe_bars env bt"
| "md_entry_task env (MUnsubBars bt) = unsubscribe_bars env bt"
| "md_entry_task env (MRequestTicks iid rq) = request_trade_ticks env iid rq"
| "md_entry_task env (MRequestBars n bt rq) = request_bars env n bt rq"

text \<open>What changes outside the client's tasks: the cache, the clocks, a poll task that ended, a reader of the error tags.\<close>

inductive md_outside :: "'c md \<Rightarrow> 'c md \<Rightarrow> bool" where
  cache: "md_outside s (s\<lparr>md_cache := c\<rparr>)"
| clocks: "md_outside s (s\<lparr>md_clock := md_clock s + n, md_monotonic := md_monotonic s + m\<rparr>)"
| poll_ends: "md_outside s (s\<lparr>md_poll := Finished\<rparr>)"
| history_ends: "md_outside s (s\<lparr>md_history_poll := Finished\<rparr>)"
| error_read: "md_outside s (s\<lparr>md_bars_errors := snd (request_bars_error rid (md_bars_errors s))\<rparr>)"
| trade_ids: "md_outside s (s\<lparr>sq_next := sq_next s + 1\<rparr>)"

abbreviation md_reach where
  "md_reach env \<equiv> task_reach (md_entry_task env) md_outside"

section \<open>Frames\<close>

text \<open>Items that are neither a live bar nor an answer with bars.\<close>

definition barless :: "md_item \<Rightarrow> bool" where
  "barless i \<longleftrightarrow> (case i of MdBar _ \<Rightarrow> False | MdBarsReply _ bars _ \<Rightarrow> bars = [] | _ \<Rightarrow> True)"

locale md_frame =
  fixes R :: "'c md \<Rightarrow> 'c md \<Rightarrow> bool"
  assumes refl: "reflp R" and trans: "transp R"
    and same: "md_trace s' = md_trace s \<Longrightarrow> md_bar_seq s' = md_bar_seq s \<Longrightarrow> R s s'"
    and call: "R s (s\<lparr>md_trace := md_trace s @ [MtCall c]\<rparr>)"
    and item: "barless i \<Longrightarrow> R s (s\<lparr>md_cache := cache, md_trace := md_trace s @ [MtPublish i]\<rparr>)"
    and live: "guard_admit b (md_bar_seq s) = (True, g) \<Longrightarrow>
      R s (s\<lparr>md_bar_seq := g, md_cache := cache, md_trace := md_trace s @ [MtPublish (MdBar b)]\<rparr>)"
    and admitted: "guard_admit b (md_bar_seq s) = (ok, g) \<Longrightarrow> R s (s\<lparr>md_bar_seq := g, md_cache := cache\<rparr>)"
    and noted: "R s (s\<lparr>md_bar_seq := fold guard_note bars (md_bar_seq s), md_cache := cache\<rparr>)"
    and answered: "R s (s\<lparr>md_bar_seq := fold guard_note bars (md_bar_seq s), md_cache := cache,
      md_trace := md_trace s @ [MtPublish (MdBarsReply bt bars rid)]\<rparr>)"
begin

lemmas rel_rules = segments_rules keeps_rules trans refl

lemma keeps_same: "(\<And>s. md_trace (f s) = md_trace s) \<Longrightarrow> (\<And>s. md_bar_seq (f s) = md_bar_seq s) \<Longrightarrow> keeps R (modifyE f)"
  by (rule keeps_modifyE) (rule same)

lemma keeps_same_em: "(\<And>s. md_trace (snd (m s)) = md_trace s) \<Longrightarrow> (\<And>s. md_bar_seq (snd (m s)) = md_bar_seq s) \<Longrightarrow> keeps R m"
  by (rule keepsI) (rule same)

lemma keeps_publish: "barless i \<Longrightarrow> keeps R (publish env i)"
  by (rule keepsI) (auto simp: publish_def same item split: prod.splits option.splits)

lemma keeps_clock: "keeps R (md_timestamp_ns env)" "keeps R (md_monotonic_now env)"
  by (rule keeps_same_em; simp add: md_timestamp_ns_def md_monotonic_now_def)+

lemma keeps_skip: "keeps R (count_skip env reason)"
  unfolding count_skip_def by (intro rel_rules keeps_clock keeps_same) simp_all

lemma keeps_precision: "keeps R (md_price_precision env iid)"
  unfolding md_price_precision_def by (intro rel_rules)

lemma keeps_route: "keeps R (md_route iid)"
  unfolding md_route_def by (intro rel_rules)

lemma keeps_with: "keeps R (with_bbo key m)" "keeps R (with_books m')"
  by (rule keeps_same_em; simp add: with_bbo_def with_books_def split: prod.splits)+

lemma keeps_trade_tick: "keeps R (fields_to_trade_tick env f ts prec)"
  unfolding fields_to_trade_tick_def trade_id_def Let_def
  by (intro rel_rules keeps_same) simp_all

lemma keeps_live_bar: "keeps R (bindE (admit_bar b) (\<lambda>ok. if ok then publish env (MdBar b) else count_skip env reason))"
proof (rule keepsI)
  fix s :: "'c md"
  obtain ok g where a: "guard_admit b (md_bar_seq s) = (ok, g)" by fastforce
  have g: "R s (s\<lparr>md_bar_seq := g\<rparr>)" using admitted [OF a, of "md_cache s"] by simp
  have p: "R s (snd (publish env (MdBar b) (s\<lparr>md_bar_seq := g\<rparr>)))" if ok
    using a that live admitted by (auto simp: publish_def split: prod.splits option.splits)
  have k: "R s (snd (count_skip env reason (s\<lparr>md_bar_seq := g\<rparr>)))" using transpD [OF trans g keepsD [OF keeps_skip]] .
  from a p k show "R s (snd (bindE (admit_bar b) (\<lambda>ok. if ok then publish env (MdBar b) else count_skip env reason) s))"
    by (cases ok) (simp_all add: bindE_def admit_bar_def)
qed

lemma keeps_dispatch_bar: "keeps R (dispatch_bar env f ts bt)"
  unfolding dispatch_bar_def by (intro rel_rules keeps_precision keeps_live_bar)

lemma keeps_dispatch: "keeps R (dispatch_event env event)"
  unfolding dispatch_event_def dispatch_body_def dispatch_trade_def dispatch_bbo_def dispatch_book_def
    dispatch_time_bar_def Let_def
  by (intro rel_rules keeps_clock keeps_skip keeps_precision keeps_trade_tick keeps_with keeps_dispatch_bar keeps_publish)
     (simp_all add: barless_def)

lemma segments_await: "segments R (awaitM c)" "segments R (pauseM c)"
  by (auto intro!: segmentsI simp: awaitM_def pauseM_def call reflpD [OF refl])

lemma segments_call: "segments R (callM c)"
  unfolding callM_def by (intro rel_rules segments_await)

lemma segments_replay: "segments R (replay_subscription_intent subs books bars)"
  unfolding replay_subscription_intent_def subscribe_replay_def by (intro rel_rules segments_call)

lemma keeps_replay_terms: "keeps R (replay_terms env)"
  unfolding replay_terms_def by (intro rel_rules)

lemma keeps_clear: "keeps R clear_md_state"
  unfolding clear_md_state_def by (intro keeps_same) simp_all

lemma keeps_restart: "keeps R restart_history_poll" "keeps R ensure_history_poll_task"
  unfolding restart_history_poll_def ensure_history_poll_task_def
  by (intro rel_rules keeps_same; simp)+

lemma keeps_load_instrument: "keeps R (load_instrument env i)"
  unfolding load_instrument_def by (auto intro!: rel_rules keeps_publish keeps_same simp: barless_def split: option.splits)

lemma segments_connect: "segments R (md_connect env)"
  unfolding md_connect_def md_attach_def
  by (intro rel_rules segments_call keeps_load_instrument keeps_replay_terms)
     (auto intro!: rel_rules segments_replay keeps_clear keeps_restart keeps_same split: prod.split)

lemma segments_join: "(\<And>s. md_trace (st NoTask s) = md_trace s) \<Longrightarrow> (\<And>s. md_bar_seq (st NoTask s) = md_bar_seq s)
    \<Longrightarrow> segments R (join_poll get_task st label)"
  unfolding join_poll_def by (intro rel_rules segments_call keeps_same) simp_all

lemma segments_disconnect: "segments R md_disconnect"
  unfolding md_disconnect_def by (intro rel_rules segments_call segments_join keeps_same) simp_all

lemma segments_resync: "segments R (resync_ticker_subscription env)"
  unfolding resync_ticker_subscription_def acquire_resync_def release_resync_def resync_body_def resync_ticker_session_def
  by (intro rel_rules segments_await keeps_clear keeps_replay_terms keeps_same)
     (auto intro!: rel_rules segments_replay keeps_same split: prod.split)

lemma segments_handle_events: "segments R (handle_events env backoff events)"
  by (induction events arbitrary: backoff)
     (auto intro!: rel_rules segments_await segments_resync keeps_dispatch simp: resync_channel_def)

lemma segments_poll_round: "segments R (poll_round env history backoff)"
  unfolding poll_round_def by (intro rel_rules segments_await segments_handle_events)

lemma segments_poll_channel: "segments R (poll_channel_loop env history n backoff)"
  by (induction n arbitrary: backoff) (auto intro!: rel_rules segments_poll_round split: option.split)

lemma keeps_sets: "keeps R (update_set a f)" "keeps R (del_intents key)" "keeps R (note_subscribed key)"
  "keeps R (note_unsubscribed key)" "keeps R (restore_intent key kind)" "keeps R (set_bar_types g)"
  unfolding update_set_def del_intents_def note_subscribed_def note_unsubscribed_def restore_intent_def set_bar_types_def
  by (intro rel_rules keeps_same; simp)+

lemma keeps_intent_set: "keeps R (intent_set key)"
  by (rule keeps_same_em) (simp_all add: intent_set_def split: option.split)

lemma keeps_undo: "keeps R (undo_intent key a kind)"
  unfolding undo_intent_def by (intro rel_rules keeps_sets)

lemma segments_add: "segments R (add_ticker_intent iid kind)"
  unfolding add_ticker_intent_def
  by (intro rel_rules keeps_route keeps_intent_set)
     (auto intro!: rel_rules keeps_sets keeps_undo segments_call split: prod.split)

lemma segments_drop_wire: "segments R (drop_wire key)"
  unfolding drop_wire_def by (intro rel_rules keeps_sets segments_call)

lemma segments_remove: "segments R (remove_ticker_intent iid kind clear_bbo)"
  unfolding remove_ticker_intent_def remove_last_intent_def
  by (intro rel_rules keeps_route keeps_same)
     (auto intro!: rel_rules keeps_sets segments_drop_wire split: prod.split option.split)

lemma segments_books: "segments R (subscribe_order_book_deltas iid)" "segments R (unsubscribe_order_book_deltas iid)"
  unfolding subscribe_order_book_deltas_def unsubscribe_order_book_deltas_def
  by (intro rel_rules keeps_route segments_call keeps_same; simp)+

lemma segments_subscribe_bars: "segments R (subscribe_bars env bt)"
  unfolding subscribe_bars_def
  by (intro rel_rules keeps_route)
     (auto intro!: rel_rules keeps_sets keeps_restart segments_call split: prod.split)

lemma segments_unsubscribe_bars: "segments R (unsubscribe_bars env bt)"
  unfolding unsubscribe_bars_def
  by (intro rel_rules keeps_route)
     (auto intro!: rel_rules keeps_sets segments_call split: prod.split)

lemma keeps_convert_rows: "(\<And>d. keeps R (conv d)) \<Longrightarrow> (\<And>f e. on_invalid = Some f \<Longrightarrow> keeps R (f e))
    \<Longrightarrow> keeps R (convert_rows check conv on_invalid ds)"
  by (induction ds) (auto intro!: rel_rules split: option.split)

lemma keeps_answer_ticks: "keeps R (answer_ticks env iid rq ticks)"
  unfolding answer_ticks_def by (rule keeps_publish) (simp add: barless_def)

lemma keeps_convert_ticks: "keeps R (convert_ticks env iid key raw)"
  unfolding convert_ticks_def payloads_to_trade_ticks_def tick_row_def
  by (intro rel_rules keeps_clock keeps_precision keeps_convert_rows keeps_trade_tick)
     (auto intro: keeps_skip)

lemma segments_request_ticks: "segments R (request_trade_ticks env iid rq)"
  unfolding request_trade_ticks_def
  by (intro rel_rules keeps_route keeps_answer_ticks)
     (auto intro!: rel_rules segments_await keeps_answer_ticks keeps_convert_ticks split: option.split)

lemma keeps_answer_bars:
  "keeps R (thenE (note_bars bars) (answer_bars env bt rq bars))"
  by (rule keepsI) (auto simp: thenE_def bindE_def note_bars_def modifyE_def answer_bars_def publish_def noted answered
      split: prod.splits option.splits)

lemma keeps_answer_nothing: "keeps R (answer_bars env bt rq [])"
  unfolding answer_bars_def by (rule keeps_publish) (simp add: barless_def)

lemma keeps_bars_failed: "keeps R (bars_failed env bt rq e)"
  unfolding bars_failed_def note_error_def by (intro rel_rules keeps_answer_nothing keeps_same) simp_all

lemma keeps_convert_bars: "keeps R (convert_bars env bt key raw)"
  unfolding convert_bars_def payloads_to_bars_def
  by (intro rel_rules keeps_clock keeps_precision) (auto intro!: rel_rules keeps_convert_rows keeps_skip split: prod.split)

lemma keeps_deliver_bars: "keeps R (deliver_bars env bt rq en key raw)"
  unfolding deliver_bars_def Let_def
  by (intro rel_rules keeps_convert_bars keeps_answer_nothing keeps_answer_bars)

lemma segments_load_bars: "segments R (load_bars k start stop n)"
proof (induction n)
  case 0
  show ?case by (subst load_bars.simps) (auto intro!: rel_rules segments_await)
next
  case (Suc n)
  then show ?case by (subst load_bars.simps) (auto intro!: rel_rules segments_await)
qed

lemma segments_request_bars: "segments R (request_bars env n bt rq)"
  unfolding request_bars_def
  by (intro rel_rules keeps_route keeps_answer_nothing)
     (auto intro!: rel_rules segments_load_bars keeps_bars_failed keeps_deliver_bars keeps_answer_nothing
       split: prod.split option.split)

lemma segments_discard: "segments R m \<Longrightarrow> segments R (discardC m)"
  unfolding discardC_def by (intro rel_rules)

lemma segments_entry: "segments R (md_entry_task env e)"
  by (cases e)
     (auto simp: segments_connect segments_disconnect segments_books segments_subscribe_bars segments_unsubscribe_bars
       segments_request_ticks segments_request_bars segments_add segments_remove poll_loop_def history_poll_loop_def
       subscribe_trade_ticks_def unsubscribe_trade_ticks_def subscribe_quote_ticks_def unsubscribe_quote_ticks_def
       reconcile_md_after_resumed_def
       intro!: segments_discard segments_poll_channel segments_syncC keeps_dispatch keeps_thenE trans keeps_clear keeps_restart)

lemma outside_R: "md_outside s s' \<Longrightarrow> R s s'"
  by (erule md_outside.cases) (auto intro!: same)

end

sublocale md_frame < md_sys: task_relation "md_entry_task env" md_outside R for env
  by unfold_locales (rule refl trans segments_entry outside_R, assumption?)+

section \<open>Bars only move forward\<close>

text \<open>The times a trace item delivered for a bar type, live or in an answer.\<close>

definition delivered :: "bar_type \<Rightarrow> md_trace_item \<Rightarrow> int list" where
  "delivered bt it = (case it of
       MtPublish (MdBar b) \<Rightarrow> (if ba_bar_type b = bt then [ba_ts_event b] else [])
     | MtPublish (MdBarsReply _ bars _) \<Rightarrow> map ba_ts_event (filter (\<lambda>b. ba_bar_type b = bt) bars)
     | _ \<Rightarrow> [])"

definition fresh_after :: "md_trace_item list \<Rightarrow> md_bar \<Rightarrow> bool" where
  "fresh_after tr b \<longleftrightarrow> list_all (\<lambda>t. t < ba_ts_event b) (concat (map (delivered (ba_bar_type b)) tr))"

text \<open>Every live bar is newer than all bars of its type delivered before it.\<close>

definition in_order :: "md_trace_item list \<Rightarrow> md_trace_item \<Rightarrow> bool" where
  "in_order before it = (case it of MtPublish (MdBar b) \<Rightarrow> fresh_after before b | _ \<Rightarrow> True)"

fun forward :: "md_trace_item list \<Rightarrow> md_trace_item list \<Rightarrow> bool" where
  "forward before [] = True"
| "forward before (it # rest) =
     (in_order before it \<and> forward (before @ [it]) rest)"

lemma forward_snoc:
  "forward before (tr @ [it]) \<longleftrightarrow> forward before tr \<and> in_order (before @ tr) it"
  by (induction tr arbitrary: before) (simp_all add: conj_assoc)

text \<open>The guard's mark bounds everything delivered.\<close>

definition below_mark :: "bar_guard \<Rightarrow> bar_type \<Rightarrow> int \<Rightarrow> bool" where
  "below_mark g bt t \<longleftrightarrow> (case map_of g bt of None \<Rightarrow> False | Some m \<Rightarrow> t \<le> m)"

definition marked :: "'c md \<Rightarrow> bool" where
  "marked s \<longleftrightarrow> (\<forall>bt t. t \<in> set (concat (map (delivered bt) (md_trace s))) \<longrightarrow> below_mark (md_bar_seq s) bt t)"

definition bars_ok :: "'c md \<Rightarrow> bool" where
  "bars_ok s \<longleftrightarrow> forward [] (md_trace s) \<and> marked s"

definition bars_kept :: "'c md \<Rightarrow> 'c md \<Rightarrow> bool" where
  "bars_kept s s' \<longleftrightarrow> (bars_ok s \<longrightarrow> bars_ok s')"

lemma below_admit:
  assumes "guard_admit b g = (ok, g')" "below_mark g bt t"
  shows "below_mark g' bt t"
  using assms by (auto simp: guard_admit_def guard_get_def below_mark_def split: if_splits option.splits)

lemma below_note: "below_mark g bt t \<Longrightarrow> below_mark (guard_note b g) bt t"
  by (auto simp: guard_note_def guard_get_def below_mark_def split: option.splits)

lemma below_notes: "below_mark g bt t \<Longrightarrow> below_mark (fold guard_note bars g) bt t"
  by (induction bars arbitrary: g) (simp_all add: below_note)

lemma noted_below: "b \<in> set bars \<Longrightarrow> below_mark (fold guard_note bars g) (ba_bar_type b) (ba_ts_event b)"
proof (induction bars arbitrary: g)
  case (Cons a bars)
  have "below_mark (guard_note a g) (ba_bar_type a) (ba_ts_event a)" by (simp add: guard_note_def below_mark_def)
  with Cons show ?case by (auto intro: below_notes)
qed simp

lemma admit_fresh:
  assumes "guard_admit b g = (True, g')"
  shows "below_mark g (ba_bar_type b) t \<Longrightarrow> t < ba_ts_event b" "below_mark g' (ba_bar_type b) (ba_ts_event b)"
  using assms by (auto simp: guard_admit_def guard_get_def below_mark_def split: if_splits option.splits)

text \<open>Items that are not a live bar.\<close>

definition not_live :: "md_trace_item \<Rightarrow> bool" where
  "not_live it \<longleftrightarrow> (case it of MtPublish (MdBar _) \<Rightarrow> False | _ \<Rightarrow> True)"

lemma not_live_in_order: "not_live it \<Longrightarrow> in_order tr it"
  by (auto simp: not_live_def in_order_def split: md_trace_item.splits md_item.splits)

lemma barless_item: "barless i \<Longrightarrow> not_live (MtPublish i) \<and> delivered bt (MtPublish i) = []"
  by (cases i) (simp_all add: barless_def not_live_def delivered_def)

lemma call_item: "not_live (MtCall c) \<and> delivered bt (MtCall c) = []"
  by (simp add: not_live_def delivered_def)

lemma bars_ok_quiet:
  assumes "bars_ok s" "md_trace s' = md_trace s @ its" "list_all not_live its"
    "\<And>bt t. below_mark (md_bar_seq s) bt t \<Longrightarrow> below_mark (md_bar_seq s') bt t"
    "\<And>bt t it. it \<in> set its \<Longrightarrow> t \<in> set (delivered bt it) \<Longrightarrow> below_mark (md_bar_seq s') bt t"
  shows "bars_ok s'"
proof -
  have "forward [] (md_trace s @ its)" using assms(1,3)
  proof (induction its rule: rev_induct)
    case (snoc it its)
    then show ?case by (simp add: forward_snoc append_assoc [symmetric] not_live_in_order del: append_assoc)
  qed (simp add: bars_ok_def)
  moreover have "marked s'" using assms by (auto simp: bars_ok_def marked_def)
  ultimately show ?thesis using assms(2) by (simp add: bars_ok_def)
qed

lemma bars_ok_live:
  assumes "bars_ok s" "guard_admit b (md_bar_seq s) = (True, g)"
  shows "bars_ok (s\<lparr>md_bar_seq := g, md_cache := cache, md_trace := md_trace s @ [MtPublish (MdBar b)]\<rparr>)"
proof -
  have "fresh_after (md_trace s) b"
    using assms(1) admit_fresh(1) [OF assms(2)] by (auto simp: fresh_after_def list_all_iff bars_ok_def marked_def)
  moreover have "marked (s\<lparr>md_bar_seq := g, md_cache := cache, md_trace := md_trace s @ [MtPublish (MdBar b)]\<rparr>)"
    using assms(1) admit_fresh(2) [OF assms(2)] below_admit [OF assms(2)]
    by (auto simp: marked_def bars_ok_def delivered_def split: if_splits)
  ultimately show ?thesis using assms(1) by (simp add: bars_ok_def forward_snoc in_order_def)
qed

interpretation bars_kept: md_frame bars_kept
proof
  show "reflp bars_kept" "transp bars_kept" by (auto simp: bars_kept_def reflp_def transp_def)
  show "bars_kept s s'" if "md_trace s' = md_trace s" "md_bar_seq s' = md_bar_seq s" for s s' :: "'c md"
    using that by (simp add: bars_kept_def bars_ok_def marked_def)
  show "bars_kept s (s\<lparr>md_trace := md_trace s @ [MtCall c]\<rparr>)" for s :: "'c md" and c
    unfolding bars_kept_def by (intro impI, erule bars_ok_quiet [where its = "[MtCall c]"]) (auto simp: call_item)
  show "bars_kept s (s\<lparr>md_cache := cache, md_trace := md_trace s @ [MtPublish i]\<rparr>)" if "barless i" for i and s :: "'c md" and cache
    unfolding bars_kept_def
    by (intro impI, erule bars_ok_quiet [where its = "[MtPublish i]"]) (use that in \<open>auto simp: barless_item\<close>)
  show "bars_kept s (s\<lparr>md_bar_seq := g, md_cache := cache, md_trace := md_trace s @ [MtPublish (MdBar b)]\<rparr>)"
    if "guard_admit b (md_bar_seq s) = (True, g)" for b and s :: "'c md" and g cache
    using that by (simp add: bars_kept_def bars_ok_live)
  show "bars_kept s (s\<lparr>md_bar_seq := g, md_cache := cache\<rparr>)"
    if "guard_admit b (md_bar_seq s) = (ok, g)" for b and s :: "'c md" and ok g cache
    unfolding bars_kept_def
    by (intro impI, erule bars_ok_quiet [where its = "[]"]) (auto intro: below_admit [OF that])
  show "bars_kept s (s\<lparr>md_bar_seq := fold guard_note bars (md_bar_seq s), md_cache := cache\<rparr>)" for s :: "'c md" and bars cache
    unfolding bars_kept_def by (intro impI, erule bars_ok_quiet [where its = "[]"]) (auto intro: below_notes)
  show "bars_kept s (s\<lparr>md_bar_seq := fold guard_note bars (md_bar_seq s), md_cache := cache,
      md_trace := md_trace s @ [MtPublish (MdBarsReply bt bars rid)]\<rparr>)" for s :: "'c md" and bars cache bt rid
    unfolding bars_kept_def
    by (intro impI, erule bars_ok_quiet) (auto simp: delivered_def not_live_def intro: below_notes noted_below)
qed

text \<open>
  C17: bars only move forward. Run any number of the data client's tasks in any interleaving (polls, history
  requests, subscriptions, reconnects, gap resyncs), cancel any of them, let the platform do what it likes in
  between: in every reachable state each live bar was published with a time strictly after every bar of its
  bar type delivered before it, whether live or in the answer to a history request. No bar of a history
  answer is delivered again live (a later history answer may repeat a live bar: the request asked for it).
\<close>

theorem live_bars_only_move_forward:
  assumes "md_reach env (s0, []) (s, ts)" "md_trace s0 = []"
  shows "forward [] (md_trace s)"
  using bars_kept.md_sys.reach_R [OF assms(1)] assms(2) by (simp add: bars_kept_def bars_ok_def marked_def)

theorem live_bars_only_move_forward_witness:
  "\<exists>s ts. md_reach demo_mdc_env (demo_md, []) (s, ts) \<and> forward [] (md_trace s)
     \<and> map (delivered demo_minute) (md_trace s) = [[60000000000], [120000000000]]"
proof -
  let ?run = "\<lambda>m s. md_entry_task demo_mdc_env (MEvent (demo_bar_event m)) s"
  obtain st1 s1 where 1: "?run 60 demo_md = (st1, s1)" by fastforce
  obtain st2 s2 where 2: "?run 120 s1 = (st2, s2)" by fastforce
  obtain st3 s3 where 3: "?run 60 s2 = (st3, s3)" by fastforce
  have step: "md_reach demo_mdc_env (s, ts) (s', ts @ [st])" if "?run m s = (st, s')" for m s s' st ts
    using task_step.begin_task [of "md_entry_task demo_mdc_env", OF that] by (rule r_into_rtranclp)
  have r: "md_reach demo_mdc_env (demo_md, []) (s3, [st1, st2, st3])"
    using rtranclp_trans [OF rtranclp_trans [OF step [OF 1, of "[]"] step [OF 2]] step [OF 3]] by simp
  have s3: "s3 = snd (?run 60 (snd (?run 120 (snd (?run 60 demo_md)))))" by (simp only: 1 2 3 snd_conv)
  have d: "map (delivered demo_minute) (md_trace s3) = [[60000000000], [120000000000]]" unfolding s3 by code_simp
  have "md_trace demo_md = []" by code_simp
  then have "forward [] (md_trace s3)" by (rule live_bars_only_move_forward [OF r])
  with r d show ?thesis by (intro exI conjI)
qed

end
