(* ===== verification/History.thy ===== *)
theory History
  imports DataClient
begin

text \<open>
  Properties of the data client's answers to history requests and of its poll loops, as triples over runs with
  arbitrary interference (\<open>Coro\<close>).
\<close>

section \<open>Rules\<close>

lemma sat_awaitM:
  "sat (\<lambda>_ _ _. True) P (awaitM c) (\<lambda>h x s. \<exists>h0. h = h0 @ [(c, Inr x, s)]) (\<lambda>h e s. \<exists>h0. h = h0 @ [(c, Inl e, s)])"
proof (rule satI)
  fix h and s :: "'a md" and st s'
  assume "awaitM c s = (st, s')"
  then have "st = CoAwait c (\<lambda>r s'. (CoDone r, s'))" by (simp add: awaitM_def)
  then show "True \<and> step_sat (\<lambda>_ _ _. True) (\<lambda>h x s. \<exists>h0. h = h0 @ [(c, Inr x, s)]) (\<lambda>h e s. \<exists>h0. h = h0 @ [(c, Inl e, s)]) st h s'"
    by (auto split: sum.splits)
qed

lemma sat_pauseM: "sat (\<lambda>_ _ _. True) P (pauseM c) (\<lambda>_ _ _. True) E"
  by (rule satI) (auto simp: pauseM_def)

lemma sat_anything: "sat (\<lambda>_ _ _. True) P (m :: ('s, 'q, 'r, 'a) co) (\<lambda>_ _ _. True) (\<lambda>_ _ _. True)"
  using yields_any unfolding yields_def .

lemma sat_if: "(b \<Longrightarrow> sat R P m Q E) \<Longrightarrow> (\<not> b \<Longrightarrow> sat R P n Q E) \<Longrightarrow> sat R P (if b then m else n) Q E"
  by simp

lemmas sat_any = sat_tryC [OF any_rel(1)] sat_bindC [OF any_rel] sat_thenC [OF any_rel]

section \<open>Streams\<close>

lemma count_skip_returns: "fst (count_skip env r s) = Inr ()"
  by (simp add: count_skip_def em_simps md_monotonic_now_def)

lemma dispatch_returns: "fst (dispatch_event env event s) = Inr ()"
proof -
  obtain r s1 where b: "dispatch_body env event (ne_clock env (md_clock s)) (s\<lparr>md_clock := Suc (md_clock s)\<rparr>) = (r, s1)"
    by fastforce
  show ?thesis
  proof (cases r)
    case (Inl e)
    with b show ?thesis by (simp add: dispatch_event_def em_simps md_timestamp_ns_def count_skip_returns)
  qed (use b in \<open>simp add: dispatch_event_def em_simps md_timestamp_ns_def\<close>)
qed

lemma sat_dispatch: "sat (\<lambda>_ _ _. True) P (syncC (dispatch_event env event)) (\<lambda>_ _ _. True) (\<lambda>_ _ _. False)"
proof (rule sat_sync)
  show "True \<and> False" if "dispatch_event env event s = (Inl e, s')" for s e s'
    using dispatch_returns [of env event s] that by simp
qed simp

lemma sat_resync_channel: "sat (\<lambda>_ _ _. True) P (resync_channel env b) (\<lambda>_ _ _. True) (\<lambda>_ _ _. False)"
  unfolding resync_channel_def
  by (intro sat_any(2) sat_any(1) [OF sat_anything] sat_any(3) [OF sat_pauseM] sat_return) (auto simp: any_rel)

lemma sat_handle_events: "sat (\<lambda>_ _ _. True) P (handle_events env b events) (\<lambda>_ _ _. True) (\<lambda>_ _ _. False)"
proof (induction events arbitrary: b P)
  case Nil
  show ?case by simp (rule sat_return; simp add: any_rel)
next
  case (Cons event events)
  have "sat (\<lambda>_ _ _. True) P (bindC (resync_channel env b) (\<lambda>b. handle_events env b events)) (\<lambda>_ _ _. True) (\<lambda>_ _ _. False)"
    by (rule sat_any(2) [OF sat_resync_channel]) (rule Cons.IH)
  moreover have "sat (\<lambda>_ _ _. True) P (thenC (syncC (dispatch_event env event)) (handle_events env b events))
      (\<lambda>_ _ _. True) (\<lambda>_ _ _. False)"
    by (rule sat_any(3) [OF sat_dispatch]) (rule Cons.IH)
  ultimately show ?case by simp
qed

definition stream_closed :: "bool \<Rightarrow> ('c md, md_call, md_reply) history \<Rightarrow> bool" where
  "stream_closed history h \<longleftrightarrow>
     (\<exists>h0 e s. h = h0 @ [(McNextEvents (if history then ''history'' else ''ticker''), Inl e, s)] \<and> is_terminal_poll_error e)"

lemma sat_poll_round:
  "sat (\<lambda>_ _ _. True) P (poll_round env history b) (\<lambda>h r _. r = None \<longrightarrow> stream_closed history h) (\<lambda>_ _ _. False)"
proof -
  let ?Q = "\<lambda>h r (_ :: 'a md). r = None \<longrightarrow> stream_closed history h"
  have sleep: "sat (\<lambda>_ _ _. True) P' (thenC (pauseM McSleep) (returnC (Some x))) ?Q (\<lambda>_ _ _. False)" for P' x
    by (rule sat_any(3) [OF sat_pauseM]) (rule sat_return; simp add: any_rel)
  have failed: "sat (\<lambda>_ _ _. True) (\<lambda>h s. \<exists>h0. h = h0 @ [(McNextEvents (if history then ''history'' else ''ticker''), Inl e, s)])
      (if is_terminal_poll_error e then returnC None else thenC (pauseM McSleep) (returnC (Some (min (b * 2) MAX_DELAY))))
      ?Q (\<lambda>_ _ _. False)" for e
  proof (cases "is_terminal_poll_error e")
    case True
    show ?thesis unfolding if_P [OF True]
      by (rule sat_return) (use True in \<open>auto simp: any_rel stream_closed_def\<close>)
  next
    case False
    show ?thesis unfolding if_not_P [OF False] by (rule sleep)
  qed
  have events: "sat (\<lambda>_ _ _. True) P' (bindC (handle_events env MIN_DELAY rows) (\<lambda>b. returnC (Some b))) ?Q (\<lambda>_ _ _. False)" for P' rows
    by (rule sat_any(2) [OF sat_handle_events]) (rule sat_return; simp add: any_rel)
  have fetch: "sat (\<lambda>_ _ _. True) P' (tryC (awaitM (McNextEvents (if history then ''history'' else ''ticker'')))
         (\<lambda>e. if is_terminal_poll_error e then returnC None
              else thenC (pauseM McSleep) (returnC (Some (min (b * 2) MAX_DELAY))))
         (\<lambda>v. bindC (handle_events env MIN_DELAY (rows_of v)) (\<lambda>b. returnC (Some b)))) ?Q (\<lambda>_ _ _. False)" for P'
    using sat_awaitM failed events by (rule sat_any(1))
  have "sat (\<lambda>_ _ _. True) P (syncC (getE md_bar_types)) (\<lambda>_ _ _. True) (\<lambda>_ _ _. False)"
    by (rule sat_sync) (simp_all add: getE_def)
  then show ?thesis unfolding poll_round_def by (rule sat_any(2)) (rule sat_if, rule sleep, rule fetch)
qed

lemma sat_poll_channel:
  "sat (\<lambda>_ _ _. True) P (poll_channel_loop env history n b) (\<lambda>h ended _. ended \<longrightarrow> stream_closed history h) (\<lambda>_ _ _. False)"
proof (induction n arbitrary: b P)
  case 0
  show ?case by simp (rule sat_return; simp add: any_rel)
next
  case (Suc n)
  have "sat (\<lambda>_ _ _. True) (\<lambda>h _. r = None \<longrightarrow> stream_closed history h)
      (case r of None \<Rightarrow> returnC True | Some b \<Rightarrow> poll_channel_loop env history n b)
      (\<lambda>h ended _. ended \<longrightarrow> stream_closed history h) (\<lambda>_ _ _. False)" for r
    using Suc.IH by (cases r) (auto intro!: sat_return simp: any_rel)
  with sat_poll_round show ?case by simp (rule sat_any(2))
qed

text \<open>
  A data stream ends only when the session says so. Whatever the venue sends (events of any shape, gaps),
  however its conversion, the platform, a resync or a fetch fails, and whatever other tasks do in between: the
  poll loop never raises, and if it ends by itself its last fetch failed with an error that means the session is
  closed.
\<close>

theorem stream_ends_only_when_closed:
  assumes "co_run (poll_channel_loop env history n backoff) s h (CoDone r) s0 s1"
  shows "\<exists>ended. r = Inr ended \<and> (\<not> ended \<or> stream_closed history h)"
proof -
  have "step_sat (\<lambda>_ _ _. True) (\<lambda>h ended _. ended \<longrightarrow> stream_closed history h) (\<lambda>_ _ _. False) (CoDone r) h s1"
    using co_run_sat [OF sat_poll_channel assms, of "\<lambda>_ _. True"] by simp
  then show ?thesis by (cases r) auto
qed

section \<open>Bar requests\<close>

definition is_closed_bar :: "bar_type \<Rightarrow> int \<Rightarrow> bool \<Rightarrow> md_bar \<Rightarrow> bool" where
  "is_closed_bar bt end_ns on_close b \<longleftrightarrow>
     (let dur = bar_type_duration_ns bt
      in if dur \<noteq> 0 \<and> on_close then ba_ts_event b \<le> end_ns
         else ba_ts_event b + (if dur = 0 then calendar_ns bt else dur) \<le> end_ns)"

lemma closed_bars_filter: "closed_bars bars bt end_ns on_close = filter (is_closed_bar bt end_ns on_close) bars"
  by (simp add: closed_bars_def is_closed_bar_def [abs_def] Let_def)

text \<open>A row of the answer carries no other symbol, exchange or native bar type than the request's; it may carry none.\<close>

definition labelled :: "pydict \<Rightarrow> wire_key \<Rightarrow> int \<Rightarrow> bool" where
  "labelled d key rt \<longleftrightarrow> (dget d ''symbol'' = PNone \<or> py_str (dget d ''symbol'') = fst key)
     \<and> (dget d ''exchange'' = PNone \<or> py_str (dget d ''exchange'') = snd key)
     \<and> (dget d ''bar_type'' = PNone \<or> rtype_int (dget d ''bar_type'') = rt)"

lemma validate_labelled: "validate_history_identity d (fst key) (snd key) (Some rt) = Inr () \<Longrightarrow> labelled d key rt"
  by (auto simp: validate_history_identity_def labelled_def Let_def split: if_splits)

lemma labelled_valid: "labelled d key rt \<Longrightarrow> validate_history_identity d (fst key) (snd key) (Some rt) = Inr ()"
  by (auto simp: validate_history_identity_def labelled_def Let_def)

text \<open>
  A bar with evidence: the last reply of the request's history answers the load of the instrument's own route, in the
  requested window and with the native request of the bar type; the bar is the conversion of one of its rows, which
  does not carry another symbol, exchange or bar type, with the precision of the cached instrument, the time of the
  reply and the client's stamping mode; and it is closed at the requested end.
\<close>

definition from_row :: "('c, 'x) mdc_env_scheme \<Rightarrow> bar_type \<Rightarrow> md_request \<Rightarrow> wire_key \<Rightarrow> ('c md, md_call, md_reply) history \<Rightarrow> md_bar \<Rightarrow> bool" where
  "from_row env bt rq key h b \<longleftrightarrow>
     (\<exists>h0 st start en stop rt pd rows s ins end_ns d.
        h = h0 @ [(McLoadBars key start stop rt pd, Inr (MvRows rows), s)] \<and> d \<in> set rows
        \<and> rq_start rq = Some st \<and> py_int (PFloat st) = Inr start \<and> rq_end rq = Some en \<and> py_int (PFloat en) = Inr stop
        \<and> bar_type_to_rithmic env bt = Inr (rt, pd) \<and> labelled d key rt
        \<and> ne_instrument env (md_cache s) (bt_instrument_id bt) = Some ins
        \<and> bar_row env (fst key) (snd key) bt (in_price_precision ins) (ne_clock env (md_clock s)) (md_bars_on_close s) d = Inr b
        \<and> end_ns_of en = Inr end_ns \<and> is_closed_bar bt end_ns (md_bars_on_close s) b)"

lemma from_rowI:
  "h = h0 @ [(McLoadBars key start stop rt pd, Inr (MvRows rows), s)] \<Longrightarrow> d \<in> set rows \<Longrightarrow>
   rq_start rq = Some st \<Longrightarrow> py_int (PFloat st) = Inr start \<Longrightarrow> rq_end rq = Some en \<Longrightarrow> py_int (PFloat en) = Inr stop \<Longrightarrow>
   bar_type_to_rithmic env bt = Inr (rt, pd) \<Longrightarrow> labelled d key rt \<Longrightarrow>
   ne_instrument env (md_cache s) (bt_instrument_id bt) = Some ins \<Longrightarrow>
   bar_row env (fst key) (snd key) bt (in_price_precision ins) (ne_clock env (md_clock s)) (md_bars_on_close s) d = Inr b \<Longrightarrow>
   end_ns_of en = Inr end_ns \<Longrightarrow> is_closed_bar bt end_ns (md_bars_on_close s) b \<Longrightarrow> from_row env bt rq key h b"
  unfolding from_row_def by (intro exI conjI)

text \<open>A proper answer: in time order, within the limit, each bar with evidence for the route that was known at the start.\<close>

text \<open>
  Nothing of the reply is left out. When every row of the last reply carries no foreign label and either converts or
  fails with the converter's own error, the answer is all closed bars of the rows that convert, in time order, or
  the newest of them when there is a limit.
\<close>

definition bar_of_row :: "('c, 'x) mdc_env_scheme \<Rightarrow> bar_type \<Rightarrow> wire_key \<Rightarrow> nt_instrument \<Rightarrow> 'c md \<Rightarrow> pydict \<Rightarrow> md_bar res" where
  "bar_of_row env bt key ins s d =
     bar_row env (fst key) (snd key) bt (in_price_precision ins) (ne_clock env (md_clock s)) (md_bars_on_close s) d"

definition readable_row :: "('c, 'x) mdc_env_scheme \<Rightarrow> bar_type \<Rightarrow> wire_key \<Rightarrow> nt_instrument \<Rightarrow> 'c md \<Rightarrow> pydict \<Rightarrow> bool" where
  "readable_row env bt key ins s d \<longleftrightarrow> (case bar_of_row env bt key ins s d of Inl e \<Rightarrow> exn_cls e = ConvertError | Inr _ \<Rightarrow> True)"

definition newest :: "int \<Rightarrow> 'a list \<Rightarrow> 'a list" where
  "newest n xs = (if n = 0 then xs else drop (length xs - nat n) xs)"

definition nothing_left_out :: "('c, 'x) mdc_env_scheme \<Rightarrow> bar_type \<Rightarrow> md_request \<Rightarrow> ('c md, md_call, md_reply) history \<Rightarrow> md_bar list \<Rightarrow> bool" where
  "nothing_left_out env bt rq h bars \<longleftrightarrow>
     (\<forall>h0 key start stop rt pd rows s ins en end_ns. h = h0 @ [(McLoadBars key start stop rt pd, Inr (MvRows rows), s)] \<longrightarrow>
        ne_instrument env (md_cache s) (bt_instrument_id bt) = Some ins \<longrightarrow> rq_end rq = Some en \<longrightarrow> end_ns_of en = Inr end_ns \<longrightarrow>
        0 \<le> rq_limit rq \<longrightarrow> list_all (\<lambda>d. labelled d key rt \<and> readable_row env bt key ins s d) rows \<longrightarrow>
        bars = newest (rq_limit rq) (filter (is_closed_bar bt end_ns (md_bars_on_close s)) (sort_key ba_ts_event
          (concat (map (\<lambda>d. case bar_of_row env bt key ins s d of Inr b \<Rightarrow> [b] | Inl _ \<Rightarrow> []) rows)))))"

definition no_rows :: "('c md, md_call, md_reply) history \<Rightarrow> bool" where
  "no_rows h \<longleftrightarrow> (\<forall>h0 c rows s. h \<noteq> h0 @ [(c, Inr (MvRows rows), s)])"

lemma no_rows_failed [simp]: "no_rows (h0 @ [(c, Inl e, s)])"
  by (simp add: no_rows_def)

lemma no_rows_complete: "no_rows h \<Longrightarrow> nothing_left_out env bt rq h bars"
  unfolding no_rows_def nothing_left_out_def by blast

lemma limited_newest: "0 \<le> n \<Longrightarrow> limited n xs = newest n xs"
  by (simp add: limited_def py_tail_def newest_def)

lemma convert_rows_reads:
  assumes "\<And>d s. conv d s = (g d, s)" "\<And>e s. fst (f e s) = Inr ()"
    "list_all (\<lambda>d. check d = Inr () \<and> (case g d of Inl e \<Rightarrow> exn_cls e = ConvertError | Inr _ \<Rightarrow> True)) ds"
  shows "\<exists>s'. convert_rows check conv (Some f) ds s = (Inr (concat (map (\<lambda>d. case g d of Inr x \<Rightarrow> [x] | Inl _ \<Rightarrow> []) ds)), s')"
  using assms(3)
proof (induction ds arbitrary: s)
  case (Cons d ds)
  show ?case
  proof (cases "g d")
    case (Inl e)
    obtain s1 where f: "f e s = (Inr (), s1)" using assms(2) [of e s] by (cases "f e s") auto
    from Cons.IH [of s1] Cons.prems Inl f show ?thesis by (auto simp: em_simps assms(1))
  next
    case (Inr x)
    from Cons.IH [of s] Cons.prems Inr show ?thesis by (auto simp: em_simps assms(1))
  qed
qed (simp add: em_simps)

lemma convert_bars_reads:
  assumes "ne_instrument env (md_cache s) (bt_instrument_id bt) = Some ins" "bar_type_to_rithmic env bt = Inr (rt, pd)"
    "list_all (\<lambda>d. labelled d key rt \<and> readable_row env bt key ins s d) rows"
  shows "\<exists>s'. convert_bars env bt key rows s = (Inr (Inr (sort_key ba_ts_event
     (concat (map (\<lambda>d. case bar_of_row env bt key ins s d of Inr b \<Rightarrow> [b] | Inl _ \<Rightarrow> []) rows)))), s')"
proof -
  let ?g = "bar_row env (fst key) (snd key) bt (in_price_precision ins) (ne_clock env (md_clock s)) (md_bars_on_close s)"
  have "list_all (\<lambda>d. validate_history_identity d (fst key) (snd key) (Some rt) = Inr ()
      \<and> (case ?g d of Inl e \<Rightarrow> exn_cls e = ConvertError | Inr _ \<Rightarrow> True)) rows"
    using assms(3) by (auto simp: list_all_iff readable_row_def bar_of_row_def labelled_valid)
  from convert_rows_reads [OF _ _ this, where conv = "\<lambda>d. liftE (?g d)" and f = "\<lambda>_. count_skip env ''history_bar_invalid''"
      and s = "s\<lparr>md_clock := Suc (md_clock s)\<rparr>"]
  obtain s' where "convert_rows (\<lambda>d. validate_history_identity d (fst key) (snd key) (Some rt)) (\<lambda>d. liftE (?g d))
      (Some (\<lambda>_. count_skip env ''history_bar_invalid'')) rows (s\<lparr>md_clock := Suc (md_clock s)\<rparr>)
      = (Inr (concat (map (\<lambda>d. case ?g d of Inr x \<Rightarrow> [x] | Inl _ \<Rightarrow> []) rows)), s')"
    using count_skip_returns by (auto simp: liftE_def)
  then show ?thesis
    using assms(1,2)
    by (simp add: convert_bars_def payloads_to_bars_def md_timestamp_ns_def md_price_precision_def em_simps bar_of_row_def)
qed

definition proper_answer :: "('c, 'x) mdc_env_scheme \<Rightarrow> bar_type \<Rightarrow> md_request \<Rightarrow> 'c md \<Rightarrow> ('c md, md_call, md_reply) history \<Rightarrow> md_bar list \<Rightarrow> bool" where
  "proper_answer env bt rq si h bars \<longleftrightarrow>
     sorted (map ba_ts_event bars) \<and> (rq_limit rq \<le> 0 \<or> int (length bars) \<le> rq_limit rq)
     \<and> list_all (\<lambda>b. \<exists>key. map_of (md_routes si) (bt_instrument_id bt) = Some key \<and> from_row env bt rq key h b) bars
     \<and> nothing_left_out env bt rq h bars"

lemma sorted_drop_map: "sorted (map f xs) \<Longrightarrow> sorted (map f (drop n xs))"
  by (simp add: drop_map [symmetric] sorted_wrt_drop)

lemma sorted_filter_map: "sorted (map f xs) \<Longrightarrow> sorted (map f (filter P xs))"
  by (simp add: sorted_filter)

lemma limited_props:
  "sorted (map f xs) \<Longrightarrow> sorted (map f (limited n xs))" "set (limited n xs) \<subseteq> set xs"
  "n \<le> 0 \<or> int (length (limited n xs)) \<le> n"
  by (auto simp: limited_def py_tail_def sorted_drop_map dest: in_set_dropD)

lemma bar_row_type: "bar_row env sy ex bt prec ti oc d = Inr b \<Longrightarrow> ba_bar_type b = bt"
  by (auto simp: bar_row_def fields_to_bar_def bindR_eq_Inr_iff Let_def split: if_splits)

lemma payloads_to_bars_Inr:
  assumes "payloads_to_bars env raw sy ex bt prec ti on_invalid oc s = (Inr bars, s')"
  obtains rt pd where "bar_type_to_rithmic env bt = Inr (rt, pd)" "sorted (map ba_ts_event bars)"
    "\<forall>b \<in> set bars. \<exists>d \<in> set raw. bar_row env sy ex bt prec ti oc d = Inr b \<and> validate_history_identity d sy ex (Some rt) = Inr ()"
proof -
  from assms obtain rt pd xs where rp: "bar_type_to_rithmic env bt = Inr (rt, pd)"
    and c: "convert_rows (\<lambda>d. validate_history_identity d sy ex (Some rt))
      (\<lambda>d. liftE (bar_row env sy ex bt prec ti oc d)) on_invalid raw s = (Inr xs, s')"
    and bars: "bars = sort_key ba_ts_event xs"
    by (auto simp: payloads_to_bars_def em_returned)
  note p = convert_rows_pure [OF _ c, of "bar_row env sy ex bt prec ti oc"]
  have "xs = concat (map (\<lambda>d. case bar_row env sy ex bt prec ti oc d of Inr x \<Rightarrow> [x] | Inl _ \<Rightarrow> []) raw)"
    "\<forall>d \<in> set raw. validate_history_identity d sy ex (Some rt) = Inr ()"
    using p by (simp_all add: liftE_def)
  then have rows: "\<forall>b \<in> set bars. \<exists>d \<in> set raw. bar_row env sy ex bt prec ti oc d = Inr b \<and> validate_history_identity d sy ex (Some rt) = Inr ()"
    by (auto simp: bars split: sum.splits)
  have "sorted (map ba_ts_event bars)" by (simp add: bars)
  from that [OF rp this rows] show thesis .
qed

text \<open>The stamping mode is a constant of the client.\<close>

definition same_mode :: "'c md \<Rightarrow> 'c md \<Rightarrow> bool" where
  "same_mode s s' \<longleftrightarrow> md_bars_on_close s' = md_bars_on_close s"

lemma same_mode_rel: "reflp same_mode" "transp same_mode"
  by (simp_all add: same_mode_def reflp_def transp_def)

lemma same_mode_skip: "keeps same_mode (count_skip env r)"
  by (rule keepsI) (simp add: count_skip_def em_simps md_monotonic_now_def same_mode_def)

lemma same_mode_rows: "keeps same_mode (convert_rows check (\<lambda>d. liftE (g d)) (Some (\<lambda>_. count_skip env r)) ds)"
  by (induction ds) (auto intro!: keeps_rules same_mode_rel same_mode_skip)

lemma same_mode_bars: "keeps same_mode (payloads_to_bars env raw sy ex bt prec ti (Some (\<lambda>_. count_skip env r)) oc)"
  unfolding payloads_to_bars_def by (auto intro!: keeps_rules same_mode_rel same_mode_rows)

lemma convert_bars_Inr:
  assumes "convert_bars env bt key raw s = (Inr (Inr bars), s')"
  obtains ins where "md_bars_on_close s' = md_bars_on_close s" "ne_instrument env (md_cache s) (bt_instrument_id bt) = Some ins"
    "payloads_to_bars env raw (fst key) (snd key) bt (in_price_precision ins) (ne_clock env (md_clock s)) (Some (\<lambda>_. count_skip env ''history_bar_invalid'')) (md_bars_on_close s)
       (s\<lparr>md_clock := Suc (md_clock s)\<rparr>) = (Inr bars, s')"
proof -
  from assms obtain ins where n: "ne_instrument env (md_cache s) (bt_instrument_id bt) = Some ins"
    and p: "payloads_to_bars env raw (fst key) (snd key) bt (in_price_precision ins) (ne_clock env (md_clock s))
      (Some (\<lambda>_. count_skip env ''history_bar_invalid'')) (md_bars_on_close s) (s\<lparr>md_clock := Suc (md_clock s)\<rparr>) = (Inr bars, s')"
    by (auto simp: convert_bars_def em_returned md_timestamp_ns_def md_price_precision_def split: option.splits if_splits)
  moreover have "md_bars_on_close s' = md_bars_on_close s"
    using keepsD_eq [OF same_mode_bars p] by (simp add: same_mode_def)
  ultimately show thesis using n by (intro that)
qed

definition answered_with :: "bar_type \<Rightarrow> md_request \<Rightarrow> md_bar list \<Rightarrow> 'c md \<Rightarrow> bool" where
  "answered_with bt rq bars s \<longleftrightarrow> (\<exists>tr. md_trace s = tr @ [MtPublish (MdBarsReply bt bars (rq_id rq))])"

lemma answer_bars_Inr: "answer_bars env bt rq bars s = (Inr u, s') \<Longrightarrow> answered_with bt rq bars s'"
  by (auto simp: answer_bars_def publish_def answered_with_def split: prod.splits option.splits)

lemma deliver_bars_Inr:
  assumes "deliver_bars env bt rq en key raw s = (Inr u, s')"
    "h = h0 @ [(McLoadBars key start stop rt pd, Inr (MvRows raw), s)]" "bar_type_to_rithmic env bt = Inr (rt, pd)"
    and rq: "rq_start rq = Some st" "py_int (PFloat st) = Inr start" "rq_end rq = Some en" "py_int (PFloat en) = Inr stop"
    and route: "map_of (md_routes si) (bt_instrument_id bt) = Some key"
  shows "\<exists>bars. answered_with bt rq bars s' \<and> proper_answer env bt rq si h bars"
proof -
  from assms(1) obtain r s1 where cv: "convert_bars env bt key raw s = (Inr r, s1)"
    and rest: "(case r of Inl _ \<Rightarrow> answer_bars env bt rq []
      | Inr bars0 \<Rightarrow> bindE (liftE (end_ns_of en)) (\<lambda>end_ns. bindE (getE md_bars_on_close) (\<lambda>on_close.
          (let bars = limited (rq_limit rq) (closed_bars bars0 bt end_ns on_close)
           in thenE (note_bars bars) (answer_bars env bt rq bars))))) s1 = (Inr u, s')"
    unfolding deliver_bars_def bindE_eq_Inr by blast
  consider e s1 where "convert_bars env bt key raw s = (Inr (Inl e), s1)" "answer_bars env bt rq [] s1 = (Inr u, s')"
    | bars0 s1 end_ns s3 where "convert_bars env bt key raw s = (Inr (Inr bars0), s1)" "end_ns_of en = Inr end_ns"
        "answer_bars env bt rq (limited (rq_limit rq) (closed_bars bars0 bt end_ns (md_bars_on_close s1))) s3 = (Inr u, s')"
    using cv rest by (cases r) (auto simp: em_returned Let_def)
  then show ?thesis
  proof cases
    case (1 e s1)
    then have "nothing_left_out env bt rq h []"
      using convert_bars_reads [OF _ assms(3)] assms(2) by (force simp: nothing_left_out_def)
    with 1 show ?thesis by (auto dest: answer_bars_Inr simp: proper_answer_def intro!: exI [of _ "[]"])
  next
    case (2 bars0 s1 end_ns s3)
    let ?bars = "limited (rq_limit rq) (closed_bars bars0 bt end_ns (md_bars_on_close s1))"
    obtain ins where oc: "md_bars_on_close s1 = md_bars_on_close s" and ins: "ne_instrument env (md_cache s) (bt_instrument_id bt) = Some ins"
      and p: "payloads_to_bars env raw (fst key) (snd key) bt (in_price_precision ins) (ne_clock env (md_clock s)) (Some (\<lambda>_. count_skip env ''history_bar_invalid'')) (md_bars_on_close s)
        (s\<lparr>md_clock := Suc (md_clock s)\<rparr>) = (Inr bars0, s1)" using convert_bars_Inr [OF 2(1)] by blast
    from p obtain rt' pd' where rp: "bar_type_to_rithmic env bt = Inr (rt', pd')" and srt: "sorted (map ba_ts_event bars0)"
      and rows: "\<forall>b \<in> set bars0. \<exists>d \<in> set raw. bar_row env (fst key) (snd key) bt (in_price_precision ins) (ne_clock env (md_clock s))
          (md_bars_on_close s) d = Inr b
        \<and> validate_history_identity d (fst key) (snd key) (Some rt') = Inr ()" by (rule payloads_to_bars_Inr)
    have "sorted (map ba_ts_event ?bars)"
      using limited_props(1) [OF sorted_filter_map [OF srt]] by (simp add: closed_bars_filter)
    moreover have "\<forall>b \<in> set ?bars. b \<in> set bars0 \<and> is_closed_bar bt end_ns (md_bars_on_close s) b"
      using limited_props(2) [of "rq_limit rq" "closed_bars bars0 bt end_ns (md_bars_on_close s1)"] by (auto simp: closed_bars_filter oc)
    moreover have "from_row env bt rq key h b" if b: "b \<in> set bars0" "is_closed_bar bt end_ns (md_bars_on_close s) b" for b
    proof -
      obtain d where "d \<in> set raw" "labelled d key rt"
        "bar_row env (fst key) (snd key) bt (in_price_precision ins) (ne_clock env (md_clock s)) (md_bars_on_close s) d = Inr b"
        using rows b(1) rp assms(3) by (auto dest: validate_labelled)
      then show ?thesis using from_rowI [OF assms(2) _ rq assms(3) _ ins _ 2(2) b(2)] by blast
    qed
    moreover have "nothing_left_out env bt rq h ?bars"
      using convert_bars_reads [OF _ assms(3)] assms(2) 2(1,2) rq(3) oc
      by (fastforce simp: nothing_left_out_def limited_newest closed_bars_filter)
    ultimately have "proper_answer env bt rq si h ?bars"
      unfolding proper_answer_def list_all_iff using limited_props(3) route by blast
    with answer_bars_Inr [OF 2(3)] show ?thesis by blast
  qed
qed

lemma sat_load_bars:
  "sat (\<lambda>_ _ _. True) P (load_bars (sy, ex, rt, pd) start stop n)
     (\<lambda>h v s. \<exists>h0. h = h0 @ [(McLoadBars (sy, ex) start stop rt pd, Inr v, s)]) (\<lambda>h _ _. no_rows h)"
proof (induction n arbitrary: P)
  case 0
  show ?case
    by (subst load_bars.simps) (auto intro!: sat_any(1) [OF sat_awaitM] sat_raise sat_return simp: any_rel)
next
  case (Suc n)
  show ?case
    by (subst load_bars.simps)
       (auto intro!: sat_any(1) [OF sat_awaitM] sat_if sat_any(3) [OF sat_pauseM] Suc.IH sat_raise sat_return simp: any_rel)
qed

lemma sat_answer_nothing:
  "sat (\<lambda>_ _ _. True) (\<lambda>h _. no_rows h) (syncC (answer_bars env bt rq [])) (\<lambda>h _ s. \<exists>bars. answered_with bt rq bars s \<and> proper_answer env bt rq si h bars)
     (\<lambda>_ _ _. True)"
  by (rule sat_sync) (auto dest!: answer_bars_Inr simp: proper_answer_def no_rows_complete intro!: exI [of _ "[]"])

lemma sat_bars_failed:
  "sat (\<lambda>_ _ _. True) (\<lambda>h _. no_rows h) (syncC (bars_failed env bt rq e)) (\<lambda>h _ s. \<exists>bars. answered_with bt rq bars s \<and> proper_answer env bt rq si h bars)
     (\<lambda>_ _ _. True)"
  by (rule sat_sync)
     (auto simp: bars_failed_def em_returned proper_answer_def no_rows_complete dest!: answer_bars_Inr intro!: exI [of _ "[]"])

lemma sat_deliver:
  assumes "bar_type_to_rithmic env bt = Inr (rt, pd)" "rq_start rq = Some st" "py_int (PFloat st) = Inr start" "rq_end rq = Some en"
    "py_int (PFloat en) = Inr stop" "map_of (md_routes si) (bt_instrument_id bt) = Some key"
  shows "sat (\<lambda>_ _ _. True) (\<lambda>h s. \<exists>h0. h = h0 @ [(McLoadBars key start stop rt pd, Inr v, s)])
     (syncC (deliver_bars env bt rq en key (rows_of v)))
     (\<lambda>h _ s. \<exists>bars. answered_with bt rq bars s \<and> proper_answer env bt rq si h bars) (\<lambda>_ _ _. True)"
proof (rule sat_sync)
  fix h :: "('a md, md_call, md_reply) history" and s u s'
  assume h: "\<exists>h0. h = h0 @ [(McLoadBars key start stop rt pd, Inr v, s)]"
    and d: "deliver_bars env bt rq en key (rows_of v) s = (Inr u, s')"
  show "True \<and> (\<exists>bars. answered_with bt rq bars s' \<and> proper_answer env bt rq si h bars)"
  proof (cases v)
    case (MvRows rows)
    with h obtain h0 where h0: "h = h0 @ [(McLoadBars key start stop rt pd, Inr (MvRows rows), s)]" by blast
    have "deliver_bars env bt rq en key rows s = (Inr u, s')" using d MvRows by (simp add: rows_of_def)
    from deliver_bars_Inr [OF this h0 assms] show ?thesis by simp
  next
    case MvUnit
    then have "deliver_bars env bt rq en key [] s = (Inr u, s')" using d by (simp add: rows_of_def)
    from deliver_bars_Inr [OF this refl assms, of "[]"]
    obtain bars where "answered_with bt rq bars s' \<and> proper_answer env bt rq si
        ([] @ [(McLoadBars key start stop rt pd, Inr (MvRows []), s)]) bars" by blast
    moreover from this have "bars = []" by (cases bars) (auto simp: proper_answer_def from_row_def)
    moreover have "no_rows h" using h MvUnit by (auto simp: no_rows_def)
    ultimately show ?thesis by (auto simp: proper_answer_def no_rows_complete)
  qed
qed simp

lemma sat_request_bars:
  "sat (\<lambda>_ _ _. True) (\<lambda>h s. no_rows h \<and> s = si) (request_bars env n bt rq)
     (\<lambda>h _ s. \<exists>bars. answered_with bt rq bars s \<and> proper_answer env bt rq si h bars) (\<lambda>_ _ _. True)"
proof -
  let ?Q = "\<lambda>h (_ :: unit) s. \<exists>bars. answered_with bt rq bars s \<and> proper_answer env bt rq si h bars"
  have load: "sat (\<lambda>_ _ _. True) P' (tryC (load_bars (fst key, snd key, rt, pd) start stop n) (\<lambda>e. syncC (bars_failed env bt rq e))
      (\<lambda>v. syncC (deliver_bars env bt rq en key (rows_of v)))) ?Q (\<lambda>_ _ _. True)"
    if "bar_type_to_rithmic env bt = Inr (rt, pd)" "rq_start rq = Some st" "py_int (PFloat st) = Inr start" "rq_end rq = Some en"
      "py_int (PFloat en) = Inr stop" "map_of (md_routes si) (bt_instrument_id bt) = Some key" for P' key rt pd start stop st en
    using sat_deliver [OF that]
    by (intro sat_any(1) [OF sat_load_bars] sat_bars_failed) simp
  have ints: "sat (\<lambda>_ _ _. True) (\<lambda>h _. no_rows h) (bindC (syncC (liftE r)) f) ?Q (\<lambda>_ _ _. True)"
    if "\<And>x. r = Inr x \<Longrightarrow> sat (\<lambda>_ _ _. True) (\<lambda>h _. no_rows h) (f x) ?Q (\<lambda>_ _ _. True)" for r and f :: "int \<Rightarrow> ('a, unit) mtask"
  proof (rule sat_any(2) [where Q = "\<lambda>h x _. no_rows h \<and> r = Inr x"])
    show "sat (\<lambda>_ _ _. True) (\<lambda>h _. no_rows h) (syncC (liftE r)) (\<lambda>h x _. no_rows h \<and> r = Inr x) (\<lambda>_ _ _. True)"
      by (rule sat_sync) (simp_all add: liftE_def)
    show "sat (\<lambda>_ _ _. True) (\<lambda>h s. no_rows h \<and> r = Inr x) (f x) ?Q (\<lambda>_ _ _. True)" for x
      using that [of x] by (cases "r = Inr x") (simp_all add: sat_def)
  qed
  have body: "sat (\<lambda>_ _ _. True) (\<lambda>h _. no_rows h) (case (rq_start rq, rq_end rq) of
          (Some st, Some en) \<Rightarrow>
            bindC (syncC (liftE (py_int (PFloat st)))) (\<lambda>start.
            bindC (syncC (liftE (py_int (PFloat en)))) (\<lambda>stop.
            tryC (load_bars (fst key, snd key, rt, pd) start stop n)
              (\<lambda>e. syncC (bars_failed env bt rq e))
              (\<lambda>v. syncC (deliver_bars env bt rq en key (rows_of v)))))
        | _ \<Rightarrow> syncC (answer_bars env bt rq [])) ?Q (\<lambda>_ _ _. True)"
    if "bar_type_to_rithmic env bt = Inr (rt, pd)" "map_of (md_routes si) (bt_instrument_id bt) = Some key" for key rt pd
    by (cases "rq_start rq"; cases "rq_end rq") (auto intro!: sat_answer_nothing ints load that)
  let ?K = "\<lambda>key. map_of (md_routes si) (bt_instrument_id bt) = Some key"
  have head: "sat (\<lambda>_ _ _. True) (\<lambda>h s. no_rows h \<and> s = si) (bindC (syncC (md_route (bt_instrument_id bt))) (\<lambda>key.
       bindC (syncC (liftE (bar_type_to_rithmic env bt))) (\<lambda>tp. returnC (key, tp))))
       (\<lambda>h (key, tp) _. no_rows h \<and> ?K key \<and> bar_type_to_rithmic env bt = Inr tp) (\<lambda>h _ _. no_rows h)"
  proof (rule sat_any(2) [where Q = "\<lambda>h key _. no_rows h \<and> ?K key"])
    show "sat (\<lambda>_ _ _. True) (\<lambda>h s. no_rows h \<and> s = si) (syncC (md_route (bt_instrument_id bt))) (\<lambda>h key _. no_rows h \<and> ?K key)
        (\<lambda>h _ _. no_rows h)"
      by (rule sat_sync) (auto simp: md_route_def em_returned split: option.splits)
    show "sat (\<lambda>_ _ _. True) (\<lambda>h s. no_rows h \<and> ?K key) (bindC (syncC (liftE (bar_type_to_rithmic env bt))) (\<lambda>tp. returnC (key, tp)))
        (\<lambda>h (key, tp) _. no_rows h \<and> ?K key \<and> bar_type_to_rithmic env bt = Inr tp) (\<lambda>h _ _. no_rows h)" for key
      by (rule sat_any(2) [where Q = "\<lambda>h tp _. no_rows h \<and> ?K key \<and> bar_type_to_rithmic env bt = Inr tp"];
          auto intro!: sat_sync sat_return simp: any_rel liftE_def)
  qed
  show ?thesis
    unfolding request_bars_def
  proof (rule sat_any(1) [OF head], goal_cases)
    case (1 e)
    show ?case by (auto intro!: sat_if sat_answer_nothing sat_raise simp: any_rel)
  next
    case (2 x)
    obtain key rt pd where x: "x = (key, rt, pd)" by (cases x) auto
    show ?case
    proof (cases "?K key \<and> bar_type_to_rithmic env bt = Inr (rt, pd)")
      case True
      then show ?thesis unfolding x prod.case using body [unfolded prod.case] by simp
    qed (auto simp: x sat_def)
  qed
qed

text \<open>
  C30: a bar request that returns has been answered, and the answer is the reply: it invents nothing. Whatever other tasks do
  while it loads and however often it had to retry: the last thing the finished request did was to answer its
  own request id; the bars are in time order and within the limit, and each is the conversion of a row of the
  request's own last load, which asked the route of the bar type's instrument for the requested window and the
  native request of the bar type. The row carries no other symbol, exchange or bar type than that (it may carry
  none), and the bar is closed at the requested end. Nor is anything left out: when every row of that load carries no other
  label and either converts or fails with the converter's own error (and is skipped), the answer is exactly the
  closed bars of the rows that convert, or the newest of them under a limit.
\<close>

theorem bars_request_is_answered:
  assumes "co_run (request_bars env n bt rq) s h (CoDone (Inr ())) s0 s1"
  shows "\<exists>bars. answered_with bt rq bars s1 \<and> proper_answer env bt rq s h bars"
  using co_run_sat [OF sat_request_bars assms] by (simp add: no_rows_def)

theorem bars_request_is_answered_witness:
  "(case replay [] demo_md (request_bars demo_mdc_env 1 demo_minute \<lparr>rq_id = ''R1'', rq_start = Some (Fin 0), rq_end = Some (Fin 100), rq_limit = 5\<rparr> demo_md)
        [Inl (Exn GatewayError (Some ''capability_denied'') ''busy''), Inr MvUnit,
         Inr (MvRows [demo_bar_event 120, demo_bar_event 60])] of (h, s0, st, s1) \<Rightarrow>
      result st = Some (Inr ())
      \<and> (\<exists>bars. answered_with demo_minute \<lparr>rq_id = ''R1'', rq_start = Some (Fin 0), rq_end = Some (Fin 100), rq_limit = 5\<rparr> bars s1
           \<and> map ba_ts_event bars = [60000000000]))"
proof -
  let ?rq = "\<lparr>rq_id = ''R1'', rq_start = Some (Fin 0), rq_end = Some (Fin 100), rq_limit = 5\<rparr>"
  let ?run = "replay [] demo_md (request_bars demo_mdc_env 1 demo_minute ?rq demo_md)
        [Inl (Exn GatewayError (Some ''capability_denied'') ''busy''), Inr MvUnit,
         Inr (MvRows [demo_bar_event 120, demo_bar_event 60])]"
  obtain h s0 st s1 where r: "?run = (h, s0, st, s1)"
    and c: "co_run (request_bars demo_mdc_env 1 demo_minute ?rq) demo_md h st s0 s1" by (rule replay_run)
  have "case ?run of (h, s0, st, s1) \<Rightarrow> result st = Some (Inr ())" by code_simp
  then have st: "result st = Some (Inr ())" unfolding r prod.case .
  have "case ?run of (h, s0, st, s1) \<Rightarrow>
      (case last (md_trace s1) of MtPublish (MdBarsReply _ bars _) \<Rightarrow> map ba_ts_event bars = [60000000000] | _ \<Rightarrow> False)" by code_simp
  then have l: "case last (md_trace s1) of MtPublish (MdBarsReply _ bars _) \<Rightarrow> map ba_ts_event bars = [60000000000] | _ \<Rightarrow> False"
    unfolding r prod.case .
  from bars_request_is_answered [OF c [unfolded result_Some [OF st]]] obtain bars
    where a: "answered_with demo_minute ?rq bars s1" by (elim exE conjE)
  from this obtain tr where "md_trace s1 = tr @ [MtPublish (MdBarsReply demo_minute bars (rq_id ?rq))]"
    unfolding answered_with_def by (elim exE)
  with l have "map ba_ts_event bars = [60000000000]" by simp
  with a st show ?thesis unfolding r prod.case by (intro conjI exI)
qed

end
