(* ===== verification/Replays.thy ===== *)
theory Replays
  imports History
begin

text \<open>
  Subscriptions of the data client across reconnects and across concurrent commands.
\<close>

section \<open>Facts a history keeps\<close>

lemma sat_history:
  fixes m :: "('s, 'q, 'r, 'a) co"
  assumes mono: "\<And>h x. M h \<Longrightarrow> M (h @ [x])"
  shows "sat (\<lambda>_ _ _. True) (\<lambda>h _. M h) m (\<lambda>h _ _. M h) (\<lambda>h _ _. M h)"
proof -
  have "M h \<Longrightarrow> step_sat (\<lambda>_ _ _. True) (\<lambda>h _ _. M h) (\<lambda>h _ _. M h) st h s" for st :: "('s, 'q, 'r, 'a) co_step" and h s
  proof (induction st arbitrary: h s)
    case (CoDone r)
    then show ?case by (cases r) auto
  next
    case (CoAwait q k)
    show ?case
      unfolding step_sat_Await
    proof (intro allI satI)
      fix r h' s1 st2 s2
      assume *: "h' = h @ [(q, r, s1)]" "k r s1 = (st2, s2)"
      moreover have "st2 \<in> Basic_BNFs.fsts (k r s1)" using *(2) by (metis fsts.intros fst_conv)
      ultimately show "True \<and> step_sat (\<lambda>_ _ _. True) (\<lambda>h _ _. M h) (\<lambda>h _ _. M h) st2 h' s2"
        using CoAwait.IH mono [OF CoAwait.prems] by blast
    qed
  qed
  then show ?thesis by (auto simp: sat_def)
qed

lemma step_sat_conj:
  "step_sat (\<lambda>_ _ _. True) Q E st h s \<Longrightarrow> step_sat (\<lambda>_ _ _. True) Q' E' st h s \<Longrightarrow>
     step_sat (\<lambda>_ _ _. True) (\<lambda>h x s. Q h x s \<and> Q' h x s) (\<lambda>h e s. E h e s \<and> E' h e s) st h s"
proof (induction st arbitrary: h s)
  case (CoDone r)
  then show ?case by (cases r) auto
next
  case (CoAwait q k)
  show ?case
    unfolding step_sat_Await
  proof (intro allI satI)
    fix r h' s1 st2 s2
    assume *: "h' = h @ [(q, r, s1)]" "k r s1 = (st2, s2)"
    have "step_sat (\<lambda>_ _ _. True) Q E st2 h' s2" "step_sat (\<lambda>_ _ _. True) Q' E' st2 h' s2"
      using CoAwait.prems * unfolding step_sat_Await by (blast dest: satD)+
    moreover have "st2 \<in> Basic_BNFs.fsts (k r s1)" using *(2) by (metis fsts.intros fst_conv)
    ultimately show "True \<and> step_sat (\<lambda>_ _ _. True) (\<lambda>h x s. Q h x s \<and> Q' h x s) (\<lambda>h e s. E h e s \<and> E' h e s) st2 h' s2"
      using CoAwait.IH by blast
  qed
qed

text \<open>A postcondition together with a fact of the history that was known before.\<close>

lemma sat_after:
  assumes "sat (\<lambda>_ _ _. True) (\<lambda>_ _. True) m Q (\<lambda>_ _ _. True)" "\<And>h x. M h \<Longrightarrow> M (h @ [x])"
  shows "sat (\<lambda>_ _ _. True) (\<lambda>h _. M h) m (\<lambda>h x s. Q h x s \<and> M h) (\<lambda>_ _ _. True)"
proof (rule satI)
  fix h s st s'
  assume M: "M h" and m: "m s = (st, s')"
  have hist: "sat (\<lambda>_ _ _. True) (\<lambda>h _. M h) m (\<lambda>h _ _. M h) (\<lambda>h _ _. M h)" using assms(2) by (rule sat_history)
  have "step_sat (\<lambda>_ _ _. True) Q (\<lambda>_ _ _. True) st h s'" using satD [OF assms(1) _ m] by blast
  moreover have "step_sat (\<lambda>_ _ _. True) (\<lambda>h _ _. M h) (\<lambda>h _ _. M h) st h s'" using satD [OF hist M m] by blast
  ultimately have "step_sat (\<lambda>_ _ _. True) (\<lambda>h x s. Q h x s \<and> M h) (\<lambda>h e s. True \<and> M h) st h s'" by (rule step_sat_conj)
  then show "True \<and> step_sat (\<lambda>_ _ _. True) (\<lambda>h x s. Q h x s \<and> M h) (\<lambda>_ _ _. True) st h s'"
    by (intro conjI TrueI) (erule step_sat_mono [rotated -1], simp_all)
qed

section \<open>Replays\<close>

text \<open>The call was made and the venue took it, or had it already.\<close>

definition accepted :: "('c md, md_call, md_reply) history \<Rightarrow> md_call \<Rightarrow> bool" where
  "accepted h call \<longleftrightarrow> (\<exists>r s. (call, r, s) \<in> set h \<and> (case r of Inr _ \<Rightarrow> True | Inl e \<Rightarrow> is_duplicate_subscribe_error e))"

lemma acceptedI: "(c, r, s) \<in> set h \<Longrightarrow> (case r of Inr _ \<Rightarrow> True | Inl e \<Rightarrow> is_duplicate_subscribe_error e) \<Longrightarrow> accepted h c"
  unfolding accepted_def by blast

lemma accepted_snoc: "accepted h c \<Longrightarrow> accepted (h @ [x]) c"
  by (auto simp: accepted_def)

lemma sat_subscribe_replay:
  "sat (\<lambda>_ _ _. True) P (subscribe_replay c) (\<lambda>h _ _. accepted h c) (\<lambda>_ _ _. True)"
proof -
  have "sat (\<lambda>_ _ _. True) P (callM c) (\<lambda>h _ _. accepted h c) (\<lambda>h e s. \<exists>h0. h = h0 @ [(c, Inl e, s)])"
    unfolding callM_def
    by (rule sat_any(2) [OF sat_awaitM]) (rule sat_return; auto simp: any_rel intro: acceptedI)
  then show ?thesis
    unfolding subscribe_replay_def catchC_def
    by (rule sat_any(1)) (auto intro!: sat_if sat_return sat_raise simp: any_rel intro: acceptedI)
qed

lemma sat_forC_replay:
  "sat (\<lambda>_ _ _. True) P (forC ks (\<lambda>k. subscribe_replay (c k)) :: ('c, unit) mtask)
     (\<lambda>h _ _. \<forall>k \<in> set ks. accepted h (c k)) (\<lambda>_ _ _. True)"
proof (induction ks arbitrary: P)
  case Nil
  show ?case by simp (rule sat_return; simp add: any_rel)
next
  case (Cons k ks)
  have "sat (\<lambda>_ _ _. True) (\<lambda>h _. accepted h (c k)) (forC ks (\<lambda>k. subscribe_replay (c k)) :: ('c, unit) mtask)
      (\<lambda>h _ s. (\<forall>k \<in> set ks. accepted h (c k)) \<and> accepted h (c k)) (\<lambda>_ _ _. True)"
    by (rule sat_after [where M = "\<lambda>h :: ('c md, md_call, md_reply) history. accepted h (c k)", OF Cons.IH]) (rule accepted_snoc)
  then have "sat (\<lambda>_ _ _. True) (\<lambda>h s. accepted h (c k)) (forC ks (\<lambda>k. subscribe_replay (c k)) :: ('c, unit) mtask)
      (\<lambda>h _ s. \<forall>k \<in> set (k # ks). accepted h (c k)) (\<lambda>_ _ _. True)"
    by (rule sat_weaken) auto
  with sat_subscribe_replay show ?case by (simp only: forC.simps) (rule sat_any(3))
qed

text \<open>Everything that was to be replayed has been accepted.\<close>

definition replayed :: "wire_key list \<times> wire_key list \<times> bar_key list \<Rightarrow> ('c md, md_call, md_reply) history \<Rightarrow> bool" where
  "replayed = (\<lambda>(subs, books, bars) h. (\<forall>k \<in> set subs. accepted h (McSubscribe k))
     \<and> (\<forall>k \<in> set books. accepted h (McSubscribeBook k)) \<and> (\<forall>k \<in> set bars. accepted h (McSubscribeBars k)))"

lemma sat_replay:
  "sat (\<lambda>_ _ _. True) P (replay_subscription_intent subs books bars) (\<lambda>h _ _. replayed (subs, books, bars) h) (\<lambda>_ _ _. True)"
proof -
  let ?A = "\<lambda>h. \<forall>k \<in> set subs. accepted h (McSubscribe k)" and ?B = "\<lambda>h. \<forall>k \<in> set books. accepted h (McSubscribeBook k)"
    and ?C = "\<lambda>h. \<forall>k \<in> set bars. accepted h (McSubscribeBars k)"
  have c: "sat (\<lambda>_ _ _. True) (\<lambda>h s. ?A h \<and> ?B h) (forC bars (\<lambda>k. subscribe_replay (McSubscribeBars k)))
      (\<lambda>h _ s. ?C h \<and> (?A h \<and> ?B h)) (\<lambda>_ _ _. True)"
    by (rule sat_after [where M = "\<lambda>h. ?A h \<and> ?B h", OF sat_forC_replay]) (auto intro: accepted_snoc)
  have b: "sat (\<lambda>_ _ _. True) (\<lambda>h s. ?A h) (forC books (\<lambda>k. subscribe_replay (McSubscribeBook k)))
      (\<lambda>h _ s. ?B h \<and> ?A h) (\<lambda>_ _ _. True)"
    by (rule sat_after [where M = "?A", OF sat_forC_replay]) (auto intro: accepted_snoc)
  show ?thesis
    unfolding replay_subscription_intent_def
    by (rule sat_any(3) [OF sat_forC_replay], rule sat_any(3) [OF b],
        rule sat_weaken [OF sat_conseq [OF c]]) (auto simp: replayed_def)
qed

text \<open>A segment relation of a task holds for the latest segment of every run of it.\<close>

lemma co_run_segments:
  assumes "segments R m" "co_run m s h st s0 s1"
  shows "R s0 s1"
  using co_run_sat [OF sat_segments [OF assms(1), of "\<lambda>_ _. True"] assms(2)] by simp

text \<open>A registry that can be replayed holds only bar types with a native request.\<close>

lemma resync_of_readable: "resync_of env sy ex bts subs = Inr out \<Longrightarrow> bt \<in> set bts \<Longrightarrow> \<exists>x. bar_type_to_rithmic env bt = Inr x"
  by (induction env sy ex bts subs rule: resync_of.induct) (auto simp: bindR_eq_Inr_iff)

lemma resync_readable:
  "resync_from env reg subs = Inr out \<Longrightarrow> (k, bts) \<in> set reg \<Longrightarrow> bt \<in> set bts \<Longrightarrow> \<exists>x. bar_type_to_rithmic env bt = Inr x"
  by (induction env reg subs rule: resync_from.induct) (auto simp: bindR_eq_Inr_iff dest: resync_of_readable)

section \<open>Connecting\<close>

text \<open>What is to be replayed in a state.\<close>

definition to_replay :: "'c md \<Rightarrow> wire_key list \<times> wire_key list \<times> bar_registry" where
  "to_replay s = (ticker_keys s, md_book_subscriptions s, md_bar_types s)"

lemma to_replay_load: "keeps (\<lambda>s s'. to_replay s' = to_replay s) (forE is (load_instrument env))"
proof (intro keeps_rules)
  show "transp (\<lambda>s s'. to_replay s' = to_replay s)" "reflp (\<lambda>s s'. to_replay s' = to_replay s)"
    by (auto simp: transp_def reflp_def)
  show "keeps (\<lambda>s s'. to_replay s' = to_replay s) (load_instrument env i)" for i
    by (rule keepsI)
       (auto simp: load_instrument_def em_simps publish_def to_replay_def ticker_keys_def split: prod.splits option.splits sum.splits)
qed

text \<open>The history holds the provider's load, resumed in a state with these terms.\<close>

definition loaded :: "('c, 'x) md_env_scheme \<Rightarrow> wire_key list \<times> wire_key list \<times> bar_key list \<Rightarrow> ('c md, md_call, md_reply) history \<Rightarrow> bool" where
  "loaded env = (\<lambda>(subs, books, bars) h. \<exists>v s reg. (McInitProvider, Inr v, s) \<in> set h
     \<and> to_replay s = (subs, books, reg) \<and> bar_resync_subscriptions env reg = Inr bars)"

lemma loaded_snoc: "loaded env t h \<Longrightarrow> loaded env t (h @ [x])"
  by (cases t) (simp add: loaded_def, blast)

definition fresh_streams :: "'c md \<Rightarrow> bool" where
  "fresh_streams s \<longleftrightarrow> md_bbo_state s = [] \<and> md_books s = assembler_new \<and> md_poll s = Running
     \<and> (md_bar_types s = [] \<or> md_history_poll s \<noteq> NoTask)"

lemma sat_connect_tail:
  "sat (\<lambda>_ _ _. True) P (syncC (thenE clear_md_state (thenE restart_history_poll
        (modifyE (\<lambda>s. s\<lparr>md_poll_closing := False, md_poll := Running\<rparr>))))) (\<lambda>_ _ s. fresh_streams s) (\<lambda>_ _ _. True)"
  by (rule sat_sync)
     (auto simp: em_returned clear_md_state_def restart_history_poll_def ensure_history_poll_task_def fresh_streams_def
       assembler_reset_def assembler_new_def split: if_splits)

lemma sat_connect_replay:
  "sat (\<lambda>_ _ _. True) (\<lambda>h s. loaded env (subs, books, bars) h)
     (thenC (replay_subscription_intent subs books bars)
        (syncC (thenE clear_md_state (thenE restart_history_poll
           (modifyE (\<lambda>s. s\<lparr>md_poll_closing := False, md_poll := Running\<rparr>))))))
     (\<lambda>h _ s. fresh_streams s \<and> (\<exists>t. loaded env t h \<and> replayed t h)) (\<lambda>_ _ _. True)"
proof -
  let ?t = "(subs, books, bars)"
  have a: "sat (\<lambda>_ _ _. True) (\<lambda>h s. loaded env ?t h) (replay_subscription_intent subs books bars)
      (\<lambda>h _ s. replayed ?t h \<and> loaded env ?t h) (\<lambda>_ _ _. True)"
    by (rule sat_after [where M = "loaded env ?t", OF sat_replay]) (rule loaded_snoc)
  have b: "sat (\<lambda>_ _ _. True) (\<lambda>h s. replayed ?t h \<and> loaded env ?t h)
      (syncC (thenE clear_md_state (thenE restart_history_poll
           (modifyE (\<lambda>s. s\<lparr>md_poll_closing := False, md_poll := Running\<rparr>)))))
      (\<lambda>h _ s. fresh_streams s \<and> (replayed ?t h \<and> loaded env ?t h)) (\<lambda>_ _ _. True)"
    by (rule sat_after [where M = "\<lambda>h. replayed ?t h \<and> loaded env ?t h", OF sat_connect_tail])
       (auto simp: replayed_def intro: accepted_snoc loaded_snoc)
  show ?thesis
    by (rule sat_any(3) [OF a], rule sat_weaken [OF b]) auto
qed

definition at_load :: "('c md, md_call, md_reply) history \<Rightarrow> 'c md \<Rightarrow> bool" where
  "at_load h s \<longleftrightarrow> (\<exists>v s2. (McInitProvider, Inr v, s2) \<in> set h \<and> to_replay s = to_replay s2)"

lemma at_loadI: "(McInitProvider, Inr v, s) \<in> set h \<Longrightarrow> at_load h s"
  unfolding at_load_def by blast

lemma at_load_cong: "at_load h s \<Longrightarrow> to_replay s' = to_replay s \<Longrightarrow> at_load h s'"
  by (simp add: at_load_def)

lemma sat_md_connect:
  "sat (\<lambda>_ _ _. True) P (md_connect env) (\<lambda>h _ s. fresh_streams s \<and> (\<exists>t. loaded env t h \<and> replayed t h)) (\<lambda>_ _ _. True)"
proof -
  let ?Q = "\<lambda>h (_ :: unit) s. fresh_streams s \<and> (\<exists>t. loaded env t h \<and> replayed t h)"
  have init: "sat (\<lambda>_ _ _. True) P' (callM McInitProvider) (\<lambda>h _ s. at_load h s) (\<lambda>_ _ _. True)" for P'
  proof -
    have "sat (\<lambda>_ _ _. True) P' (awaitM McInitProvider) (\<lambda>h _ s. at_load h s) (\<lambda>_ _ _. True)"
      by (rule sat_weaken [OF sat_awaitM]) (auto intro: at_loadI)
    then show ?thesis unfolding callM_def by (rule sat_any(2)) (rule sat_return; simp add: any_rel)
  qed
  have terms: "sat (\<lambda>_ _ _. True) at_load (syncC (replay_terms env)) (\<lambda>h t s. loaded env t h) (\<lambda>_ _ _. True)"
    by (rule sat_sync) (auto simp: replay_terms_def em_returned loaded_def to_replay_def at_load_def, blast)
  have load: "sat (\<lambda>_ _ _. True) at_load (syncC (forE is (load_instrument env))) (\<lambda>h _ s. at_load h s) (\<lambda>_ _ _. True)" for "is"
    by (rule sat_sync) (auto dest: keepsD_eq [OF to_replay_load] intro: at_load_cong)
  have tail: "sat (\<lambda>_ _ _. True) (\<lambda>h s. loaded env t h) (case t of (subs, books, bars) \<Rightarrow>
      thenC (replay_subscription_intent subs books bars)
        (syncC (thenE clear_md_state (thenE restart_history_poll
           (modifyE (\<lambda>s. s\<lparr>md_poll_closing := False, md_poll := Running\<rparr>)))))) ?Q (\<lambda>_ _ _. True)" for t
    by (cases t) (simp only: prod.case sat_connect_replay)
  have instruments: "sat (\<lambda>_ _ _. True) at_load (syncC (getE (\<lambda>s. mc_instruments env (md_cache s)))) (\<lambda>h _ s. at_load h s) (\<lambda>_ _ _. True)"
    by (rule sat_sync) (auto simp: getE_def)
  show ?thesis
    unfolding md_connect_def
    by (rule sat_any(3) [OF sat_anything], rule sat_any(3) [OF sat_anything], rule sat_any(3) [OF init],
        rule sat_any(2) [OF instruments], rule sat_any(3) [OF load], rule sat_any(2) [OF terms], rule tail)
qed

text \<open>The history poll in a segment: kept as it is, or started where there was no task at all and bars are subscribed.\<close>

definition history_poll_kept :: "'c md \<Rightarrow> 'c md \<Rightarrow> bool" where
  "history_poll_kept s s' \<longleftrightarrow> md_bar_types s' = md_bar_types s \<and>
     (md_history_poll s' = md_history_poll s \<or> md_history_poll s = NoTask \<and> md_history_poll s' = Running \<and> md_bar_types s \<noteq> [])"

lemma history_poll_rel: "reflp history_poll_kept" "transp history_poll_kept"
  by (auto simp: reflp_def transp_def history_poll_kept_def)

lemmas history_poll_rules = segments_rules keeps_rules history_poll_rel

lemma history_poll_same:
  "(\<And>s. md_bar_types (snd (m s)) = md_bar_types s) \<Longrightarrow> (\<And>s. md_history_poll (snd (m s)) = md_history_poll s) \<Longrightarrow> keeps history_poll_kept m"
  by (rule keepsI) (simp add: history_poll_kept_def)

lemma history_poll_modify:
  "(\<And>s. md_bar_types (f s) = md_bar_types s) \<Longrightarrow> (\<And>s. md_history_poll (f s) = md_history_poll s) \<Longrightarrow> keeps history_poll_kept (modifyE f)"
  by (rule keeps_modifyE) (simp add: history_poll_kept_def)

lemma history_poll_call: "segments history_poll_kept (callM c)"
  unfolding callM_def
  by (intro history_poll_rules) (auto intro!: segmentsI simp: awaitM_def history_poll_kept_def)

lemma history_poll_connect: "segments history_poll_kept (md_connect env)"
proof -
  have publish: "keeps history_poll_kept (publish env i)" for i
    by (rule history_poll_same) (simp_all add: publish_def split: prod.splits option.splits)
  have load: "keeps history_poll_kept (load_instrument env i)" for i
    unfolding load_instrument_def
    by (auto intro!: history_poll_rules publish history_poll_modify split: option.split)
  have attach: "keeps history_poll_kept (md_attach env)"
    unfolding md_attach_def by (intro history_poll_rules history_poll_modify) simp_all
  have terms: "keeps history_poll_kept (replay_terms env)"
    unfolding replay_terms_def by (intro history_poll_rules)
  have replay: "segments history_poll_kept (replay_subscription_intent subs books bars)" for subs books bars
    unfolding replay_subscription_intent_def subscribe_replay_def by (intro history_poll_rules history_poll_call)
  have clear: "keeps history_poll_kept clear_md_state"
    unfolding clear_md_state_def by (rule history_poll_modify) simp_all
  have restart: "keeps history_poll_kept restart_history_poll"
    by (rule keepsI) (simp add: restart_history_poll_def ensure_history_poll_task_def em_simps history_poll_kept_def)
  have started: "keeps history_poll_kept (modifyE (\<lambda>s. s\<lparr>md_poll_closing := False, md_poll := Running\<rparr>))"
    by (rule history_poll_modify) simp_all
  show ?thesis
    unfolding md_connect_def
    by (intro history_poll_rules history_poll_call load attach terms)
       (auto intro!: history_poll_rules replay clear restart started split: prod.split)
qed

text \<open>
  C26: a reconnect forgets no subscription. When \<open>_connect\<close> returns, take the state in which its load of the
  instruments came back. Every instrument with a ticker intent then (or, where there was no intent at all, every
  ticker subscription), every book subscription, and the native request of every registered bar type has been issued
  to the session again and was accepted, or was already in place. The half-merged quotes and half-received books of
  the old connection are gone and the ticker stream is being polled. If bars are subscribed and no history poll task
  was held when the last reply came in, as after a disconnect, the history stream is being polled too; a task that is
  still held, running or finished, is left as it is.
\<close>

theorem connect_replays_every_subscription:
  assumes "co_run (md_connect env) s h (CoDone (Inr ())) s0 s1"
  shows "md_bbo_state s1 = [] \<and> md_books s1 = assembler_new \<and> md_poll s1 = Running
    \<and> md_history_poll s1 = (if md_bar_types s1 \<noteq> [] \<and> md_history_poll s0 = NoTask then Running else md_history_poll s0)
    \<and> (\<exists>v sl. (McInitProvider, Inr v, sl) \<in> set h
        \<and> (\<forall>key \<in> fst ` set (md_ticker_intents sl). accepted h (McSubscribe key))
        \<and> (md_ticker_intents sl = [] \<longrightarrow> (\<forall>key \<in> set (md_subscriptions sl). accepted h (McSubscribe key)))
        \<and> (\<forall>key \<in> set (md_book_subscriptions sl). accepted h (McSubscribeBook key))
        \<and> (\<forall>symbol exchange rt pd bts bt. ((symbol, exchange, rt, pd), bts) \<in> set (md_bar_types sl) \<longrightarrow> bt \<in> set bts \<longrightarrow>
            (\<exists>rtype period. bar_type_to_rithmic env bt = Inr (rtype, period)
               \<and> accepted h (McSubscribeBars (symbol, exchange, rtype, period)))))"
proof -
  have "fresh_streams s1" and "\<exists>t. loaded env t h \<and> replayed t h"
    using co_run_sat [OF sat_md_connect assms, of "\<lambda>_ _. True"] by simp_all
  then obtain subs books bars where t: "loaded env (subs, books, bars) h" "replayed (subs, books, bars) h" by auto
  then obtain v sl where l: "(McInitProvider, Inr v, sl) \<in> set h" "ticker_keys sl = subs" "md_book_subscriptions sl = books"
    "bar_resync_subscriptions env (md_bar_types sl) = Inr bars" by (auto simp: loaded_def to_replay_def)
  have bars: "\<exists>rtype period. bar_type_to_rithmic env bt = Inr (rtype, period) \<and> accepted h (McSubscribeBars (symbol, exchange, rtype, period))"
    if m: "((symbol, exchange, rt, pd), bts) \<in> set (md_bar_types sl)" "bt \<in> set bts" for symbol exchange rt pd bts bt
  proof -
    obtain rtype period where r: "bar_type_to_rithmic env bt = Inr (rtype, period)"
      using resync_readable [OF l(4) [unfolded bar_resync_subscriptions_def] m] by auto
    then have "(symbol, exchange, rtype, period) \<in> {(s, e, r, p) | s e r p. \<exists>r' p' bts bt. ((s, e, r', p'), bts) \<in> set (md_bar_types sl)
        \<and> bt \<in> set bts \<and> bar_type_to_rithmic env bt = Inr (r, p)}" using m by fast
    then have "(symbol, exchange, rtype, period) \<in> set bars"
      using resync_from_set [OF l(4) [unfolded bar_resync_subscriptions_def]] by simp
    then show ?thesis using r t(2) by (auto simp: replayed_def)
  qed
  have "history_poll_kept s0 s1" using co_run_segments [OF history_poll_connect assms] .
  with \<open>fresh_streams s1\<close> have "md_history_poll s1 = (if md_bar_types s1 \<noteq> [] \<and> md_history_poll s0 = NoTask then Running else md_history_poll s0)"
    by (auto simp: fresh_streams_def history_poll_kept_def)
  moreover have "\<forall>key \<in> fst ` set (md_ticker_intents sl). accepted h (McSubscribe key)"
    "md_ticker_intents sl = [] \<longrightarrow> (\<forall>key \<in> set (md_subscriptions sl). accepted h (McSubscribe key))"
    "\<forall>key \<in> set (md_book_subscriptions sl). accepted h (McSubscribeBook key)"
    using t(2) unfolding l(2,3) [symmetric] by (simp_all add: replayed_def ticker_keys_def Let_def split: if_splits)
  ultimately show ?thesis using \<open>fresh_streams s1\<close> l(1) bars unfolding fresh_streams_def by blast
qed

theorem connect_replays_every_subscription_witness:
  "(case replay [] demo_md (md_connect demo_mdc_env demo_md)
        [Inr MvUnit, Inr MvUnit, Inl (exn_of RuntimeError ''[8] Already exists'')] of (h, s0, st, s1) \<Rightarrow>
      result st = Some (Inr ()) \<and> md_poll s1 = Running \<and> md_history_poll s1 = Running
      \<and> accepted h (McSubscribeBars (''NQU6'', ''CME'', 2, 1)))"
proof -
  let ?run = "replay [] demo_md (md_connect demo_mdc_env demo_md)
        [Inr MvUnit, Inr MvUnit, Inl (exn_of RuntimeError ''[8] Already exists'')]"
  obtain h s0 st s1 where r: "?run = (h, s0, st, s1)"
    and c: "co_run (md_connect demo_mdc_env) demo_md h st s0 s1" by (rule replay_run)
  have "case ?run of (h, s0, st, s1) \<Rightarrow> result st = Some (Inr ()) \<and> md_history_poll s0 = NoTask \<and> md_bar_types s1 \<noteq> []
      \<and> list_all (\<lambda>(q, r, s). q \<noteq> McInitProvider \<or> ((''NQU6'', ''CME'', 2, 1), [demo_minute]) \<in> set (md_bar_types s)) h" by code_simp
  then have st: "result st = Some (Inr ())" and p: "md_history_poll s0 = NoTask" "md_bar_types s1 \<noteq> []"
    and h: "list_all (\<lambda>(q, r, s). q \<noteq> McInitProvider \<or> ((''NQU6'', ''CME'', 2, 1), [demo_minute]) \<in> set (md_bar_types s)) h"
    unfolding r prod.case by blast+
  note w = connect_replays_every_subscription [OF c [unfolded result_Some [OF st]]]
  from w obtain v sl where sl: "(McInitProvider, Inr v, sl) \<in> set h"
    and b: "\<forall>symbol exchange rt pd bts bt. ((symbol, exchange, rt, pd), bts) \<in> set (md_bar_types sl) \<longrightarrow> bt \<in> set bts \<longrightarrow>
      (\<exists>rtype period. bar_type_to_rithmic demo_mdc_env bt = Inr (rtype, period) \<and> accepted h (McSubscribeBars (symbol, exchange, rtype, period)))"
    by (elim conjE exE)
  from h sl have "((''NQU6'', ''CME'', 2, 1), [demo_minute]) \<in> set (md_bar_types sl)" by (auto simp: list_all_iff)
  moreover have "bar_type_to_rithmic demo_mdc_env demo_minute = Inr (2, 1)" by code_simp
  ultimately have "accepted h (McSubscribeBars (''NQU6'', ''CME'', 2, 1))" using b by fastforce
  with w st p show ?thesis unfolding r prod.case by simp
qed

section \<open>A subscription lost between two commands\<close>

text \<open>
  C37: a subscription that arrives while the last one is being cancelled is lost. The unsubscribe of an
  instrument's only ticker intent is waiting for the session; a subscribe of the same instrument now finds the
  key still marked as subscribed, so it records its intent, issues no call and returns without an error. The
  unsubscribe then completes. The new intent is on record, the venue feed is off, and nothing was asked for.
\<close>

theorem subscribe_during_unsubscribe_is_lost:
  assumes "map_of (md_routes s) iid = Some key" "map_of (md_ticker_intents s) key = Some a" "a < length (md_sets s)"
    "md_sets s ! a = [''trade'']" "key \<in> set (md_subscriptions s)"
  shows "\<exists>k s1 s2 s3. unsubscribe_trade_ticks iid s = (CoAwait (McUnsubscribe key) k, s1)
    \<and> subscribe_quote_ticks iid s1 = (CoDone (Inr ()), s2) \<and> k (Inr MvUnit) s2 = (CoDone (Inr ()), s3)
    \<and> (\<exists>b. map_of (md_ticker_intents s3) key = Some b \<and> md_sets s3 ! b = [''quote''])
    \<and> key \<notin> set (md_subscriptions s3) \<and> md_trace s3 = md_trace s @ [MtCall (McUnsubscribe key)]"
proof -
  let ?s1 = "s\<lparr>md_sets := (md_sets s)[a := []], md_ticker_intents := dict_pop key (md_ticker_intents s),
      md_trace := md_trace s @ [MtCall (McUnsubscribe key)]\<rparr>"
  let ?s2 = "?s1\<lparr>md_sets := (md_sets s)[a := []] @ [[''quote'']],
      md_ticker_intents := dict_set key (length (md_sets s)) (dict_pop key (md_ticker_intents s))\<rparr>"
  have "\<exists>k. unsubscribe_trade_ticks iid s = (CoAwait (McUnsubscribe key) k, ?s1)
      \<and> (\<forall>s2. k (Inr MvUnit) s2 = (CoDone (Inr ()), s2\<lparr>md_subscriptions := removeAll key (md_subscriptions s2)\<rparr>))"
    using assms
    by (simp add: unsubscribe_trade_ticks_def remove_ticker_intent_def remove_last_intent_def drop_wire_def co_simps em_simps
        md_route_def update_set_def del_intents_def callM_def awaitM_def catchC_def note_unsubscribed_def)
  then obtain k where k: "unsubscribe_trade_ticks iid s = (CoAwait (McUnsubscribe key) k, ?s1)"
    "k (Inr MvUnit) ?s2 = (CoDone (Inr ()), ?s2\<lparr>md_subscriptions := removeAll key (md_subscriptions s)\<rparr>)" by auto
  have "subscribe_quote_ticks iid ?s1 = (CoDone (Inr ()), ?s2)"
    using assms
    by (simp add: subscribe_quote_ticks_def add_ticker_intent_def co_simps em_simps md_route_def intent_set_def update_set_def
        nth_append list_update_append)
  with k show ?thesis by (intro exI conjI) (assumption | simp add: nth_append)+
qed

theorem subscribe_during_unsubscribe_is_lost_witness:
  "let key = (''NQU6'', ''CME''); iid = ''NQU6-CME.RITHMIC'';
       s = demo_md\<lparr>md_sets := [[''trade'']], md_ticker_intents := [(key, 0)], md_subscriptions := [key]\<rparr>
   in \<exists>k s1 s2 s3. unsubscribe_trade_ticks iid s = (CoAwait (McUnsubscribe key) k, s1)
    \<and> subscribe_quote_ticks iid s1 = (CoDone (Inr ()), s2) \<and> k (Inr MvUnit) s2 = (CoDone (Inr ()), s3)
    \<and> (\<exists>b. map_of (md_ticker_intents s3) key = Some b \<and> md_sets s3 ! b = [''quote''])
    \<and> key \<notin> set (md_subscriptions s3) \<and> md_trace s3 = [MtCall (McUnsubscribe key)]"
proof -
  let ?key = "(''NQU6'', ''CME'')"
  let ?s = "demo_md\<lparr>md_sets := [[''trade'']], md_ticker_intents := [(?key, 0)], md_subscriptions := [?key]\<rparr>"
  have tr: "md_trace ?s = []" by (simp add: demo_md_def md_new_def)
  show ?thesis
    using subscribe_during_unsubscribe_is_lost [of ?s "''NQU6-CME.RITHMIC''" ?key 0]
    unfolding Let_def tr append_Nil by (simp add: demo_md_def)
qed

end
