(* ===== verification/Framing.thy ===== *)
theory Framing
  imports PyValue "HOL-Library.Word"
begin

text \<open>
  Frames on the gateway's socket (\<open>rithmic_gateway/framing.py\<close> and the reading half of \<open>framed_conn.py\<close>): a frame
  is a four-byte length in network order and that many bytes.

  What the operating system does is the list of outcomes of the \<open>recv\<close> calls still to come: a chunk of bytes of
  any size (an empty one is the end of the stream), or an exception. A chunk longer than a call asks for is
  handed over in parts. When the list is empty a call times out.
\<close>

section \<open>Encoding\<close>

type_synonym byte = "8 word"

definition MAX_FRAME_LEN :: nat where "MAX_FRAME_LEN = 16 * 1024 * 1024"

text \<open>\<open>n.to_bytes(4, "big")\<close> and \<open>struct.unpack("!I", b)\<close>.\<close>

definition be32 :: "nat \<Rightarrow> byte list" where
  "be32 n = map (\<lambda>i. word_of_nat (n div 256 ^ i)) [3, 2, 1, 0]"

definition be_nat :: "byte list \<Rightarrow> nat" where
  "be_nat bs = fold (\<lambda>b n. 256 * n + unat b) bs 0"

definition encode_frame :: "byte list \<Rightarrow> byte list res" where
  "encode_frame payload =
     (if length payload > MAX_FRAME_LEN
      then Inl (exn_of FrameError (''frame too large: '' @ int_str (int (length payload)) @ '' bytes (max ''
             @ int_str (int MAX_FRAME_LEN) @ '')''))
      else Inr (be32 (length payload) @ payload))"

section \<open>Receiving\<close>

datatype recv = Chunk "byte list" | Raises exn

record rx_conn =
  rx_buf :: "byte list" \<comment> \<open>\<open>_rx\<close>; \<open>None\<close> and the empty buffer behave alike\<close>
  rx_recv :: "recv list"

definition gateway_error :: "string \<Rightarrow> string \<Rightarrow> exn" where
  "gateway_error code msg = Exn GatewayError (Some code) (code @ '': '' @ msg)"

text \<open>The loop of \<open>_fill\<close>: bytes received before an exception stay in the buffer.\<close>

fun fill_from :: "nat \<Rightarrow> byte list \<Rightarrow> recv list \<Rightarrow> unit res \<times> byte list \<times> recv list" where
  "fill_from n rx [] =
     (if n \<le> length rx then (Inr (), rx, []) else (Inl (exn_of TimeoutError ''timed out''), rx, []))"
| "fill_from n rx (r # rs) =
     (if n \<le> length rx then (Inr (), rx, r # rs)
      else case r of
        Raises e \<Rightarrow> (Inl e, rx, rs)
      | Chunk bs \<Rightarrow>
          if bs = [] then (Inl (gateway_error ''eof'' ''gateway closed connection''), rx, rs)
          else let m = max (n - length rx) 65536
               in if length bs \<le> m then fill_from n (rx @ bs) rs
                  else (Inr (), rx @ take m bs, Chunk (drop m bs) # rs))"

definition fill :: "nat \<Rightarrow> ('x rx_conn_scheme, exn, unit) em" where
  "fill n = (\<lambda>s. case fill_from n (rx_buf s) (rx_recv s) of
     (r, rx, rs) \<Rightarrow> (r, s\<lparr>rx_buf := rx, rx_recv := rs\<rparr>))"

text \<open>The payload of the next frame; \<open>frame.ParseFromString\<close> is applied by the caller.\<close>

definition read_payload :: "('x rx_conn_scheme, exn, byte list) em" where
  "read_payload =
     thenE (fill 4)
     (bindE (getE (\<lambda>s. be_nat (take 4 (rx_buf s)))) (\<lambda>len.
        if len > MAX_FRAME_LEN then raiseE (gateway_error ''frame_too_large'' (int_str (int len) @ '' bytes''))
        else
          thenE (fill (4 + len))
          (bindE (getE (\<lambda>s. take len (drop 4 (rx_buf s)))) (\<lambda>payload.
           thenE (modifyE (\<lambda>s. s\<lparr>rx_buf := drop (4 + len) (rx_buf s)\<rparr>)) (returnE payload)))))"

section \<open>Length prefix\<close>

lemma be_nat_be32:
  assumes "n < 2 ^ 32"
  shows "be_nat (be32 n) = n"
proof -
  define a b c where "a = n div 256" and "b = a div 256" and "c = b div 256"
  have "n div 256 ^ 3 = c" "n div 256 ^ 2 = b" by (simp_all add: a_def b_def c_def div_mult2_eq [symmetric])
  moreover have "c < 256" using assms by (simp add: a_def b_def c_def div_mult2_eq [symmetric] less_mult_imp_div_less)
  moreover have "n = 256 * a + n mod 256" "a = 256 * b + a mod 256" "b = 256 * c + b mod 256"
    by (simp_all add: a_def b_def c_def)
  ultimately show ?thesis by (simp add: be_nat_def be32_def unat_of_nat a_def [symmetric])
qed

lemma length_be32 [simp]: "length (be32 n) = 4"
  by (simp add: be32_def)

section \<open>The byte stream\<close>

definition recv_data :: "recv list \<Rightarrow> byte list" where
  "recv_data rs = concat (map (\<lambda>r. case r of Chunk bs \<Rightarrow> bs | Raises _ \<Rightarrow> []) rs)"

text \<open>The bytes received and not yet consumed, with those to come.\<close>

definition stream :: "'x rx_conn_scheme \<Rightarrow> byte list" where
  "stream s = rx_buf s @ recv_data (rx_recv s)"

text \<open>No end of stream among the outcomes to come.\<close>

definition no_eof :: "recv list \<Rightarrow> bool" where
  "no_eof rs \<longleftrightarrow> Chunk [] \<notin> set rs"

lemma recv_data_simps [simp]:
  "recv_data [] = []" "recv_data (Chunk bs # rs) = bs @ recv_data rs" "recv_data (Raises e # rs) = recv_data rs"
  by (simp_all add: recv_data_def)

lemma no_eof_simps [simp]:
  "no_eof []" "no_eof (Chunk bs # rs) \<longleftrightarrow> bs \<noteq> [] \<and> no_eof rs" "no_eof (Raises e # rs) \<longleftrightarrow> no_eof rs"
  by (auto simp: no_eof_def)

text \<open>A fill keeps the stream; it succeeds exactly when the buffer holds enough, and never shortens it.\<close>

lemma fill_from_keeps:
  assumes "fill_from n rx rs = (r, rx', rs')"
  shows "rx' @ recv_data rs' = rx @ recv_data rs" "no_eof rs \<Longrightarrow> no_eof rs'" "(r = Inr ()) = (n \<le> length rx')" "prefix rx rx'"
proof -
  have "rx' @ recv_data rs' = rx @ recv_data rs \<and> (no_eof rs \<longrightarrow> no_eof rs') \<and> (r = Inr ()) = (n \<le> length rx') \<and> prefix rx rx'"
    using assms
  proof (induction n rx rs rule: fill_from.induct)
    case (2 n rx x rs)
    show ?case
    proof (cases "n \<le> length rx")
      case False
      show ?thesis
      proof (cases x)
        case (Chunk bs)
        with 2 False show ?thesis
          by (auto simp: Let_def split: if_splits intro: append_prefixD)
      next
        case (Raises e)
        with 2 False show ?thesis by auto
      qed
    qed (use 2 in auto)
  qed (auto split: if_splits)
  then show "rx' @ recv_data rs' = rx @ recv_data rs" "no_eof rs \<Longrightarrow> no_eof rs'" "(r = Inr ()) = (n \<le> length rx')" "prefix rx rx'"
    by auto
qed

definition raises :: "recv list \<Rightarrow> nat" where
  "raises rs = length (filter (\<lambda>r. case r of Raises _ \<Rightarrow> True | Chunk _ \<Rightarrow> False) rs)"

lemma raises_simps [simp]:
  "raises [] = 0" "raises (Chunk bs # rs) = raises rs" "raises (Raises e # rs) = Suc (raises rs)"
  by (simp_all add: raises_def)

text \<open>A fill that fails although the bytes are on their way has met an exception of the socket.\<close>

lemma fill_from_raises:
  assumes "fill_from n rx rs = (r, rx', rs')" "no_eof rs" "n \<le> length rx + length (recv_data rs)"
  shows "raises rs = raises rs' + (if r = Inr () then 0 else 1)"
  using assms
proof (induction n rx rs rule: fill_from.induct)
  case (2 n rx x rs)
  then show ?case
    by (cases "n \<le> length rx"; cases x) (auto simp: Let_def split: if_splits)
qed (auto split: if_splits)

section \<open>Frames\<close>

lemma stream_update [simp]: "stream (s\<lparr>rx_buf := rx, rx_recv := rs\<rparr>) = rx @ recv_data rs"
  by (simp add: stream_def)

lemma fill_keeps:
  assumes "fill n s = (r, s')"
  shows "stream s' = stream s" "no_eof (rx_recv s) \<Longrightarrow> no_eof (rx_recv s')" "(r = Inr ()) = (n \<le> length (rx_buf s'))"
    "prefix (rx_buf s) (rx_buf s')"
    "no_eof (rx_recv s) \<Longrightarrow> n \<le> length (stream s) \<Longrightarrow> raises (rx_recv s) = raises (rx_recv s') + (if r = Inr () then 0 else 1)"
proof -
  obtain rx rs where f: "fill_from n (rx_buf s) (rx_recv s) = (r, rx, rs)" and s': "s' = s\<lparr>rx_buf := rx, rx_recv := rs\<rparr>"
    using assms by (auto simp: fill_def split: prod.splits)
  note k = fill_from_keeps [OF f]
  show "stream s' = stream s" "(r = Inr ()) = (n \<le> length (rx_buf s'))" "prefix (rx_buf s) (rx_buf s')" using k by (simp_all add: s' stream_def)
  show "no_eof (rx_recv s')" if "no_eof (rx_recv s)" using k(2) that by (simp add: s')
  show "raises (rx_recv s) = raises (rx_recv s') + (if r = Inr () then 0 else 1)"
    if "no_eof (rx_recv s)" "n \<le> length (stream s)" using fill_from_raises [OF f] that by (simp add: s' stream_def)
qed

definition enc :: "byte list \<Rightarrow> byte list" where "enc f = be32 (length f) @ f"

lemma encode_frame_enc: "encode_frame f = Inr b \<longleftrightarrow> length f \<le> MAX_FRAME_LEN \<and> b = enc f"
  by (auto simp: encode_frame_def enc_def)

lemma take_prefix_stream: "n \<le> length (rx_buf s) \<Longrightarrow> take n (rx_buf s) = take n (stream s)"
  by (simp add: stream_def)

text \<open>
  One read when the stream starts with a frame: it returns that frame and leaves the rest, or an exception of the
  socket interrupted it and the stream is as before.
\<close>

lemma read_payload_frame:
  assumes "read_payload s = (r, s')" "stream s = enc f @ rest" "length f \<le> MAX_FRAME_LEN" "no_eof (rx_recv s)"
  shows "no_eof (rx_recv s') \<and> (case r of
      Inr p \<Rightarrow> p = f \<and> stream s' = rest \<and> raises (rx_recv s') = raises (rx_recv s)
    | Inl e \<Rightarrow> stream s' = stream s \<and> raises (rx_recv s) = Suc (raises (rx_recv s')))"
proof -
  let ?n = "4 + length f"
  have len: "length (stream s) = ?n + length rest" by (simp add: assms(2) enc_def)
  have hd4: "be_nat (take 4 (stream s)) = length f"
    using assms(3) by (simp add: assms(2) enc_def be_nat_be32 MAX_FRAME_LEN_def)
  obtain r1 s1 where f1: "fill 4 s = (r1, s1)" by fastforce
  note k1 = fill_keeps [OF f1]
  show ?thesis
  proof (cases r1)
    case (Inl e)
    then show ?thesis using assms(1,4) f1 k1 len by (auto simp: read_payload_def em_simps)
  next
    case (Inr u)
    then have b4: "be_nat (take 4 (rx_buf s1)) = length f" using k1(1,3) hd4 by (simp add: take_prefix_stream)
    obtain r2 s2 where f2: "fill ?n s1 = (r2, s2)" by fastforce
    note k2 = fill_keeps [OF f2]
    show ?thesis
    proof (cases r2)
      case (Inl e)
      then show ?thesis using assms(1,3,4) Inr f1 f2 b4 k1 k2 len by (auto simp: read_payload_def em_simps)
    next
      case (Inr u')
      then have l: "?n \<le> length (rx_buf s2)" using k2(3) by simp
      have st: "stream s2 = enc f @ rest" using k1(1) k2(1) assms(2) by simp
      have "take ?n (rx_buf s2) = enc f" using take_prefix_stream [OF l] by (simp add: st enc_def)
      then have "take (length f) (drop 4 (rx_buf s2)) = f" by (simp add: take_drop enc_def add.commute)
      moreover have "stream (s2\<lparr>rx_buf := drop ?n (rx_buf s2)\<rparr>) = drop ?n (stream s2)" using l by (simp add: stream_def)
      then have "stream (s2\<lparr>rx_buf := drop ?n (rx_buf s2)\<rparr>) = rest" by (simp add: st enc_def)
      ultimately show ?thesis
        using assms(1,3,4) Inr \<open>r1 = Inr u\<close> f1 f2 b4 k1 k2 len by (auto simp: read_payload_def em_simps)
    qed
  qed
qed

text \<open>Successive reads, each returning or raising.\<close>

fun read_times :: "nat \<Rightarrow> 'x rx_conn_scheme \<Rightarrow> byte list res list \<times> 'x rx_conn_scheme" where
  "read_times 0 s = ([], s)"
| "read_times (Suc k) s = (case read_payload s of (r, s1) \<Rightarrow> case read_times k s1 of (rs, s2) \<Rightarrow> (r # rs, s2))"

definition payloads :: "'a res list \<Rightarrow> 'a list" where
  "payloads rs = concat (map (\<lambda>r. case r of Inr p \<Rightarrow> [p] | Inl _ \<Rightarrow> []) rs)"

lemma payloads_simps [simp]: "payloads [] = []" "payloads (Inr p # rs) = p # payloads rs" "payloads (Inl e # rs) = payloads rs"
  by (simp_all add: payloads_def)

lemma read_payload_empty:
  assumes "read_payload s = (r, s')" "stream s = []" "no_eof (rx_recv s)"
  shows "\<exists>e. r = Inl e" "stream s' = []" "no_eof (rx_recv s')"
proof -
  obtain r1 s1 where f1: "fill 4 s = (r1, s1)" by fastforce
  note k1 = fill_keeps [OF f1]
  have "length (rx_buf s1) = 0" using k1(1) assms(2) by (simp add: stream_def)
  then have "\<exists>e. r1 = Inl e" using k1(3) by (cases r1) auto
  then show "\<exists>e. r = Inl e" "stream s' = []" "no_eof (rx_recv s')" using assms f1 k1 by (auto simp: read_payload_def em_simps)
qed

lemma read_times_frames:
  assumes "read_times k s = (rs, s')" "stream s = concat (map enc fs)" "list_all (\<lambda>f. length f \<le> MAX_FRAME_LEN) fs"
    "no_eof (rx_recv s)"
  shows "\<exists>gs. fs = payloads rs @ gs \<and> stream s' = concat (map enc gs) \<and> (length fs + raises (rx_recv s) \<le> k \<longrightarrow> gs = [])"
  using assms
proof (induction k arbitrary: s fs rs)
  case 0
  then show ?case by auto
next
  case (Suc k)
  obtain r s1 where r: "read_payload s = (r, s1)" by fastforce
  obtain rs1 where rs: "read_times k s1 = (rs1, s')" "rs = r # rs1" using Suc.prems(1) r by (auto split: prod.splits)
  show ?case
  proof (cases fs)
    case Nil
    then have e: "\<exists>e. r = Inl e" "stream s1 = concat (map enc [])" "no_eof (rx_recv s1)"
      using read_payload_empty [OF r] Suc.prems by auto
    from Suc.IH [OF rs(1) e(2) _ e(3)] e(1) Nil rs(2) show ?thesis by auto
  next
    case (Cons f fs')
    with Suc.prems have "stream s = enc f @ concat (map enc fs')" "length f \<le> MAX_FRAME_LEN" by simp_all
    note c = read_payload_frame [OF r this Suc.prems(4)]
    show ?thesis
    proof (cases r)
      case (Inl e)
      then have s1: "stream s1 = concat (map enc fs)" "no_eof (rx_recv s1)" "raises (rx_recv s) = Suc (raises (rx_recv s1))"
        using c Suc.prems(2) by auto
      from Suc.IH [OF rs(1) s1(1) Suc.prems(3) s1(2)] Inl rs(2) s1(3) show ?thesis by auto
    next
      case (Inr p)
      then have s1: "p = f" "stream s1 = concat (map enc fs')" "no_eof (rx_recv s1)" "raises (rx_recv s1) = raises (rx_recv s)"
        using c by auto
      have "list_all (\<lambda>f. length f \<le> MAX_FRAME_LEN) fs'" using Suc.prems(3) Cons by simp
      from Suc.IH [OF rs(1) s1(2) this s1(3)] Inr rs(2) s1(1,4) Cons show ?thesis by auto
    qed
  qed
qed

text \<open>
  C10: frames survive the socket. The peer sends any frames within the limit; the operating system delivers their
  bytes in chunks of any sizes, and any number of reads are interrupted (a timeout or an empty non-blocking
  socket, also in the middle of a frame). However often the client reads, the frames it got are the first of those
  sent, in order and unchanged, and the rest is still intact in the stream; with one read per frame and one per
  interruption it has got them all.
\<close>

theorem frames_survive_the_socket:
  assumes "read_times k s = (rs, s')" "list_all2 (\<lambda>f b. encode_frame f = Inr b) fs bs" "stream s = concat bs" "no_eof (rx_recv s)"
  shows "\<exists>gs. fs = payloads rs @ gs \<and> stream s' = concat (map enc gs) \<and> (length fs + raises (rx_recv s) \<le> k \<longrightarrow> gs = [])"
proof -
  have "bs = map enc fs \<and> list_all (\<lambda>f. length f \<le> MAX_FRAME_LEN) fs"
    using assms(2) by (induction rule: list_all2_induct) (simp_all add: encode_frame_enc)
  then show ?thesis using read_times_frames [OF assms(1) _ _ assms(4)] assms(3) by simp
qed

theorem frames_survive_the_socket_witness:
  "let s = \<lparr>rx_buf = [], rx_recv = [Chunk [0, 0], Raises (exn_of TimeoutError ''timed out''), Chunk [0, 2, 7], Chunk [9, 0, 0, 0, 0]]\<rparr>
   in payloads (fst (read_times 3 s)) = [[7, 9], []]"
proof -
  let ?s = "\<lparr>rx_buf = [], rx_recv = [Chunk [0, 0], Raises (exn_of TimeoutError ''timed out''), Chunk [0, 2, 7], Chunk [9, 0, 0, 0, 0]]\<rparr>"
  have e: "list_all2 (\<lambda>f b. encode_frame f = Inr b) [[7, 9], []] [[0, 0, 0, 2, 7, 9], [0, 0, 0, 0]]"
    by (simp add: encode_frame_enc enc_def be32_def MAX_FRAME_LEN_def)
  have s: "stream ?s = concat [[0, 0, 0, 2, 7, 9], [0, 0, 0, 0]]" and "no_eof (rx_recv ?s)"
    and k: "length [[7, 9], []] + raises (rx_recv ?s) \<le> 3" by (simp_all add: stream_def)
  then obtain gs where "[[7, 9], []] = payloads (fst (read_times 3 ?s)) @ gs" "length [[7, 9], []] + raises (rx_recv ?s) \<le> 3 \<longrightarrow> gs = []"
    using frames_survive_the_socket [OF prod.collapse [symmetric] e s] by blast
  with k show ?thesis unfolding Let_def by simp
qed

end
