(* ===== verification/Windows.thy ===== *)
theory Windows
  imports PyValue
begin

text \<open>
  History windows (\<open>rithmic_gateway/history_window.py\<close>): a wide window is loaded in slices that share their
  boundary second, and the rows of the slices are merged with repeated bars dropped.
\<close>

section \<open>Slices\<close>

definition DEFAULT_TICK_SLICE_SECS :: int where "DEFAULT_TICK_SLICE_SECS = 2 * 60 * 60"
definition DEFAULT_BAR_SLICE_SECS :: int where "DEFAULT_BAR_SLICE_SECS = 40 * 24 * 60 * 60"

definition bar_slice_secs :: "int \<Rightarrow> int \<Rightarrow> int" where
  "bar_slice_secs bar_type period =
     (if bar_type = 3 \<or> bar_type = 4 then (2 ^ 31 - 1) div 4
      else if bar_type = 2 then
        (if period \<ge> 60 then 180 * 24 * 60 * 60 else if period \<ge> 15 then 90 * 24 * 60 * 60 else DEFAULT_BAR_SLICE_SECS)
      else if bar_type = 1 then DEFAULT_TICK_SLICE_SECS
      else DEFAULT_BAR_SLICE_SECS)"

text \<open>The loop; it is only entered with a positive step.\<close>

function slices_from :: "int \<Rightarrow> int \<Rightarrow> int \<Rightarrow> (int \<times> int) list" where
  "slices_from cur stop step =
     (if cur \<le> stop \<and> 1 \<le> step then
        let nxt0 = cur + step; nxt = (if nxt0 \<ge> stop \<or> nxt0 < cur then stop else nxt0)
        in (cur, nxt) # (if nxt \<ge> stop then [] else slices_from nxt stop step)
      else [])"
  by auto
termination by (relation "measure (\<lambda>(cur, stop, step). nat (stop - cur))") (auto split: if_splits)

declare slices_from.simps [simp del]

definition window_slices :: "int \<Rightarrow> int \<Rightarrow> int \<Rightarrow> (int \<times> int) list" where
  "window_slices start stop step = (if start > stop \<or> step < 1 then [] else slices_from start stop step)"

section \<open>Merging\<close>

text \<open>
  The key of a bar: its marker, or its time when it has none. Keys compare as Python values do, numbers by value;
  a list is no key.
\<close>

datatype row_key = MarkerKey pyval | TimeKey pyval

definition norm_key :: "pyval \<Rightarrow> pyval" where
  "norm_key v = (case v of
       PBool b \<Rightarrow> PInt (if b then 1 else 0)
     | PFloat (Fin x) \<Rightarrow> (if of_int \<lfloor>x\<rfloor> = x then PInt \<lfloor>x\<rfloor> else v)
     | _ \<Rightarrow> v)"

definition bar_row_key :: "pydict \<Rightarrow> row_key res" where
  "bar_row_key bar =
     (let key = (if dget bar ''marker'' = PNone then TimeKey (norm_key (dget bar ''ts_event_ns''))
                 else MarkerKey (norm_key (dget bar ''marker'')))
      in case key of
           MarkerKey (PList _) \<Rightarrow> Inl (exn_of TypeError ''unhashable type: list'')
         | TimeKey (PList _) \<Rightarrow> Inl (exn_of TypeError ''unhashable type: list'')
         | _ \<Rightarrow> Inr key)"

fun dedupe_from :: "row_key list \<Rightarrow> pydict list \<Rightarrow> pydict list res" where
  "dedupe_from seen [] = Inr []"
| "dedupe_from seen (bar # bars) =
     bindR (bar_row_key bar) (\<lambda>key.
       if key \<in> set seen then dedupe_from seen bars
       else bindR (dedupe_from (key # seen) bars) (\<lambda>out. Inr (bar # out)))"

definition dedupe_bars_by_marker :: "pydict list \<Rightarrow> pydict list res" where
  "dedupe_bars_by_marker bars = dedupe_from [] bars"

section \<open>The slices tile the window\<close>

fun chained :: "int \<Rightarrow> (int \<times> int) list \<Rightarrow> int \<Rightarrow> bool" where
  "chained a [] z \<longleftrightarrow> False"
| "chained a [(x, y)] z \<longleftrightarrow> x = a \<and> y = z"
| "chained a ((x, y) # xs) z \<longleftrightarrow> x = a \<and> chained y xs z"

lemma chained_Cons: "chained a ((x, y) # xs) z \<longleftrightarrow> x = a \<and> (if xs = [] then y = z else chained y xs z)"
  by (cases xs) auto

lemma slices_from_tile:
  assumes "cur \<le> stop" "1 \<le> step"
  shows "chained cur (slices_from cur stop step) stop \<and> list_all (\<lambda>(a, b). a \<le> b \<and> b - a \<le> step) (slices_from cur stop step)"
  using assms
proof (induction cur stop step rule: slices_from.induct)
  case (1 cur stop step)
  show ?case
  proof (cases "cur + step \<ge> stop")
    case True
    with 1 show ?thesis by (subst (1 2) slices_from.simps) (simp add: Let_def)
  next
    case False
    with 1 have "chained (cur + step) (slices_from (cur + step) stop step) stop
        \<and> list_all (\<lambda>(a, b). a \<le> b \<and> b - a \<le> step) (slices_from (cur + step) stop step)" by simp
    moreover have "slices_from cur stop step = (cur, cur + step) # slices_from (cur + step) stop step"
      using False 1 by (subst slices_from.simps) (simp add: Let_def)
    ultimately show ?thesis using 1(3) by (auto simp: chained_Cons)
  qed
qed

section \<open>Rows of a tiled window\<close>

text \<open>What the venue holds in a window, for rows stamped by \<open>time\<close>.\<close>

definition rows_in :: "('r \<Rightarrow> int) \<Rightarrow> 'r list \<Rightarrow> int \<Rightarrow> int \<Rightarrow> 'r list" where
  "rows_in time rows a b = filter (\<lambda>r. a \<le> time r \<and> time r \<le> b) rows"

lemma sorted_filter_split:
  assumes "sorted (map time rows)" "a \<le> b" "b \<le> c"
  shows "rows_in time rows a c = rows_in time rows a b @ filter (\<lambda>r. b < time r \<and> time r \<le> c) rows"
  using assms(1)
proof (induction rows)
  case (Cons r rows)
  show ?case
  proof (cases "time r \<le> b")
    case True
    with Cons assms(2,3) show ?thesis by (simp add: rows_in_def)
  next
    case False
    with Cons.prems have "\<forall>x \<in> set rows. b < time x" by fastforce
    then have "rows_in time rows a b = []" by (auto simp: rows_in_def filter_empty_conv)
    with Cons False assms(2,3) show ?thesis by (simp add: rows_in_def)
  qed
qed (simp add: rows_in_def)

text \<open>The merge on rows that have keys: the first row of each key.\<close>

fun keep_first :: "('r \<Rightarrow> 'k) \<Rightarrow> 'k set \<Rightarrow> 'r list \<Rightarrow> 'r list" where
  "keep_first key S [] = []"
| "keep_first key S (r # rs) = (if key r \<in> S then keep_first key S rs else r # keep_first key (insert (key r) S) rs)"

lemma dedupe_from_keep:
  "list_all (\<lambda>r. \<not> isl (bar_row_key r)) rows \<Longrightarrow>
    dedupe_from seen rows = Inr (keep_first (\<lambda>r. projr (bar_row_key r)) (set seen) rows)"
  by (induction seen rows rule: dedupe_from.induct) (auto simp: isl_def bindR_def split: sum.splits)

lemma keep_first_append: "keep_first key S (xs @ ys) = keep_first key S xs @ keep_first key (S \<union> key ` set xs) ys"
  by (induction key S xs rule: keep_first.induct) (auto simp: insert_absorb Un_insert_left)

lemma keep_first_distinct: "distinct (map key rs) \<Longrightarrow> keep_first key S rs = filter (\<lambda>r. key r \<notin> S) rs"
proof (induction key S rs rule: keep_first.induct)
  case (2 key S r rs)
  then have "filter (\<lambda>x. key x \<notin> insert (key r) S) rs = filter (\<lambda>x. key x \<notin> S) rs"
    by (intro filter_cong) (auto simp: image_iff)
  with 2 show ?case by auto
qed simp

lemma keep_first_slices:
  assumes "sorted (map time rows)" "distinct (map key rows)" "chained a sl z" "list_all (\<lambda>(x, y). x \<le> y) sl"
  shows "keep_first key S (concat (map (\<lambda>(x, y). rows_in time rows x y) sl)) = filter (\<lambda>r. key r \<notin> S) (rows_in time rows a z) \<and> a \<le> z"
  using assms(3,4)
proof (induction sl arbitrary: a S)
  case (Cons p sl)
  obtain x y where p: "p = (x, y)" by fastforce
  have d: "distinct (map key (rows_in time rows b c))" for b c using assms(2) by (simp add: rows_in_def distinct_map_filter)
  show ?case
  proof (cases "sl = []")
    case True
    with Cons p show ?thesis by (simp add: keep_first_distinct [OF d])
  next
    case False
    with Cons.prems p have c: "x = a" "chained y sl z" "a \<le> y" "list_all (\<lambda>(x, y). x \<le> y) sl" by (simp_all add: chained_Cons)
    let ?A = "rows_in time rows a y"
    note IH = Cons.IH [OF c(2,4)]
    have "filter (\<lambda>r. key r \<notin> S \<union> key ` set ?A) (rows_in time rows y z)
        = filter (\<lambda>r. key r \<notin> S) (filter (\<lambda>r. y < time r \<and> time r \<le> z) rows)"
      unfolding rows_in_def filter_filter
    proof (rule filter_cong [OF refl])
      fix r assume r: "r \<in> set rows"
      have "key r \<in> key ` set (filter (\<lambda>r. a \<le> time r \<and> time r \<le> y) rows) \<longleftrightarrow> a \<le> time r \<and> time r \<le> y"
        using r assms(2) by (auto simp: distinct_map inj_on_def)
      then show "((y \<le> time r \<and> time r \<le> z) \<and> key r \<notin> S \<union> key ` set (filter (\<lambda>r. a \<le> time r \<and> time r \<le> y) rows))
          = ((y < time r \<and> time r \<le> z) \<and> key r \<notin> S)" using c(3) by auto
    qed
    then have "keep_first key S (concat (map (\<lambda>(x, y). rows_in time rows x y) (p # sl)))
        = filter (\<lambda>r. key r \<notin> S) (?A @ filter (\<lambda>r. y < time r \<and> time r \<le> z) rows)"
      using c(1) by (simp add: p keep_first_append keep_first_distinct [OF d] IH)
    moreover have "y \<le> z" using IH by blast
    ultimately show ?thesis using sorted_filter_split [OF assms(1) c(3), of z] c(3) by simp
  qed
qed simp

lemma bar_slice_secs_pos: "1 \<le> bar_slice_secs bar_type period"
  by (simp add: bar_slice_secs_def DEFAULT_BAR_SLICE_SECS_def DEFAULT_TICK_SLICE_SECS_def)

lemma window_slices_merge:
  assumes "sorted (map time rows)" "distinct (map (\<lambda>r. projr (bar_row_key r)) rows)" "list_all (\<lambda>r. \<not> isl (bar_row_key r)) rows" "1 \<le> step"
  shows "dedupe_bars_by_marker (concat (map (\<lambda>(a, b). rows_in time rows a b) (window_slices start stop step)))
    = Inr (rows_in time rows start stop)"
proof (cases "start \<le> stop")
  case True
  let ?sl = "window_slices start stop step"
  have t: "chained start ?sl stop" "list_all (\<lambda>(x, y). x \<le> y) ?sl"
    using slices_from_tile [OF True assms(4)] True assms(4) by (auto simp: window_slices_def list_all_iff)
  have "list_all (\<lambda>r. \<not> isl (bar_row_key r)) (concat (map (\<lambda>(a, b). rows_in time rows a b) ?sl))"
    using assms(3) by (auto simp: list_all_iff rows_in_def)
  then show ?thesis
    using keep_first_slices [OF assms(1,2) t, of "{}"] by (simp add: dedupe_bars_by_marker_def dedupe_from_keep)
next
  case False
  then show ?thesis by (auto simp: window_slices_def dedupe_bars_by_marker_def rows_in_def filter_empty_conv)
qed

text \<open>
  C16: loading a window in slices gives what one wide load would. Let the venue hold bars in time order with
  distinct keys, and answer each slice with its bars, both ends included. Then no slice is longer than the limit
  of its bar type, and the merged slices are exactly the bars of the whole window, in order, each once.
\<close>

theorem sliced_load_is_the_wide_load:
  assumes "sorted (map time rows)" "distinct (map (\<lambda>r. projr (bar_row_key r)) rows)" "list_all (\<lambda>r. \<not> isl (bar_row_key r)) rows"
  shows "dedupe_bars_by_marker (concat (map (\<lambda>(a, b). rows_in time rows a b) (window_slices start stop (bar_slice_secs bt period))))
      = Inr (rows_in time rows start stop)
    \<and> list_all (\<lambda>(a, b). a \<le> b \<and> b - a \<le> bar_slice_secs bt period) (window_slices start stop (bar_slice_secs bt period))"
  using window_slices_merge [OF assms bar_slice_secs_pos] slices_from_tile [OF _ bar_slice_secs_pos]
  by (auto simp: window_slices_def)

theorem sliced_load_is_the_wide_load_witness:
  "let row = (\<lambda>t. [(''marker'', PInt t)]); time = (\<lambda>r. projr (py_int (dget r ''marker'')));
       rows = [row 0, row 7200, row 9000];
       slices = window_slices 0 10000 (bar_slice_secs 1 1)
   in slices = [(0, 7200), (7200, 10000)]
      \<and> dedupe_bars_by_marker (concat (map (\<lambda>(a, b). rows_in time rows a b) slices)) = Inr rows"
proof -
  let ?row = "\<lambda>t. [(''marker'', PInt t)]" let ?time = "\<lambda>r. projr (py_int (dget r ''marker''))"
  let ?rows = "[?row 0, ?row 7200, ?row 9000]"
  have h: "sorted (map ?time ?rows)" "distinct (map (\<lambda>r. projr (bar_row_key r)) ?rows)" "list_all (\<lambda>r. \<not> isl (bar_row_key r)) ?rows"
    "rows_in ?time ?rows 0 10000 = ?rows"
    by (simp_all add: dget_def py_int_def bar_row_key_def norm_key_def rows_in_def)
  have "window_slices 0 10000 (bar_slice_secs 1 1) = [(0, 7200), (7200, 10000)]" by code_simp
  with sliced_load_is_the_wide_load [OF h(1-3), of 0 10000 1 1] h(4) show ?thesis unfolding Let_def by simp
qed

end
