(* ===== verification/Config.thy ===== *)
theory Config
  imports Ident
begin

text \<open>
  Settings of the adapter (\<open>rithmic_nt_connect/config.py\<close>, \<open>_redact.py\<close>): environment variables and dotenv
  files become a \<open>SessionConfig\<close>. The environment is a dictionary of strings, a file is its text
  (\<open>None\<close> when there is no such file); both are arguments. \<open>SecretStr\<close> only changes how a value is shown, so
  a secret is a plain string here and the functions that show it are modelled on their own.
\<close>

section \<open>Text helpers\<close>

type_synonym environ = "(string \<times> string) list"

text \<open>\<open>str.splitlines()\<close>; the flag says that a carriage return was just read.\<close>

definition line_end :: "char \<Rightarrow> bool" where
  "line_end c \<longleftrightarrow> (let n = (of_char c :: nat) in (10 \<le> n \<and> n \<le> 13) \<or> (28 \<le> n \<and> n \<le> 30))"

fun split_lines :: "bool \<Rightarrow> string \<Rightarrow> string \<Rightarrow> string list" where
  "split_lines cr acc [] = (if acc = [] then [] else [rev acc])"
| "split_lines cr acc (c # s) =
     (if cr \<and> c = CHR 10 then split_lines False acc s
      else if line_end c then rev acc # split_lines (c = CHR 13) [] s
      else split_lines False (c # acc) s)"

definition str_splitlines :: "string \<Rightarrow> string list" where
  "str_splitlines s = split_lines False [] s"

text \<open>\<open>s.split(c)\<close> and \<open>s.split(c, 1)\<close>.\<close>

fun split_on :: "char \<Rightarrow> string \<Rightarrow> string \<Rightarrow> string list" where
  "split_on sep acc [] = [rev acc]"
| "split_on sep acc (c # s) = (if c = sep then rev acc # split_on sep [] s else split_on sep (c # acc) s)"

definition split_once :: "char \<Rightarrow> string \<Rightarrow> string \<times> string" where
  "split_once sep s = (takeWhile (\<lambda>c. c \<noteq> sep) s, drop 1 (dropWhile (\<lambda>c. c \<noteq> sep) s))"

definition str_starts :: "string \<Rightarrow> string \<Rightarrow> bool" where
  "str_starts p s \<longleftrightarrow> take (length p) s = p"

text \<open>\<open>repr\<close> of an optional string.\<close>

definition opt_repr :: "string option \<Rightarrow> string" where
  "opt_repr v = (case v of None \<Rightarrow> ''None'' | Some s \<Rightarrow> str_repr s)"

section \<open>Redaction\<close>

definition secret_key :: "string \<Rightarrow> bool" where
  "secret_key key \<longleftrightarrow>
     (let upper = str_upper key
      in list_ex (\<lambda>m. str_contains m upper) [''PASSWORD'', ''TOKEN'', ''SECRET'']
         \<or> upper = ''PW'' \<or> str_starts (rev ''_PW'') (rev upper))"

definition SECRET_REPR :: string where "SECRET_REPR = [CHR 0x27] @ ''***'' @ [CHR 0x27]"

definition redacted_env_repr :: "environ \<Rightarrow> string" where
  "redacted_env_repr values =
     ''RedactedEnv({'' @ join_with '', '' (map (\<lambda>(k, v). str_repr k @ '': '' @ str_repr (if secret_key k then ''***'' else v)) values)
       @ ''})''"

section \<open>Values\<close>

datatype connect_mode = DIRECT | GATEWAY

definition mode_value :: "connect_mode \<Rightarrow> string" where
  "mode_value m = (case m of DIRECT \<Rightarrow> ''direct'' | GATEWAY \<Rightarrow> ''gateway'')"

definition config_error :: "string \<Rightarrow> 'a res" where
  "config_error msg = Inl (exn_of ConfigError msg)"

text \<open>The constructor accepts a mode or its text.\<close>

definition parse_connect_mode :: "connect_mode + string \<Rightarrow> connect_mode res" where
  "parse_connect_mode value = (case value of
       Inl m \<Rightarrow> Inr m
     | Inr s \<Rightarrow> (let raw = str_lower (str_strip s)
               in if raw = ''direct'' then Inr DIRECT else if raw = ''gateway'' then Inr GATEWAY
                  else config_error (''invalid connect_mode '' @ str_repr s @ ''; expected '' @ str_repr ''direct'' @ '' or '' @ str_repr ''gateway'')))"

definition require_nonempty :: "string \<Rightarrow> string option \<Rightarrow> string res" where
  "require_nonempty name value = (case value of
       Some v \<Rightarrow> if str_strip v \<noteq> [] then Inr (str_strip v)
                else config_error (''missing or empty required config field: '' @ name)
     | None \<Rightarrow> config_error (''missing or empty required config field: '' @ name))"

fun env_first :: "environ \<Rightarrow> string list \<Rightarrow> string option" where
  "env_first env [] = None"
| "env_first env (key # keys) =
     (case map_of env key of
        Some raw \<Rightarrow> if str_strip raw \<noteq> [] then Some (str_strip raw) else env_first env keys
      | None \<Rightarrow> env_first env keys)"

definition env_truthy :: "string option \<Rightarrow> bool \<Rightarrow> bool" where
  "env_truthy value dflt = (case value of None \<Rightarrow> dflt
     | Some v \<Rightarrow> str_lower (str_strip v) \<in> set [''1'', ''true'', ''yes'', ''on''])"

section \<open>Retired variables and the connection mode\<close>

definition SPAWN_REMOVED :: "string \<Rightarrow> string" where
  "SPAWN_REMOVED name = name @ '' was removed: the gateway client no longer spawns the parent; start the ''
     @ ''parent explicitly with `python -m rithmic_gateway` (or a service manager) and unset '' @ name"

definition TOPOLOGY_REMOVED :: "string \<Rightarrow> string" where
  "TOPOLOGY_REMOVED name = name @ '' was removed: the gateway client has one topology (one shared socket per ''
     @ ''process); unset '' @ name"

definition RETIRED_KNOBS :: "(string \<times> (string \<Rightarrow> string)) list" where
  "RETIRED_KNOBS = [(''RITHMIC_GATEWAY_CLIENT_MODE'', TOPOLOGY_REMOVED),
     (''RITHMIC_GATEWAY_SPAWN_POLICY'', SPAWN_REMOVED), (''RITHMIC_GATEWAY_AUTO_SPAWN'', SPAWN_REMOVED)]"

fun reject_knobs :: "(string \<Rightarrow> exn) \<Rightarrow> environ \<Rightarrow> (string \<times> (string \<Rightarrow> string)) list \<Rightarrow> unit res" where
  "reject_knobs err env [] = Inr ()"
| "reject_knobs err env ((name, why) # ks) =
     (case env_first env [name] of
        Some raw \<Rightarrow> Inl (err (name @ ''='' @ raw @ '': '' @ why name))
      | None \<Rightarrow> reject_knobs err env ks)"

definition reject_retired_client_knobs :: "environ \<Rightarrow> unit res" where
  "reject_retired_client_knobs env = reject_knobs (exn_of ConfigError) env RETIRED_KNOBS"

record mode_fields =
  mf_connect_mode :: connect_mode
  mf_gateway_listen :: "string option"
  mf_gateway_auth_token :: string

definition or_empty :: "string option \<Rightarrow> string" where
  "or_empty v = (case v of None \<Rightarrow> [] | Some s \<Rightarrow> s)"

definition connect_mode_fields :: "environ \<Rightarrow> mode_fields res" where
  "connect_mode_fields env = (case env_first env [''RITHMIC_CONNECT_MODE''] of
       None \<Rightarrow> config_error (''missing RITHMIC_CONNECT_MODE; set to '' @ str_repr ''direct'' @ '' (in-process plants) or ''
                 @ str_repr ''gateway'' @ '' (shared rithmic-gateway)'')
     | Some raw \<Rightarrow>
         bindR (reject_retired_client_knobs env) (\<lambda>_.
           case parse_connect_mode (Inr raw) of
             Inl _ \<Rightarrow> config_error (''invalid RITHMIC_CONNECT_MODE '' @ str_repr raw @ ''; expected direct or gateway'')
           | Inr mode \<Rightarrow> Inr \<lparr>mf_connect_mode = mode, mf_gateway_listen = env_first env [''RITHMIC_GATEWAY_LISTEN''],
               mf_gateway_auth_token = or_empty (env_first env [''RITHMIC_GATEWAY_AUTH_TOKEN''])\<rparr>))"

section \<open>Dotenv files\<close>

text \<open>The variables a dotenv text defines: the last line for a key counts.\<close>

definition dotenv_line :: "string \<Rightarrow> environ \<Rightarrow> environ" where
  "dotenv_line raw values =
     (let line = str_strip raw
      in if line = [] \<or> str_starts ''#'' line \<or> CHR ''='' \<notin> set line then values
         else case split_once (CHR ''='') line of (key, value) \<Rightarrow>
           dict_set (str_strip key)
             (strip_with (\<lambda>c. c = CHR 0x22) (strip_with (\<lambda>c. c = CHR 0x27) (str_strip value))) values)"

definition parse_dotenv :: "string option \<Rightarrow> environ" where
  "parse_dotenv content = (case content of None \<Rightarrow> [] | Some t \<Rightarrow> fold dotenv_line (str_splitlines t) [])"

definition env_setdefault :: "string \<times> string \<Rightarrow> environ \<Rightarrow> environ" where
  "env_setdefault kv env = (if map_of env (fst kv) = None then dict_set (fst kv) (snd kv) env else env)"

text \<open>\<open>files\<close> gives the text of a path that is a file. The result is whether it was one, and the new environment.\<close>

definition load_dotenv :: "(string \<Rightarrow> string option) \<Rightarrow> string \<Rightarrow> environ \<Rightarrow> bool \<times> environ" where
  "load_dotenv files path env =
     (if files path = None then (False, env) else (True, fold env_setdefault (parse_dotenv (files path)) env))"

definition load_dotenv_files :: "(string \<Rightarrow> string option) \<Rightarrow> string list \<Rightarrow> string \<Rightarrow> environ \<Rightarrow> environ" where
  "load_dotenv_files files paths extra_env_var env =
     (let env1 = fold (\<lambda>p e. snd (load_dotenv files p e)) paths env;
          extra = or_empty (map_of env1 extra_env_var)
      in fold (\<lambda>part e. if str_strip part = [] then e else snd (load_dotenv files (str_strip part) e))
           (split_on (CHR '':'') [] extra) env1)"

section \<open>System names\<close>

definition TEST_SYSTEM_MARKERS :: "string list" where
  "TEST_SYSTEM_MARKERS = [''TEST'', ''DEMO'', ''SANDBOX'', ''SIM'', ''PAPER'']"

definition PRODUCTION_SYSTEM_MARKERS :: "string list" where
  "PRODUCTION_SYSTEM_MARKERS = [''LUCID'', ''PRODUCTION'', ''RITHMIC 01'', ''RITHMIC 02'']"

definition system_kind :: "string \<Rightarrow> string" where
  "system_kind system_name =
     (let upper = str_upper system_name
      in if list_ex (\<lambda>m. str_contains m upper) PRODUCTION_SYSTEM_MARKERS then ''production''
         else if list_ex (\<lambda>m. str_contains m upper) TEST_SYSTEM_MARKERS then ''test''
         else ''unknown'')"

section \<open>The explicit test environment\<close>

record dotenv_world =
  dw_file :: "string \<Rightarrow> string option"
  dw_expand :: "string \<Rightarrow> string" \<comment> \<open>\<open>str(Path(p).expanduser())\<close>\<close>

definition dotenv_values :: "dotenv_world \<Rightarrow> string \<Rightarrow> environ res" where
  "dotenv_values w path =
     (if dw_file w (dw_expand w path) = None
      then config_error (''explicit test env file does not exist: '' @ dw_expand w path)
      else Inr (parse_dotenv (dw_file w (dw_expand w path))))"

fun require_keys :: "environ \<Rightarrow> string list \<Rightarrow> unit res" where
  "require_keys values [] = Inr ()"
| "require_keys values (key # keys) =
     (if env_first values [key] = None then config_error (''explicit test env file is missing '' @ key)
      else require_keys values keys)"

text \<open>The guard on the system: production only with the flag of the process environment.\<close>

definition test_system_guard :: "environ \<Rightarrow> string \<Rightarrow> unit res" where
  "test_system_guard source_env system_name =
     (let kind = system_kind system_name
      in if kind = ''production'' \<and> env_truthy (env_first source_env [''RITHMIC_ALLOW_LUCID_E2E'']) False then Inr ()
         else if kind = ''production'' then config_error ''explicit test env resolves to a production Rithmic system''
         else if kind \<noteq> ''test'' then config_error ''explicit test env system is not recognized as test/demo''
         else Inr ())"

definition explicit_test_env :: "dotenv_world \<Rightarrow> environ \<Rightarrow> environ res" where
  "explicit_test_env w source_env = (case env_first source_env [''RITHMIC_TEST_DOTENV''] of
       None \<Rightarrow> config_error ''missing RITHMIC_TEST_DOTENV; live tests require an explicit test env file''
     | Some source \<Rightarrow>
         bindR (dotenv_values w source) (\<lambda>values.
         bindR (require_keys values [''RITHMIC_USER'', ''RITHMIC_PASSWORD'', ''RITHMIC_SYSTEM_NAME'', ''RITHMIC_CONNECT_MODE'']) (\<lambda>_.
         bindR (parse_connect_mode (Inr (or_empty (map_of values ''RITHMIC_CONNECT_MODE'')))) (\<lambda>mode.
           if mode = GATEWAY \<and> env_first values [''RITHMIC_GATEWAY''] = None
           then config_error ''explicit test env file is missing RITHMIC_GATEWAY''
           else
             bindR (test_system_guard source_env (or_empty (map_of values ''RITHMIC_SYSTEM_NAME''))) (\<lambda>_.
               (let values' = (case env_first source_env [''RITHMIC_ENABLE_TRADING''] of
                      None \<Rightarrow> values | Some trading \<Rightarrow> dict_set ''RITHMIC_ENABLE_TRADING'' trading values)
                in Inr (dict_set ''RITHMIC_TEST_DOTENV'' (dw_expand w source) values')))))))"

section \<open>Session settings\<close>

definition DEFAULT_SYSTEM_NAME :: string where "DEFAULT_SYSTEM_NAME = ''LucidTrading''"
definition DEFAULT_GATEWAY_URL :: string where "DEFAULT_GATEWAY_URL = ''wss://rprotocol.rithmic.com:443''"
definition DEFAULT_APP_NAME :: string where "DEFAULT_APP_NAME = ''rithmic-nt-connect''"
definition DEFAULT_APP_VERSION :: string where "DEFAULT_APP_VERSION = ''0.1.0''"

record 'm session_fields =
  sc_user :: string
  sc_connect_mode :: 'm
  sc_password :: "string option"
  sc_system_name :: string
  sc_url :: string
  sc_app_name :: string
  sc_app_version :: string
  sc_env :: string
  sc_beta_url :: "string option"
  sc_account_id :: "string option"
  sc_fcm_id :: "string option"
  sc_ib_id :: "string option"
  sc_symbol :: "string option"
  sc_exchange :: "string option"
  sc_gateway_listen :: "string option"
  sc_gateway_auth_token :: string

type_synonym session_config = "connect_mode session_fields"

text \<open>\<open>__post_init__\<close>: the arguments as given, checked and normalised.\<close>

definition session_init :: "(connect_mode + string) session_fields \<Rightarrow> session_config res" where
  "session_init a =
     bindR (require_nonempty ''user'' (Some (sc_user a))) (\<lambda>user.
     bindR (parse_connect_mode (sc_connect_mode a)) (\<lambda>mode.
     bindR (if mode = DIRECT then bindR (require_nonempty ''password'' (sc_password a)) (\<lambda>p. Inr (Some p)) else Inr None) (\<lambda>password.
     bindR (require_nonempty ''system_name'' (Some (sc_system_name a))) (\<lambda>system_name.
     bindR (require_nonempty ''url'' (Some (sc_url a))) (\<lambda>url.
     bindR (require_nonempty ''app_name'' (Some (sc_app_name a))) (\<lambda>app_name.
     bindR (require_nonempty ''app_version'' (Some (sc_app_version a))) (\<lambda>app_version.
     bindR (require_nonempty ''env'' (Some (sc_env a))) (\<lambda>env.
       if env \<notin> set [''Live'', ''Demo'', ''Test'']
       then config_error (''invalid env '' @ str_repr env @ ''; expected Live, Demo, or Test'')
       else Inr \<lparr>sc_user = user, sc_connect_mode = mode, sc_password = password, sc_system_name = system_name, sc_url = url,
              sc_app_name = app_name, sc_app_version = app_version, sc_env = env,
              sc_beta_url = (case sc_beta_url a of Some b \<Rightarrow> if str_strip b = [] then Some url else Some b | None \<Rightarrow> Some url),
              sc_account_id = sc_account_id a, sc_fcm_id = sc_fcm_id a, sc_ib_id = sc_ib_id a, sc_symbol = sc_symbol a,
              sc_exchange = sc_exchange a, sc_gateway_listen = sc_gateway_listen a,
              sc_gateway_auth_token = sc_gateway_auth_token a\<rparr>))))))))"

definition session_repr :: "session_config \<Rightarrow> string" where
  "session_repr c =
     ''SessionConfig(user='' @ str_repr (sc_user c) @ '', ''
     @ (if sc_password c = None then [] else ''password='' @ SECRET_REPR @ '', '')
     @ ''system_name='' @ str_repr (sc_system_name c) @ '', url='' @ str_repr (sc_url c) @ '', env='' @ str_repr (sc_env c)
     @ '', connect_mode='' @ str_repr (mode_value (sc_connect_mode c)) @ '', app_name='' @ str_repr (sc_app_name c)
     @ '', app_version='' @ str_repr (sc_app_version c) @ '', account_id='' @ opt_repr (sc_account_id c) @ '')''"

definition has_account :: "'m session_fields \<Rightarrow> bool" where
  "has_account c \<longleftrightarrow> or_empty (sc_account_id c) \<noteq> [] \<and> or_empty (sc_fcm_id c) \<noteq> [] \<and> or_empty (sc_ib_id c) \<noteq> []"

definition opt_value :: "string option \<Rightarrow> pyval" where
  "opt_value v = (case v of None \<Rightarrow> PNone | Some s \<Rightarrow> PStr s)"

definition redact_secrets :: "pydict \<Rightarrow> pydict" where
  "redact_secrets d = (if dget d ''password'' \<noteq> PNone then dict_set ''password'' (PStr ''***'') d else d)"

definition session_to_dict :: "session_config \<Rightarrow> bool \<Rightarrow> pydict" where
  "session_to_dict c redact =
     (let d = [(''user'', PStr (sc_user c)), (''password'', opt_value (sc_password c)), (''system_name'', PStr (sc_system_name c)),
          (''url'', PStr (sc_url c)), (''beta_url'', opt_value (sc_beta_url c)), (''app_name'', PStr (sc_app_name c)),
          (''app_version'', PStr (sc_app_version c)), (''env'', PStr (sc_env c)), (''account_id'', opt_value (sc_account_id c)),
          (''fcm_id'', opt_value (sc_fcm_id c)), (''ib_id'', opt_value (sc_ib_id c)), (''symbol'', opt_value (sc_symbol c)),
          (''exchange'', opt_value (sc_exchange c)), (''connect_mode'', PStr (mode_value (sc_connect_mode c))),
          (''gateway_listen'', opt_value (sc_gateway_listen c))]
      in if redact then redact_secrets d else d)"

section \<open>Credential sources\<close>

record env_source =
  es_env :: string
  es_user_keys :: "string list"
  es_password_keys :: "string list"
  es_system_keys :: "string list"
  es_url_keys :: "string list"
  es_account_keys :: "string list"
  es_fcm_keys :: "string list"
  es_ib_keys :: "string list"
  es_symbol_keys :: "string list"
  es_exchange_keys :: "string list"
  es_system_default :: string
  es_url_default :: "string option"
  es_alt_url_keys :: "string list"
  es_legacy_url_keys :: "string list"
  es_lucid_defaults :: bool

definition MY046_SOURCE :: env_source where
  "MY046_SOURCE = \<lparr>es_env = ''Live'',
     es_user_keys = [''RITHMIC_USER'', ''RHITMIC_USERNAME'', ''RITHMIC_USERNAME''],
     es_password_keys = [''RITHMIC_PASSWORD'', ''RHITMIC_PASSWORD''],
     es_system_keys = [''RITHMIC_SYSTEM'', ''RITHMIC_SYSTEM_NAME'', ''RITHMIC_LIVE_SYSTEM_NAME''],
     es_url_keys = [''RITHMIC_GATEWAY'', ''RITHMIC_LIVE_URL''],
     es_account_keys = [''RITHMIC_ACCOUNT_ID'', ''ACCOUNT_ID'', ''RITHMIC_LIVE_ACCOUNT_ID'', ''RHITMIC_ACCOUNT_ID''],
     es_fcm_keys = [''RITHMIC_FCM_ID'', ''FCM_ID'', ''RITHMIC_LIVE_FCM_ID''],
     es_ib_keys = [''RITHMIC_IB_ID'', ''IB_ID'', ''RITHMIC_LIVE_IB_ID''],
     es_symbol_keys = [''RITHMIC_SYMBOL'', ''SYMBOL'', ''TEST_SYMBOL''],
     es_exchange_keys = [''RITHMIC_EXCHANGE'', ''EXCHANGE'', ''TEST_EXCHANGE''],
     es_system_default = ''Rithmic 01'', es_url_default = None, es_alt_url_keys = [''RITHMIC_LIVE_ALT_URL''],
     es_legacy_url_keys = [''RITHMIC_URL'', ''RHITMIC_URL''], es_lucid_defaults = True\<rparr>"

definition LIVE_SOURCE :: env_source where
  "LIVE_SOURCE = \<lparr>es_env = ''Live'', es_user_keys = [''RITHMIC_LIVE_USER''], es_password_keys = [''RITHMIC_LIVE_PW''],
     es_system_keys = [''RITHMIC_LIVE_SYSTEM_NAME'', ''RITHMIC_SYSTEM''], es_url_keys = [''RITHMIC_LIVE_URL'', ''RITHMIC_GATEWAY''],
     es_account_keys = [''RITHMIC_LIVE_ACCOUNT_ID'', ''RITHMIC_ACCOUNT_ID''], es_fcm_keys = [''RITHMIC_LIVE_FCM_ID'', ''RITHMIC_FCM_ID''],
     es_ib_keys = [''RITHMIC_LIVE_IB_ID'', ''RITHMIC_IB_ID''], es_symbol_keys = [''RITHMIC_SYMBOL'', ''SYMBOL''],
     es_exchange_keys = [''RITHMIC_EXCHANGE'', ''EXCHANGE''], es_system_default = DEFAULT_SYSTEM_NAME,
     es_url_default = Some DEFAULT_GATEWAY_URL, es_alt_url_keys = [''RITHMIC_LIVE_ALT_URL''], es_legacy_url_keys = [],
     es_lucid_defaults = False\<rparr>"

definition TEST_SOURCE :: env_source where
  "TEST_SOURCE = \<lparr>es_env = ''Test'', es_user_keys = [''RITHMIC_TEST_USER''],
     es_password_keys = [''RITHMIC_TEST_PW'', ''RITHMIC_TEST_PASSWORD''],
     es_system_keys = [''RITHMIC_TEST_SYSTEM_NAME'', ''RITHMIC_SYSTEM_NAME'', ''RITHMIC_SYSTEM''],
     es_url_keys = [''RITHMIC_TEST_URL'', ''RITHMIC_GATEWAY''],
     es_account_keys = [''RITHMIC_TEST_ACCOUNT_ID'', ''RITHMIC_ACCOUNT_ID''], es_fcm_keys = [''RITHMIC_TEST_FCM_ID'', ''RITHMIC_FCM_ID''],
     es_ib_keys = [''RITHMIC_TEST_IB_ID'', ''RITHMIC_IB_ID''], es_symbol_keys = [''RITHMIC_SYMBOL'', ''SYMBOL''],
     es_exchange_keys = [''RITHMIC_EXCHANGE'', ''EXCHANGE''], es_system_default = ''Rithmic Test'',
     es_url_default = None, es_alt_url_keys = [''RITHMIC_TEST_ALT_URL''], es_legacy_url_keys = [], es_lucid_defaults = False\<rparr>"

definition DEMO_SOURCE :: env_source where
  "DEMO_SOURCE = \<lparr>es_env = ''Demo'', es_user_keys = [''RITHMIC_DEMO_USER''], es_password_keys = [''RITHMIC_DEMO_PW''],
     es_system_keys = [''RITHMIC_DEMO_SYSTEM_NAME'', ''RITHMIC_SYSTEM''], es_url_keys = [''RITHMIC_DEMO_URL''],
     es_account_keys = [''RITHMIC_DEMO_ACCOUNT_ID'', ''RITHMIC_ACCOUNT_ID''], es_fcm_keys = [''RITHMIC_DEMO_FCM_ID'', ''RITHMIC_FCM_ID''],
     es_ib_keys = [''RITHMIC_DEMO_IB_ID'', ''RITHMIC_IB_ID''], es_symbol_keys = [''RITHMIC_SYMBOL'', ''SYMBOL''],
     es_exchange_keys = [''RITHMIC_EXCHANGE'', ''EXCHANGE''], es_system_default = ''Rithmic Paper Trading'',
     es_url_default = None, es_alt_url_keys = [''RITHMIC_DEMO_ALT_URL''], es_legacy_url_keys = [], es_lucid_defaults = False\<rparr>"

definition ENV_SOURCES :: "env_source list" where
  "ENV_SOURCES = [MY046_SOURCE, LIVE_SOURCE, TEST_SOURCE, DEMO_SOURCE]"

definition source_password :: "environ \<Rightarrow> env_source \<Rightarrow> connect_mode \<Rightarrow> string option res" where
  "source_password env src mode =
     (if mode = DIRECT then bindR (require_nonempty (hd (es_password_keys src)) (env_first env (es_password_keys src))) (\<lambda>p. Inr (Some p))
      else Inr None)"

text \<open>The gateway address and the system name: a retired address redirects to the default production pair.\<close>

definition source_target :: "environ \<Rightarrow> env_source \<Rightarrow> bool \<Rightarrow> string option \<times> string" where
  "source_target env src lucid =
     (let system_name = (case env_first env (es_system_keys src) of Some s \<Rightarrow> s
            | None \<Rightarrow> if lucid then DEFAULT_SYSTEM_NAME else es_system_default src);
          legacy = env_first env (es_legacy_url_keys src);
          (url, system_name') = (case env_first env (es_url_keys src) of
              Some u \<Rightarrow> (Some u, system_name)
            | None \<Rightarrow> if lucid \<and> str_contains ''rituz00100'' (or_empty legacy) then (Some DEFAULT_GATEWAY_URL, DEFAULT_SYSTEM_NAME)
                      else (legacy, system_name))
      in (case url of None \<Rightarrow> if lucid then Some DEFAULT_GATEWAY_URL else es_url_default src | Some u \<Rightarrow> Some u, system_name'))"

text \<open>The environment name, and the address once the silent production default is ruled out for test systems.\<close>

definition source_place :: "environ \<Rightarrow> env_source \<Rightarrow> bool \<Rightarrow> string \<Rightarrow> string \<Rightarrow> (string \<times> string) res" where
  "source_place env src lucid system_name url =
     (if lucid \<and> es_lucid_defaults src then
        let kind = system_kind system_name; upper = str_upper system_name
        in if kind = ''test'' then
             let env_value = (if str_contains ''DEMO'' upper \<or> str_contains ''PAPER'' upper then ''Demo'' else ''Test'');
                 has_explicit_url = list_ex (\<lambda>k. env_first env [k] \<noteq> None) (es_url_keys src @ es_legacy_url_keys src)
             in if \<not> has_explicit_url \<and> url = DEFAULT_GATEWAY_URL then
                  case es_url_default src of
                    None \<Rightarrow> config_error (''missing '' @ join_with '' / '' (es_url_keys src)
                              @ '' for Test/Demo environment; set RITHMIC_GATEWAY'')
                  | Some u \<Rightarrow> Inr (env_value, u)
                else Inr (env_value, url)
           else if kind = ''production'' then Inr (''Live'', url)
           else Inr (es_env src, url)
      else Inr (es_env src, url))"

text \<open>The arguments of the configuration.\<close>

definition source_fields :: "environ \<Rightarrow> env_source \<Rightarrow> string \<Rightarrow> mode_fields \<Rightarrow> string option \<Rightarrow> string \<Rightarrow> string \<Rightarrow> string
    \<Rightarrow> (connect_mode + string) session_fields" where
  "source_fields env src user mf password system_name env_value url =
     \<lparr>sc_user = user, sc_connect_mode = Inl (mf_connect_mode mf), sc_password = password,
      sc_system_name = system_name, sc_url = url,
      sc_app_name = (case env_first env [''RITHMIC_APP_NAME''] of Some n \<Rightarrow> n | None \<Rightarrow> DEFAULT_APP_NAME),
      sc_app_version = (case env_first env [''RITHMIC_APP_VERSION''] of Some v \<Rightarrow> v | None \<Rightarrow> DEFAULT_APP_VERSION),
      sc_env = env_value,
      sc_beta_url = (case env_first env (es_alt_url_keys src) of Some b \<Rightarrow> Some b | None \<Rightarrow> Some url),
      sc_account_id = env_first env (es_account_keys src), sc_fcm_id = env_first env (es_fcm_keys src),
      sc_ib_id = env_first env (es_ib_keys src), sc_symbol = env_first env (es_symbol_keys src),
      sc_exchange = env_first env (es_exchange_keys src), sc_gateway_listen = mf_gateway_listen mf,
      sc_gateway_auth_token = mf_gateway_auth_token mf\<rparr>"

definition from_source :: "environ \<Rightarrow> bool \<Rightarrow> env_source \<Rightarrow> string \<Rightarrow> session_config res" where
  "from_source env prefer_lucid src user0 =
     (let lucid = (prefer_lucid \<and> es_lucid_defaults src)
      in bindR (require_nonempty (hd (es_user_keys src)) (Some user0)) (\<lambda>user.
         bindR (connect_mode_fields env) (\<lambda>mf.
         bindR (source_password env src (mf_connect_mode mf)) (\<lambda>password.
           case source_target env src lucid of
             (None, _) \<Rightarrow> config_error (''missing '' @ join_with '' / '' (es_url_keys src))
           | (Some url0, system_name) \<Rightarrow>
               bindR (source_place env src lucid system_name url0) (\<lambda>(env_value, url).
                 session_init (source_fields env src user mf password system_name env_value url))))))"

fun from_sources :: "environ \<Rightarrow> bool \<Rightarrow> env_source list \<Rightarrow> session_config res" where
  "from_sources env prefer_lucid [] =
     config_error (''missing credentials: set RITHMIC_USER/RITHMIC_PASSWORD ''
       @ ''or RITHMIC_LIVE_USER/RITHMIC_LIVE_PW or RITHMIC_DEMO_USER/RITHMIC_DEMO_PW'')"
| "from_sources env prefer_lucid (src # srcs) =
     (case env_first env (es_user_keys src) of
        None \<Rightarrow> from_sources env prefer_lucid srcs
      | Some user \<Rightarrow> from_source env prefer_lucid src user)"

definition session_from_env :: "environ \<Rightarrow> bool \<Rightarrow> session_config res" where
  "session_from_env env prefer_lucid = from_sources env prefer_lucid ENV_SOURCES"

definition session_config_from_explicit_test_env :: "dotenv_world \<Rightarrow> environ \<Rightarrow> session_config res" where
  "session_config_from_explicit_test_env w source_env =
     bindR (explicit_test_env w source_env) (\<lambda>values. session_from_env values False)"

section \<open>Client settings\<close>

record data_client_config =
  dcc_session :: session_config
  dcc_instrument_ids :: "string list"
  dcc_venue :: string
  dcc_bars_timestamp_on_close :: bool

definition data_config_from_env :: "environ \<Rightarrow> data_client_config res" where
  "data_config_from_env env =
     bindR (session_from_env env True) (\<lambda>c.
     bindR (case (sc_symbol c, sc_exchange c) of
              (Some s, Some e) \<Rightarrow> bindR (instrument_id_from_symbol s (PStr e)) (\<lambda>i. Inr [i])
            | (Some s, None) \<Rightarrow> Inr [s @ ''.'' @ VENUE]
            | _ \<Rightarrow> Inr []) (\<lambda>ids.
       Inr \<lparr>dcc_session = c, dcc_instrument_ids = ids, dcc_venue = VENUE, dcc_bars_timestamp_on_close = True\<rparr>))"

record exec_client_config =
  ecc_session :: session_config
  ecc_venue :: string
  ecc_soft_fail_pnl :: bool
  ecc_enable_trading :: bool

definition exec_config_from_env :: "environ \<Rightarrow> exec_client_config res" where
  "exec_config_from_env env =
     (let enable = env_truthy (env_first env [''RITHMIC_ENABLE_TRADING'', ''ENABLE_TRADING'']) False
      in bindR (session_from_env env True) (\<lambda>c.
           Inr \<lparr>ecc_session = c, ecc_venue = VENUE, ecc_soft_fail_pnl = True, ecc_enable_trading = enable\<rparr>))"

section \<open>What a configuration guarantees\<close>

definition plain_text :: "string \<Rightarrow> bool" where
  "plain_text s \<longleftrightarrow> s \<noteq> [] \<and> str_strip s = s"

definition session_wf :: "session_config \<Rightarrow> bool" where
  "session_wf c \<longleftrightarrow> plain_text (sc_user c) \<and> plain_text (sc_system_name c) \<and> plain_text (sc_url c)
     \<and> plain_text (sc_app_name c) \<and> plain_text (sc_app_version c) \<and> sc_env c \<in> set [''Live'', ''Demo'', ''Test'']
     \<and> (case sc_password c of None \<Rightarrow> sc_connect_mode c = GATEWAY | Some p \<Rightarrow> sc_connect_mode c = DIRECT \<and> plain_text p)
     \<and> (case sc_beta_url c of None \<Rightarrow> False | Some b \<Rightarrow> str_strip b \<noteq> [])"

lemma config_error_simps [simp]: "config_error m \<noteq> Inr x" "Inr x \<noteq> config_error m" "bindR (config_error m) f = config_error m"
  by (simp_all add: config_error_def)

lemma require_nonempty_Inr:
  "require_nonempty name v = Inr x \<longleftrightarrow> (\<exists>s. v = Some s \<and> str_strip s \<noteq> [] \<and> x = str_strip s)"
  by (auto simp: require_nonempty_def split: option.splits)

lemma require_nonempty_plain: "require_nonempty name v = Inr x \<Longrightarrow> plain_text x"
  by (auto simp: require_nonempty_Inr plain_text_def)

lemma session_init_wf:
  assumes "session_init a = Inr c"
  shows "session_wf c"
proof -
  obtain user mode password system_name url app_name app_version env where
    r: "require_nonempty ''user'' (Some (sc_user a)) = Inr user"
      "(if mode = DIRECT then bindR (require_nonempty ''password'' (sc_password a)) (\<lambda>p. Inr (Some p)) else Inr None) = Inr password"
      "require_nonempty ''system_name'' (Some (sc_system_name a)) = Inr system_name"
      "require_nonempty ''url'' (Some (sc_url a)) = Inr url"
      "require_nonempty ''app_name'' (Some (sc_app_name a)) = Inr app_name"
      "require_nonempty ''app_version'' (Some (sc_app_version a)) = Inr app_version"
    and e: "env \<in> set [''Live'', ''Demo'', ''Test'']"
    and c: "sc_user c = user" "sc_connect_mode c = mode" "sc_password c = password" "sc_system_name c = system_name"
      "sc_url c = url" "sc_app_name c = app_name" "sc_app_version c = app_version" "sc_env c = env"
      "sc_beta_url c = (case sc_beta_url a of Some b \<Rightarrow> if str_strip b = [] then Some url else Some b | None \<Rightarrow> Some url)"
    using assms unfolding session_init_def bindR_eq_Inr_iff by (force split: if_splits)
  have "case password of None \<Rightarrow> mode = GATEWAY | Some p \<Rightarrow> mode = DIRECT \<and> plain_text p"
    using r(2) by (cases mode) (auto simp: bindR_eq_Inr_iff dest: require_nonempty_plain)
  moreover have "plain_text url" using r(4) by (rule require_nonempty_plain)
  ultimately show ?thesis
    using r e unfolding session_wf_def c
    by (auto simp: plain_text_def dest!: require_nonempty_plain split: option.splits)
qed

lemma from_source_Inr:
  assumes "from_source env pl src user0 = Inr c"
  obtains user mf password url0 system_name env_value url where
    "connect_mode_fields env = Inr mf" "source_target env src (pl \<and> es_lucid_defaults src) = (Some url0, system_name)"
    "source_place env src (pl \<and> es_lucid_defaults src) system_name url0 = Inr (env_value, url)"
    "session_init (source_fields env src user mf password system_name env_value url) = Inr c"
proof -
  obtain t system_name where "source_target env src (pl \<and> es_lucid_defaults src) = (t, system_name)" by fastforce
  then show thesis
    using assms that unfolding from_source_def Let_def by (cases t) (auto simp: bindR_eq_Inr_iff)
qed

lemma from_sources_wf: "from_sources env pl srcs = Inr c \<Longrightarrow> session_wf c"
proof (induction srcs)
  case (Cons src srcs)
  then show ?case by (auto split: option.splits elim: from_source_Inr intro: session_init_wf)
qed simp

text \<open>
  C19: whatever the environment holds, a configuration that is built is well formed: user, system, address and
  application are non-empty and trimmed, the environment name is one of the three, there is a fallback address,
  and the password is present exactly in direct mode.
\<close>

theorem session_from_env_well_formed:
  assumes "session_from_env env prefer_lucid = Inr c"
  shows "session_wf c"
  using assms unfolding session_from_env_def by (rule from_sources_wf)

theorem session_from_env_well_formed_witness:
  "let env = [(''RITHMIC_USER'', '' joe ''), (''RITHMIC_PASSWORD'', ''x''), (''RITHMIC_CONNECT_MODE'', ''Direct'')]
   in session_wf (projr (session_from_env env True)) \<and> sc_user (projr (session_from_env env True)) = ''joe''"
proof -
  let ?env = "[(''RITHMIC_USER'', '' joe ''), (''RITHMIC_PASSWORD'', ''x''), (''RITHMIC_CONNECT_MODE'', ''Direct'')]"
  have "\<not> isl (session_from_env ?env True)" and u: "sc_user (projr (session_from_env ?env True)) = ''joe''" by code_simp+
  then have "session_from_env ?env True = Inr (projr (session_from_env ?env True))" by simp
  from session_from_env_well_formed [OF this] u show ?thesis unfolding Let_def by blast
qed

section \<open>Secrets\<close>

definition PASSWORD_KEYS :: "string list" where
  "PASSWORD_KEYS = concat (map es_password_keys ENV_SOURCES)"

text \<open>The environments agree on every variable outside \<open>ks\<close>.\<close>

definition agree_but :: "string list \<Rightarrow> environ \<Rightarrow> environ \<Rightarrow> bool" where
  "agree_but ks env env' \<longleftrightarrow> (\<forall>k. k \<in> set ks \<or> map_of env k = map_of env' k)"

definition avoids :: "string list \<Rightarrow> string list \<Rightarrow> bool" where
  "avoids ks keys \<longleftrightarrow> list_all (\<lambda>k. k \<notin> set ks) keys"

text \<open>No key list of the source but the password's mentions a password variable.\<close>

definition source_avoids :: "string list \<Rightarrow> env_source \<Rightarrow> bool" where
  "source_avoids ks src \<longleftrightarrow> avoids ks (es_user_keys src @ es_system_keys src @ es_url_keys src @ es_account_keys src
     @ es_fcm_keys src @ es_ib_keys src @ es_symbol_keys src @ es_exchange_keys src @ es_alt_url_keys src @ es_legacy_url_keys src)"

lemma env_first_agree: "agree_but ks env env' \<Longrightarrow> avoids ks keys \<Longrightarrow> env_first env keys = env_first env' keys"
  by (induction keys) (auto simp: agree_but_def avoids_def split: option.splits)

lemma avoids_append [simp]: "avoids ks (xs @ ys) \<longleftrightarrow> avoids ks xs \<and> avoids ks ys"
  by (simp add: avoids_def)

lemma reject_knobs_agree:
  "agree_but ks env env' \<Longrightarrow> avoids ks (map fst knobs) \<Longrightarrow> reject_knobs err env knobs = reject_knobs err env' knobs"
proof (induction knobs)
  case (Cons kw knobs)
  have "avoids ks [fst kw]" using Cons.prems(2) by (simp add: avoids_def)
  with Cons.prems(1) have "env_first env [fst kw] = env_first env' [fst kw]" by (rule env_first_agree)
  with Cons show ?case by (cases kw) (simp add: avoids_def split: option.splits)
qed simp

lemma connect_mode_fields_agree:
  assumes "agree_but PASSWORD_KEYS env env'"
  shows "connect_mode_fields env = connect_mode_fields env'"
proof -
  have "avoids PASSWORD_KEYS [''RITHMIC_CONNECT_MODE'']" "avoids PASSWORD_KEYS [''RITHMIC_GATEWAY_LISTEN'']"
    "avoids PASSWORD_KEYS [''RITHMIC_GATEWAY_AUTH_TOKEN'']" "avoids PASSWORD_KEYS (map fst RETIRED_KNOBS)" by code_simp+
  then show ?thesis
    by (simp only: connect_mode_fields_def reject_retired_client_knobs_def env_first_agree [OF assms] reject_knobs_agree [OF assms])
qed

lemma source_place_agree:
  assumes "agree_but ks env env'" "avoids ks (es_url_keys src @ es_legacy_url_keys src)"
  shows "source_place env src lucid sys url = source_place env' src lucid sys url"
proof -
  have "list_ex (\<lambda>k. env_first env [k] \<noteq> None) keys = list_ex (\<lambda>k. env_first env' [k] \<noteq> None) keys" if "avoids ks keys" for keys
    using that
  proof (induction keys)
    case (Cons k keys)
    have "avoids ks [k]" using Cons.prems by (simp add: avoids_def)
    with assms(1) have "env_first env [k] = env_first env' [k]" by (rule env_first_agree)
    with Cons show ?case by (simp add: avoids_def del: env_first.simps)
  qed simp
  from this [OF assms(2)] show ?thesis by (simp only: source_place_def)
qed

lemma session_init_mode: "session_init a = Inr c \<Longrightarrow> parse_connect_mode (sc_connect_mode a) = Inr (sc_connect_mode c)"
  unfolding session_init_def bindR_eq_Inr_iff by (force split: if_splits)

lemma from_source_mode:
  assumes "from_source env pl src user = Inr c"
  shows "\<exists>mf. connect_mode_fields env = Inr mf \<and> mf_connect_mode mf = sc_connect_mode c"
  using assms
proof (rule from_source_Inr)
  fix user mf password url0 system_name env_value url
  assume "connect_mode_fields env = Inr mf" "session_init (source_fields env src user mf password system_name env_value url) = Inr c"
  then show ?thesis by (auto dest!: session_init_mode simp: source_fields_def parse_connect_mode_def)
qed

lemma from_source_agree:
  assumes "agree_but PASSWORD_KEYS env env'" "source_avoids PASSWORD_KEYS src"
    and "from_source env pl src user = Inr c" "sc_connect_mode c = GATEWAY"
  shows "from_source env' pl src user = Inr c"
proof -
  obtain mf where mf: "connect_mode_fields env = Inr mf" "mf_connect_mode mf = GATEWAY"
    using from_source_mode [OF assms(3)] assms(4) by auto
  have av: "avoids PASSWORD_KEYS (es_system_keys src)" "avoids PASSWORD_KEYS (es_url_keys src)" "avoids PASSWORD_KEYS (es_account_keys src)"
    "avoids PASSWORD_KEYS (es_fcm_keys src)" "avoids PASSWORD_KEYS (es_ib_keys src)" "avoids PASSWORD_KEYS (es_symbol_keys src)"
    "avoids PASSWORD_KEYS (es_exchange_keys src)" "avoids PASSWORD_KEYS (es_alt_url_keys src)" "avoids PASSWORD_KEYS (es_legacy_url_keys src)"
    using assms(2) by (simp_all add: source_avoids_def)
  have ap: "avoids PASSWORD_KEYS [''RITHMIC_APP_NAME'']" "avoids PASSWORD_KEYS [''RITHMIC_APP_VERSION'']" by code_simp+
  note ef = env_first_agree [OF assms(1)]
  have "source_target env src lucid = source_target env' src lucid" for lucid
    by (simp only: source_target_def ef [OF av(1)] ef [OF av(2)] ef [OF av(9)])
  moreover have "source_place env src lucid sys url = source_place env' src lucid sys url" for lucid sys url
    using assms(1) av by (intro source_place_agree) simp_all
  moreover have "source_password env src GATEWAY = source_password env' src GATEWAY" by (simp add: source_password_def)
  moreover have "connect_mode_fields env' = Inr mf" using mf connect_mode_fields_agree [OF assms(1)] by simp
  ultimately have "from_source env' pl src user = from_source env pl src user"
    by (simp only: from_source_def source_fields_def mf bindR_simps ef [OF ap(1)] ef [OF ap(2)] ef [OF av(3)] ef [OF av(4)] ef [OF av(5)] ef [OF av(6)]
        ef [OF av(7)] ef [OF av(8)])
  then show ?thesis using assms(3) by simp
qed

lemma from_sources_agree:
  assumes "agree_but PASSWORD_KEYS env env'" "sc_connect_mode c = GATEWAY"
  shows "list_all (source_avoids PASSWORD_KEYS) srcs \<Longrightarrow> from_sources env pl srcs = Inr c \<Longrightarrow> from_sources env' pl srcs = Inr c"
proof (induction srcs)
  case (Cons src srcs)
  have "env_first env (es_user_keys src) = env_first env' (es_user_keys src)"
    using Cons.prems(1) by (intro env_first_agree [OF assms(1)]) (simp add: source_avoids_def)
  with Cons assms show ?case by (auto split: option.splits intro: from_source_agree)
qed simp

text \<open>
  C11: a gateway client never reads a password. When the environment configures gateway mode, the configuration
  holds no password, and it does not depend on any password variable: any environment that differs only in the
  password variables of any credential source gives the same configuration.
\<close>

theorem gateway_never_reads_the_password:
  assumes "session_from_env env prefer_lucid = Inr c" "sc_connect_mode c = GATEWAY" "agree_but PASSWORD_KEYS env env'"
  shows "sc_password c = None \<and> session_from_env env' prefer_lucid = Inr c"
proof
  show "sc_password c = None"
    using from_sources_wf [OF assms(1) [unfolded session_from_env_def]] assms(2)
    by (auto simp: session_wf_def split: option.splits)
  have "list_all (source_avoids PASSWORD_KEYS) ENV_SOURCES" by code_simp
  then show "session_from_env env' prefer_lucid = Inr c"
    using from_sources_agree [OF assms(3,2)] assms(1) by (simp add: session_from_env_def)
qed

theorem gateway_never_reads_the_password_witness:
  "let env = [(''RITHMIC_USER'', ''joe''), (''RITHMIC_CONNECT_MODE'', ''gateway'')]
   in session_from_env ((''RITHMIC_PASSWORD'', ''hunter2'') # env) True = session_from_env env True
      \<and> sc_password (projr (session_from_env env True)) = None"
proof -
  let ?env = "[(''RITHMIC_USER'', ''joe''), (''RITHMIC_CONNECT_MODE'', ''gateway'')]"
  have "\<not> isl (session_from_env ?env True)" and m: "sc_connect_mode (projr (session_from_env ?env True)) = GATEWAY" by code_simp+
  then have c: "session_from_env ?env True = Inr (projr (session_from_env ?env True))" by simp
  have "agree_but PASSWORD_KEYS ?env ((''RITHMIC_PASSWORD'', ''hunter2'') # ?env)"
    by (auto simp: agree_but_def PASSWORD_KEYS_def ENV_SOURCES_def MY046_SOURCE_def)
  from gateway_never_reads_the_password [OF c m this] c show ?thesis unfolding Let_def by simp
qed

lemma redacted_env_repr_cong:
  assumes "list_all2 (\<lambda>(k, v) (k', v'). k = k' \<and> (v = v' \<or> secret_key k)) env env'"
  shows "redacted_env_repr env = redacted_env_repr env'"
proof -
  let ?f = "\<lambda>(k, v). str_repr k @ '': '' @ str_repr (if secret_key k then ''***'' else v)"
  have "map ?f env = map ?f env'" using assms by (induction rule: list_all2_induct) auto
  then show ?thesis by (simp add: redacted_env_repr_def)
qed

lemma session_repr_secret:
  "session_repr (c\<lparr>sc_password := Some p, sc_gateway_auth_token := t\<rparr>) = session_repr (c\<lparr>sc_password := Some p', sc_gateway_auth_token := t'\<rparr>)"
  by (cases c) (simp only: session_repr_def session_fields.select_convs session_fields.update_convs option.distinct if_False)

lemma session_to_dict_secret:
  "session_to_dict (c\<lparr>sc_password := Some p, sc_gateway_auth_token := t\<rparr>) True
     = session_to_dict (c\<lparr>sc_password := Some p', sc_gateway_auth_token := t'\<rparr>) True"
  by (cases c) (simp add: session_to_dict_def redact_secrets_def dget_def opt_value_def)

text \<open>
  Secrets are not shown. How a configuration prints, its redacted dictionary and how an environment loaded
  from a file prints do not depend on the password, the gateway token or the value of any secret variable.
\<close>

theorem secrets_are_not_shown:
  assumes "list_all2 (\<lambda>(k, v) (k', v'). k = k' \<and> (v = v' \<or> secret_key k)) env env'"
  shows "redacted_env_repr env = redacted_env_repr env'
    \<and> session_repr (c\<lparr>sc_password := Some p, sc_gateway_auth_token := t\<rparr>) = session_repr (c\<lparr>sc_password := Some p', sc_gateway_auth_token := t'\<rparr>)
    \<and> session_to_dict (c\<lparr>sc_password := Some p, sc_gateway_auth_token := t\<rparr>) True
        = session_to_dict (c\<lparr>sc_password := Some p', sc_gateway_auth_token := t'\<rparr>) True"
  by (intro conjI redacted_env_repr_cong [OF assms] session_repr_secret session_to_dict_secret)

section \<open>Test systems\<close>

lemma env_first_strip: "env_first env ks = Some s \<Longrightarrow> str_strip s = s"
  by (induction ks) (auto split: option.splits if_splits)

lemma env_first_single: "map_of env k = map_of env' k \<Longrightarrow> env_first env [k] = env_first env' [k]"
  by (simp split: option.split)

lemma env_first_head: "env_first env [k] = Some s \<Longrightarrow> env_first env (k # ks) = Some s"
  by (auto split: option.splits if_splits)

lemma env_first_some: "env_first env ks = Some s \<Longrightarrow> list_ex (\<lambda>k. env_first env [k] \<noteq> None) ks"
  by (induction ks) (auto split: option.splits if_splits)

lemma session_init_fields:
  "session_init a = Inr c \<Longrightarrow> sc_system_name c = str_strip (sc_system_name a) \<and> sc_env c = str_strip (sc_env a)"
  unfolding session_init_def bindR_eq_Inr_iff by (force simp: require_nonempty_Inr split: if_splits)

lemma source_target_my046:
  assumes "source_target env MY046_SOURCE lucid = (u, system_name)"
  shows "str_strip system_name = system_name"
    and "\<not> list_ex (\<lambda>k. env_first env [k] \<noteq> None) (es_url_keys MY046_SOURCE @ es_legacy_url_keys MY046_SOURCE) \<Longrightarrow>
      u = (if lucid then Some DEFAULT_GATEWAY_URL else None)"
    and "\<not> lucid \<Longrightarrow> env_first env (es_system_keys MY046_SOURCE) = Some sys \<Longrightarrow> system_name = sys"
proof -
  have d: "str_strip DEFAULT_SYSTEM_NAME = DEFAULT_SYSTEM_NAME" "str_strip (es_system_default MY046_SOURCE) = es_system_default MY046_SOURCE"
    by code_simp+
  show "str_strip system_name = system_name"
    using assms d by (auto simp: source_target_def Let_def dest: env_first_strip split: option.splits if_splits)
  show "u = (if lucid then Some DEFAULT_GATEWAY_URL else None)"
    if "\<not> list_ex (\<lambda>k. env_first env [k] \<noteq> None) (es_url_keys MY046_SOURCE @ es_legacy_url_keys MY046_SOURCE)"
  proof -
    have "env_first env (es_url_keys MY046_SOURCE) = None" "env_first env (es_legacy_url_keys MY046_SOURCE) = None"
      using that env_first_some unfolding list_ex_append by (metis option.exhaust_sel)+
    moreover have "\<not> str_contains ''rituz00100'' (or_empty None)" "es_url_default MY046_SOURCE = None" by code_simp+
    ultimately show ?thesis using assms by (auto simp: source_target_def Let_def)
  qed
  show "system_name = sys" if "\<not> lucid" "env_first env (es_system_keys MY046_SOURCE) = Some sys"
    using assms that by (simp add: source_target_def Let_def split: option.splits)
qed



lemma require_keys_Inr: "require_keys values ks = Inr () \<longleftrightarrow> list_all (\<lambda>k. env_first values [k] \<noteq> None) ks"
  by (induction ks) (auto simp del: env_first.simps)

lemma explicit_test_env_user:
  assumes "explicit_test_env w source_env = Inr values"
  shows "env_first values [''RITHMIC_USER''] \<noteq> None"
proof -
  obtain v x where v: "list_all (\<lambda>k. env_first v [k] \<noteq> None)
      [''RITHMIC_USER'', ''RITHMIC_PASSWORD'', ''RITHMIC_SYSTEM_NAME'', ''RITHMIC_CONNECT_MODE'']"
    "values = dict_set ''RITHMIC_TEST_DOTENV'' x (case env_first source_env [''RITHMIC_ENABLE_TRADING''] of
        None \<Rightarrow> v | Some trading \<Rightarrow> dict_set ''RITHMIC_ENABLE_TRADING'' trading v)"
    using assms unfolding explicit_test_env_def Let_def
    by (cases "env_first source_env [''RITHMIC_TEST_DOTENV'']") (auto simp: bindR_eq_Inr_iff require_keys_Inr simp del: env_first.simps split: if_splits)
  have "map_of values ''RITHMIC_USER'' = map_of v ''RITHMIC_USER''" unfolding v(2) by (simp split: option.split)
  then have "env_first values [''RITHMIC_USER''] = env_first v [''RITHMIC_USER'']" by (rule env_first_single)
  then show ?thesis using v(1) by (simp del: env_first.simps)
qed

lemma explicit_test_env_session:
  assumes "explicit_test_env w source_env = Inr values" "env_first values [''RITHMIC_SYSTEM''] = Some system"
    "session_config_from_explicit_test_env w source_env = Inr c"
  shows "sc_system_name c = system"
proof -
  have k: "es_user_keys MY046_SOURCE = ''RITHMIC_USER'' # tl (es_user_keys MY046_SOURCE)" by (simp add: MY046_SOURCE_def)
  from explicit_test_env_user [OF assms(1)] have "env_first values (es_user_keys MY046_SOURCE) \<noteq> None"
    by (subst k) (blast dest: env_first_head)
  then obtain user0 where fs: "from_source values False MY046_SOURCE user0 = Inr c"
    using assms(1,3) by (auto simp: session_config_from_explicit_test_env_def session_from_env_def ENV_SOURCES_def split: option.splits)
  have "es_system_keys MY046_SOURCE = ''RITHMIC_SYSTEM'' # tl (es_system_keys MY046_SOURCE)" by (simp add: MY046_SOURCE_def)
  then have sys: "env_first values (es_system_keys MY046_SOURCE) = Some system" using env_first_head [OF assms(2)] by metis
  from fs show ?thesis
  proof (rule from_source_Inr)
    fix user mf password url0 system_name env_value url
    assume t: "source_target values MY046_SOURCE (False \<and> es_lucid_defaults MY046_SOURCE) = (Some url0, system_name)"
      and i: "session_init (source_fields values MY046_SOURCE user mf password system_name env_value url) = Inr c"
    have "system_name = system" using source_target_my046(3) [OF t _ sys] by simp
    then show ?thesis using session_init_fields [OF i] source_target_my046(1) [OF t] by (simp add: source_fields_def)
  qed
qed

lemma test_guard_ignores_system:
  assumes "env_first source_env [''RITHMIC_TEST_DOTENV''] = Some source" "dotenv_values w source = Inr vs"
    "explicit_test_env w source_env = Inr values" "dotenv_values w' source = Inr (dict_set ''RITHMIC_SYSTEM'' system vs)"
  shows "\<exists>values'. explicit_test_env w' source_env = Inr values' \<and> map_of values' ''RITHMIC_SYSTEM'' = Some system"
proof -
  let ?vs = "dict_set ''RITHMIC_SYSTEM'' system vs"
  have same: "map_of ?vs k = map_of vs k" if "k \<noteq> ''RITHMIC_SYSTEM''" for k using that by simp
  have first: "env_first ?vs [k] = env_first vs [k]" if "k \<noteq> ''RITHMIC_SYSTEM''" for k
    by (rule env_first_single) (rule same [OF that])
  show ?thesis
    using assms unfolding explicit_test_env_def Let_def
    by (auto simp: bindR_eq_Inr_iff require_keys_Inr first same simp del: env_first.simps split: if_splits option.splits)
qed

text \<open>
  C40: the guard of the test environment reads another variable than the session. Take a test file that the guard
  which keeps live tests off production systems accepts. Give the file any value of \<open>RITHMIC_SYSTEM\<close> that is not
  blank, whatever system it names, and leave the rest: the guard, which looks at \<open>RITHMIC_SYSTEM_NAME\<close> only,
  accepts the changed file too, and every session built from it is a session of the system named there.
\<close>

theorem test_guard_reads_another_variable:
  assumes "env_first source_env [''RITHMIC_TEST_DOTENV''] = Some source" "dotenv_values w source = Inr vs"
    "explicit_test_env w source_env = Inr values" "dotenv_values w' source = Inr (dict_set ''RITHMIC_SYSTEM'' system vs)"
    "str_strip system \<noteq> []"
  shows "(\<exists>values'. explicit_test_env w' source_env = Inr values')
    \<and> (\<forall>c. session_config_from_explicit_test_env w' source_env = Inr c \<longrightarrow> sc_system_name c = str_strip system)"
proof -
  from test_guard_ignores_system [OF assms(1-4)] obtain values'
    where v: "explicit_test_env w' source_env = Inr values'" "map_of values' ''RITHMIC_SYSTEM'' = Some system" by blast
  then have "env_first values' [''RITHMIC_SYSTEM''] = Some (str_strip system)" using assms(5) by simp
  with explicit_test_env_session [OF v(1)] v(1) show ?thesis by blast
qed

theorem test_guard_reads_another_variable_witness:
  "let file = (\<lambda>ls p. if p = ''t.env'' then Some (concat (map (\<lambda>l. l @ [CHR 10]) ls)) else None);
       lines = [''RITHMIC_USER=joe'', ''RITHMIC_PASSWORD=x'', ''RITHMIC_SYSTEM_NAME=Rithmic Test'', ''RITHMIC_CONNECT_MODE=direct'',
         ''RITHMIC_GATEWAY=wss://x''];
       w = \<lparr>dw_file = file (lines @ [''RITHMIC_SYSTEM=LucidTrading'']), dw_expand = id\<rparr>;
       c = session_config_from_explicit_test_env w [(''RITHMIC_TEST_DOTENV'', ''t.env'')]
   in \<not> isl c \<and> sc_system_name (projr c) = ''LucidTrading'' \<and> system_kind (sc_system_name (projr c)) = ''production''"
proof -
  let ?file = "\<lambda>ls p. if p = ''t.env'' then Some (concat (map (\<lambda>l. l @ [CHR 10]) ls)) else None"
  let ?lines = "[''RITHMIC_USER=joe'', ''RITHMIC_PASSWORD=x'', ''RITHMIC_SYSTEM_NAME=Rithmic Test'', ''RITHMIC_CONNECT_MODE=direct'',
         ''RITHMIC_GATEWAY=wss://x'']"
  let ?w = "\<lparr>dw_file = ?file ?lines, dw_expand = id\<rparr>"
  let ?w' = "\<lparr>dw_file = ?file (?lines @ [''RITHMIC_SYSTEM=LucidTrading'']), dw_expand = id\<rparr>"
  let ?e = "[(''RITHMIC_TEST_DOTENV'', ''t.env'')]"
  have s: "env_first ?e [''RITHMIC_TEST_DOTENV''] = Some ''t.env''" by code_simp
  have "\<not> isl (dotenv_values ?w ''t.env'')" "\<not> isl (explicit_test_env ?w ?e)"
    "\<not> isl (session_config_from_explicit_test_env ?w' ?e)" by code_simp+
  then have ok: "dotenv_values ?w ''t.env'' = Inr (projr (dotenv_values ?w ''t.env''))"
    "explicit_test_env ?w ?e = Inr (projr (explicit_test_env ?w ?e))"
    "session_config_from_explicit_test_env ?w' ?e = Inr (projr (session_config_from_explicit_test_env ?w' ?e))" by simp_all
  have d: "dotenv_values ?w' ''t.env'' = Inr (dict_set ''RITHMIC_SYSTEM'' ''LucidTrading'' (projr (dotenv_values ?w ''t.env'')))"
    by code_simp
  have n: "str_strip ''LucidTrading'' = ''LucidTrading''" "str_strip ''LucidTrading'' \<noteq> []" "system_kind ''LucidTrading'' = ''production''"
    by code_simp+
  from test_guard_reads_another_variable [OF s ok(1,2) d n(2)] ok(3) n show ?thesis unfolding Let_def by (metis sum.disc(2))
qed

end
