(* ===== verification/GatewayConfig.thy ===== *)
theory GatewayConfig
  imports Config "HOL-Library.Word"
begin

unbundle bit_operations_syntax

text \<open>
  Settings of the gateway client (\<open>rithmic_gateway/config.py\<close>, the path of \<open>flock.py\<close>): the listen address, the
  default socket path (a 64-bit FNV-1a hash of the login under a private runtime directory) and the lock file
  beside it. What the operating system answers (user id, owner of a directory, \<open>chmod\<close>) is the argument \<open>gw_os\<close>.
\<close>

section \<open>Operating system and paths\<close>

record gw_os =
  os_environ :: environ
  os_uid :: int
  os_owner :: "string \<Rightarrow> int res" \<comment> \<open>\<open>mkdir(parents, exist_ok)\<close> and \<open>stat().st_uid\<close>\<close>
  os_chmod :: "string \<Rightarrow> exn option" \<comment> \<open>what \<open>chmod(path, 0o700)\<close> raises\<close>
  os_resolve :: "string \<Rightarrow> string" \<comment> \<open>\<open>str((Path.cwd() / p).resolve())\<close>\<close>

text \<open>\<open>str(Path(p))\<close>: repeated slashes and dots between them go.\<close>

definition path_str :: "string \<Rightarrow> string" where
  "path_str p =
     (let root = (if str_starts ''//'' p \<and> \<not> str_starts ''///'' p then ''//'' else if str_starts ''/'' p then ''/'' else []);
          r = root @ join_with ''/'' (filter (\<lambda>x. x \<noteq> [] \<and> x \<noteq> ''.'') (split_on (CHR ''/'') [] p))
      in if r = [] then ''.'' else r)"

text \<open>\<open>str(Path(p) / name)\<close> for a plain file name.\<close>

definition path_join :: "string \<Rightarrow> string \<Rightarrow> string" where
  "path_join p name = path_str (p @ ''/'' @ name)"

definition gateway_config_error :: "string \<Rightarrow> 'a res" where
  "gateway_config_error msg = Inl (exn_of GatewayConfigError msg)"

definition gw_require :: "string \<Rightarrow> string option \<Rightarrow> string res" where
  "gw_require name value = (case value of
       Some v \<Rightarrow> if str_strip v \<noteq> [] then Inr (str_strip v) else gateway_config_error (''missing or empty required field: '' @ name)
     | None \<Rightarrow> gateway_config_error (''missing or empty required field: '' @ name))"

section \<open>Listen address\<close>

definition parse_listen_url :: "gw_os \<Rightarrow> string \<Rightarrow> string res" where
  "parse_listen_url os raw0 =
     (let raw = str_strip raw0
      in if raw = [] then gateway_config_error ''empty gateway listen URL''
         else if str_starts ''tcp://'' raw \<or> str_starts ''tls://'' raw then
           gateway_config_error (''tcp/tls listen is not implemented yet (see docs/references/gateway-remote.md): '' @ raw)
         else if str_starts ''unix://'' raw then
           let path0 = drop 7 raw;
               path = (if str_starts ''//'' path0 then ''/'' @ dropWhile (\<lambda>c. c = CHR ''/'') path0 else path0)
           in Inr (if str_starts ''/'' path then path else os_resolve os path)
         else if str_starts ''/'' raw then Inr raw
         else gateway_config_error (''unsupported listen URL scheme (v1 supports unix:// only): '' @ raw))"

definition canon_env :: "string \<Rightarrow> string" where
  "canon_env env =
     (let key = str_lower (str_strip env)
      in if key \<in> set [''live'', ''production''] then ''live''
         else if key \<in> set [''demo'', ''development''] then ''demo''
         else if key = ''test'' then ''test''
         else ''live'')"

section \<open>Default socket path\<close>

definition private_dir :: "gw_os \<Rightarrow> string \<Rightarrow> string \<Rightarrow> string \<Rightarrow> string res" where
  "private_dir os owner_text chmod_text path =
     bindR (os_owner os path) (\<lambda>st_uid.
       if st_uid \<noteq> os_uid os then
         gateway_config_error (owner_text @ '' '' @ path @ '' not owned by uid '' @ int_str (os_uid os) @ '' (st_uid='' @ int_str st_uid @ '')'')
       else case os_chmod os path of
         None \<Rightarrow> Inr path
       | Some e \<Rightarrow> if is_os_error e then gateway_config_error (''cannot chmod 0700 '' @ chmod_text @ '' '' @ path @ '': '' @ exn_msg e)
                  else Inl e)"

definition runtime_base_dir :: "gw_os \<Rightarrow> string res" where
  "runtime_base_dir os =
     (let xdg = or_empty (map_of (os_environ os) ''XDG_RUNTIME_DIR'')
      in if str_strip xdg \<noteq> [] then Inr xdg
         else
           let tmp = or_empty (map_of (os_environ os) ''TMPDIR'')
           in private_dir os ''runtime dir'' ''runtime dir''
                (path_join (if tmp = [] then ''/tmp'' else tmp) (''rgw-'' @ int_str (os_uid os))))"

definition UNIX_PATH_MAX :: nat where "UNIX_PATH_MAX = 103"

text \<open>\<open>format(h & 0xFFFFFFFF, "08x")\<close>.\<close>

definition hex_digit :: "nat \<Rightarrow> char" where
  "hex_digit d = (if d < 10 then char_of (48 + d) else char_of (87 + d))"

definition hex8 :: "64 word \<Rightarrow> string" where
  "hex8 h = map (\<lambda>i. hex_digit (unat (h AND 0xFFFFFFFF) div 16 ^ i mod 16)) [7, 6, 5, 4, 3, 2, 1, 0]"

definition clamp_unix_path :: "gw_os \<Rightarrow> string \<Rightarrow> 64 word \<Rightarrow> string res" where
  "clamp_unix_path os path h =
     (if length path \<le> UNIX_PATH_MAX then Inr path
      else bindR (private_dir os ''clamp runtime dir'' ''clamp dir'' (''/tmp/rgw-'' @ int_str (os_uid os))) (\<lambda>base.
        Inr (base @ ''/'' @ hex8 h @ ''.sock'')))"

definition fnv1a :: "string \<Rightarrow> 64 word" where
  "fnv1a key = fold (\<lambda>c h. (h XOR word_of_nat (of_char c)) * 0x100000001B3) key 0xCBF29CE484222325"

definition default_unix_path :: "gw_os \<Rightarrow> string \<Rightarrow> string \<Rightarrow> string \<Rightarrow> string \<Rightarrow> string res" where
  "default_unix_path os user system_name url env =
     bindR (runtime_base_dir os) (\<lambda>base.
       let h = fnv1a (user @ ''|'' @ system_name @ ''|'' @ url @ ''|'' @ canon_env env)
       in clamp_unix_path os (path_join base (''rgw-'' @ int_str (uint h) @ ''.sock'')) h)"

text \<open>\<open>sock.with_suffix(".lock")\<close>: the socket's name ends in \<open>.sock\<close>.\<close>

definition lock_path :: "gw_os \<Rightarrow> string \<Rightarrow> string \<Rightarrow> string \<Rightarrow> string \<Rightarrow> string res" where
  "lock_path os user system_name url env =
     bindR (default_unix_path os user system_name url env) (\<lambda>sock. Inr (take (length sock - 5) sock @ ''.lock''))"

section \<open>The configuration\<close>

definition gw_reject_retired_client_knobs :: "environ \<Rightarrow> unit res" where
  "gw_reject_retired_client_knobs env = reject_knobs (exn_of GatewayConfigError) env RETIRED_KNOBS"

record gateway_config =
  gc_user :: string
  gc_system_name :: string
  gc_url :: string
  gc_env :: string
  gc_account_id :: string
  gc_fcm_id :: string
  gc_ib_id :: string
  gc_auth_token :: string
  gc_listen :: "string option"
  gc_attest_flock :: bool

definition gateway_config_init :: "gw_os \<Rightarrow> gateway_config \<Rightarrow> gateway_config res" where
  "gateway_config_init os c =
     bindR (gw_require ''user'' (Some (gc_user c))) (\<lambda>user.
     bindR (gw_require ''system_name'' (Some (gc_system_name c))) (\<lambda>system_name.
     bindR (gw_require ''url'' (Some (gc_url c))) (\<lambda>url.
     bindR (gw_require ''env'' (Some (gc_env c))) (\<lambda>env.
     bindR (if str_strip (or_empty (gc_listen c)) = []
            then bindR (default_unix_path os user system_name url env) (\<lambda>p. Inr (Some (''unix://'' @ p)))
            else bindR (parse_listen_url os (or_empty (gc_listen c))) (\<lambda>_. Inr (gc_listen c))) (\<lambda>listen.
       Inr (c\<lparr>gc_user := user, gc_system_name := system_name, gc_url := url, gc_env := env, gc_listen := listen\<rparr>))))))"

definition socket_path :: "gw_os \<Rightarrow> gateway_config \<Rightarrow> string res" where
  "socket_path os c = (case gc_listen c of
       None \<Rightarrow> Inl (exn_of ValueError ''GatewayConfig.listen is not set; call from_env or pass listen=...'')
     | Some l \<Rightarrow> parse_listen_url os l)"

definition gateway_config_from_env :: "gw_os \<Rightarrow> environ \<Rightarrow> gateway_config res" where
  "gateway_config_from_env os env =
     bindR (gw_reject_retired_client_knobs env) (\<lambda>_.
       let url = (case env_first env [''RITHMIC_GATEWAY'', ''RITHMIC_URL''] of Some u \<Rightarrow> u | None \<Rightarrow> ''wss://rprotocol.rithmic.com:443'');
           system_name = (case env_first env [''RITHMIC_SYSTEM'', ''RITHMIC_SYSTEM_NAME''] of Some n \<Rightarrow> n | None \<Rightarrow> ''LucidTrading'')
       in bindR (gw_require ''user'' (env_first env [''RITHMIC_USER'', ''RITHMIC_USERNAME''])) (\<lambda>user.
            gateway_config_init os \<lparr>gc_user = user, gc_system_name = system_name, gc_url = url,
              gc_env = (case env_first env [''RITHMIC_ENV''] of Some e \<Rightarrow> e | None \<Rightarrow> ''Live''),
              gc_account_id = or_empty (env_first env [''RITHMIC_ACCOUNT_ID'']), gc_fcm_id = or_empty (env_first env [''RITHMIC_FCM_ID'']),
              gc_ib_id = or_empty (env_first env [''RITHMIC_IB_ID'']),
              gc_auth_token = or_empty (env_first env [''RITHMIC_GATEWAY_AUTH_TOKEN'']),
              gc_listen = env_first env [''RITHMIC_GATEWAY_LISTEN''], gc_attest_flock = True\<rparr>))"

section \<open>Socket and lock lie beside each other\<close>

lemma length_digits_str: "0 \<le> i \<Longrightarrow> i < 10 ^ Suc n \<Longrightarrow> length (digits_str i) \<le> Suc n"
proof (induction n arbitrary: i)
  case 0
  then show ?case by (simp add: digits_str.simps)
next
  case (Suc n)
  show ?case
  proof (cases "i < 10")
    case False
    have "length (digits_str (i div 10)) \<le> Suc n" using Suc.prems False by (intro Suc.IH) auto
    then show ?thesis using False by (simp add: digits_str.simps [of i])
  qed (simp add: digits_str.simps [of i])
qed

lemma length_hex8 [simp]: "length (hex8 h) = 8" by (simp add: hex8_def)

text \<open>
  C22: the default socket path fits into a socket address. For every login, environment and user id, when a path is
  found it has at most 103 bytes, however long the runtime directory is; and logins that only spell the
  environment differently share the path, so a client and its parent find the same socket and the same lock.
\<close>

theorem default_socket_path_fits:
  assumes "default_unix_path os user system_name url env = Inr p" "0 \<le> os_uid os" "os_uid os < 2 ^ 32"
  shows "length p \<le> UNIX_PATH_MAX \<and> (canon_env env = canon_env env' \<longrightarrow> default_unix_path os user system_name url env' = Inr p)"
proof
  show "length p \<le> UNIX_PATH_MAX"
  proof -
    have "length (int_str (os_uid os)) \<le> 10"
      using length_digits_str [of "os_uid os" 9] assms(2,3) by (simp add: int_str_def)
    then have "length (''/tmp/rgw-'' @ int_str (os_uid os)) \<le> 19" by simp
    then show ?thesis
      using assms(1)
      by (auto simp: default_unix_path_def clamp_unix_path_def private_dir_def Let_def bindR_eq_Inr_iff UNIX_PATH_MAX_def gateway_config_error_def
          split: if_splits option.splits)
  qed
  show "canon_env env = canon_env env' \<longrightarrow> default_unix_path os user system_name url env' = Inr p"
    using assms(1) unfolding default_unix_path_def by metis
qed

theorem default_socket_path_fits_witness:
  "let os = \<lparr>os_environ = [(''TMPDIR'', replicate 99 (CHR ''t''))], os_uid = 1000, os_owner = (\<lambda>_. Inr 1000), os_chmod = (\<lambda>_. None), os_resolve = id\<rparr>
   in length (projr (default_unix_path os ''joe'' ''LucidTrading'' ''wss://x'' ''Live'')) \<le> UNIX_PATH_MAX
      \<and> default_unix_path os ''joe'' ''LucidTrading'' ''wss://x'' '' production''
          = Inr (projr (default_unix_path os ''joe'' ''LucidTrading'' ''wss://x'' ''Live''))"
proof -
  let ?os = "\<lparr>os_environ = [(''TMPDIR'', replicate 99 (CHR ''t''))], os_uid = 1000, os_owner = (\<lambda>_. Inr 1000), os_chmod = (\<lambda>_. None), os_resolve = id\<rparr>"
  let ?p = "default_unix_path ?os ''joe'' ''LucidTrading'' ''wss://x'' ''Live''"
  have p: "?p = Inr (projr ?p)"
    by (simp add: default_unix_path_def runtime_base_dir_def clamp_unix_path_def private_dir_def Let_def or_empty_def)
  have u: "0 \<le> os_uid ?os" "os_uid ?os < 2 ^ 32" by simp_all
  have "canon_env ''Live'' = canon_env '' production''" by code_simp
  with default_socket_path_fits [OF p u, of "'' production''"] show ?thesis unfolding Let_def by blast
qed

end
