(* ===== verification/Gateway.thy ===== *)
theory Gateway
  imports Framing Windows GatewayConfig
begin

text \<open>
  The gateway client (\<open>rithmic_gateway/client.py\<close>, \<open>framed_conn.py\<close>, \<open>attach.py\<close>): one socket to a parent process,
  request and reply frames on it, and events that arrive in between and wait in a bounded queue for their poll.
  Calls are serialised by the client's lock, so each is one computation on the client's state.

  The protocol's message code is generated: \<open>gw_codec\<close> stands for what building a request raises, its bytes, and
  the parsed frame (with \<open>MessageToDict\<close> applied to its parts). What the operating system does is a list of
  outcomes still to come, per kind of call: bytes received, sends, dials, lock probes, probes of the socket path.
  A wait with a deadline takes the number of tests made before it passes. \<open>gw_sent\<close>, \<open>gw_received\<close> and
  \<open>gw_delivered\<close> record requests, events read from the socket, and events handed to a caller.
\<close>

section \<open>Frames\<close>

text \<open>A request: the field of the frame it is sent in, and its fields that are set.\<close>

type_synonym gw_request = "string \<times> pydict"

record gw_ready =
  rd_scopes :: "string list"
  rd_trading_enabled :: bool
  rd_cancel_all_enabled :: bool
  rd_gateway_instance_id :: int
  rd_transport_generation :: int

datatype gw_body =
    BodyEvent "string option" pydict
  | BodyError string string
  | BodyReady gw_ready
  | BodyReply string "pydict list" \<comment> \<open>the reply's field name and its rows (one for a single message)\<close>
  | BodyDates "string list"
  | BodyNone

record gw_frame =
  fr_request_id :: int
  fr_body :: gw_body

definition which_body :: "gw_body \<Rightarrow> string option" where
  "which_body b = (case b of
       BodyEvent _ _ \<Rightarrow> Some ''event'' | BodyError _ _ \<Rightarrow> Some ''error'' | BodyReady _ \<Rightarrow> Some ''ready''
     | BodyReply n _ \<Rightarrow> Some n | BodyDates _ \<Rightarrow> Some ''load_order_history_dates_response'' | BodyNone \<Rightarrow> None)"

definition which_str :: "gw_body \<Rightarrow> string" where
  "which_str b = (case which_body b of None \<Rightarrow> ''None'' | Some n \<Rightarrow> n)"

record gw_codec =
  cd_build :: "gw_request \<Rightarrow> exn option"
  cd_serialize :: "int \<Rightarrow> gw_request \<Rightarrow> byte list"
  cd_parse :: "byte list \<Rightarrow> gw_frame res"

section \<open>The client's state\<close>

record gw = rx_conn +
  gw_sock :: bool
  gw_next_id :: int
  gw_scopes :: "string list"
  gw_trading_enabled :: bool
  gw_cancel_all_enabled :: bool
  gw_instance_id :: int
  gw_transport_generation :: int
  gw_pending :: "pydict list"
  gw_sends :: "exn option list"
  gw_dials :: "(exn + recv list) list"
  gw_flocks :: "bool list"
  gw_listening :: "bool list"
  gw_sent :: "(int \<times> gw_request) list"
  gw_received :: "pydict list"
  gw_delivered :: "pydict list"

type_synonym 'a gact = "(gw, exn, 'a) em"

definition gw_new :: "(exn + recv list) list \<Rightarrow> gw" where
  "gw_new dials = \<lparr>rx_buf = [], rx_recv = [], gw_sock = False, gw_next_id = 1, gw_scopes = [], gw_trading_enabled = False,
     gw_cancel_all_enabled = False, gw_instance_id = 0, gw_transport_generation = 0, gw_pending = [], gw_sends = [],
     gw_dials = dials, gw_flocks = [], gw_listening = [], gw_sent = [], gw_received = [], gw_delivered = []\<rparr>"

record gw_client =
  cl_codec :: gw_codec
  cl_config :: gateway_config
  cl_rpc_timeout :: pyfloat
  cl_history_timeout :: pyfloat

section \<open>Event classes\<close>

definition event_type_in :: "pydict \<Rightarrow> string list \<Rightarrow> bool" where
  "event_type_in e ts \<longleftrightarrow> dget e ''type'' \<in> set (map PStr ts)"

definition is_gap :: "pydict \<Rightarrow> bool" where
  "is_gap e \<longleftrightarrow> dget e ''type'' = PStr ''gap''"

definition gap_stream :: "pydict \<Rightarrow> string option" where
  "gap_stream e = (if is_gap e then Some (py_str (dget e ''stream'')) else None)"

definition is_order_event :: "pydict \<Rightarrow> bool" where
  "is_order_event e \<longleftrightarrow> event_type_in e [''order_notification'', ''bracket_update''] \<or> gap_stream e = Some ''order''"

definition is_pnl_event :: "pydict \<Rightarrow> bool" where
  "is_pnl_event e \<longleftrightarrow> event_type_in e [''account_pnl'', ''instrument_pnl''] \<or> gap_stream e = Some ''pnl''"

definition is_history_event :: "pydict \<Rightarrow> bool" where
  "is_history_event e \<longleftrightarrow> event_type_in e [''time_bar''] \<or> gap_stream e = Some ''history''"

definition is_md_event :: "pydict \<Rightarrow> bool" where
  "is_md_event e \<longleftrightarrow> (if is_gap e then gap_stream e = Some ''ticker''
     else \<not> event_type_in e [''order_notification'', ''bracket_update'', ''account_pnl'', ''instrument_pnl'', ''time_bar''])"

definition stream_of :: "pydict \<Rightarrow> string" where
  "stream_of e = (if is_order_event e then ''order'' else if is_pnl_event e then ''pnl''
     else if is_history_event e then ''history'' else ''ticker'')"

definition event_to_dict :: "string option \<Rightarrow> pydict \<Rightarrow> pydict" where
  "event_to_dict which d = (case which of
       None \<Rightarrow> [(''type'', PStr ''empty'')]
     | Some w \<Rightarrow>
         let out = dict_set ''type'' (PStr w) d
         in if w = ''order_book''
            then fold (\<lambda>k o1. if map_of o1 k = None then dict_set k (PList []) o1 else o1)
                   [''bid_price'', ''bid_size'', ''ask_price'', ''ask_size''] out
            else out)"

section \<open>The event queue\<close>

definition MAX_PENDING_EVENTS :: nat where "MAX_PENDING_EVENTS = 100000"

text \<open>
  A loss of stream \<open>st\<close> among the loss reports at the head: the first report of the stream is incremented, or a new
  report goes in front.
\<close>

fun bump_gap :: "string \<Rightarrow> pydict list \<Rightarrow> pydict list option res" where
  "bump_gap st [] = Inr None"
| "bump_gap st (g # gs) =
     (if dget g ''stream'' = PStr st then
        case map_of g ''skipped'' of
          None \<Rightarrow> Inl (exn_of KeyError ''skipped'')
        | Some v \<Rightarrow> bindR (py_int v) (\<lambda>n. Inr (Some (dict_set ''skipped'' (PInt (n + 1)) g # gs)))
      else bindR (bump_gap st gs) (\<lambda>r. Inr (map_option (\<lambda>gs'. g # gs') r)))"

definition report_loss :: "string \<Rightarrow> pydict list \<Rightarrow> pydict list res" where
  "report_loss st gaps =
     bindR (bump_gap st gaps) (\<lambda>r. case r of
       Some gs \<Rightarrow> Inr gs
     | None \<Rightarrow> Inr ([(''type'', PStr ''gap''), (''stream'', PStr st), (''skipped'', PInt 1)] # gaps))"

lemma is_gap_dict_set: "k \<noteq> ''type'' \<Longrightarrow> is_gap (dict_set k v d) = is_gap d"
  by (simp add: is_gap_def dget_def)

lemma bump_gap_gaps: "bump_gap st gs = Inr (Some gs') \<Longrightarrow> list_all is_gap gs \<Longrightarrow> list_all is_gap gs'"
  by (induction gs arbitrary: gs')
     (auto simp: bindR_eq_Inr_iff is_gap_dict_set split: if_splits option.splits)

lemma report_loss_gaps: "report_loss st gs = Inr gs' \<Longrightarrow> list_all is_gap gs \<Longrightarrow> list_all is_gap gs'"
  by (auto simp: report_loss_def bindR_eq_Inr_iff is_gap_def dget_def dest: bump_gap_gaps split: option.splits)

lemma list_all_takeWhile: "list_all P (takeWhile P xs)"
  by (induction xs) auto

text \<open>The loop that makes room: while the queue is full, the oldest data event is dropped and its loss reported.\<close>

function make_room :: "nat \<Rightarrow> pydict list \<Rightarrow> unit res \<times> pydict list" where
  "make_room n q =
     (if length q < n then (Inr (), q)
      else case dropWhile is_gap q of
        [] \<Rightarrow> (Inr (), q)
      | d # later \<Rightarrow>
          (case report_loss (stream_of d) (takeWhile is_gap q) of
             Inl e \<Rightarrow> (Inl e, takeWhile is_gap q @ later)
           | Inr gaps \<Rightarrow> make_room n (gaps @ later)))"
  by auto
termination
proof (relation "measure (\<lambda>(n, q). length (filter (\<lambda>e. \<not> is_gap e) q))", goal_cases)
  case (2 n q d later gaps)
  have "list_all is_gap gaps" using 2(3) list_all_takeWhile by (rule report_loss_gaps)
  then have "filter (\<lambda>e. \<not> is_gap e) gaps = []" by (simp add: filter_empty_conv list_all_iff)
  moreover have "filter (\<lambda>e. \<not> is_gap e) q = filter (\<lambda>e. \<not> is_gap e) (dropWhile is_gap q)"
    by (induction q) auto
  moreover have "\<not> is_gap d" using 2(2) by (metis hd_dropWhile list.distinct(1) list.sel(1))
  ultimately show ?case using 2(2) by simp
qed simp

declare make_room.simps [simp del]

definition queue_in :: "nat \<Rightarrow> pydict \<Rightarrow> pydict list \<Rightarrow> unit res \<times> pydict list" where
  "queue_in n evt q = (case make_room n q of (Inl e, q') \<Rightarrow> (Inl e, q') | (Inr _, q') \<Rightarrow> (Inr (), q' @ [evt]))"

definition queue_event :: "pydict \<Rightarrow> unit gact" where
  "queue_event evt = (\<lambda>s. case queue_in MAX_PENDING_EVENTS evt (gw_pending s) of (r, q) \<Rightarrow> (r, s\<lparr>gw_pending := q\<rparr>))"

definition note_received :: "pydict \<Rightarrow> unit gact" where
  "note_received evt = modifyE (\<lambda>s. s\<lparr>gw_received := gw_received s @ [evt]\<rparr>)"

definition deliver :: "pydict \<Rightarrow> pydict option gact" where
  "deliver evt = thenE (modifyE (\<lambda>s. s\<lparr>gw_delivered := gw_delivered s @ [evt]\<rparr>)) (returnE (Some evt))"

section \<open>Socket\<close>

definition EM_DASH :: string where "EM_DASH = [CHR 0xE2, CHR 0x80, CHR 0x94]"

definition not_connected :: exn where
  "not_connected = gateway_error ''not_connected'' ''call connect() first''"

definition close_sock :: "unit gact" where
  "close_sock = modifyE (\<lambda>s. s\<lparr>gw_sock := False, rx_buf := [], rx_recv := []\<rparr>)"

definition gw_dial :: "unit gact" where
  "gw_dial = (\<lambda>s. case gw_dials s of
       [] \<Rightarrow> (Inl (exn_of OSError ''connection refused''), s)
     | Inl e # ds \<Rightarrow> (Inl e, s\<lparr>gw_dials := ds\<rparr>)
     | Inr rs # ds \<Rightarrow> (Inr (), s\<lparr>gw_dials := ds, gw_sock := True, rx_recv := rs\<rparr>))"

definition send_outcome :: "exn option gact" where
  "send_outcome = (\<lambda>s. case gw_sends s of [] \<Rightarrow> (Inr None, s) | r # rs \<Rightarrow> (Inr r, s\<lparr>gw_sends := rs\<rparr>))"

definition write_frame :: "gw_codec \<Rightarrow> int \<Rightarrow> gw_request \<Rightarrow> unit gact" where
  "write_frame cd rid req =
     bindE (getE gw_sock) (\<lambda>open1.
       if \<not> open1 then raiseE not_connected
       else
         bindE (liftE (encode_frame (cd_serialize cd rid req))) (\<lambda>_.
         bindE send_outcome (\<lambda>r. case r of
           Some e \<Rightarrow> if is_os_error e
                    then thenE close_sock (raiseE (gateway_error ''not_sent'' (''request not written: '' @ exn_msg e)))
                    else raiseE e
         | None \<Rightarrow> modifyE (\<lambda>s. s\<lparr>gw_sent := gw_sent s @ [(rid, req)]\<rparr>))))"

definition read_frame :: "gw_codec \<Rightarrow> gw_frame gact" where
  "read_frame cd =
     bindE (getE gw_sock) (\<lambda>open1.
       if \<not> open1 then raiseE not_connected else bindE read_payload (\<lambda>p. liftE (cd_parse cd p)))"

definition flock_held :: "bool gact" where
  "flock_held = (\<lambda>s. case gw_flocks s of [] \<Rightarrow> (Inr False, s) | b # bs \<Rightarrow> (Inr b, s\<lparr>gw_flocks := bs\<rparr>))"

definition socket_listening :: "bool gact" where
  "socket_listening = (\<lambda>s. case gw_listening s of [] \<Rightarrow> (Inr False, s) | b # bs \<Rightarrow> (Inr b, s\<lparr>gw_listening := bs\<rparr>))"

definition require_parent_flock :: "gateway_config \<Rightarrow> unit gact" where
  "require_parent_flock cfg =
     (if \<not> gc_attest_flock cfg then returnE ()
      else bindE flock_held (\<lambda>held.
        if held then returnE ()
        else thenE close_sock (raiseE (gateway_error ''parent_unattested''
          (''listen path is up but credential flock is free '' @ EM_DASH @ '' refusing impostor parent'')))))"

section \<open>Remote calls\<close>

definition normalize_error_code :: "string \<Rightarrow> string" where
  "normalize_error_code code = (if code = ''history_denied_live_md'' then ''capability_denied'' else code)"

definition wire_error :: "string \<Rightarrow> string \<Rightarrow> exn" where
  "wire_error code msg = gateway_error (normalize_error_code code) msg"

text \<open>What one frame means while a reply is awaited.\<close>

definition rpc_frame :: "int \<Rightarrow> gw_frame \<Rightarrow> gw_frame res" where
  "rpc_frame rid fr = (case fr_body fr of
       BodyError code msg \<Rightarrow>
         if fr_request_id fr \<noteq> rid then
           Inl (gateway_error ''protocol'' (''error for request_id='' @ int_str (fr_request_id fr) @ '' while waiting for '' @ int_str rid
             @ '': '' @ code @ '': '' @ msg))
         else Inl (wire_error code msg)
     | b \<Rightarrow>
         if fr_request_id fr = rid then Inr fr
         else Inl (gateway_error ''protocol'' (''unexpected frame '' @ opt_repr (which_body b) @ '' request_id='' @ int_str (fr_request_id fr)
           @ '' while waiting for '' @ int_str rid)))"

lemma read_payload_shrinks:
  assumes "read_payload s = (Inr p, s')"
  shows "length (stream s') < length (stream s)"
proof -
  obtain s1 s2 len where f: "fill 4 s = (Inr (), s1)" "fill (4 + len) s1 = (Inr (), s2)"
    and s': "s' = s2\<lparr>rx_buf := drop (4 + len) (rx_buf s2)\<rparr>"
    using assms by (auto simp: read_payload_def em_returned split: if_splits)
  have "4 + len \<le> length (rx_buf s2)" using fill_keeps(3) [OF f(2)] by simp
  then have "length (stream s') < length (stream s2)" by (simp add: s' stream_def)
  moreover have "stream s2 = stream s" using fill_keeps(1) [OF f(1)] fill_keeps(1) [OF f(2)] by simp
  ultimately show ?thesis by simp
qed

lemma read_frame_shrinks: "read_frame cd s = (Inr fr, s') \<Longrightarrow> length (stream s') < length (stream s)"
  by (auto simp: read_frame_def em_returned split: if_splits dest: read_payload_shrinks)

lemma queue_event_stream: "queue_event evt s = (r, s') \<Longrightarrow> stream s' = stream s"
  by (auto simp: queue_event_def stream_def split: prod.splits)

lemma note_received_stream: "note_received evt s = (r, s') \<Longrightarrow> stream s' = stream s"
  by (auto simp: note_received_def em_simps stream_def)

text \<open>Read frames until the reply: events are queued, anything else that is not the reply is an error.\<close>

definition take_event :: "string option \<Rightarrow> pydict \<Rightarrow> unit gact" where
  "take_event w d = thenE (note_received (event_to_dict w d)) (queue_event (event_to_dict w d))"

lemma take_event_stream: "take_event w d s = (r, s') \<Longrightarrow> stream s' = stream s"
  unfolding take_event_def
  by (auto simp: em_simps note_received_def stream_def dest!: queue_event_stream)

function rpc_wait :: "gw_codec \<Rightarrow> int \<Rightarrow> gw \<Rightarrow> gw_frame res \<times> gw" where
  "rpc_wait cd rid s =
     (case read_frame cd s of
        (Inl e, s1) \<Rightarrow> (Inl e, s1)
      | (Inr fr, s1) \<Rightarrow>
          (case fr_body fr of
             BodyEvent w d \<Rightarrow>
               (case take_event w d s1 of
                  (Inl e, s2) \<Rightarrow> (Inl e, s2)
                | (Inr _, s2) \<Rightarrow> rpc_wait cd rid s2)
           | _ \<Rightarrow> (rpc_frame rid fr, s1)))"
  by pat_completeness auto
termination
proof (relation "measure (\<lambda>(cd, rid, s). length (stream s))", goal_cases)
  case (2 cd rid s x s1 fr w d y s2 u)
  then have "read_frame cd s = (Inr fr, s1)" "take_event w d s1 = (Inr u, s2)" by simp_all
  then show ?case using read_frame_shrinks take_event_stream by fastforce
qed simp

declare rpc_wait.simps [simp del]

definition timed_out :: "exn \<Rightarrow> bool" where
  "timed_out e \<longleftrightarrow> exn_cls e \<in> {TimeoutError, BlockingIOError}"

definition fatal_wire_error :: "exn \<Rightarrow> bool" where
  "fatal_wire_error e \<longleftrightarrow> exn_cls e = GatewayError \<and> exn_code e \<in> {Some ''eof'', Some ''frame_too_large''}"

definition rpc_unlocked :: "gw_client \<Rightarrow> pyfloat option \<Rightarrow> gw_request \<Rightarrow> gw_frame gact" where
  "rpc_unlocked cl timeout_sec req =
     bindE (getE (\<lambda>s. (gw_sock s, gw_next_id s))) (\<lambda>(open1, rid).
       if \<not> open1 then raiseE not_connected
       else
         thenE (modifyE (\<lambda>s. s\<lparr>gw_next_id := gw_next_id s + 1\<rparr>))
         (thenE (write_frame (cl_codec cl) rid req)
         (catchE (rpc_wait (cl_codec cl) rid) (\<lambda>e.
            if fatal_wire_error e then thenE close_sock (raiseE e)
            else if timed_out e then
              thenE close_sock (raiseE (gateway_error ''timeout'' (''RPC '' @ int_str rid @ '' timed out after ''
                @ float_repr (case timeout_sec of None \<Rightarrow> cl_rpc_timeout cl | Some t \<Rightarrow> t) @ ''s'')))
            else raiseE e))))"

text \<open>A call: the request message is built first, then the exchange runs under the lock.\<close>

definition gw_rpc :: "gw_client \<Rightarrow> pyfloat option \<Rightarrow> gw_request \<Rightarrow> gw_frame gact" where
  "gw_rpc cl timeout_sec req = (case cd_build (cl_codec cl) req of
       Some e \<Rightarrow> raiseE e
     | None \<Rightarrow> rpc_unlocked cl timeout_sec req)"

section \<open>Requests\<close>

definition rpc_unit :: "gw_client \<Rightarrow> gw_request \<Rightarrow> unit gact" where
  "rpc_unit cl req = bindE (gw_rpc cl None req) (\<lambda>_. returnE ())"

text \<open>A call whose reply must be the named one; its rows.\<close>

definition rpc_rows :: "gw_client \<Rightarrow> pyfloat option \<Rightarrow> gw_request \<Rightarrow> string \<Rightarrow> pydict list gact" where
  "rpc_rows cl timeout_sec req expected =
     bindE (gw_rpc cl timeout_sec req) (\<lambda>fr. case fr_body fr of
       BodyReply name rows \<Rightarrow>
         if name = expected then returnE rows
         else raiseE (gateway_error ''protocol'' (''expected '' @ expected @ '', got '' @ name))
     | b \<Rightarrow> raiseE (gateway_error ''protocol'' (''expected '' @ expected @ '', got '' @ which_str b)))"

text \<open>The same for a reply that is a single message.\<close>

definition rpc_one :: "gw_client \<Rightarrow> gw_request \<Rightarrow> string \<Rightarrow> pydict gact" where
  "rpc_one cl req expected = bindE (rpc_rows cl None req expected) (\<lambda>rows. returnE (concat rows))"

definition symbol_fields :: "string \<Rightarrow> string \<Rightarrow> pydict" where
  "symbol_fields symbol exchange = [(''symbol'', PStr symbol), (''exchange'', PStr exchange)]"

definition gw_subscribe :: "gw_client \<Rightarrow> string \<Rightarrow> string \<Rightarrow> unit gact" where
  "gw_subscribe cl symbol exchange = rpc_unit cl (''subscribe'', symbol_fields symbol exchange)"

definition gw_unsubscribe :: "gw_client \<Rightarrow> string \<Rightarrow> string \<Rightarrow> unit gact" where
  "gw_unsubscribe cl symbol exchange = rpc_unit cl (''unsubscribe'', symbol_fields symbol exchange)"

definition gw_subscribe_order_book_summary :: "gw_client \<Rightarrow> string \<Rightarrow> string \<Rightarrow> unit gact" where
  "gw_subscribe_order_book_summary cl symbol exchange = rpc_unit cl (''subscribe_book'', symbol_fields symbol exchange)"

definition gw_unsubscribe_order_book_summary :: "gw_client \<Rightarrow> string \<Rightarrow> string \<Rightarrow> unit gact" where
  "gw_unsubscribe_order_book_summary cl symbol exchange = rpc_unit cl (''unsubscribe_book'', symbol_fields symbol exchange)"

definition gw_request_plants :: "gw_client \<Rightarrow> string \<Rightarrow> unit gact" where
  "gw_request_plants cl plants = rpc_unit cl (''request_plants'', [(''plants'', PStr plants)])"

definition gw_get_front_month :: "gw_client \<Rightarrow> string \<Rightarrow> string \<Rightarrow> pydict gact" where
  "gw_get_front_month cl symbol exchange = rpc_one cl (''get_front_month'', symbol_fields symbol exchange) ''front_month_response''"

definition gw_get_reference_data :: "gw_client \<Rightarrow> string \<Rightarrow> string \<Rightarrow> pydict gact" where
  "gw_get_reference_data cl symbol exchange =
     rpc_one cl (''get_reference_data'', symbol_fields symbol exchange) ''reference_data_response''"

definition gw_get_live_md_state :: "gw_client \<Rightarrow> pydict gact" where
  "gw_get_live_md_state cl = rpc_one cl (''get_live_md_state'', []) ''get_live_md_state_response''"

definition gw_resolved_account :: "gw_client \<Rightarrow> pydict option gact" where
  "gw_resolved_account cl =
     bindE (rpc_one cl (''resolved_account'', []) ''resolved_account_response'') (\<lambda>d.
       returnE (if truthy (dget d ''account_id'') then Some d else None))"

definition window_fields :: "int \<Rightarrow> int \<Rightarrow> pydict" where
  "window_fields start stop = [(''start_time_sec'', PInt start), (''end_time_sec'', PInt stop)]"

definition gw_load_orders :: "gw_client \<Rightarrow> int \<Rightarrow> int \<Rightarrow> pydict list gact" where
  "gw_load_orders cl start stop = rpc_rows cl None (''load_orders'', window_fields start stop) ''load_orders_response''"

definition gw_load_product_rms_info :: "gw_client \<Rightarrow> pydict list gact" where
  "gw_load_product_rms_info cl = rpc_rows cl None (''load_product_rms_info'', []) ''load_product_rms_info_response''"

definition gw_load_account_rms_info :: "gw_client \<Rightarrow> pydict list gact" where
  "gw_load_account_rms_info cl = rpc_rows cl None (''load_account_rms_info'', []) ''load_account_rms_info_response''"

text \<open>\<open>[f(r) for r in rows]\<close>.\<close>

fun map_rows :: "(pydict \<Rightarrow> pydict res) \<Rightarrow> pydict list \<Rightarrow> pydict list res" where
  "map_rows f [] = Inr []"
| "map_rows f (d # ds) = bindR (f d) (\<lambda>x. bindR (map_rows f ds) (\<lambda>xs. Inr (x # xs)))"

text \<open>A tag, and a field that the wire renders as text back to an integer.\<close>

definition tag_row :: "string \<Rightarrow> string \<Rightarrow> pydict \<Rightarrow> pydict res" where
  "tag_row tag field d =
     (let out = dict_set ''type'' (PStr tag) d
      in case map_of out field of
           None \<Rightarrow> Inr out
         | Some v \<Rightarrow> bindR (py_int v) (\<lambda>n. Inr (dict_set field (PInt n) out)))"

definition normalize_fill_history :: "pydict \<Rightarrow> pydict res" where
  "normalize_fill_history d = tag_row ''fill_history'' ''fill_size'' d"

definition normalize_order_notification :: "pydict \<Rightarrow> pydict res" where
  "normalize_order_notification d = tag_row ''order_notification'' ''ts_event_ns'' d"

definition normalize_history_tick :: "pydict \<Rightarrow> pydict res" where
  "normalize_history_tick d =
     (let d1 = (case (map_of d ''trade_price'', map_of d ''close_price'') of
            (None, Some px) \<Rightarrow> dict_set ''trade_price'' px d | _ \<Rightarrow> d)
      in bindR (case (map_of d1 ''trade_size'', map_of d1 ''num_trades'') of
                  (None, Some n) \<Rightarrow>
                    (case py_int n of
                       Inr i \<Rightarrow> Inr (dict_set ''trade_size'' (PInt i) d1)
                     | Inl e \<Rightarrow> if exn_cls e = TypeError \<or> is_value_error e then Inr (dict_set ''trade_size'' n d1) else Inl e)
                | _ \<Rightarrow> Inr d1) (\<lambda>d2.
           Inr (if map_of d2 ''type'' = None then dict_set ''type'' (PStr ''history_tick'') d2 else d2)))"

definition gw_load_fill_history :: "gw_client \<Rightarrow> int \<Rightarrow> int \<Rightarrow> pydict list gact" where
  "gw_load_fill_history cl start_date finish_date =
     bindE (rpc_rows cl None (''load_fill_history'', [(''start_date'', PInt start_date), (''finish_date'', PInt finish_date)])
       ''load_fill_history_response'') (\<lambda>rows. liftE (map_rows normalize_fill_history rows))"

definition gw_load_order_history_dates :: "gw_client \<Rightarrow> string list gact" where
  "gw_load_order_history_dates cl =
     bindE (gw_rpc cl None (''load_order_history_dates'', [])) (\<lambda>fr. case fr_body fr of
       BodyDates ds \<Rightarrow> returnE ds
     | b \<Rightarrow> raiseE (gateway_error ''protocol'' (''expected load_order_history_dates_response, got '' @ which_str b)))"

definition gw_load_order_history :: "gw_client \<Rightarrow> string \<Rightarrow> pydict list gact" where
  "gw_load_order_history cl date =
     bindE (rpc_rows cl None (''load_order_history'', [(''date'', PStr date)]) ''load_order_history_response'')
       (\<lambda>rows. liftE (map_rows normalize_order_notification rows))"

definition gw_load_ticks :: "gw_client \<Rightarrow> string \<Rightarrow> string \<Rightarrow> int \<Rightarrow> int \<Rightarrow> pydict list gact" where
  "gw_load_ticks cl symbol exchange start stop =
     bindE (rpc_rows cl None (''load_ticks'', symbol_fields symbol exchange @ window_fields start stop) ''load_ticks_response'')
       (\<lambda>rows. liftE (map_rows normalize_history_tick rows))"

definition bar_fields_of :: "int \<Rightarrow> int \<Rightarrow> pydict" where
  "bar_fields_of bar_type period = [(''bar_type'', PInt bar_type), (''period'', PInt period)]"

definition gw_load_time_bars :: "gw_client \<Rightarrow> string \<Rightarrow> string \<Rightarrow> int \<Rightarrow> int \<Rightarrow> int \<Rightarrow> int \<Rightarrow> pyfloat option \<Rightarrow> pydict list gact" where
  "gw_load_time_bars cl symbol exchange start stop bar_type period rpc_timeout_sec =
     rpc_rows cl rpc_timeout_sec
       (''load_time_bars'', symbol_fields symbol exchange @ window_fields start stop @ bar_fields_of bar_type period)
       ''load_time_bars_response''"

fun load_slices :: "(int \<Rightarrow> int \<Rightarrow> pydict list gact) \<Rightarrow> (int \<times> int) list \<Rightarrow> pydict list gact" where
  "load_slices load [] = returnE []"
| "load_slices load ((a, b) # sl) = bindE (load a b) (\<lambda>rows. bindE (load_slices load sl) (\<lambda>more. returnE (rows @ more)))"

definition gw_load_time_bars_range :: "gw_client \<Rightarrow> string \<Rightarrow> string \<Rightarrow> int \<Rightarrow> int \<Rightarrow> int \<Rightarrow> int \<Rightarrow> pyfloat option \<Rightarrow> pydict list gact" where
  "gw_load_time_bars_range cl symbol exchange start stop bar_type period rpc_timeout_sec =
     (let timeout = (case rpc_timeout_sec of None \<Rightarrow> cl_history_timeout cl | Some t \<Rightarrow> t)
      in bindE (load_slices (\<lambda>a b. gw_load_time_bars cl symbol exchange a b bar_type period (Some timeout))
                  (window_slices start stop (bar_slice_secs bar_type period)))
           (\<lambda>merged. liftE (dedupe_bars_by_marker merged)))"

definition gw_probe_time_bars :: "gw_client \<Rightarrow> string \<Rightarrow> string \<Rightarrow> int \<Rightarrow> int \<Rightarrow> int \<Rightarrow> int \<Rightarrow> pydict list gact" where
  "gw_probe_time_bars cl symbol exchange start stop bar_type period =
     rpc_rows cl None (''probe_time_bars'', symbol_fields symbol exchange @ bar_fields_of bar_type period @ window_fields start stop)
       ''probe_time_bars_response''"

definition gw_subscribe_time_bars :: "gw_client \<Rightarrow> string \<Rightarrow> string \<Rightarrow> int \<Rightarrow> int \<Rightarrow> unit gact" where
  "gw_subscribe_time_bars cl symbol exchange bar_type period =
     rpc_unit cl (''subscribe_time_bars'', symbol_fields symbol exchange @ bar_fields_of bar_type period)"

definition gw_unsubscribe_time_bars :: "gw_client \<Rightarrow> string \<Rightarrow> string \<Rightarrow> int \<Rightarrow> int \<Rightarrow> unit gact" where
  "gw_unsubscribe_time_bars cl symbol exchange bar_type period =
     rpc_unit cl (''unsubscribe_time_bars'', symbol_fields symbol exchange @ bar_fields_of bar_type period)"

definition gw_subscribe_pnl :: "gw_client \<Rightarrow> unit gact" where "gw_subscribe_pnl cl = rpc_unit cl (''subscribe_pnl'', [])"

definition gw_ensure_pnl_plant :: "gw_client \<Rightarrow> unit gact" where "gw_ensure_pnl_plant cl = rpc_unit cl (''ensure_pnl'', [])"

definition gw_ensure_order_plant :: "gw_client \<Rightarrow> unit gact" where "gw_ensure_order_plant cl = rpc_unit cl (''ensure_order'', [])"

definition gw_disconnect_pnl_plant :: "gw_client \<Rightarrow> unit gact" where "gw_disconnect_pnl_plant cl = rpc_unit cl (''disconnect_pnl'', [])"

definition gw_subscribe_order_updates :: "gw_client \<Rightarrow> unit gact" where
  "gw_subscribe_order_updates cl = rpc_unit cl (''subscribe_order_updates'', [])"

definition gw_subscribe_bracket_updates :: "gw_client \<Rightarrow> unit gact" where
  "gw_subscribe_bracket_updates cl = rpc_unit cl (''subscribe_bracket_updates'', [])"

definition gw_disconnect_order_plant :: "gw_client \<Rightarrow> unit gact" where
  "gw_disconnect_order_plant cl = rpc_unit cl (''disconnect_order'', [])"

definition gw_reset_ticker_plant :: "gw_client \<Rightarrow> unit gact" where
  "gw_reset_ticker_plant cl = rpc_unit cl (''reset_ticker_plant'', [])"

section \<open>Order requests\<close>

text \<open>A field that is set only when a value is given.\<close>

definition opt_field :: "string \<Rightarrow> ('a \<Rightarrow> pyval) \<Rightarrow> 'a option \<Rightarrow> pydict" where
  "opt_field name f v = (case v of None \<Rightarrow> [] | Some x \<Rightarrow> [(name, f x)])"

definition gw_place_order :: "gw_client \<Rightarrow> string \<Rightarrow> string \<Rightarrow> string \<Rightarrow> string \<Rightarrow> int \<Rightarrow> string \<Rightarrow> pyfloat option \<Rightarrow> pyfloat option
    \<Rightarrow> string \<Rightarrow> int option \<Rightarrow> int option \<Rightarrow> unit gact" where
  "gw_place_order cl symbol exchange side price_type quantity user_tag price trigger_price duration trail_by_ticks trail_by_price_id =
     rpc_unit cl (''place_order'', symbol_fields symbol exchange
       @ [(''side'', PStr side), (''price_type'', PStr price_type), (''quantity'', PInt quantity), (''user_tag'', PStr user_tag),
          (''duration'', PStr duration)]
       @ opt_field ''price'' PFloat price @ opt_field ''trigger_price'' PFloat trigger_price
       @ opt_field ''trail_by_ticks'' PInt trail_by_ticks @ opt_field ''trail_by_price_id'' PInt trail_by_price_id)"

definition gw_place_bracket_order :: "gw_client \<Rightarrow> string \<Rightarrow> string \<Rightarrow> string \<Rightarrow> string \<Rightarrow> int \<Rightarrow> string \<Rightarrow> pyfloat option \<Rightarrow> pyfloat option
    \<Rightarrow> string \<Rightarrow> int option \<Rightarrow> int option \<Rightarrow> unit gact" where
  "gw_place_bracket_order cl symbol exchange side price_type quantity localid price trigger_price duration stop_ticks target_ticks =
     rpc_unit cl (''place_bracket_order'', symbol_fields symbol exchange
       @ [(''side'', PStr side), (''price_type'', PStr price_type), (''quantity'', PInt quantity), (''localid'', PStr localid),
          (''duration'', PStr duration)]
       @ opt_field ''price'' PFloat price @ opt_field ''trigger_price'' PFloat trigger_price
       @ opt_field ''stop_ticks'' PInt stop_ticks @ opt_field ''target_ticks'' PInt target_ticks)"

definition gw_adjust_bracket_stop :: "gw_client \<Rightarrow> string \<Rightarrow> int \<Rightarrow> int option \<Rightarrow> unit gact" where
  "gw_adjust_bracket_stop cl basket_id ticks level =
     rpc_unit cl (''adjust_bracket_stop'', [(''basket_id'', PStr basket_id), (''ticks'', PInt ticks)] @ opt_field ''level'' PInt level)"

definition gw_adjust_bracket_target :: "gw_client \<Rightarrow> string \<Rightarrow> int \<Rightarrow> int option \<Rightarrow> unit gact" where
  "gw_adjust_bracket_target cl basket_id ticks level =
     rpc_unit cl (''adjust_bracket_target'', [(''basket_id'', PStr basket_id), (''ticks'', PInt ticks)] @ opt_field ''level'' PInt level)"

definition gw_cancel_order :: "gw_client \<Rightarrow> string \<Rightarrow> unit gact" where
  "gw_cancel_order cl basket_id = rpc_unit cl (''cancel_order'', [(''basket_id'', PStr basket_id)])"

definition gw_modify_order :: "gw_client \<Rightarrow> string \<Rightarrow> string \<Rightarrow> string \<Rightarrow> int \<Rightarrow> string \<Rightarrow> pyfloat option \<Rightarrow> pyfloat option \<Rightarrow> int option
    \<Rightarrow> unit gact" where
  "gw_modify_order cl basket_id symbol exchange quantity price_type price trigger_price trail_by_ticks =
     rpc_unit cl (''modify_order'', [(''basket_id'', PStr basket_id)] @ symbol_fields symbol exchange
       @ [(''quantity'', PInt quantity), (''price_type'', PStr price_type)]
       @ opt_field ''price'' PFloat price @ opt_field ''trigger_price'' PFloat trigger_price
       @ opt_field ''trail_by_ticks'' PInt trail_by_ticks)"

definition gw_cancel_all_orders :: "gw_client \<Rightarrow> unit gact" where
  "gw_cancel_all_orders cl = rpc_unit cl (''cancel_all_orders'', [])"

section \<open>Polls\<close>

text \<open>One turn around the queue: events of other streams go to its end.\<close>

fun take_queued :: "(pydict \<Rightarrow> bool) \<Rightarrow> nat \<Rightarrow> pydict list \<Rightarrow> pydict option \<times> pydict list" where
  "take_queued pred 0 q = (None, q)"
| "take_queued pred (Suc n) [] = (None, [])"
| "take_queued pred (Suc n) (e # q) = (if pred e then (Some e, q) else take_queued pred n (q @ [e]))"

text \<open>Reading until an event of the stream arrives; without a timeout one frame is read.\<close>

function poll_wait :: "gw_codec \<Rightarrow> (pydict \<Rightarrow> bool) \<Rightarrow> bool \<Rightarrow> gw \<Rightarrow> pydict option res \<times> gw" where
  "poll_wait cd pred timed s =
     (case read_frame cd s of
        (Inl e, s1) \<Rightarrow> (Inl e, s1)
      | (Inr fr, s1) \<Rightarrow>
          (case fr_body fr of
             BodyEvent w d \<Rightarrow>
               if pred (event_to_dict w d) then thenE (note_received (event_to_dict w d)) (deliver (event_to_dict w d)) s1
               else
                 (case take_event w d s1 of
                    (Inl e, s2) \<Rightarrow> (Inl e, s2)
                  | (Inr _, s2) \<Rightarrow> if \<not> timed then (Inr None, s2) else poll_wait cd pred timed s2)
           | BodyError code msg \<Rightarrow> (Inl (gateway_error code msg), s1)
           | _ \<Rightarrow> if \<not> timed then (Inr None, s1) else poll_wait cd pred timed s1))"
  by pat_completeness auto
termination
proof (relation "measure (\<lambda>(cd, pred, timed, s). length (stream s))", goal_cases)
  case (2 cd pred timed s x s1 fr w d y s2 u)
  then have "read_frame cd s = (Inr fr, s1)" "take_event w d s1 = (Inr u, s2)" by simp_all
  then show ?case using read_frame_shrinks take_event_stream by fastforce
qed (auto dest: read_frame_shrinks [OF sym])

declare poll_wait.simps [simp del]

definition poll_filtered :: "gw_client \<Rightarrow> int \<Rightarrow> (pydict \<Rightarrow> bool) \<Rightarrow> pydict option gact" where
  "poll_filtered cl timeout_ms pred =
     bindE (getE (\<lambda>s. (gw_sock s, take_queued pred (length (gw_pending s)) (gw_pending s)))) (\<lambda>(open1, found, q).
       if \<not> open1 then raiseE not_connected
       else
         thenE (modifyE (\<lambda>s. s\<lparr>gw_pending := q\<rparr>))
         (case found of
            Some e \<Rightarrow> deliver e
          | None \<Rightarrow>
              catchE (poll_wait (cl_codec cl) pred (timeout_ms > 0)) (\<lambda>e.
                if fatal_wire_error e then thenE close_sock (raiseE e)
                else if timed_out e then returnE None
                else raiseE e)))"

definition gw_poll_event :: "gw_client \<Rightarrow> int \<Rightarrow> pydict option gact" where
  "gw_poll_event cl timeout_ms = poll_filtered cl timeout_ms is_md_event"

definition gw_poll_history_event :: "gw_client \<Rightarrow> int \<Rightarrow> pydict option gact" where
  "gw_poll_history_event cl timeout_ms = poll_filtered cl timeout_ms is_history_event"

definition gw_poll_pnl_event :: "gw_client \<Rightarrow> int \<Rightarrow> pydict option gact" where
  "gw_poll_pnl_event cl timeout_ms = poll_filtered cl timeout_ms is_pnl_event"

definition gw_poll_order_event :: "gw_client \<Rightarrow> int \<Rightarrow> pydict option gact" where
  "gw_poll_order_event cl timeout_ms = poll_filtered cl timeout_ms is_order_event"

section \<open>Connecting\<close>

definition attach_error :: "string \<Rightarrow> string \<Rightarrow> exn" where
  "attach_error code msg = Exn AttachError (Some code) msg"

text \<open>\<open>n\<close> is the number of tests made before the deadline passes.\<close>

fun wait_for_parent_socket :: "string \<Rightarrow> nat \<Rightarrow> unit gact" where
  "wait_for_parent_socket path 0 =
     raiseE (attach_error ''listen_path_mismatch'' (''timed out waiting for existing gateway parent at '' @ path_str path
       @ '' (flock held '' @ EM_DASH @ '' check RITHMIC_GATEWAY_LISTEN matches the running parent)''))"
| "wait_for_parent_socket path (Suc n) =
     bindE flock_held (\<lambda>held.
       if \<not> held then raiseE (attach_error ''parent_flock_held_no_socket''
         (''credential flock not held while waiting for existing parent '' @ EM_DASH @ '' no gateway is starting''))
       else bindE socket_listening (\<lambda>up. if up then returnE () else wait_for_parent_socket path n))"

definition resolve_dial_failure :: "string \<Rightarrow> nat \<Rightarrow> unit gact" where
  "resolve_dial_failure path n =
     bindE flock_held (\<lambda>held.
       if held then wait_for_parent_socket path n
       else raiseE (attach_error ''parent_not_running'' (''no gateway parent is listening at '' @ path
         @ '' and none holds the credential flock; start it with `python -m rithmic_gateway` ''
         @ ''(the parent needs RITHMIC_PASSWORD, clients do not)'')))"

definition dial_with_attach :: "string \<Rightarrow> nat \<Rightarrow> unit gact" where
  "dial_with_attach path n =
     catchE gw_dial (\<lambda>e.
       if \<not> is_os_error e then raiseE e
       else
         tryE (resolve_dial_failure path n)
           (\<lambda>attach_exc.
              if exn_cls attach_exc \<noteq> AttachError then raiseE attach_exc
              else catchE gw_dial (\<lambda>e2.
                if is_os_error e2 \<or> is_value_error e2 \<or> exn_cls e2 \<in> {RuntimeError, GatewayError, AttachError}
                then raiseE attach_exc else raiseE e2))
           (\<lambda>_. catchE gw_dial (\<lambda>e2.
                if is_os_error e2 then
                  raiseE (attach_error ''listen_path_mismatch'' (''credential flock held but dial failed after wait '' @ EM_DASH
                    @ '' check RITHMIC_GATEWAY_LISTEN matches the running parent''))
                else raiseE e2)))"

definition gw_handshake :: "gw_client \<Rightarrow> unit gact" where
  "gw_handshake cl =
     bindE (getE gw_sock) (\<lambda>open1.
       if \<not> open1 then raiseE not_connected
       else
         (let cfg = cl_config cl;
              req = (''handshake'', [(''user'', PStr (gc_user cfg)), (''system_name'', PStr (gc_system_name cfg)), (''url'', PStr (gc_url cfg)),
                (''env'', PStr (gc_env cfg)), (''account_id'', PStr (gc_account_id cfg)), (''fcm_id'', PStr (gc_fcm_id cfg)),
                (''ib_id'', PStr (gc_ib_id cfg)), (''auth_token'', PStr (gc_auth_token cfg))])
          in thenE (write_frame (cl_codec cl) 0 req)
            (bindE (read_frame (cl_codec cl)) (\<lambda>fr. case fr_body fr of
               BodyReady r \<Rightarrow> modifyE (\<lambda>s. s\<lparr>gw_scopes := rd_scopes r, gw_trading_enabled := rd_trading_enabled r,
                 gw_cancel_all_enabled := rd_cancel_all_enabled r, gw_instance_id := rd_gateway_instance_id r,
                 gw_transport_generation := rd_transport_generation r\<rparr>)
             | BodyError code msg \<Rightarrow> raiseE (wire_error code msg)
             | b \<Rightarrow> raiseE (gateway_error ''protocol'' (''expected Ready, got '' @ which_str b))))))"

text \<open>The handshake with its retries; \<open>n\<close> is again the number of tests before the deadline.\<close>

fun handshake_until_ready :: "gw_client \<Rightarrow> nat \<Rightarrow> unit gact" where
  "handshake_until_ready cl n =
     catchE (gw_handshake cl) (\<lambda>e.
       let retry = (exn_cls e = GatewayError \<and> exn_code e = Some ''not_ready'' \<or> exn_cls e = TimeoutError)
       in if exn_cls e \<noteq> GatewayError \<and> exn_cls e \<noteq> TimeoutError then raiseE e
          else case n of
            0 \<Rightarrow> thenE close_sock (raiseE e)
          | Suc n' \<Rightarrow>
              if \<not> retry then thenE close_sock (raiseE e)
              else thenE close_sock (thenE gw_dial (thenE (require_parent_flock (cl_config cl)) (handshake_until_ready cl n'))))"

declare handshake_until_ready.simps [simp del]

definition gw_connect :: "gw_client \<Rightarrow> string \<Rightarrow> nat \<Rightarrow> nat \<Rightarrow> unit gact" where
  "gw_connect cl path n m =
     bindE (getE gw_sock) (\<lambda>open1.
       if open1 then returnE ()
       else thenE (dial_with_attach path n)
            (thenE (require_parent_flock (cl_config cl)) (handshake_until_ready cl m)))"

definition gw_disconnect :: "gw_client \<Rightarrow> unit gact" where
  "gw_disconnect cl =
     bindE (getE gw_sock) (\<lambda>open1.
       if \<not> open1 then returnE ()
       else
         thenE (catchE (bindE (gw_rpc cl None (''disconnect'', [])) (\<lambda>_. returnE ())) (\<lambda>_. returnE ()))
         (thenE close_sock (modifyE (\<lambda>s. s\<lparr>gw_pending := []\<rparr>))))"

section \<open>Waiting for the live data barrier\<close>

text \<open>\<open>wait_until_live_md_clear\<close>; the timeout error carries the last state.\<close>

fun wait_until_live_md_clear :: "('s, exn, pydict option) em \<Rightarrow> (pydict \<Rightarrow> string) \<Rightarrow> nat \<Rightarrow> ('s, exn, pydict) em" where
  "wait_until_live_md_clear get_state msg n =
     bindE get_state (\<lambda>st.
       let last = (case st of None \<Rightarrow> [] | Some d \<Rightarrow> d)
       in if \<not> truthy (dget last ''live_md'') then returnE last
          else case n of
            0 \<Rightarrow> raiseE (exn_of TimeoutError (msg last))
          | Suc n' \<Rightarrow> wait_until_live_md_clear get_state msg n')"

declare wait_until_live_md_clear.simps [simp del]

end
