(* ===== verification/Exchange.thy ===== *)
theory Exchange
  imports Gateway "HOL-Library.Multiset"
begin

text \<open>
  What the gateway client guarantees: a call returns the reply to its own request; between any calls and polls
  no event disappears without being counted in a loss report; and what a poll does to the queued events of the
  other streams.
\<close>

section \<open>Counting events\<close>

text \<open>The number a loss report carries, and what a report must be for it to be one.\<close>

definition skipped :: "pydict \<Rightarrow> int" where
  "skipped g = (case py_int (dget g ''skipped'') of Inr n \<Rightarrow> n | Inl _ \<Rightarrow> 0)"

definition good_gap :: "pydict \<Rightarrow> bool" where
  "good_gap g \<longleftrightarrow> (\<exists>v. map_of g ''skipped'' = Some v \<and> (\<exists>n. py_int v = Inr n)) \<and> (\<exists>st. dget g ''stream'' = PStr st)"

definition good_event :: "pydict \<Rightarrow> bool" where
  "good_event e \<longleftrightarrow> (is_gap e \<longrightarrow> good_gap e)"

text \<open>Parsed loss reports have their two fields, the second an integer or its decimal digits.\<close>

definition codec_law :: "(pydict \<Rightarrow> bool) \<Rightarrow> gw_codec \<Rightarrow> bool" where
  "codec_law good cd \<longleftrightarrow> (\<forall>p fr w d. cd_parse cd p = Inr fr \<longrightarrow> fr_body fr = BodyEvent w d \<longrightarrow> good (event_to_dict w d))"

definition codec_ok :: "gw_codec \<Rightarrow> bool" where
  "codec_ok cd \<longleftrightarrow> (\<forall>p fr w d. cd_parse cd p = Inr fr \<longrightarrow> fr_body fr = BodyEvent w d \<longrightarrow> good_event (event_to_dict w d))"

text \<open>What an event accounts for on stream \<open>st\<close>: itself, or the losses it reports.\<close>

definition accounts :: "string \<Rightarrow> pydict \<Rightarrow> int" where
  "accounts st e = (if is_gap e then (if gap_stream e = Some st then skipped e else 0) else if stream_of e = st then 1 else 0)"

definition event_total :: "string \<Rightarrow> pydict list \<Rightarrow> int" where
  "event_total st q = sum_list (map (accounts st) q)"

definition data_events :: "pydict list \<Rightarrow> nat" where
  "data_events q = length (filter (\<lambda>e. \<not> is_gap e) q)"

datatype gw_op = OpCall "pyfloat option" gw_request | OpPoll int "pydict \<Rightarrow> bool" | OpConnect string nat nat

definition run_op :: "gw_client \<Rightarrow> gw_op \<Rightarrow> gw \<Rightarrow> gw" where
  "run_op cl op1 = (\<lambda>s. case op1 of
       OpCall t req \<Rightarrow> snd (gw_rpc cl t req s)
     | OpPoll ms pred \<Rightarrow> snd (poll_filtered cl ms pred s)
     | OpConnect path n m \<Rightarrow> snd (gw_connect cl path n m s))"

definition run_ops :: "gw_client \<Rightarrow> gw_op list \<Rightarrow> gw \<Rightarrow> gw" where
  "run_ops cl ops s = fold (run_op cl) ops s"

text \<open>A concrete client for the witnesses: every payload is one frame, told apart by its first byte.\<close>

definition w_codec :: "gw_codec" where
  "w_codec = \<lparr>cd_build = (\<lambda>_. None), cd_serialize = (\<lambda>_ _. [0]),
     cd_parse = (\<lambda>p. Inr (case p of
       [] \<Rightarrow> \<lparr>fr_request_id = 0, fr_body = BodyNone\<rparr>
     | b # _ \<Rightarrow>
         if b = 1 then \<lparr>fr_request_id = 0, fr_body = BodyEvent (Some ''last_trade'') [(''trade_price'', PInt 7)]\<rparr>
         else if b = 2 then \<lparr>fr_request_id = 0, fr_body = BodyEvent (Some ''order_notification'') []\<rparr>
         else if b = 3 then \<lparr>fr_request_id = 0, fr_body = BodyEvent (Some ''gap'') [(''stream'', PStr ''ticker''), (''skipped'', PStr ''4'')]\<rparr>
         else if b = 4 then \<lparr>fr_request_id = 0, fr_body = BodyReady \<lparr>rd_scopes = [''orders''], rd_trading_enabled = True,
           rd_cancel_all_enabled = True, rd_gateway_instance_id = 8, rd_transport_generation = 1\<rparr>\<rparr>
         else \<lparr>fr_request_id = 1, fr_body = BodyReply ''ack'' []\<rparr>))\<rparr>"

definition w_config :: gateway_config where
  "w_config = \<lparr>gc_user = ''u'', gc_system_name = ''Rithmic Test'', gc_url = ''wss://x'', gc_env = ''TEST'',
     gc_account_id = [], gc_fcm_id = [], gc_ib_id = [], gc_auth_token = [], gc_listen = Some ''unix:///tmp/g'', gc_attest_flock = False\<rparr>"

definition w_client :: gw_client where
  "w_client = \<lparr>cl_codec = w_codec, cl_config = w_config, cl_rpc_timeout = Fin 30, cl_history_timeout = Fin 600\<rparr>"

definition w_frame :: "byte \<Rightarrow> recv" where
  "w_frame b = Chunk [0, 0, 0, 1, b]"

section \<open>Reading changes only the receive side\<close>

lemma fill_rx: "fill n s = (r, s') \<Longrightarrow> \<exists>b rs. s' = s\<lparr>rx_buf := b, rx_recv := rs\<rparr>"
  by (auto simp: fill_def split: prod.splits)

lemma rx_update_twice: "s\<lparr>rx_buf := b, rx_recv := rs\<rparr>\<lparr>rx_buf := b', rx_recv := rs'\<rparr> = s\<lparr>rx_buf := b', rx_recv := rs'\<rparr>"
  by simp

lemma read_payload_rx:
  fixes s :: "'x rx_conn_scheme"
  assumes "read_payload s = (r, s')"
  shows "\<exists>b rs. s' = s\<lparr>rx_buf := b, rx_recv := rs\<rparr>"
proof -
  obtain r1 s1 where f1: "fill 4 s = (r1, s1)" by fastforce
  obtain b1 rs1 where s1: "s1 = s\<lparr>rx_buf := b1, rx_recv := rs1\<rparr>" using fill_rx [OF f1] by blast
  define len where "len = be_nat (take 4 (rx_buf s1))"
  obtain r2 s2 where f2: "fill (4 + len) s1 = (r2, s2)" by fastforce
  obtain b2 rs2 where s2: "s2 = s1\<lparr>rx_buf := b2, rx_recv := rs2\<rparr>" using fill_rx [OF f2] by blast
  have "s' = s1 \<or> s' = s2 \<or> s' = s2\<lparr>rx_buf := drop (4 + len) (rx_buf s2)\<rparr>"
    using assms f1 f2 by (auto simp: read_payload_def em_simps len_def split: sum.splits if_splits)
  moreover have "s1 = s\<lparr>rx_buf := b1, rx_recv := rs1\<rparr>" by (rule s1)
  moreover have "s2 = s\<lparr>rx_buf := b2, rx_recv := rs2\<rparr>" by (simp add: s2 s1)
  moreover have "s2\<lparr>rx_buf := drop (4 + len) (rx_buf s2)\<rparr> = s\<lparr>rx_buf := drop (4 + len) b2, rx_recv := rs2\<rparr>" by (simp add: s2 s1)
  ultimately show ?thesis by metis
qed

lemma rx_unchanged: "\<exists>b rs. s = s\<lparr>rx_buf := b, rx_recv := rs\<rparr>"
  by (rule exI [of _ "rx_buf s"], rule exI [of _ "rx_recv s"]) simp

lemma read_frame_state: "read_frame cd s = (r, s') \<Longrightarrow> s' = s \<or> (\<exists>x. read_payload s = (x, s'))"
  unfolding read_frame_def by (auto simp: em_simps split: sum.splits prod.splits if_splits)

lemma read_frame_rx: "read_frame cd s = (r, s') \<Longrightarrow> \<exists>b rs. s' = s\<lparr>rx_buf := b, rx_recv := rs\<rparr>"
  using read_frame_state read_payload_rx rx_unchanged by metis

lemma read_frame_parsed: "read_frame cd s = (Inr fr, s') \<Longrightarrow> \<exists>p. cd_parse cd p = Inr fr"
  by (auto simp: read_frame_def em_returned split: if_splits)

section \<open>Replies\<close>

text \<open>The connection, the request counter and the requests sent.\<close>

definition same_link :: "gw \<Rightarrow> gw \<Rightarrow> bool" where
  "same_link s s' \<longleftrightarrow> gw_sock s' = gw_sock s \<and> gw_next_id s' = gw_next_id s \<and> gw_sent s' = gw_sent s"

definition is_reply :: "gw_frame \<Rightarrow> bool" where
  "is_reply fr \<longleftrightarrow> (case fr_body fr of BodyEvent _ _ \<Rightarrow> False | BodyError _ _ \<Rightarrow> False | _ \<Rightarrow> True)"

lemma read_frame_link: "read_frame cd s = (r, s') \<Longrightarrow> same_link s s'"
  by (auto simp: same_link_def dest!: read_frame_rx)

lemma take_event_link: "take_event w d s = (r, s') \<Longrightarrow> same_link s s'"
  by (auto simp: same_link_def take_event_def note_received_def queue_event_def em_simps split: prod.splits)

lemma same_link_trans: "same_link a b \<Longrightarrow> same_link b c \<Longrightarrow> same_link a c"
  by (simp add: same_link_def)

lemma rpc_wait_reply:
  "rpc_wait cd rid s = (r, s') \<Longrightarrow> same_link s s' \<and> (\<forall>fr. r = Inr fr \<longrightarrow> fr_request_id fr = rid \<and> is_reply fr)"
proof (induction cd rid s arbitrary: r s' rule: rpc_wait.induct)
  case (1 cd rid s)
  obtain x s1 where rd: "read_frame cd s = (x, s1)" by fastforce
  note l1 = read_frame_link [OF rd]
  show ?case
  proof (cases x)
    case (Inl e)
    with rd 1(2) l1 show ?thesis by (auto simp: rpc_wait.simps [of cd rid s])
  next
    case (Inr fr)
    show ?thesis
    proof (cases "\<exists>w d. fr_body fr = BodyEvent w d")
      case True
      then obtain w d where ev: "fr_body fr = BodyEvent w d" by blast
      obtain y s2 where t: "take_event w d s1 = (y, s2)" by fastforce
      note l2 = same_link_trans [OF l1 take_event_link [OF t]]
      show ?thesis
      proof (cases y)
        case (Inl e)
        with rd Inr ev t 1(2) l2 show ?thesis by (auto simp: rpc_wait.simps [of cd rid s])
      next
        case (Inr u)
        then have "rpc_wait cd rid s2 = (r, s')"
          using rd \<open>x = Inr fr\<close> ev t 1(2) by (simp add: rpc_wait.simps [of cd rid s])
        from 1(1) [OF rd [symmetric] \<open>x = Inr fr\<close> ev t [symmetric] Inr this] l2 show ?thesis by (blast intro: same_link_trans)
      qed
    next
      case False
      then have "r = rpc_frame rid fr" "s' = s1" using rd Inr 1(2) by (cases "fr_body fr"; simp add: rpc_wait.simps [of cd rid s])+
      then show ?thesis using l1 False
        by (cases "fr_body fr") (auto simp: rpc_frame_def is_reply_def split: if_splits)
    qed
  qed
qed

lemma write_frame_sent:
  "write_frame cd rid req s = (Inr (), s') \<Longrightarrow> gw_sock s' \<and> gw_next_id s' = gw_next_id s \<and> gw_sent s' = gw_sent s @ [(rid, req)]"
  by (auto simp: write_frame_def em_returned send_outcome_def split: if_splits option.splits list.splits)

text \<open>Running the client of the witnesses.\<close>

lemmas w_run = gw_rpc_def rpc_unlocked_def em_simps w_client_def w_codec_def w_frame_def gw_new_def write_frame_def encode_frame_def
  MAX_FRAME_LEN_def send_outcome_def rpc_wait.simps read_frame_def read_payload_def fill_def fill_from.simps be_nat_def rpc_frame_def
  take_event_def note_received_def queue_event_def queue_in_def make_room.simps MAX_PENDING_EVENTS_def event_to_dict_def

lemmas w_poll = run_ops_def run_op_def gw_connect_def dial_with_attach_def gw_dial_def require_parent_flock_def w_config_def
  handshake_until_ready.simps gw_handshake_def poll_filtered_def poll_wait.simps deliver_def event_total_def accounts_def
  is_order_event_def is_md_event_def is_gap_def event_type_in_def gap_stream_def stream_of_def dget_def py_str_def skipped_def

lemma w_digits: "py_int (PStr ''4'') = Inr 4"
  by code_simp

section \<open>What every operation keeps\<close>

lemma dropWhile_gap_data: "data_events (dropWhile is_gap q) = data_events q"
  unfolding data_events_def by (induction q) auto

lemma event_total_simps [simp]: "event_total st [] = 0" "event_total st (e # q) = accounts st e + event_total st q" "event_total st (q @ q') = event_total st q + event_total st q'"
  by (simp_all add: event_total_def)

lemma bump_gap_accounts:
  assumes "bump_gap st gs = Inr (Some gs')" "list_all is_gap gs"
  shows "event_total x gs' = event_total x gs + (if x = st then 1 else 0) \<and> (list_all good_event gs \<longrightarrow> list_all good_event gs')"
  using assms
proof (induction gs arbitrary: gs')
  case (Cons g gs)
  show ?case
  proof (cases "dget g ''stream'' = PStr st")
    case True
    with Cons.prems obtain v n where v: "map_of g ''skipped'' = Some v" "py_int v = Inr n"
      and gs': "gs' = dict_set ''skipped'' (PInt (n + 1)) g # gs" by (auto simp: bindR_eq_Inr_iff split: option.splits)
    let ?g = "dict_set ''skipped'' (PInt (n + 1)) g"
    have "is_gap ?g" "gap_stream ?g = Some st" "gap_stream g = Some st" "is_gap g"
      using Cons.prems(2) True by (simp_all add: is_gap_dict_set gap_stream_def dget_def py_str_def)
    moreover have "skipped ?g = n + 1" "skipped g = n" using v by (simp_all add: skipped_def dget_def py_int_def)
    moreover have "good_gap ?g" using True by (simp add: good_gap_def dget_def py_int_def)
    ultimately show ?thesis by (simp add: gs' accounts_def good_event_def)
  next
    case False
    with Cons.prems obtain r where "bump_gap st gs = Inr (Some r)" "gs' = g # r" by (auto simp: bindR_eq_Inr_iff)
    with Cons.IH [of r] Cons.prems(2) show ?thesis by simp
  qed
qed simp

lemma bump_gap_returns: "list_all is_gap gs \<Longrightarrow> list_all good_event gs \<Longrightarrow> \<exists>r. bump_gap st gs = Inr r"
  by (induction gs) (auto simp: good_event_def good_gap_def bindR_eq_Inr_iff)

lemma report_loss_accounts:
  assumes "list_all is_gap gs" "list_all good_event gs"
  shows "\<exists>gs'. report_loss st gs = Inr gs' \<and> (\<forall>x. event_total x gs' = event_total x gs + (if x = st then 1 else 0)) \<and> list_all good_event gs'"
proof -
  obtain r where r: "bump_gap st gs = Inr r" using bump_gap_returns [OF assms] by blast
  show ?thesis
  proof (cases r)
    case None
    let ?g = "[(''type'', PStr ''gap''), (''stream'', PStr st), (''skipped'', PInt 1)]"
    have "accounts x ?g = (if x = st then 1 else 0)" for x
      by (simp add: accounts_def is_gap_def gap_stream_def skipped_def dget_def py_int_def py_str_def)
    moreover have "good_event ?g" by (simp add: good_event_def good_gap_def dget_def py_int_def)
    ultimately show ?thesis using r None assms by (simp add: report_loss_def)
  next
    case (Some gs')
    then show ?thesis using r bump_gap_accounts [of st gs gs'] assms by (auto simp: report_loss_def)
  qed
qed

lemma make_room_accounts:
  "list_all good_event q \<Longrightarrow> \<exists>q'. make_room n q = (Inr (), q') \<and> (\<forall>x. event_total x q' = event_total x q) \<and> list_all good_event q'
     \<and> data_events q' \<le> data_events q \<and> (length q' < n \<or> data_events q' = 0)"
proof (induction n q rule: make_room.induct)
  case (1 n q)
  have split: "q = takeWhile is_gap q @ dropWhile is_gap q" by simp
  show ?case
  proof (cases "length q < n \<or> dropWhile is_gap q = []")
    case True
    have "data_events q = 0" if "dropWhile is_gap q = []" using that by (metis dropWhile_gap_data data_events_def filter.simps(1) list.size(3))
    moreover have "make_room n q = (Inr (), q)" using True by (auto simp: make_room.simps [of n q] simp del: dropWhile_eq_Nil_conv)
    ultimately show ?thesis using 1(2) True by auto
  next
    case False
    then obtain d later where dl: "dropWhile is_gap q = d # later" by (cases "dropWhile is_gap q") auto
    have gd: "list_all good_event (takeWhile is_gap q)" "good_event d" "list_all good_event later"
      using 1(2) unfolding list_all_iff by (auto simp: dl dest: set_takeWhileD, metis dl in_set_conv_decomp dropWhile_append1 set_dropWhileD list.set_intros, metis dl set_dropWhileD list.set_intros(2))
    obtain gs where gs: "report_loss (stream_of d) (takeWhile is_gap q) = Inr gs" "list_all good_event gs"
      "\<And>x. event_total x gs = event_total x (takeWhile is_gap q) + (if x = stream_of d then 1 else 0)"
      using report_loss_accounts [OF list_all_takeWhile gd(1)] by blast
    have nd: "\<not> is_gap d" using dl by (metis hd_dropWhile list.distinct(1) list.sel(1))
    have tot: "event_total x (gs @ later) = event_total x q" for x
    proof -
      have "event_total x q = event_total x (takeWhile is_gap q) + event_total x (d # later)" by (metis split dl event_total_simps(3))
      then show ?thesis using nd by (simp add: gs(3) accounts_def)
    qed
    have "list_all is_gap gs" using gs(1) list_all_takeWhile by (rule report_loss_gaps)
    then have "filter (\<lambda>e. \<not> is_gap e) gs = []" by (simp add: filter_empty_conv list_all_iff)
    then have cnt: "data_events (gs @ later) \<le> data_events q"
      using dropWhile_gap_data [of q] by (simp add: dl data_events_def nd)
    have run: "make_room n q = make_room n (gs @ later)" using False dl gs(1) by (simp add: make_room.simps [of n q])
    show ?thesis
      using 1(1) [OF _ dl gs(1)] False gd(3) gs(2) tot cnt unfolding run by fastforce
  qed
qed

lemma queue_in_accounts:
  assumes "list_all good_event q" "good_event e" "0 < n" "data_events q \<le> n"
  shows "\<exists>q'. queue_in n e q = (Inr (), q') \<and> (\<forall>x. event_total x q' = event_total x q + accounts x e) \<and> list_all good_event q'
    \<and> data_events q' \<le> n"
proof -
  obtain q' where q': "make_room n q = (Inr (), q')" "\<And>x. event_total x q' = event_total x q" "list_all good_event q'"
    "length q' < n \<or> data_events q' = 0" using make_room_accounts [OF assms(1), of n] by blast
  have "data_events q' \<le> length q'" "data_events (q' @ [e]) \<le> data_events q' + 1" by (simp_all add: data_events_def)
  then have "data_events (q' @ [e]) \<le> n" using q'(4) assms(3) by linarith
  then show ?thesis using q' assms(2) by (simp add: queue_in_def)
qed

text \<open>One turn around the queue keeps its events: the one it found, if any, and the others.\<close>

lemma take_queued_mset: "take_queued pred n q = (r, q') \<Longrightarrow> mset q = mset q' + (case r of None \<Rightarrow> {#} | Some e \<Rightarrow> {#e#})"
  by (induction pred n q rule: take_queued.induct) (auto split: if_splits)

lemma take_queued_found: "take_queued pred n q = (Some e, q') \<Longrightarrow> pred e"
  by (induction pred n q rule: take_queued.induct) (auto split: if_splits)

lemma event_total_mset: "event_total x q = sum_mset (image_mset (accounts x) (mset q))"
  by (simp add: event_total_def flip: sum_mset_sum_list)

lemma data_events_mset: "data_events q = size (filter_mset (\<lambda>e. \<not> is_gap e) (mset q))"
  by (simp add: data_events_def flip: mset_filter)

lemma list_all_mset: "list_all P q \<longleftrightarrow> (\<forall>e \<in># mset q. P e)"
  by (simp add: list_all_iff)

text \<open>
  A property of the client that every event read, queued or handed over and every numbered request keeps is kept by
  every operation: the rest of the client's state is its connection. \<open>good\<close> is what the parsed events are known to be.
\<close>

definition same_books :: "gw \<Rightarrow> gw \<Rightarrow> bool" where
  "same_books s s' \<longleftrightarrow> gw_pending s' = gw_pending s \<and> gw_received s' = gw_received s \<and> gw_delivered s' = gw_delivered s
     \<and> gw_next_id s' = gw_next_id s \<and> gw_sent s' = gw_sent s"

definition kept :: "(gw \<Rightarrow> bool) \<Rightarrow> gw \<Rightarrow> gw \<Rightarrow> bool" where
  "kept law s s' \<longleftrightarrow> (law s \<longrightarrow> law s')"

lemma kept_refl: "reflp (kept law)"
  by (simp add: reflp_def kept_def)

lemma kept_trans: "transp (kept law)"
  by (simp add: transp_def kept_def)

lemmas kept_rules = keeps_rules kept_refl kept_trans

lemma write_frame_books:
  assumes "write_frame cd rid req s = (r, s')"
  shows "same_books s s' \<or> (\<exists>s1. same_books s s1 \<and> s' = s1\<lparr>gw_sent := gw_sent s1 @ [(rid, req)]\<rparr>)"
proof -
  obtain x s1 where o: "send_outcome s = (Inr x, s1)" and b: "same_books s s1"
    by (cases "gw_sends s") (auto simp: send_outcome_def same_books_def)
  from b have "same_books s (snd (close_sock s1))" by (simp add: close_sock_def em_simps same_books_def)
  moreover have "s' = s \<or> s' = s1 \<or> s' = snd (close_sock s1) \<or> s' = s1\<lparr>gw_sent := gw_sent s1 @ [(rid, req)]\<rparr>"
    using assms o by (auto simp: write_frame_def em_simps close_sock_def split: if_splits sum.splits option.splits prod.splits)
  moreover have "same_books s s" by (simp add: same_books_def)
  ultimately show ?thesis using b by blast
qed

locale gateway_law =
  fixes good :: "pydict \<Rightarrow> bool" and law :: "gw \<Rightarrow> bool"
  assumes same: "law s \<Longrightarrow> same_books s s' \<Longrightarrow> law s'"
    and greeted: "law s \<Longrightarrow> law (s\<lparr>gw_sent := gw_sent s @ [(0, req)]\<rparr>)"
    and numbered: "law s \<Longrightarrow> law (s\<lparr>gw_next_id := gw_next_id s + 1\<rparr>)"
    and requested: "law s \<Longrightarrow> law (s\<lparr>gw_next_id := gw_next_id s + 1, gw_sent := gw_sent s @ [(gw_next_id s, req)]\<rparr>)"
    and queued: "law s \<Longrightarrow> good (event_to_dict w d) \<Longrightarrow> take_event w d s = (r, s') \<Longrightarrow> law s'"
    and passed: "law s \<Longrightarrow> good e \<Longrightarrow> law (s\<lparr>gw_received := gw_received s @ [e], gw_delivered := gw_delivered s @ [e]\<rparr>)"
    and found: "law s \<Longrightarrow> take_queued pred n (gw_pending s) = (Some e, q) \<Longrightarrow> law (s\<lparr>gw_pending := q, gw_delivered := gw_delivered s @ [e]\<rparr>)"
    and turned: "law s \<Longrightarrow> take_queued pred n (gw_pending s) = (None, q) \<Longrightarrow> law (s\<lparr>gw_pending := q\<rparr>)"
begin

lemma kept_same: "(\<And>s. same_books s (snd (m s))) \<Longrightarrow> keeps (kept law) m"
  by (auto simp: keeps_def kept_def intro: same)

lemma kept_modifyE: "(\<And>s. same_books s (f s)) \<Longrightarrow> keeps (kept law) (modifyE f)"
  by (rule kept_same) (simp add: em_simps)

lemma kept_read_frame: "keeps (kept law) (read_frame cd)"
proof (rule kept_same)
  fix s show "same_books s (snd (read_frame cd s))"
    using read_frame_rx [of cd s "fst (read_frame cd s)" "snd (read_frame cd s)"] by (auto simp: same_books_def)
qed

lemma kept_link:
  "keeps (kept law) close_sock" "keeps (kept law) gw_dial" "keeps (kept law) send_outcome" "keeps (kept law) flock_held" "keeps (kept law) socket_listening"
  by (rule kept_same, simp add: same_books_def close_sock_def gw_dial_def send_outcome_def flock_held_def socket_listening_def em_simps
      split: list.splits sum.splits)+

lemma kept_greeting: "keeps (kept law) (write_frame cd 0 req)"
proof (rule keepsI)
  fix s
  obtain r s' where "write_frame cd 0 req s = (r, s')" by fastforce
  with write_frame_books [OF this] show "kept law s (snd (write_frame cd 0 req s))"
    by (auto simp: kept_def intro: same greeted)
qed

lemma request_law:
  assumes "law s" "write_frame cd (gw_next_id s) req (s\<lparr>gw_next_id := gw_next_id s + 1\<rparr>) = (r, s')"
  shows "law s'"
  using write_frame_books [OF assms(2)]
proof (elim disjE exE conjE)
  fix s1
  assume "same_books (s\<lparr>gw_next_id := gw_next_id s + 1\<rparr>) s1" "s' = s1\<lparr>gw_sent := gw_sent s1 @ [(gw_next_id s, req)]\<rparr>"
  then have "same_books (s\<lparr>gw_next_id := gw_next_id s + 1, gw_sent := gw_sent s @ [(gw_next_id s, req)]\<rparr>) s'"
    by (simp add: same_books_def)
  with requested [OF assms(1)] show ?thesis by (rule same)
qed (rule same [OF numbered [OF assms(1)]])

lemma kept_require_parent_flock: "keeps (kept law) (require_parent_flock cfg)"
  unfolding require_parent_flock_def by (intro kept_rules kept_link)

lemma kept_rpc_wait:
  assumes "codec_law good cd" "law s"
  shows "law (snd (rpc_wait cd rid s))"
  using assms
proof (induction cd rid s rule: rpc_wait.induct)
  case (1 cd rid s)
  obtain x s1 where rd: "read_frame cd s = (x, s1)" by fastforce
  have l1: "law s1" using keepsD_eq [OF kept_read_frame rd] 1(3) by (simp add: kept_def)
  show ?case
  proof (cases x)
    case (Inr fr)
    show ?thesis
    proof (cases "fr_body fr")
      case (BodyEvent w d)
      obtain y s2 where t: "take_event w d s1 = (y, s2)" by fastforce
      have "good (event_to_dict w d)" using 1(2) read_frame_parsed [of cd s fr s1] rd Inr BodyEvent by (auto simp: codec_law_def)
      with l1 t have "law s2" by (blast intro: queued)
      then show ?thesis
        using 1(1) [OF rd [symmetric] Inr BodyEvent t [symmetric]] 1(2) rd Inr BodyEvent t
        by (cases y) (simp_all add: rpc_wait.simps [of cd rid s])
    qed (use rd Inr l1 in \<open>simp_all add: rpc_wait.simps [of cd rid s]\<close>)
  qed (use rd l1 in \<open>simp add: rpc_wait.simps [of cd rid s]\<close>)
qed

lemma kept_poll_wait:
  assumes "codec_law good cd" "law s"
  shows "law (snd (poll_wait cd pred timed s))"
  using assms
proof (induction cd pred timed s rule: poll_wait.induct)
  case (1 cd pred timed s)
  obtain x s1 where rd: "read_frame cd s = (x, s1)" by fastforce
  have l1: "law s1" using keepsD_eq [OF kept_read_frame rd] 1(7) by (simp add: kept_def)
  show ?case
  proof (cases x)
    case (Inr fr)
    note rr = rd [symmetric] Inr
    show ?thesis
    proof (cases "fr_body fr")
      case (BodyEvent w d)
      obtain y s2 where t: "take_event w d s1 = (y, s2)" by fastforce
      have g: "good (event_to_dict w d)" using 1(6) read_frame_parsed [of cd s fr s1] rd Inr BodyEvent by (auto simp: codec_law_def)
      with l1 t have l2: "law s2" by (blast intro: queued)
      show ?thesis
      proof (cases "pred (event_to_dict w d)")
        case True
        then show ?thesis using passed [OF l1 g] rd Inr BodyEvent
          by (simp add: poll_wait.simps [of cd pred timed s] em_simps note_received_def deliver_def)
      next
        case False
        then show ?thesis
          using 1(1) [OF rr BodyEvent False t [symmetric]] 1(6) rd Inr BodyEvent t l2
          by (cases y) (simp_all add: poll_wait.simps [of cd pred timed s])
      qed
    next
      case (BodyReady r)
      then show ?thesis using 1(2) [OF rr BodyReady] rd Inr l1 1(6) by (simp add: poll_wait.simps [of cd pred timed s])
    next
      case (BodyReply n rows)
      then show ?thesis using 1(3) [OF rr BodyReply] rd Inr l1 1(6) by (simp add: poll_wait.simps [of cd pred timed s])
    next
      case (BodyDates ds)
      then show ?thesis using 1(4) [OF rr BodyDates] rd Inr l1 1(6) by (simp add: poll_wait.simps [of cd pred timed s])
    next
      case BodyNone
      then show ?thesis using 1(5) [OF rr BodyNone] rd Inr l1 1(6) by (simp add: poll_wait.simps [of cd pred timed s])
    qed (use rd Inr l1 in \<open>simp_all add: poll_wait.simps [of cd pred timed s]\<close>)
  qed (use rd l1 in \<open>simp add: poll_wait.simps [of cd pred timed s]\<close>)
qed

lemma kept_waits: "codec_law good cd \<Longrightarrow> keeps (kept law) (rpc_wait cd rid)" "codec_law good cd \<Longrightarrow> keeps (kept law) (poll_wait cd pred timed)"
  by (simp_all add: keeps_def kept_def kept_rpc_wait kept_poll_wait)

lemma kept_call:
  assumes "codec_law good (cl_codec cl)"
  shows "keeps (kept law) (gw_rpc cl t req)"
proof (cases "cd_build (cl_codec cl) req")
  case None
  define wait where "wait rid = catchE (rpc_wait (cl_codec cl) rid) (\<lambda>e.
      if fatal_wire_error e then thenE close_sock (raiseE e)
      else if timed_out e then
        thenE close_sock (raiseE (gateway_error ''timeout'' (''RPC '' @ int_str rid @ '' timed out after ''
          @ float_repr (case t of None \<Rightarrow> cl_rpc_timeout cl | Some t \<Rightarrow> t) @ ''s'')))
      else raiseE e)" for rid
  have w: "keeps (kept law) (wait rid)" for rid
    unfolding wait_def by (intro kept_rules kept_link kept_waits assms)
  have "law (snd (gw_rpc cl t req s))" if "law s" for s
  proof (cases "gw_sock s")
    case True
    let ?s = "s\<lparr>gw_next_id := gw_next_id s + 1\<rparr>"
    obtain r s1 where f: "write_frame (cl_codec cl) (gw_next_id s) req ?s = (r, s1)" by fastforce
    have l: "law s1" using that f by (rule request_law)
    have "snd (gw_rpc cl t req s) = (case r of Inl _ \<Rightarrow> s1 | Inr _ \<Rightarrow> snd (wait (gw_next_id s) s1))"
      using True None f by (simp add: gw_rpc_def rpc_unlocked_def em_simps wait_def split: sum.splits)
    then show ?thesis using l keepsD [OF w] by (simp add: kept_def split: sum.splits)
  qed (simp add: gw_rpc_def rpc_unlocked_def em_simps None that)
  then show ?thesis by (simp add: keeps_def kept_def)
qed (simp add: gw_rpc_def kept_rules)

lemma kept_poll:
  assumes "codec_law good (cl_codec cl)"
  shows "keeps (kept law) (poll_filtered cl ms pred)"
proof -
  define wait where "wait = catchE (poll_wait (cl_codec cl) pred (ms > 0)) (\<lambda>e.
    if fatal_wire_error e then thenE close_sock (raiseE e) else if timed_out e then returnE None else raiseE e)"
  have w: "keeps (kept law) wait"
    unfolding wait_def by (intro kept_rules kept_link kept_waits assms)
  have "kept law s (snd (poll_filtered cl ms pred s))" for s
  proof (cases "gw_sock s")
    case True
    obtain r q where t: "take_queued pred (length (gw_pending s)) (gw_pending s) = (r, q)" by fastforce
    show ?thesis
    proof (cases r)
      case None
      have "snd (poll_filtered cl ms pred s) = snd (wait (s\<lparr>gw_pending := q\<rparr>))"
        using True t None by (simp add: poll_filtered_def wait_def em_simps)
      then show ?thesis using turned [of s pred _ q] t None keepsD [OF w] by (simp add: kept_def)
    next
      case (Some e)
      then show ?thesis using found [of s pred _ e q] t True by (simp add: kept_def poll_filtered_def deliver_def em_simps)
    qed
  qed (simp add: poll_filtered_def em_simps kept_def split: prod.splits)
  then show ?thesis by (rule keepsI)
qed

lemma kept_handshake: "keeps (kept law) (gw_handshake cl)"
  unfolding gw_handshake_def Let_def
  by (intro kept_rules kept_link kept_greeting kept_read_frame; rule kept_same; simp add: same_books_def em_simps split: gw_body.splits)

lemma kept_handshake_until_ready: "keeps (kept law) (handshake_until_ready cl m)"
  by (induction m)
     (subst handshake_until_ready.simps, simp only: Let_def nat.case,
      intro kept_rules kept_handshake kept_link kept_require_parent_flock, assumption?)+

lemma kept_attach: "keeps (kept law) (wait_for_parent_socket path n)" "keeps (kept law) (resolve_dial_failure path n)" "keeps (kept law) (dial_with_attach path n)"
proof -
  show w: "keeps (kept law) (wait_for_parent_socket path n)"
    by (induction n) (simp only: wait_for_parent_socket.simps, intro kept_rules kept_link, assumption?)+
  show r: "keeps (kept law) (resolve_dial_failure path n)"
    unfolding resolve_dial_failure_def by (intro kept_rules kept_link w)
  show "keeps (kept law) (dial_with_attach path n)"
    unfolding dial_with_attach_def by (intro kept_rules kept_link r)
qed

lemma kept_connect: "keeps (kept law) (gw_connect cl path n m)"
  unfolding gw_connect_def by (intro kept_rules kept_attach kept_require_parent_flock kept_handshake_until_ready)

lemma run_ops_law:
  assumes "codec_law good (cl_codec cl)" "law s"
  shows "law (run_ops cl ops s)"
proof -
  have "law s \<Longrightarrow> law (run_op cl op1 s)" for op1 s
    using keepsD [OF kept_call [OF assms(1)]] keepsD [OF kept_poll [OF assms(1)]] keepsD [OF kept_connect]
    by (cases op1) (simp_all add: run_op_def kept_def)
  with assms(2) show ?thesis unfolding run_ops_def by (induction ops arbitrary: s) simp_all
qed

end

section \<open>Request numbers\<close>

text \<open>Every number under which a request was sent is below the next one; handshakes are sent without a number.\<close>

definition numbers_used :: "gw \<Rightarrow> bool" where
  "numbers_used s \<longleftrightarrow> 1 \<le> gw_next_id s \<and> (\<forall>q \<in> set (gw_sent s). fst q < gw_next_id s)"

interpretation gateway_numbers: gateway_law "\<lambda>_. True" numbers_used
proof
  fix s w d r s'
  assume "numbers_used s" "take_event w d s = (r, s')"
  then show "numbers_used s'" using take_event_link [of w d s r s'] by (simp add: same_link_def numbers_used_def)
qed (auto simp: same_books_def numbers_used_def)

text \<open>What a client can have been through: calls, polls, connects and disconnects, in any order and with any outcome.\<close>

inductive client_life :: "gw_client \<Rightarrow> gw \<Rightarrow> bool" for cl where
  fresh: "client_life cl ((gw_new dials)\<lparr>gw_sends := sends, gw_flocks := flocks, gw_listening := listening\<rparr>)"
| operated: "client_life cl s \<Longrightarrow> client_life cl (run_op cl op1 s)"
| disconnected: "client_life cl s \<Longrightarrow> client_life cl (snd (gw_disconnect cl s))"

lemma life_numbers: "client_life cl s \<Longrightarrow> numbers_used s"
proof (induction rule: client_life.induct)
  case (fresh dials sends flocks listening)
  show ?case by (simp add: numbers_used_def gw_new_def)
next
  case (operated s op1)
  then show ?case using gateway_numbers.run_ops_law [of cl s "[op1]"] by (simp add: codec_law_def run_ops_def)
next
  case (disconnected s)
  have "keeps (kept numbers_used) (modifyE (\<lambda>s. s\<lparr>gw_pending := []\<rparr>))"
    by (rule keeps_modifyE) (simp add: kept_def numbers_used_def)
  then have "keeps (kept numbers_used) (gw_disconnect cl)"
    unfolding gw_disconnect_def by (intro kept_rules gateway_numbers.kept_call gateway_numbers.kept_link) (simp_all add: codec_law_def)
  from keepsD [OF this] disconnected.IH show ?case by (simp add: kept_def)
qed

text \<open>
  C7: a call returns the reply to its own request. Take a client after any calls, polls, connects, reconnects and
  disconnects, and let anything arrive on the connection while a call waits (events, replies to earlier calls,
  errors, interrupted reads). If the call returns, the frame it returns is neither an event nor an error and carries
  the number under which this very request was sent; in the whole life of the client, over all its connections, no
  other request was sent under that number; the connection is still up.
\<close>

theorem call_returns_its_own_reply:
  assumes "client_life cl s" "gw_rpc cl timeout req s = (Inr fr, s')"
  shows "fr_request_id fr = gw_next_id s \<and> is_reply fr \<and> gw_sent s' = gw_sent s @ [(gw_next_id s, req)]
    \<and> filter (\<lambda>q. fst q = fr_request_id fr) (gw_sent s') = [(fr_request_id fr, req)]
    \<and> gw_next_id s' = gw_next_id s + 1 \<and> gw_sock s'"
proof -
  obtain s1 s2 where w: "write_frame (cl_codec cl) (gw_next_id s) req (s\<lparr>gw_next_id := gw_next_id s + 1\<rparr>) = (Inr (), s1)"
    and r: "rpc_wait (cl_codec cl) (gw_next_id s) s1 = (Inr fr, s')"
    using assms(2)
    by (auto simp: gw_rpc_def rpc_unlocked_def em_returned split: if_splits option.splits)
  have "filter (\<lambda>q. fst q = gw_next_id s) (gw_sent s) = []"
    using life_numbers [OF assms(1)] by (force simp: numbers_used_def filter_empty_conv)
  then show ?thesis using write_frame_sent [OF w] rpc_wait_reply [OF r] by (auto simp: same_link_def)
qed

theorem call_returns_its_own_reply_witness:
  "let s = run_op w_client (OpConnect ''/tmp/g'' 0 0) (gw_new [Inr [w_frame 4, w_frame 1, Chunk [0, 0], Chunk [0, 1, 9]]]);
       s' = snd (gw_rpc w_client None (''subscribe_pnl'', []) s)
   in fst (gw_rpc w_client None (''subscribe_pnl'', []) s) = Inr \<lparr>fr_request_id = 1, fr_body = BodyReply ''ack'' []\<rparr>
      \<and> filter (\<lambda>q. fst q = 1) (gw_sent s') = [(1, (''subscribe_pnl'', []))] \<and> gw_next_id s' = 2 \<and> gw_sock s'"
proof -
  let ?g = "gw_new [Inr [w_frame 4, w_frame 1, Chunk [0, 0], Chunk [0, 1, 9]]]"
  define s where "s = run_op w_client (OpConnect ''/tmp/g'' 0 0) ?g"
  have "?g = ?g\<lparr>gw_sends := [], gw_flocks := [], gw_listening := []\<rparr>" by (simp add: gw_new_def)
  then have "client_life w_client ?g" by (metis client_life.fresh)
  then have l: "client_life w_client s" unfolding s_def by (rule client_life.operated)
  have r: "fst (gw_rpc w_client None (''subscribe_pnl'', []) s) = Inr \<lparr>fr_request_id = 1, fr_body = BodyReply ''ack'' []\<rparr>"
    and n: "gw_next_id s = 1" by (simp_all add: s_def w_run w_poll Let_def)
  then have "gw_rpc w_client None (''subscribe_pnl'', []) s = (Inr \<lparr>fr_request_id = 1, fr_body = BodyReply ''ack'' []\<rparr>,
      snd (gw_rpc w_client None (''subscribe_pnl'', []) s))" by (simp add: prod_eq_iff)
  note c = call_returns_its_own_reply [OF l this, unfolded n gw_frame.simps one_add_one]
  show ?thesis unfolding Let_def s_def [symmetric] using c r by blast
qed

section \<open>Accounting\<close>

text \<open>The events received are those handed to callers and those still queued, or counted in the loss reports among them.\<close>

definition conserved :: "gw \<Rightarrow> bool" where
  "conserved s \<longleftrightarrow> list_all good_event (gw_pending s) \<and> data_events (gw_pending s) \<le> MAX_PENDING_EVENTS
     \<and> (\<forall>x. event_total x (gw_received s) = event_total x (gw_delivered s) + event_total x (gw_pending s))"

lemma conserved_turn:
  assumes "conserved s" "take_queued pred n (gw_pending s) = (r, q)"
  shows "list_all good_event q" "data_events q \<le> MAX_PENDING_EVENTS"
    "event_total x (gw_pending s) = event_total x q + (case r of None \<Rightarrow> 0 | Some e \<Rightarrow> accounts x e)"
  using assms take_queued_mset [OF assms(2)]
  by (auto simp: conserved_def list_all_mset data_events_mset event_total_mset split: option.splits)

interpretation gateway_events: gateway_law good_event conserved
proof
  fix s w d r s'
  assume c: "conserved s" "good_event (event_to_dict w d)" "take_event w d s = (r, s')"
  then obtain q where "queue_in MAX_PENDING_EVENTS (event_to_dict w d) (gw_pending s) = (Inr (), q)"
    "\<forall>x. event_total x q = event_total x (gw_pending s) + accounts x (event_to_dict w d)" "list_all good_event q"
    "data_events q \<le> MAX_PENDING_EVENTS"
    using queue_in_accounts [of "gw_pending s" "event_to_dict w d" MAX_PENDING_EVENTS] by (auto simp: conserved_def MAX_PENDING_EVENTS_def)
  then show "conserved s'" using c by (auto simp: take_event_def note_received_def queue_event_def em_simps conserved_def)
next
  fix s pred n e q
  assume c: "conserved s" "take_queued pred n (gw_pending s) = (Some e, q)"
  then show "conserved (s\<lparr>gw_pending := q, gw_delivered := gw_delivered s @ [e]\<rparr>)"
    using conserved_turn [OF c] c(1) unfolding conserved_def by simp
next
  fix s pred n q
  assume c: "conserved s" "take_queued pred n (gw_pending s) = (None, q)"
  then show "conserved (s\<lparr>gw_pending := q\<rparr>)"
    using conserved_turn [OF c] c(1) unfolding conserved_def by simp
qed (auto simp: same_books_def conserved_def)

lemma codec_ok_law: "codec_ok cd \<longleftrightarrow> codec_law good_event cd"
  by (simp add: codec_ok_def codec_law_def)

text \<open>
  C6: no event disappears silently. Start with a client that has never been connected, any outcomes of its dials,
  sends and reads to come, and run any calls, polls (for any class of events) and reconnects, whether they return or
  raise. Then on every stream the events that arrived (with the losses the gateway reported) are exactly accounted for
  by the events handed to callers and those still queued, where a loss report counts for the number it carries: what
  the full queue dropped is in a report. And at most 100000 data events are queued.
\<close>

theorem no_event_is_lost_silently:
  assumes "codec_ok (cl_codec cl)"
    and "s = run_ops cl ops ((gw_new dials)\<lparr>gw_sends := sends, gw_flocks := flocks, gw_listening := listening\<rparr>)"
  shows "event_total stream1 (gw_received s) = event_total stream1 (gw_delivered s) + event_total stream1 (gw_pending s)
    \<and> length (filter (\<lambda>e. \<not> is_gap e) (gw_pending s)) \<le> MAX_PENDING_EVENTS"
proof -
  have "conserved ((gw_new dials)\<lparr>gw_sends := sends, gw_flocks := flocks, gw_listening := listening\<rparr>)"
    by (simp add: conserved_def gw_new_def data_events_def)
  then have "conserved s" unfolding assms(2) by (rule gateway_events.run_ops_law [OF assms(1) [unfolded codec_ok_law]])
  then show ?thesis by (simp add: conserved_def data_events_def)
qed

lemma w_codec_ok: "codec_ok w_codec"
  by (auto simp: codec_ok_def w_codec_def good_event_def good_gap_def is_gap_def event_to_dict_def dget_def w_digits split: list.splits if_splits)

theorem no_event_is_lost_silently_witness:
  "let s = run_ops w_client [OpConnect ''/tmp/g'' 0 0, OpPoll 5 is_order_event, OpPoll 5 is_md_event]
         (gw_new [Inr [w_frame 4, w_frame 3, w_frame 2, w_frame 1]])
   in event_total ''ticker'' (gw_received s) = 4
      \<and> event_total ''ticker'' (gw_delivered s) + event_total ''ticker'' (gw_pending s) = 4"
proof -
  define ops where "ops = [OpConnect ''/tmp/g'' 0 0, OpPoll 5 is_order_event, OpPoll 5 is_md_event]"
  define s where "s = run_ops w_client ops ((gw_new [Inr [w_frame 4, w_frame 3, w_frame 2, w_frame 1]])\<lparr>gw_sends := [], gw_flocks := [], gw_listening := []\<rparr>)"
  have s: "s = run_ops w_client ops (gw_new [Inr [w_frame 4, w_frame 3, w_frame 2, w_frame 1]])" by (simp add: s_def gw_new_def)
  have "event_total ''ticker'' (gw_received s) = 4"
    unfolding s ops_def
    by (simp add: w_run w_poll w_digits Let_def)
  then show ?thesis
    using no_event_is_lost_silently [OF _ s_def, of "''ticker''"] w_codec_ok unfolding Let_def ops_def [symmetric] s [symmetric]
    by (simp add: w_client_def)
qed

section \<open>Order of the queued events\<close>

text \<open>What a poll takes from the queue, and where it leaves the others: those in front of it go behind the rest.\<close>

lemma take_queued_turn:
  "list_all (\<lambda>e. \<not> pred e) pre \<Longrightarrow> length pre < n \<Longrightarrow> pred m \<Longrightarrow> take_queued pred n (pre @ m # post) = (Some m, post @ pre)"
proof (induction pre arbitrary: n post)
  case Nil
  then show ?case by (cases n) simp_all
next
  case (Cons e pre)
  then obtain k where n: "n = Suc k" by (cases n) auto
  have "take_queued pred k (pre @ m # (post @ [e])) = (Some m, (post @ [e]) @ pre)"
    using Cons.IH [of k "post @ [e]"] Cons.prems n by simp
  then show ?case using Cons.prems n by simp
qed

lemma md_or_order: "\<not> (is_md_event e \<and> is_order_event e)"
  by (auto simp: is_md_event_def is_order_event_def gap_stream_def is_gap_def event_type_in_def split: if_splits)

lemma poll_queued:
  assumes "gw_sock s" "gw_pending s = pre @ m # post" "list_all (\<lambda>e. \<not> pred e) pre" "pred m"
  shows "poll_filtered cl ms pred s = (Inr (Some m), s\<lparr>gw_pending := post @ pre, gw_delivered := gw_delivered s @ [m]\<rparr>)"
  using take_queued_turn [of pred pre "length (gw_pending s)" m post] assms
  by (simp add: poll_filtered_def deliver_def em_simps)

lemma polls_of_one_stream:
  "gw_sock s \<Longrightarrow> list_all pred (gw_pending s) \<Longrightarrow>
     gw_delivered (run_ops cl (replicate (length (gw_pending s)) (OpPoll ms pred)) s) = gw_delivered s @ gw_pending s"
proof (induction "gw_pending s" arbitrary: s)
  case (Cons e q)
  let ?s = "s\<lparr>gw_pending := q, gw_delivered := gw_delivered s @ [e]\<rparr>"
  have p: "gw_pending s = e # q" using Cons.hyps(2) by simp
  have "run_op cl (OpPoll ms pred) s = ?s"
    using poll_queued [of s "[]" e q pred cl ms] Cons.prems p by (simp add: run_op_def)
  moreover have "gw_delivered (run_ops cl (replicate (length q) (OpPoll ms pred)) ?s) = gw_delivered ?s @ q"
    using Cons.hyps(1) [of ?s] Cons.prems p by simp
  ultimately show ?case by (simp add: run_ops_def p)
qed (simp add: run_ops_def)

text \<open>
  C38: a poll of one stream reorders the events of another. The order events \<open>pre\<close> were queued first, then a market
  data event, then the order events \<open>post\<close>. Once the market data event has been polled, polling for order events
  hands over \<open>post\<close> before \<open>pre\<close>: the scan puts what it passes behind everything else and stops at its event
  without turning the queue back.
\<close>

theorem polls_reorder_other_streams:
  assumes "gw_sock s" "gw_pending s = pre @ [m] @ post" "is_md_event m" "list_all is_order_event (pre @ post)"
  shows "gw_delivered (run_ops cl (OpPoll ms is_md_event # replicate (length (pre @ post)) (OpPoll ms is_order_event)) s)
    = gw_delivered s @ [m] @ post @ pre"
proof -
  let ?s = "s\<lparr>gw_pending := post @ pre, gw_delivered := gw_delivered s @ [m]\<rparr>"
  have "list_all (\<lambda>e. \<not> is_md_event e) pre" using assms(4) md_or_order by (auto simp: list_all_iff)
  then have "run_op cl (OpPoll ms is_md_event) s = ?s" using poll_queued [of s pre m post] assms by (simp add: run_op_def)
  moreover have "gw_delivered (run_ops cl (replicate (length (gw_pending ?s)) (OpPoll ms is_order_event)) ?s) = gw_delivered ?s @ gw_pending ?s"
    using assms by (intro polls_of_one_stream) auto
  ultimately show ?thesis by (simp add: run_ops_def add.commute)
qed

theorem polls_reorder_other_streams_witness:
  "let note = (\<lambda>b. [(''type'', PStr ''order_notification''), (''basket_id'', PStr b)]); tick = [(''type'', PStr ''last_trade'')];
       s = (gw_new [])\<lparr>gw_sock := True, gw_pending := [note ''A'', tick, note ''B'']\<rparr>
   in gw_delivered (run_ops w_client [OpPoll 5 is_md_event, OpPoll 5 is_order_event, OpPoll 5 is_order_event] s)
      = [tick, note ''B'', note ''A'']"
proof -
  let ?note = "\<lambda>b. [(''type'', PStr ''order_notification''), (''basket_id'', PStr b)]"
  let ?s = "(gw_new [])\<lparr>gw_sock := True, gw_pending := [?note ''A'', [(''type'', PStr ''last_trade'')], ?note ''B'']\<rparr>"
  show ?thesis
    using polls_reorder_other_streams [of ?s "[?note ''A'']" "[(''type'', PStr ''last_trade'')]" "[?note ''B'']" w_client 5]
    by (simp add: gw_new_def is_md_event_def is_order_event_def is_gap_def event_type_in_def dget_def numeral_2_eq_2)
qed

end
