(* ===== verification/Instruments.thy ===== *)
theory Instruments
  imports Bars
begin

text \<open>
  Instruments (\<open>providers.py\<close>, \<open>front_month.py\<close>, \<open>historical.py\<close>): a futures contract built from the venue's
  reference data, the front month of a product, the provider that loads the configured pairs, and history loaded
  for an instrument. The platform's constructors are parameters; a session is the computations its calls run.
\<close>

section \<open>Dates\<close>

text \<open>
  \<open>strptime\<close> with \<open>%Y\<close>, \<open>%m\<close> and \<open>%d\<close>: each directive has its alternatives in order, the first combination that
  matches is taken, and the text must end there.
\<close>

definition digit_at :: "string \<Rightarrow> nat \<Rightarrow> bool" where
  "digit_at s i \<longleftrightarrow> i < length s \<and> is_digit_char (s ! i)"

definition num2 :: "string \<Rightarrow> int" where
  "num2 s = 10 * digit_val (s ! 0) + digit_val (s ! 1)"

definition alt_year :: "string \<Rightarrow> (int \<times> string) list" where
  "alt_year s = (if digit_at s 0 \<and> digit_at s 1 \<and> digit_at s 2 \<and> digit_at s 3
     then [(100 * num2 s + num2 (drop 2 s), drop 4 s)] else [])"

definition alt_pair :: "(int \<Rightarrow> bool) \<Rightarrow> string \<Rightarrow> (int \<times> string) list" where
  "alt_pair ok s = (if digit_at s 0 \<and> digit_at s 1 \<and> ok (num2 s) then [(num2 s, drop 2 s)] else [])"

definition alt_digit :: "string \<Rightarrow> (int \<times> string) list" where
  "alt_digit s = (if digit_at s 0 \<and> s ! 0 \<noteq> CHR ''0'' then [(digit_val (s ! 0), drop 1 s)] else [])"

definition alt_month :: "string \<Rightarrow> (int \<times> string) list" where
  "alt_month s = alt_pair (\<lambda>n. 10 \<le> n \<and> n \<le> 12) s @ alt_pair (\<lambda>n. 1 \<le> n \<and> n \<le> 9) s @ alt_digit s"

definition alt_day :: "string \<Rightarrow> (int \<times> string) list" where
  "alt_day s = alt_pair (\<lambda>n. 30 \<le> n \<and> n \<le> 31) s @ alt_pair (\<lambda>n. 10 \<le> n \<and> n \<le> 29) s @ alt_pair (\<lambda>n. 1 \<le> n \<and> n \<le> 9) s
     @ alt_digit s @ (case s of c # r \<Rightarrow> if c = CHR '' '' then alt_digit r else [] | [] \<Rightarrow> [])"

datatype date_part = YearPart | MonthPart | DayPart | Literal char

type_synonym ymd = "int \<times> int \<times> int"

fun match_format :: "date_part list \<Rightarrow> ymd \<Rightarrow> string \<Rightarrow> (ymd \<times> string) list" where
  "match_format [] d s = [(d, s)]"
| "match_format (YearPart # fs) (y, m, d) s = concat (map (\<lambda>(v, r). match_format fs (v, m, d) r) (alt_year s))"
| "match_format (MonthPart # fs) (y, m, d) s = concat (map (\<lambda>(v, r). match_format fs (y, v, d) r) (alt_month s))"
| "match_format (DayPart # fs) (y, m, d) s = concat (map (\<lambda>(v, r). match_format fs (y, m, v) r) (alt_day s))"
| "match_format (Literal c # fs) d s = (case s of x # r \<Rightarrow> if x = c then match_format fs d r else [] | [] \<Rightarrow> [])"

definition leap_year :: "int \<Rightarrow> bool" where
  "leap_year y \<longleftrightarrow> y mod 4 = 0 \<and> (y mod 100 \<noteq> 0 \<or> y mod 400 = 0)"

definition days_in_month :: "int \<Rightarrow> int \<Rightarrow> int" where
  "days_in_month y m = (if m = 2 then (if leap_year y then 29 else 28) else if m \<in> {4, 6, 9, 11} then 30 else 31)"

definition valid_date :: "ymd \<Rightarrow> bool" where
  "valid_date t = (case t of (y, m, d) \<Rightarrow> 1 \<le> y \<and> y \<le> 9999 \<and> 1 \<le> m \<and> m \<le> 12 \<and> 1 \<le> d \<and> d \<le> days_in_month y m)"

definition strptime :: "date_part list \<Rightarrow> string \<Rightarrow> ymd option" where
  "strptime fmt s = (case match_format fmt (1900, 1, 1) s of
       [] \<Rightarrow> None
     | (t, r) # _ \<Rightarrow> if r = [] \<and> valid_date t then Some t else None)"

text \<open>The proleptic ordinal of a date (1 for the first day of year 1).\<close>

definition days_before_year :: "int \<Rightarrow> int" where
  "days_before_year y = (let p = y - 1 in p * 365 + p div 4 - p div 100 + p div 400)"

definition days_before_month :: "int \<Rightarrow> int \<Rightarrow> int" where
  "days_before_month y m = sum_list (map (days_in_month y) [1..m - 1])"

definition ordinal :: "ymd \<Rightarrow> int" where
  "ordinal t = (case t of (y, m, d) \<Rightarrow> days_before_year y + days_before_month y m + d)"

definition EPOCH_ORDINAL :: int where "EPOCH_ORDINAL = 719163"

text \<open>\<open>int(dt.timestamp() * 1_000_000_000)\<close>, computed in doubles.\<close>

definition midnight_ns :: "ymd \<Rightarrow> int res" where
  "midnight_ns t =
     (let secs = to_double (of_int ((ordinal t - EPOCH_ORDINAL) * 86400))
      in case secs of
           Fin x \<Rightarrow> py_int (PFloat (to_double (x * 1000000000)))
         | f \<Rightarrow> py_int (PFloat f))"

definition build_error :: "string \<Rightarrow> 'a res" where
  "build_error msg = Inl (exn_of InstrumentBuildError msg)"

definition DATE_FORMATS :: "(nat \<times> date_part list) list" where
  "DATE_FORMATS = [
     (8, [YearPart, MonthPart, DayPart]),
     (10, [YearPart, Literal CHR ''-'', MonthPart, Literal CHR ''-'', DayPart]),
     (10, [YearPart, Literal CHR ''/'', MonthPart, Literal CHR ''/'', DayPart]),
     (10, [MonthPart, Literal CHR ''/'', DayPart, Literal CHR ''/'', YearPart])]"

fun first_format :: "(nat \<times> date_part list) list \<Rightarrow> string \<Rightarrow> ymd option" where
  "first_format [] text = None"
| "first_format ((n, fmt) # fs) text = (case strptime fmt (take n text) of Some t \<Rightarrow> Some t | None \<Rightarrow> first_format fs text)"

definition parse_expiration_ns :: "string \<Rightarrow> int res" where
  "parse_expiration_ns raw = (case first_format DATE_FORMATS (str_strip raw) of
       Some t \<Rightarrow> midnight_ns t
     | None \<Rightarrow> build_error (''unrecognized expiration_date: '' @ str_repr raw))"

section \<open>Contracts from reference data\<close>

definition rstrip_char :: "char \<Rightarrow> string \<Rightarrow> string" where
  "rstrip_char c s = rev (dropWhile (\<lambda>x. x = c) (rev s))"

text \<open>\<open>f"{x:.pf}".rstrip("0").rstrip(".")\<close>, with \<open>.0\<close> appended when no point is left.\<close>

definition fixed_text :: "nat \<Rightarrow> pyfloat \<Rightarrow> string" where
  "fixed_text p x =
     (let text = rstrip_char CHR ''.'' (rstrip_char CHR ''0'' (float_fixed p x))
      in if CHR ''.'' \<in> set text then text else text @ ''.0'')"

record futures_contract =
  fu_id :: string
  fu_raw_symbol :: string
  fu_currency :: string
  fu_price_precision :: int
  fu_price_increment :: nt_price
  fu_multiplier :: string
  fu_underlying :: string
  fu_activation_ns :: int
  fu_expiration_ns :: int
  fu_ts_event :: int
  fu_ts_init :: int
  fu_exchange :: string
  fu_info :: pydict

record 'c prov_env = "'c md_env" +
  pe_quantity_from_str :: "string \<Rightarrow> exn option" \<comment> \<open>\<open>Quantity.from_str\<close>\<close>
  pe_futures :: "futures_contract \<Rightarrow> exn option" \<comment> \<open>\<open>FuturesContract\<close>\<close>
  pe_now :: int \<comment> \<open>the current time in nanoseconds\<close>

definition price_increment :: "('c, 'x) nt_env_scheme \<Rightarrow> pyfloat \<Rightarrow> int \<Rightarrow> nt_price res" where
  "price_increment env tick_size price_precision =
     (if float_nonpos tick_size then build_error (''tick_size must be > 0, got '' @ float_repr tick_size)
      else if price_precision < 0 then build_error (''price_precision must be >= 0, got '' @ int_str price_precision)
      else ne_price_from_str env (fixed_text (nat price_precision) tick_size))"

definition multiplier :: "('c, 'x) prov_env_scheme \<Rightarrow> pyfloat \<Rightarrow> string res" where
  "multiplier env point_value =
     (if float_nonpos point_value then build_error (''point_value must be > 0, got '' @ float_repr point_value)
      else let text = fixed_text 8 point_value in check_opt (pe_quantity_from_str env text) text)"

text \<open>The exponent of \<open>Decimal.normalize()\<close>: rounded to the context, trailing zeros removed.\<close>

function drop_zeros :: "int \<Rightarrow> int \<Rightarrow> int \<times> int" where
  "drop_zeros c e = (if c > 0 \<and> c mod 10 = 0 then drop_zeros (c div 10) (e + 1) else (c, e))"
  by pat_completeness auto
termination by (relation "measure (\<lambda>(c, e). nat c)") auto

declare drop_zeros.simps [simp del]

definition dec_normal_exponent :: "pydec \<Rightarrow> int" where
  "dec_normal_exponent d = (case d of
       DFin neg c e \<Rightarrow> (case dec_context neg c e of DFin _ c' e' \<Rightarrow> if c' = 0 then 0 else snd (drop_zeros c' e') | _ \<Rightarrow> 0)
     | _ \<Rightarrow> 0)"

definition precision_of_tick :: "pyval \<Rightarrow> pyval res" where
  "precision_of_tick tick_size =
     bindR (py_decimal (py_str tick_size)) (\<lambda>increment.
       case dec_value increment of
         Some x \<Rightarrow> if x \<le> 0 then build_error ''tick_size must be finite and > 0''
                    else Inr (PInt (max 0 (- dec_normal_exponent increment)))
       | None \<Rightarrow> build_error ''tick_size must be finite and > 0'')"

definition absent :: "pyval \<Rightarrow> bool" where
  "absent v \<longleftrightarrow> v = PNone \<or> v = PStr []"

text \<open>The fields of the reference data a contract needs.\<close>

record ref_fields =
  rf_symbol :: pyval
  rf_exchange :: pyval
  rf_tick_size :: pyval
  rf_price_precision :: pyval
  rf_point_value :: pyval
  rf_currency :: pyval
  rf_expiration :: pyval
  rf_underlying :: pyval

definition ref_fields_of :: "pydict \<Rightarrow> ref_fields res" where
  "ref_fields_of ref =
     (let tick = dget ref ''tick_size''; prec = dget ref ''price_precision''
      in bindR (if prec = PNone \<and> tick \<noteq> PNone then precision_of_tick tick else Inr prec) (\<lambda>precision.
         let f = \<lparr>rf_symbol = py_or (dget ref ''trading_symbol'') (dget ref ''symbol''),
                  rf_exchange = py_or (dget ref ''trading_exchange'') (dget ref ''exchange''),
                  rf_tick_size = tick, rf_price_precision = precision, rf_point_value = dget ref ''point_value'',
                  rf_currency = dget ref ''currency'', rf_expiration = dget ref ''expiration_date'',
                  rf_underlying = py_or (dget ref ''underlying'') (dget ref ''product_code'')\<rparr>;
             missing = map fst (filter (\<lambda>(_, v). absent v)
               [(''symbol'', rf_symbol f), (''exchange'', rf_exchange f), (''tick_size'', tick), (''price_precision'', precision),
                (''point_value'', rf_point_value f), (''currency'', rf_currency f), (''expiration_date'', rf_expiration f)])
         in if missing \<noteq> [] then build_error (''reference data missing required fields: '' @ join_with '', '' missing)
            else if \<not> truthy (rf_underlying f) then build_error ''reference data missing underlying/product_code''
            else Inr f))"

definition ref_info :: "pydict \<Rightarrow> string \<Rightarrow> string \<Rightarrow> pydict" where
  "ref_info ref symbol exchange = [(''rithmic_exchange'', PStr exchange), (''rithmic_symbol'', PStr symbol),
     (''rithmic_product_code'', dget ref ''product_code''), (''rithmic_instrument_type'', dget ref ''instrument_type''),
     (''rithmic_is_tradable'', dget ref ''is_tradable'')]"

text \<open>The constructor's arguments, in the order they are evaluated.\<close>

definition contract_of :: "('c, 'x) prov_env_scheme \<Rightarrow> pydict \<Rightarrow> ref_fields \<Rightarrow> string \<Rightarrow> int \<Rightarrow> futures_contract res" where
  "contract_of env ref f instrument_id act_ns =
     (let symbol = py_str (rf_symbol f); exchange = py_str (rf_exchange f); currency = py_str (rf_currency f)
      in bindR (check_opt (ne_id env symbol) symbol) (\<lambda>raw_symbol.
         bindR (check_opt (ne_currency env currency) currency) (\<lambda>cur.
         bindR (py_int (rf_price_precision f)) (\<lambda>prec.
         bindR (py_float (rf_tick_size f)) (\<lambda>tick.
         bindR (price_increment env tick prec) (\<lambda>incr.
         bindR (py_float (rf_point_value f)) (\<lambda>pv.
         bindR (multiplier env pv) (\<lambda>mult.
         bindR (check_opt (pe_quantity_from_str env ''1'') ()) (\<lambda>_.
         bindR (parse_expiration_ns (py_str (rf_expiration f))) (\<lambda>expiration_ns.
           let c = \<lparr>fu_id = instrument_id, fu_raw_symbol = raw_symbol, fu_currency = cur, fu_price_precision = prec,
                    fu_price_increment = incr, fu_multiplier = mult, fu_underlying = py_str (rf_underlying f),
                    fu_activation_ns = act_ns, fu_expiration_ns = expiration_ns, fu_ts_event = pe_now env,
                    fu_ts_init = pe_now env, fu_exchange = exchange, fu_info = ref_info ref symbol exchange\<rparr>
           in check_opt (pe_futures env c) c))))))))))"

definition future_from_reference :: "('c, 'x) prov_env_scheme \<Rightarrow> pydict \<Rightarrow> int option \<Rightarrow> futures_contract res" where
  "future_from_reference env ref activation_ns =
     bindR (ref_fields_of ref) (\<lambda>f.
     bindR (instrument_id_from_symbol (py_str (rf_symbol f)) (PStr (py_str (rf_exchange f)))) (\<lambda>text.
     bindR (ne_instrument_id env text) (\<lambda>instrument_id.
       contract_of env ref f instrument_id (case activation_ns of None \<Rightarrow> 0 | Some n \<Rightarrow> n))))"

section \<open>Loading through a session\<close>

text \<open>A reply of the session: a mapping, or something else, given by its type.\<close>

datatype wire_reply = Mapping pydict | NotMapping string

record 's md_session =
  ms_front_month :: "string \<Rightarrow> string \<Rightarrow> ('s, exn, wire_reply) em"
  ms_reference_data :: "string \<Rightarrow> string \<Rightarrow> ('s, exn, wire_reply) em"
  ms_load_ticks :: "string \<Rightarrow> string \<Rightarrow> int \<Rightarrow> int \<Rightarrow> ('s, exn, pydict list) em"
  ms_load_time_bars :: "string \<Rightarrow> string \<Rightarrow> int \<Rightarrow> int \<Rightarrow> int \<Rightarrow> int \<Rightarrow> ('s, exn, pydict list) em"
  ms_time_ns :: "('s, exn, int) em"

record front_month =
  fm_root :: string
  fm_exchange :: string
  fm_trading_symbol :: string
  fm_trading_exchange :: string
  fm_symbol_name :: pyval
  fm_is_front_month_symbol :: pyval
  fm_raw :: pydict

definition front_error :: "string \<Rightarrow> 'a res" where
  "front_error msg = Inl (exn_of FrontMonthError msg)"

definition resolve_front_month :: "'s md_session \<Rightarrow> string \<Rightarrow> string \<Rightarrow> ('s, exn, front_month) em" where
  "resolve_front_month ses rt exchange =
     bindE (ms_front_month ses rt exchange) (\<lambda>reply. liftE (case reply of
       NotMapping ty \<Rightarrow> front_error (''unexpected front-month payload type: '' @ ty)
     | Mapping raw \<Rightarrow>
         let sy = dget raw ''trading_symbol''; ex = dget raw ''trading_exchange''
         in if \<not> truthy sy then front_error (''front-month response missing trading_symbol for '' @ rt @ ''/'' @ exchange)
            else if \<not> truthy ex then front_error (''front-month response missing trading_exchange for '' @ rt @ ''/'' @ exchange)
            else Inr \<lparr>fm_root = rt, fm_exchange = exchange, fm_trading_symbol = py_str sy, fm_trading_exchange = py_str ex,
                      fm_symbol_name = dget raw ''symbol_name'', fm_is_front_month_symbol = dget raw ''is_front_month_symbol'',
                      fm_raw = raw\<rparr>))"

definition reference_dict :: "'s md_session \<Rightarrow> string \<Rightarrow> string \<Rightarrow> string \<Rightarrow> ('s, exn, pydict) em" where
  "reference_dict ses symbol exchange what =
     bindE (ms_reference_data ses symbol exchange) (\<lambda>reply. case reply of
       Mapping ref \<Rightarrow> returnE ref
     | NotMapping ty \<Rightarrow> raiseE (exn_of TypeError (''reference data must be a dict for '' @ what @ '', got '' @ ty)))"

definition load_contract_instrument :: "('c, 'x) prov_env_scheme \<Rightarrow> 's md_session \<Rightarrow> string \<Rightarrow> string \<Rightarrow> int
    \<Rightarrow> ('s, exn, futures_contract) em" where
  "load_contract_instrument env ses symbol0 exchange0 activation_ns =
     (let symbol = str_upper (str_strip symbol0); exchange = str_strip exchange0
      in if product_root symbol = symbol then liftE (build_error (''expected a listed contract, got '' @ str_repr symbol))
         else
           bindE (reference_dict ses symbol exchange (symbol @ ''/'' @ exchange)) (\<lambda>ref.
           bindE (liftE (future_from_reference env ref (Some activation_ns))) (\<lambda>c.
           bindE (liftE (rithmic_route_from_info (fu_info c) None)) (\<lambda>route.
             if route \<noteq> (symbol, exchange)
             then liftE (build_error (''reference data identity does not match '' @ symbol @ ''/'' @ exchange))
             else returnE c))))"

definition load_front_month_instrument :: "('c, 'x) prov_env_scheme \<Rightarrow> 's md_session \<Rightarrow> string \<Rightarrow> string \<Rightarrow> int
    \<Rightarrow> ('s, exn, futures_contract) em" where
  "load_front_month_instrument env ses rt exchange activation_ns =
     bindE (resolve_front_month ses rt exchange) (\<lambda>front.
     bindE (reference_dict ses (fm_trading_symbol front) (fm_trading_exchange front) (rt @ ''/'' @ exchange)) (\<lambda>ref.
       liftE (future_from_reference env ref (Some activation_ns))))"

text \<open>\<open>_unix_sec\<close>; a \<open>datetime\<close> is given by its \<open>timestamp()\<close>, a float.\<close>

definition unix_sec :: "pyval \<Rightarrow> int res" where
  "unix_sec v = py_int v"

definition load_trade_ticks :: "('c, 'x) md_env_scheme \<Rightarrow> 's trade_seq_scheme md_session \<Rightarrow> futures_contract \<Rightarrow> pyval \<Rightarrow> pyval
    \<Rightarrow> ('s trade_seq_scheme, exn, trade_tick list) em" where
  "load_trade_ticks env ses c start1 end1 =
     bindE (liftE (rithmic_route_from_info (fu_info c) (Some (fu_id c)))) (\<lambda>(symbol, exchange).
     bindE (liftE (unix_sec start1)) (\<lambda>a.
     bindE (liftE (unix_sec end1)) (\<lambda>b.
     bindE (ms_load_ticks ses symbol exchange a b) (\<lambda>raw.
     bindE (ms_time_ns ses) (\<lambda>ts_init.
       payloads_to_trade_ticks env raw symbol exchange (fu_price_precision c) ts_init None)))))"

definition load_time_bars :: "('c, 'x) md_env_scheme \<Rightarrow> 's md_session \<Rightarrow> futures_contract \<Rightarrow> pyval \<Rightarrow> pyval \<Rightarrow> bar_type \<Rightarrow> bool
    \<Rightarrow> ('s, exn, md_bar list) em" where
  "load_time_bars env ses c start1 end1 bt on_close =
     bindE (liftE (rithmic_route_from_info (fu_info c) (Some (fu_id c)))) (\<lambda>(symbol, exchange).
     bindE (liftE (bar_type_to_rithmic env bt)) (\<lambda>(rtype, period).
     bindE (liftE (unix_sec start1)) (\<lambda>a.
     bindE (liftE (unix_sec end1)) (\<lambda>b.
     bindE (ms_load_time_bars ses symbol exchange a b rtype period) (\<lambda>raw.
     bindE (ms_time_ns ses) (\<lambda>ts_init.
       payloads_to_bars env raw symbol exchange bt (fu_price_precision c) ts_init None on_close))))))"

section \<open>The provider\<close>

text \<open>\<open>load_all_async\<close>: each pair in turn; \<open>add\<close> stores the instrument under its id.\<close>

record provider =
  pv_instruments :: "(string \<times> futures_contract) list"

definition load_pair :: "('c, 'x) prov_env_scheme \<Rightarrow> 's md_session \<Rightarrow> string \<times> string \<Rightarrow> ('s, exn, futures_contract) em" where
  "load_pair env ses pair =
     (let symbol = str_upper (str_strip (fst pair))
      in if product_root symbol \<noteq> symbol then load_contract_instrument env ses symbol (snd pair) 0
         else load_front_month_instrument env ses symbol (snd pair) 0)"

fun load_pairs :: "('c, 'x) prov_env_scheme \<Rightarrow> 's md_session \<Rightarrow> (string \<times> string) list \<Rightarrow> provider \<Rightarrow> 's \<Rightarrow> unit res \<times> provider \<times> 's" where
  "load_pairs env ses [] p s = (Inr (), p, s)"
| "load_pairs env ses (pair # pairs) p s =
     (case load_pair env ses pair s of
        (Inl e, s1) \<Rightarrow> (Inl e, p, s1)
      | (Inr c, s1) \<Rightarrow> load_pairs env ses pairs (p\<lparr>pv_instruments := dict_set (fu_id c) c (pv_instruments p)\<rparr>) s1)"

section \<open>A concrete platform and session\<close>

definition demo_prov_env :: "demo_cache prov_env" where
  "demo_prov_env = md_env.extend demo_md_env (prov_env.fields (\<lambda>q. demo_check (q \<noteq> [])) (\<lambda>c. demo_check (0 < fu_expiration_ns c)) 7)"

definition demo_reference :: "string \<Rightarrow> pydict" where
  "demo_reference symbol = [(''symbol'', PStr symbol), (''exchange'', PStr ''CME''), (''tick_size'', PFloat (Fin (1 / 4))),
     (''point_value'', PInt 20), (''currency'', PStr ''USD''), (''expiration_date'', PStr ''20261218''), (''product_code'', PStr ''NQ'')]"

definition demo_session :: "unit md_session" where
  "demo_session = \<lparr>ms_front_month = (\<lambda>_ _. returnE (Mapping [(''trading_symbol'', PStr ''NQZ6''), (''trading_exchange'', PStr ''CME'')])),
     ms_reference_data = (\<lambda>symbol _. returnE (Mapping (demo_reference symbol))), ms_load_ticks = (\<lambda>_ _ _ _. returnE []),
     ms_load_time_bars = (\<lambda>_ _ _ _ _ _. returnE []), ms_time_ns = returnE 9\<rparr>"

section \<open>Exact doubles\<close>

lemma ilog_bounds: "0 < n \<Longrightarrow> 0 \<le> ilog 2 n \<and> 2 ^ nat (ilog 2 n) \<le> n \<and> n < 2 * 2 ^ nat (ilog 2 n)"
proof (induction "2 :: int" n rule: ilog.induct)
  case (1 n)
  show ?case
  proof (cases "n < 2")
    case True
    with 1(2) show ?thesis by (simp add: ilog.simps [of 2 n])
  next
    case False
    define k where "k = nat (ilog 2 (n div 2))"
    have ih: "0 \<le> ilog 2 (n div 2)" "2 ^ k \<le> n div 2" "n div 2 < 2 * 2 ^ k" using 1 False by (auto simp: k_def)
    have "ilog 2 n = 1 + ilog 2 (n div 2)" using False by (simp add: ilog.simps [of 2 n])
    moreover from this have "nat (ilog 2 n) = Suc k" using ih(1) by (simp add: k_def nat_add_distrib)
    ultimately show ?thesis using ih by (simp; linarith)
  qed
qed

lemma expo_int: "0 < n \<Longrightarrow> expo 2 n 1 = ilog 2 n"
  using ilog_bounds [of n] by (simp add: expo_def ilog.simps [of 2 1] shift_num_def shift_den_def Let_def)

lemma round_div_exact: "0 < q \<Longrightarrow> q dvd p \<Longrightarrow> round_div p q = p div q"
  by (simp add: round_div_def Let_def)

lemma quotient_of_int: "quotient_of (of_int n) = (n, 1)"
  by (simp add: of_int_rat quotient_of_Fract)

lemma ilog_less:
  assumes "0 < n" "n < 2 ^ j"
  shows "ilog 2 n < int j"
proof (rule ccontr)
  assume "\<not> ilog 2 n < int j"
  then have "(2::int) ^ j \<le> 2 ^ nat (ilog 2 n)" by (intro power_increasing) simp_all
  with ilog_bounds [OF assms(1)] assms(2) show False by linarith
qed

text \<open>A whole number with at most 53 significant bits is a double.\<close>

lemma to_double_exact:
  assumes "\<bar>n\<bar> = c * 2 ^ j" "c < 2 ^ 53" "j < 900"
  shows "to_double (of_int n) = Fin (of_int n)"
proof (cases "n = 0")
  case False
  define a where "a = \<bar>n\<bar>"
  define e where "e = ilog 2 a"
  have a: "0 < a" "\<bar>of_int n :: rat\<bar> = of_int a" using False by (simp_all add: a_def)
  have e: "0 \<le> e" "2 ^ nat e \<le> a" using ilog_bounds [OF a(1)] by (simp_all add: e_def)
  have "a < 2 ^ (53 + j)" using assms(1,2) by (simp add: a_def power_add)
  then have ej: "e < int (53 + j)" unfolding e_def by (rule ilog_less [OF a(1)])
  have m: "max (expo 2 a 1) (-1022) = e" using expo_int [OF a(1)] e(1) by (simp add: e_def)
  have "scaled 2 (- (52 - e)) (round_div (shift_num 2 (52 - e) a) (shift_den 2 (52 - e) 1)) = of_int a"
  proof (cases "e \<le> 52")
    case True
    then show ?thesis by (simp add: shift_num_def shift_den_def scaled_def round_div_exact)
  next
    case False
    have "(2::int) ^ nat (e - 52) dvd 2 ^ j" using ej by (intro le_imp_power_dvd) simp
    then have "2 ^ nat (e - 52) dvd a" using assms(1) by (simp add: a_def)
    then show ?thesis using False by (simp add: shift_num_def shift_den_def scaled_def round_div_exact)
  qed
  moreover have "e < 1023" using ej assms(3) by simp
  moreover have "(of_int n :: rat) = (if 0 < n then of_int a else - of_int a)" by (simp add: a_def)
  ultimately show ?thesis
    using False m a(1) by (simp add: to_double_def a(2) quotient_of_int Let_def)
qed (simp add: to_double_def)

lemma truncate_int: "py_int (PFloat (Fin (of_int n))) = Inr n"
  by (simp add: py_int_def py_truncate_def)

section \<open>Expirations\<close>

lemma days_before_month_bounds:
  assumes "1 \<le> m" "m \<le> 12"
  shows "0 \<le> days_before_month y m \<and> days_before_month y m \<le> 372"
proof -
  have b: "28 \<le> days_in_month y k \<and> days_in_month y k \<le> 31" for k by (simp add: days_in_month_def)
  have "0 \<le> sum_list (map (days_in_month y) ks) \<and> sum_list (map (days_in_month y) ks) \<le> 31 * int (length ks)" for ks
  proof (induction ks)
    case (Cons k ks)
    with b [of k] show ?case by simp
  qed simp
  from this [of "[1..m - 1]"] assms show ?thesis by (simp add: days_before_month_def)
qed

lemma ordinal_bounds:
  assumes "valid_date t"
  shows "\<bar>ordinal t - EPOCH_ORDINAL\<bar> < 4000000"
proof -
  obtain y m d where t: "t = (y, m, d)" by (cases t)
  with assms have v: "1 \<le> y" "y \<le> 9999" "1 \<le> m" "m \<le> 12" "1 \<le> d" "d \<le> days_in_month y m" by (simp_all add: valid_date_def)
  have "days_in_month y m \<le> 31" by (simp add: days_in_month_def)
  moreover have "0 \<le> days_before_year y \<and> days_before_year y \<le> 9998 * 365 + 2500 + 25"
  proof -
    have p: "0 \<le> y - 1" "y - 1 \<le> 9998" using v(1,2) by simp_all
    have "0 \<le> (y - 1) div 400" "0 \<le> (y - 1) div 100" using p(1) by (simp_all add: pos_imp_zdiv_nonneg_iff)
    moreover have "(y - 1) div 4 \<le> 9998 div 4" "(y - 1) div 400 \<le> 9998 div 400" using p(2) by (intro zdiv_mono1; simp)+
    moreover have "(y - 1) div 100 \<le> (y - 1) div 4" using p(1) by (intro zdiv_mono2) simp_all
    ultimately have "0 \<le> (y - 1) div 400" "0 \<le> (y - 1) div 100" "(y - 1) div 4 \<le> 2500" "(y - 1) div 400 \<le> 25"
      "(y - 1) div 100 \<le> (y - 1) div 4" by simp_all
    then show ?thesis using v(1,2) by (simp add: days_before_year_def Let_def)
  qed
  ultimately show ?thesis using days_before_month_bounds [OF v(3,4), of y] v(5,6) unfolding t ordinal_def EPOCH_ORDINAL_def by (simp add: abs_less_iff)
qed

lemma midnight_ns_exact:
  assumes "valid_date t"
  shows "midnight_ns t = Inr ((ordinal t - EPOCH_ORDINAL) * 86400 * 1000000000)"
proof -
  define D where "D = ordinal t - EPOCH_ORDINAL"
  have D: "\<bar>D\<bar> < 4000000" using ordinal_bounds [OF assms] by (simp add: D_def)
  have s: "to_double (of_int (D * 86400)) = Fin (of_int (D * 86400))"
    by (rule to_double_exact [of _ "\<bar>D\<bar> * 86400" 0]) (use D in \<open>simp_all add: abs_mult\<close>)
  have "\<bar>D * 86400 * 1000000000\<bar> = (\<bar>D\<bar> * 1318359375) * 2 ^ 16" by (simp add: abs_mult)
  then have n: "to_double (of_int (D * 86400 * 1000000000)) = Fin (of_int (D * 86400 * 1000000000))"
    by (rule to_double_exact) (use D in simp_all)
  have "(of_int (D * 86400) :: rat) * 1000000000 = of_int (D * 86400 * 1000000000)" by simp
  then show ?thesis unfolding midnight_ns_def D_def [symmetric] Let_def s pyfloat.case using n truncate_int [of "D * 86400 * 1000000000"] by metis
qed

lemma strptime_valid: "strptime fmt s = Some t \<Longrightarrow> valid_date t"
  by (auto simp: strptime_def split: list.splits prod.splits if_splits)

lemma first_format_valid: "first_format fs text = Some t \<Longrightarrow> valid_date t"
  by (induction fs "text" rule: first_format.induct) (auto split: option.splits dest: strptime_valid)

text \<open>
  C23: an expiration is exactly midnight. The time is computed in floating point (seconds as a float, times a thousand
  million), yet for every date Python can represent no rounding takes place: the nanoseconds of a parsed expiration
  are exactly those of the start of its day in UTC.
\<close>

theorem expiration_is_midnight:
  assumes "parse_expiration_ns raw = Inr ns"
  shows "\<exists>t. first_format DATE_FORMATS (str_strip raw) = Some t \<and> valid_date t \<and> ns = (ordinal t - EPOCH_ORDINAL) * 86400000000000"
proof -
  obtain t where t: "first_format DATE_FORMATS (str_strip raw) = Some t" "midnight_ns t = Inr ns"
    using assms by (auto simp: parse_expiration_ns_def build_error_def split: option.splits)
  with first_format_valid [OF t(1)] midnight_ns_exact [of t] show ?thesis by simp
qed

theorem expiration_is_midnight_witness:
  "\<exists>t. first_format DATE_FORMATS ''20260918'' = Some t \<and> t = (2026, 9, 18)
     \<and> parse_expiration_ns '' 20260918'' = Inr ((ordinal t - EPOCH_ORDINAL) * 86400000000000)"
proof -
  have "str_strip '' 20260918'' = ''20260918''" "first_format DATE_FORMATS ''20260918'' = Some (2026, 9, 18)" by code_simp+
  moreover have "parse_expiration_ns '' 20260918'' = Inr 1789689600000000000" by code_simp
  ultimately show ?thesis using expiration_is_midnight [of "'' 20260918''"] by auto
qed

section \<open>Price increments\<close>

lemma round_half_even_int: "round_half_even (of_int n) = n"
  by (simp add: round_half_even_def quotient_of_int round_div_def)

lemma digits_str_tens: "0 < n \<Longrightarrow> digits_str (10 * n) = digits_str n @ ''0''"
proof -
  assume "0 < n"
  have "char_of (48 :: nat) = CHR ''0''" by code_simp
  with \<open>0 < n\<close> show ?thesis by (simp add: digits_str.simps [of "10 * n"])
qed

lemma digits_str_nonempty: "digits_str n \<noteq> []"
  by (subst digits_str.simps) simp

lemma float_fixed_whole:
  assumes "0 \<le> n"
  shows "float_fixed 0 (Fin (of_int n)) = digits_str n"
proof -
  have "\<bar>of_int n :: rat\<bar> = of_int n" using assms by simp
  moreover have "Suc 0 - length (digits_str n) = 0" using digits_str_nonempty [of n] by (cases "digits_str n") simp_all
  ultimately show ?thesis using assms by (simp add: float_fixed_def round_half_even_int Let_def)
qed

lemma rstrip_char_same: "rstrip_char c (s @ [c]) = rstrip_char c s"
  by (simp add: rstrip_char_def)

text \<open>
  C39: a tick of tens loses its zeros. For a contract quoted in whole numbers (precision 0) the tick's text has no
  decimal point, and stripping the zeros behind the point strips the zeros of the number instead: a tick of \<open>10 n\<close>
  gets the price increment of a tick of \<open>n\<close>, whatever the platform makes of the text.
\<close>

theorem whole_tick_loses_its_zeros:
  assumes "0 < n"
  shows "price_increment env (Fin (of_int (10 * n))) 0 = price_increment env (Fin (of_int n)) 0"
proof -
  have "float_fixed 0 (Fin (of_int (10 * n))) = float_fixed 0 (Fin (of_int n)) @ ''0''"
    using assms float_fixed_whole [of "10 * n"] float_fixed_whole [of n] by (simp add: digits_str_tens)
  then have "fixed_text 0 (Fin (of_int (10 * n))) = fixed_text 0 (Fin (of_int n))"
    by (simp only: fixed_text_def rstrip_char_same)
  then show ?thesis using assms by (simp add: price_increment_def)
qed

theorem whole_tick_loses_its_zeros_witness:
  "map_sum (\<lambda>_. ()) px_text (price_increment demo_env (Fin 10) 0) = Inr ''1.0''"
proof -
  have "price_increment demo_env (Fin 10) 0 = price_increment demo_env (Fin 1) 0"
    using whole_tick_loses_its_zeros [of 1 demo_env] by simp
  moreover have "map_sum (\<lambda>_. ()) px_text (price_increment demo_env (Fin 1) 0) = Inr ''1.0''" by code_simp
  ultimately show ?thesis by simp
qed

section \<open>Loaded contracts\<close>

lemma future_route:
  assumes "future_from_reference env ref act = Inr c"
  shows "\<exists>f text. ref_fields_of ref = Inr f \<and> instrument_id_from_symbol (py_str (rf_symbol f)) (PStr (py_str (rf_exchange f))) = Inr text
    \<and> ne_instrument_id env text = Inr (fu_id c) \<and> fu_info c = ref_info ref (py_str (rf_symbol f)) (py_str (rf_exchange f))
    \<and> fu_raw_symbol c = py_str (rf_symbol f) \<and> fu_exchange c = py_str (rf_exchange f)"
  using assms by (fastforce simp: future_from_reference_def contract_of_def bindR_eq_Inr_iff Let_def)

lemma ref_info_route: "rithmic_route_from_info (ref_info ref symbol exchange) iid = Inr r \<Longrightarrow> r = (symbol, exchange)"
  by (auto simp: rithmic_route_from_info_def ref_info_def dget_def py_str_def Let_def split: if_splits)

lemma load_contract_route:
  assumes "load_contract_instrument env ses symbol exchange act s = (Inr c, s')"
    and ids: "\<And>t i. ne_instrument_id env t = Inr i \<Longrightarrow> i = t"
  shows "rithmic_route_from_info (fu_info c) None = Inr (str_upper (str_strip symbol), str_strip exchange)
    \<and> instrument_id_from_symbol (str_upper (str_strip symbol)) (PStr (str_strip exchange)) = Inr (fu_id c)"
proof -
  let ?sy = "str_upper (str_strip symbol)" and ?ex = "str_strip exchange"
  obtain ref where c: "future_from_reference env ref (Some act) = Inr c" and r: "rithmic_route_from_info (fu_info c) None = Inr (?sy, ?ex)"
    using assms(1) by (auto simp: load_contract_instrument_def build_error_def em_returned Let_def split: if_splits)
  obtain f :: ref_fields and t where f: "instrument_id_from_symbol (py_str (rf_symbol f)) (PStr (py_str (rf_exchange f))) = Inr t"
    "ne_instrument_id env t = Inr (fu_id c)" "fu_info c = ref_info ref (py_str (rf_symbol f)) (py_str (rf_exchange f))"
    using future_route [OF c] by blast
  have "(?sy, ?ex) = (py_str (rf_symbol f), py_str (rf_exchange f))" using r unfolding f(3) by (rule ref_info_route)
  then show ?thesis using r f(1) ids [OF f(2)] by simp
qed

lemma py_space_upper: "py_space (upper_char c) = py_space c"
  by (auto simp: py_space_def upper_char_def Let_def)

lemma strip_upper: "str_upper (str_strip (str_upper (str_strip s))) = str_upper (str_strip s)"
proof -
  have "str_strip (str_upper t) = str_upper (str_strip t)" for t
    by (simp add: strip_with_def str_upper_def dropWhile_map rev_map comp_def py_space_upper)
  then show ?thesis by simp
qed

text \<open>The provider finds every contract under its own id.\<close>

definition keyed :: "provider \<Rightarrow> bool" where
  "keyed p \<longleftrightarrow> (\<forall>i c. map_of (pv_instruments p) i = Some c \<longrightarrow> fu_id c = i)"

lemma load_pairs_grows:
  assumes "load_pairs env ses pairs p s = (r, p', s')" "keyed p"
  shows "keyed p' \<and> dom (map_of (pv_instruments p)) \<subseteq> dom (map_of (pv_instruments p'))"
  using assms
proof (induction env ses pairs p s rule: load_pairs.induct)
  case (2 env ses pair pairs p s)
  obtain x s1 where l: "load_pair env ses pair s = (x, s1)" by fastforce
  show ?case
  proof (cases x)
    case (Inr c)
    let ?p = "p\<lparr>pv_instruments := dict_set (fu_id c) c (pv_instruments p)\<rparr>"
    have "keyed ?p" using 2(3) by (auto simp: keyed_def)
    moreover have "load_pairs env ses pairs ?p s1 = (r, p', s')" using 2(2) l Inr by simp
    ultimately have "keyed p' \<and> dom (map_of (pv_instruments ?p)) \<subseteq> dom (map_of (pv_instruments p'))"
      using 2(1) [OF l [symmetric] Inr] by blast
    then show ?thesis by auto
  qed (use 2 l in auto)
qed simp

lemma load_pairs_covers:
  assumes "load_pairs env ses pairs p s = (Inr (), p', s')" "keyed p" "(symbol, exchange) \<in> set pairs"
    "product_root (str_upper (str_strip symbol)) \<noteq> str_upper (str_strip symbol)"
    and ids: "\<And>t i. ne_instrument_id env t = Inr i \<Longrightarrow> i = t"
  shows "\<exists>iid. instrument_id_from_symbol (str_upper (str_strip symbol)) (PStr (str_strip exchange)) = Inr iid
    \<and> iid \<in> dom (map_of (pv_instruments p'))"
  using assms(1-3)
proof (induction pairs arbitrary: p s)
  case (Cons pair pairs)
  obtain c s1 where l: "load_pair env ses pair s = (Inr c, s1)"
    and rest: "load_pairs env ses pairs (p\<lparr>pv_instruments := dict_set (fu_id c) c (pv_instruments p)\<rparr>) s1 = (Inr (), p', s')"
    using Cons.prems(1) by (auto split: prod.splits sum.splits)
  have k: "keyed (p\<lparr>pv_instruments := dict_set (fu_id c) c (pv_instruments p)\<rparr>)" using Cons.prems(2) by (auto simp: keyed_def)
  show ?case
  proof (cases "pair = (symbol, exchange)")
    case True
    then have "load_contract_instrument env ses (str_upper (str_strip symbol)) exchange 0 s = (Inr c, s1)"
      using l assms(4) by (simp add: load_pair_def)
    from load_contract_route [OF this ids] load_pairs_grows [OF rest k] show ?thesis by (auto simp: strip_upper)
  next
    case False
    with Cons.IH [OF rest k] Cons.prems(3) show ?thesis by auto
  qed
qed simp

text \<open>
  C18: the provider holds every listed contract it was configured with. If loading the pairs returns, then for every
  pair that names a listed contract (a root with month and year, not a product root), the provider has an instrument
  under the id of that symbol and exchange, the instrument carries that id, and splitting the id gives back the symbol
  and exchange the pair asked for. Reference data of another contract cannot take its place.
\<close>

theorem every_listed_pair_is_loaded:
  assumes "load_pairs env ses pairs \<lparr>pv_instruments = []\<rparr> s = (Inr (), p, s')" "(symbol, exchange) \<in> set pairs"
    and "product_root (str_upper (str_strip symbol)) \<noteq> str_upper (str_strip symbol)"
    and ids: "\<And>t i. ne_instrument_id env t = Inr i \<Longrightarrow> i = t"
  shows "\<exists>iid c. instrument_id_from_symbol (str_upper (str_strip symbol)) (PStr (str_strip exchange)) = Inr iid
    \<and> map_of (pv_instruments p) iid = Some c \<and> fu_id c = iid
    \<and> symbol_and_exchange_from_instrument_id iid = Inr (rs_trim (str_upper (str_strip symbol)), exchange_part (PStr (str_strip exchange)))"
proof -
  have k: "keyed \<lparr>pv_instruments = []\<rparr>" by (simp add: keyed_def)
  obtain iid c where iid: "instrument_id_from_symbol (str_upper (str_strip symbol)) (PStr (str_strip exchange)) = Inr iid"
    and c: "map_of (pv_instruments p) iid = Some c" using load_pairs_covers [OF assms(1) k assms(2,3) ids] by blast
  have "fu_id c = iid" using load_pairs_grows [OF assms(1) k] c by (simp add: keyed_def)
  with iid c instrument_id_splits [OF iid] show ?thesis by blast
qed

lemma demo_loads: "fst (load_pairs demo_prov_env demo_session [('' nqz6'', ''CME'')] \<lparr>pv_instruments = []\<rparr> ()) = Inr ()"
  by code_simp

theorem every_listed_pair_is_loaded_witness:
  "''NQZ6-CME.RITHMIC'' \<in> dom (map_of (pv_instruments (fst (snd (load_pairs demo_prov_env demo_session [('' nqz6'', ''CME'')]
     \<lparr>pv_instruments = []\<rparr> ())))))"
proof -
  let ?l = "load_pairs demo_prov_env demo_session [('' nqz6'', ''CME'')] \<lparr>pv_instruments = []\<rparr> ()"
  have "?l = (Inr (), fst (snd ?l), snd (snd ?l))" using demo_loads by (simp add: prod_eq_iff)
  moreover have "product_root (str_upper (str_strip '' nqz6'')) \<noteq> str_upper (str_strip '' nqz6'')"
    and "instrument_id_from_symbol (str_upper (str_strip '' nqz6'')) (PStr (str_strip ''CME'')) = Inr ''NQZ6-CME.RITHMIC''" by code_simp+
  moreover have "i = t" if "ne_instrument_id demo_prov_env t = Inr i" for t i
    using that by (simp add: demo_prov_env_def demo_md_env_def demo_env_def nt_env.defs md_env.defs prov_env.defs split: if_splits)
  ultimately show ?thesis using every_listed_pair_is_loaded [of demo_prov_env demo_session "[('' nqz6'', ''CME'')]"] by fastforce
qed

end
