(* ===== verification/Sessions.thy ===== *)
theory Sessions
  imports Config Instruments
begin

text \<open>
  The wire session facade (\<open>session.py\<close>) and the factories (\<open>factories.py\<close>): how a session is made for a
  configuration, how connecting treats a session that is already up, how the gateway facade shares one registration
  of session events among its listeners, and what the platform's factories build. The native session is a
  parameter: what its constructor and its calls raise. The methods that only forward to it are not repeated here.
\<close>

section \<open>Making a session\<close>

definition PLANTS_MARKET_DATA :: string where "PLANTS_MARKET_DATA = ''market_data''"
definition PLANTS_EXECUTION :: string where "PLANTS_EXECUTION = ''execution''"

text \<open>The arguments the native session is made with; \<open>None\<close> where an argument is not passed.\<close>

record ext_args =
  xa_user :: string
  xa_password :: "string option"
  xa_system_name :: string
  xa_url :: string
  xa_app_name :: "string option"
  xa_app_version :: "string option"
  xa_env :: string
  xa_account_id :: "string option"
  xa_fcm_id :: "string option"
  xa_ib_id :: "string option"
  xa_beta_url :: "string option"
  xa_connect_mode :: string
  xa_gateway_listen :: "string option"
  xa_gateway_auth_token :: "string option"

record ext_env =
  xe_new :: "ext_args \<Rightarrow> exn option"
  xe_request_plants :: "string \<Rightarrow> exn option"

text \<open>A facade over the native session; the direct one knows the plants it has asked for.\<close>

datatype wire_session = FlockedDirect ext_args "string option" | RustGateway ext_args

fun session_args :: "wire_session \<Rightarrow> ext_args" where
  "session_args (FlockedDirect a _) = a"
| "session_args (RustGateway a) = a"

definition create_rust_session :: "ext_env \<Rightarrow> session_config \<Rightarrow> string \<Rightarrow> wire_session res" where
  "create_rust_session xe c plants = (case sc_password c of
       None \<Rightarrow> config_error ''direct mode requires a password (RITHMIC_PASSWORD)''
     | Some password \<Rightarrow>
         let a = \<lparr>xa_user = sc_user c, xa_password = Some password, xa_system_name = sc_system_name c, xa_url = sc_url c,
                  xa_app_name = Some (sc_app_name c), xa_app_version = Some (sc_app_version c), xa_env = sc_env c,
                  xa_account_id = sc_account_id c, xa_fcm_id = sc_fcm_id c, xa_ib_id = sc_ib_id c, xa_beta_url = sc_beta_url c,
                  xa_connect_mode = ''direct'', xa_gateway_listen = sc_gateway_listen c, xa_gateway_auth_token = None\<rparr>
         in bindR (check_opt (xe_new xe a) ()) (\<lambda>_.
              if plants = PLANTS_EXECUTION
              then bindR (check_opt (xe_request_plants xe plants) ()) (\<lambda>_. Inr (FlockedDirect a (Some plants)))
              else Inr (FlockedDirect a None)))"

definition create_rust_gateway_session :: "ext_env \<Rightarrow> session_config \<Rightarrow> wire_session res" where
  "create_rust_gateway_session xe c =
     (let a = \<lparr>xa_user = sc_user c, xa_password = None, xa_system_name = sc_system_name c, xa_url = sc_url c,
               xa_app_name = None, xa_app_version = None, xa_env = sc_env c, xa_account_id = sc_account_id c,
               xa_fcm_id = sc_fcm_id c, xa_ib_id = sc_ib_id c, xa_beta_url = None, xa_connect_mode = ''gateway'',
               xa_gateway_listen = sc_gateway_listen c,
               xa_gateway_auth_token = (if sc_gateway_auth_token c = [] then None else Some (sc_gateway_auth_token c))\<rparr>
      in bindR (check_opt (xe_new xe a) ()) (\<lambda>_. Inr (RustGateway a)))"

definition create_session :: "ext_env \<Rightarrow> session_config \<Rightarrow> string \<Rightarrow> wire_session res" where
  "create_session xe c plants =
     (if sc_connect_mode c = GATEWAY then create_rust_gateway_session xe c else create_rust_session xe c plants)"

section \<open>Connecting\<close>

text \<open>Already connected is no error; anything else is. \<open>inner\<close> is the native session's \<open>connect\<close>.\<close>

definition connect_once :: "('s, exn, unit) em \<Rightarrow> ('s, exn, unit) em" where
  "connect_once inner = catchE inner (\<lambda>e. if exn_cls e = AlreadyConnectedError then returnE () else raiseE e)"

definition ensure_connected :: "('s, exn, unit) em \<Rightarrow> ('s, exn, unit) em" where
  "ensure_connected inner = connect_once inner"

text \<open>The direct facade connects through the helper, the gateway facade passes the call on.\<close>

definition session_connect :: "wire_session \<Rightarrow> ('s, exn, unit) em \<Rightarrow> ('s, exn, unit) em" where
  "session_connect w inner = (case w of FlockedDirect _ _ \<Rightarrow> ensure_connected inner | RustGateway _ \<Rightarrow> inner)"

definition connect_market_data_session :: "ext_env \<Rightarrow> environ \<Rightarrow> (wire_session \<Rightarrow> ('s, exn, unit) em) \<Rightarrow> session_config option
    \<Rightarrow> ('s, exn, wire_session) em" where
  "connect_market_data_session xe env inner config =
     bindE (liftE (case config of Some c \<Rightarrow> Inr c | None \<Rightarrow> session_from_env env True)) (\<lambda>c.
     bindE (liftE (create_session xe c PLANTS_MARKET_DATA)) (\<lambda>w.
     thenE (session_connect w (inner w)) (returnE w)))"

section \<open>Session events of the gateway facade\<close>

text \<open>
  \<open>_RustGatewaySession\<close>: its listeners, its registration at the native session, the registrations the native
  session holds, and what each listener was called with. \<open>fc_outcomes\<close> is what the native calls to come raise.
\<close>

record 'e facade =
  fc_listeners :: "nat list"
  fc_subscription :: "nat option"
  fc_registered :: "nat list"
  fc_next :: nat
  fc_outcomes :: "exn option list"
  fc_heard :: "(nat \<times> 'e) list"

definition facade_new :: "exn option list \<Rightarrow> 'e facade" where
  "facade_new outcomes = \<lparr>fc_listeners = [], fc_subscription = None, fc_registered = [], fc_next = 0, fc_outcomes = outcomes, fc_heard = []\<rparr>"

definition native_call :: "('e facade, exn, unit) em" where
  "native_call = (\<lambda>s. case fc_outcomes s of
       [] \<Rightarrow> (Inr (), s)
     | None # rs \<Rightarrow> (Inr (), s\<lparr>fc_outcomes := rs\<rparr>)
     | Some e # rs \<Rightarrow> (Inl e, s\<lparr>fc_outcomes := rs\<rparr>))"

definition register_relay :: "('e facade, exn, unit) em" where
  "register_relay = thenE native_call (modifyE (\<lambda>s. s\<lparr>fc_subscription := Some (fc_next s),
     fc_registered := fc_registered s @ [fc_next s], fc_next := fc_next s + 1\<rparr>))"

definition subscribe_session_events :: "nat \<Rightarrow> ('e facade, exn, unit) em" where
  "subscribe_session_events l =
     bindE (getE (\<lambda>s. fc_subscription s = None \<and> fc_listeners s = [])) (\<lambda>first.
     thenE (if first then register_relay else returnE ())
       (modifyE (\<lambda>s. s\<lparr>fc_listeners := fc_listeners s @ [l]\<rparr>)))"

definition cancel_subscription :: "('e facade, exn, unit) em" where
  "cancel_subscription =
     bindE (getE fc_subscription) (\<lambda>sub.
     thenE (modifyE (\<lambda>s. s\<lparr>fc_subscription := None\<rparr>))
     (case sub of
        None \<Rightarrow> returnE ()
      | Some i \<Rightarrow> thenE native_call (modifyE (\<lambda>s. s\<lparr>fc_registered := removeAll i (fc_registered s)\<rparr>))))"

definition cancel_listener :: "nat \<Rightarrow> ('e facade, exn, unit) em" where
  "cancel_listener l =
     thenE (modifyE (\<lambda>s. s\<lparr>fc_listeners := remove1 l (fc_listeners s)\<rparr>))
     (bindE (getE fc_listeners) (\<lambda>ls. if ls = [] then cancel_subscription else returnE ()))"

definition facade_disconnect :: "('e facade, exn, unit) em" where
  "facade_disconnect = thenE cancel_subscription native_call"

text \<open>The listeners of the moment in order; one that raises ends the round. \<open>hear\<close> is what a listener raises.\<close>

definition fan_out :: "(nat \<Rightarrow> 'e \<Rightarrow> exn option) \<Rightarrow> 'e \<Rightarrow> ('e facade, exn, unit) em" where
  "fan_out hear e =
     bindE (getE fc_listeners) (\<lambda>ls. forE ls (\<lambda>l.
       thenE (modifyE (\<lambda>s. s\<lparr>fc_heard := fc_heard s @ [(l, e)]\<rparr>))
       (case hear l e of None \<Rightarrow> returnE () | Some x \<Rightarrow> raiseE x)))"

text \<open>An event of the native session: each registration's relay fans it out.\<close>

definition native_event :: "(nat \<Rightarrow> 'e \<Rightarrow> exn option) \<Rightarrow> 'e \<Rightarrow> ('e facade, exn, unit) em" where
  "native_event hear e = bindE (getE fc_registered) (\<lambda>rs. forE rs (\<lambda>_. fan_out hear e))"

section \<open>Factories\<close>

text \<open>A data configuration of the platform: the adapter's own, or another object with or without the two attributes.\<close>

datatype data_setting = OwnData data_client_config | OtherData "session_config option" "bool option"

definition session_config_from :: "environ \<Rightarrow> session_config option \<Rightarrow> session_config res" where
  "session_config_from env ses = (case ses of Some c \<Rightarrow> Inr c | None \<Rightarrow> session_from_env env True)"

definition pairs_from_session :: "session_config \<Rightarrow> (string \<times> string) list" where
  "pairs_from_session c = (if or_empty (sc_symbol c) \<noteq> [] \<and> or_empty (sc_exchange c) \<noteq> []
     then [(or_empty (sc_symbol c), or_empty (sc_exchange c))] else [(''NQ'', ''CME'')])"

record data_parts =
  dp_session :: wire_session
  dp_pairs :: "(string \<times> string) list"
  dp_config :: data_client_config

definition create_data_client :: "ext_env \<Rightarrow> environ \<Rightarrow> data_setting \<Rightarrow> data_parts res" where
  "create_data_client xe env config =
     bindR (session_config_from env (case config of OwnData d \<Rightarrow> Some (dcc_session d) | OtherData ses _ \<Rightarrow> ses)) (\<lambda>c.
     bindR (create_session xe c PLANTS_MARKET_DATA) (\<lambda>w.
       Inr \<lparr>dp_session = w, dp_pairs = pairs_from_session c,
            dp_config = (case config of
                OwnData d \<Rightarrow> d
              | OtherData _ on_close \<Rightarrow> \<lparr>dcc_session = c, dcc_instrument_ids = [], dcc_venue = VENUE,
                  dcc_bars_timestamp_on_close = (case on_close of Some b \<Rightarrow> b | None \<Rightarrow> True)\<rparr>)\<rparr>))"

text \<open>An execution configuration: the adapter's own, its live class for a trading node, or a bare platform one.\<close>

datatype exec_setting = OwnExec exec_client_config | LiveExec "session_config option" bool bool | BareExec "session_config option"

record exec_parts =
  ep_session :: wire_session
  ep_pairs :: "(string \<times> string) list"
  ep_config :: exec_setting

definition create_exec_client :: "ext_env \<Rightarrow> environ \<Rightarrow> exec_setting \<Rightarrow> exec_parts res" where
  "create_exec_client xe env config =
     bindR (session_config_from env (case config of OwnExec d \<Rightarrow> Some (ecc_session d) | LiveExec ses _ _ \<Rightarrow> ses | BareExec ses \<Rightarrow> ses)) (\<lambda>c.
     bindR (create_session xe c PLANTS_EXECUTION) (\<lambda>w.
       Inr \<lparr>ep_session = w, ep_pairs = pairs_from_session c,
            ep_config = (case config of
                BareExec _ \<Rightarrow> OwnExec \<lparr>ecc_session = c, ecc_venue = VENUE, ecc_soft_fail_pnl = True, ecc_enable_trading = False\<rparr>
              | own \<Rightarrow> own)\<rparr>))"

section \<open>A broadcaster\<close>

text \<open>
  What the facade promises, without registrations: a list of listeners and a switch. The first listener turns the
  switch on, unless the registration it makes raises, in which case it is not added; the last one to leave and a
  close turn it off. While it is on, an event goes down the list to the first listener that raises. The operations
  carry what the native registration, the listeners and the native disconnect raise; cancelling a native
  registration only sets a flag and does not raise.
\<close>

datatype 'e facade_op = Listen nat "exn option" | Leave nat | Event "nat \<Rightarrow> exn option" 'e | Close "exn option"

fun reached_by :: "(nat \<Rightarrow> exn option) \<Rightarrow> nat list \<Rightarrow> nat list" where
  "reached_by hear [] = []"
| "reached_by hear (l # ls) = l # (if hear l = None then reached_by hear ls else [])"

type_synonym 'e broadcast = "nat list \<times> bool \<times> (nat \<times> 'e) list"

fun spec_op :: "'e facade_op \<Rightarrow> 'e broadcast \<Rightarrow> 'e broadcast" where
  "spec_op (Listen l r) (ls, live, h) =
     (if ls \<noteq> [] then (ls @ [l], live, h) else if r = None then ([l], True, h) else (ls, live, h))"
| "spec_op (Leave l) (ls, live, h) = (remove1 l ls, live \<and> remove1 l ls \<noteq> [], h)"
| "spec_op (Event hear e) (ls, live, h) = (ls, live, if live then h @ map (\<lambda>l. (l, e)) (reached_by hear ls) else h)"
| "spec_op (Close r) (ls, live, h) = (ls, False, h)"

text \<open>The facade's methods, with what their native calls raise.\<close>

fun facade_op_run :: "'e facade_op \<Rightarrow> 'e facade \<Rightarrow> 'e facade" where
  "facade_op_run (Listen l r) s = snd (subscribe_session_events l (s\<lparr>fc_outcomes := [r]\<rparr>))"
| "facade_op_run (Leave l) s = snd (cancel_listener l (s\<lparr>fc_outcomes := []\<rparr>))"
| "facade_op_run (Event hear e) s = snd (native_event (\<lambda>l _. hear l) e s)"
| "facade_op_run (Close r) s =
     snd (facade_disconnect (s\<lparr>fc_outcomes := (if fc_subscription s = None then [r] else [None, r])\<rparr>))"

definition run_facade :: "'e facade_op list \<Rightarrow> 'e facade \<Rightarrow> 'e facade" where
  "run_facade ops s = fold facade_op_run ops s"

definition implements :: "'e broadcast \<Rightarrow> 'e facade \<Rightarrow> bool" where
  "implements = (\<lambda>(ls, live, h) s. fc_listeners s = ls \<and> fc_heard s = h \<and> (live \<longrightarrow> ls \<noteq> [])
     \<and> (if live then \<exists>i. fc_subscription s = Some i \<and> fc_registered s = [i]
         else fc_subscription s = None \<and> fc_registered s = []))"

lemma fan_out_reached:
  "snd (forE ls (\<lambda>l. thenE (modifyE (\<lambda>s. s\<lparr>fc_heard := fc_heard s @ [(l, e)]\<rparr>))
       (case hear l of None \<Rightarrow> returnE () | Some x \<Rightarrow> raiseE x)) s)
     = s\<lparr>fc_heard := fc_heard s @ map (\<lambda>l. (l, e)) (reached_by hear ls)\<rparr>"
proof (induction ls arbitrary: s)
  case (Cons l ls)
  then show ?case by (cases "hear l") (simp_all add: em_simps)
qed (simp add: em_simps)

lemma snd_forE_one: "snd (forE [x] f s) = snd (f x s)"
  by (auto simp: em_simps split: prod.splits sum.splits)

lemmas facade_defs = subscribe_session_events_def register_relay_def cancel_listener_def cancel_subscription_def facade_disconnect_def
  native_call_def implements_def

lemma facade_event:
  assumes "implements (ls, live, h) s"
  shows "implements (spec_op (Event hear e) (ls, live, h)) (facade_op_run (Event hear e) s)"
proof (cases live)
  case True
  with assms obtain i where i: "fc_registered s = [i]" "fc_listeners s = ls" by (auto simp: implements_def)
  have "facade_op_run (Event hear e) s = snd (forE [i] (\<lambda>_. fan_out (\<lambda>l _. hear l) e) s)"
    by (simp only: facade_op_run.simps native_event_def) (simp add: em_simps i)
  also have "\<dots> = s\<lparr>fc_heard := fc_heard s @ map (\<lambda>l. (l, e)) (reached_by hear ls)\<rparr>"
    unfolding snd_forE_one fan_out_def using fan_out_reached [of ls e hear s] by (simp add: em_simps i)
  finally show ?thesis using assms True by (simp add: implements_def)
next
  case False
  then show ?thesis using assms by (simp add: native_event_def em_simps implements_def)
qed

lemma facade_op_implements:
  assumes "implements a s"
  shows "implements (spec_op op1 a) (facade_op_run op1 s)"
proof -
  obtain ls live h where a: "a = (ls, live, h)" by (cases a)
  show ?thesis
  proof (cases op1)
    case (Listen l r)
    then show ?thesis using assms a by (cases r; cases "ls = []"; cases live) (auto simp: facade_defs em_simps)
  next
    case (Leave l)
    then show ?thesis using assms a by (cases live) (auto simp: facade_defs em_simps)
  next
    case (Event hear e)
    show ?thesis unfolding Event a by (rule facade_event [OF assms [unfolded a]])
  next
    case (Close r)
    then show ?thesis using assms a by (cases r; cases live) (auto simp: facade_defs em_simps)
  qed
qed

lemma run_facade_implements: "implements a s \<Longrightarrow> implements (fold spec_op ops a) (run_facade ops s)"
  by (induction ops arbitrary: a s) (simp_all add: run_facade_def facade_op_implements)

text \<open>
  C21: the gateway facade is a broadcaster over one registration. Let listeners come and go, session events arrive and
  the session be closed, in any order; let any registration, listener or disconnect raise (cancelling a native
  registration does not). Then the facade has exactly the listeners of the broadcaster, each event was heard by exactly
  those it reaches, once and in order, namely the listeners of the moment down to the first that raises, and the
  native session holds one registration while the broadcaster is on and none otherwise.
\<close>

theorem facade_is_a_broadcaster:
  "let s = run_facade ops (facade_new []); (listeners, live, heard) = fold spec_op ops ([], False, [])
    in fc_listeners s = listeners \<and> fc_heard s = heard \<and> length (fc_registered s) = (if live then 1 else 0)"
proof -
  have "implements ([], False, []) (facade_new [])" by (simp add: implements_def facade_new_def)
  then have "implements (fold spec_op ops ([], False, [])) (run_facade ops (facade_new []))" by (rule run_facade_implements)
  then show ?thesis by (auto simp: implements_def Let_def split: prod.splits if_splits)
qed

text \<open>While no listener raises and the listeners leave before a close, every listener hears every event.\<close>

lemma reached_by_all: "list_all (\<lambda>l. hear l = None) ls \<Longrightarrow> reached_by hear ls = ls"
  by (induction ls) simp_all

section \<open>Secrets of a session\<close>

text \<open>Whatever the configuration, a password is passed on in direct mode only.\<close>

lemma session_password:
  "create_session xe c plants = Inr w \<Longrightarrow> xa_password (session_args w) = (if sc_connect_mode c = GATEWAY then None else sc_password c)"
  by (auto simp: create_session_def create_rust_session_def create_rust_gateway_session_def config_error_def bindR_eq_Inr_iff Let_def
      split: option.splits if_splits)

text \<open>Only a configuration that says so gives an execution client that trades.\<close>

lemma trading_needs_consent:
  assumes "create_exec_client xe env config = Inr p"
  shows "case ep_config p of OwnExec d \<Rightarrow> ecc_enable_trading d \<longrightarrow> config = OwnExec d
    | LiveExec ses b soft \<Rightarrow> config = LiveExec ses b soft | BareExec _ \<Rightarrow> False"
  using assms by (auto simp: create_exec_client_def bindR_eq_Inr_iff split: exec_setting.splits)

end
