(* ===== verification/Redact.thy ===== *)
theory Redact
  imports PyValue
begin

text \<open>
  Scrubbing of secrets from text (\<open>redact_text\<close> of \<open>_redact.py\<close>): every secret and its escaped forms become three
  stars, in one pass, the longest form first. Characters are those of Latin-1.
\<close>

section \<open>Escaped forms\<close>

definition hex_char :: "nat \<Rightarrow> char" where
  "hex_char n = (if n < 10 then char_of (48 + n) else char_of (87 + n))"

definition hex2 :: "nat \<Rightarrow> string" where
  "hex2 n = [hex_char (n div 16), hex_char (n mod 16)]"

text \<open>The text between the quotes of \<open>repr(s)\<close>, of \<open>json.dumps(s)\<close>, and of \<open>repr(s.encode())\<close>.\<close>

definition repr_body :: "string \<Rightarrow> string" where
  "repr_body s = butlast (drop 1 (str_repr s))"

definition json_char :: "char \<Rightarrow> string" where
  "json_char c = (let n = (of_char c :: nat) in
     if n = 34 \<or> n = 92 then [CHR 0x5C, c] else if n = 8 then [CHR 0x5C, CHR ''b''] else if n = 9 then [CHR 0x5C, CHR ''t'']
     else if n = 10 then [CHR 0x5C, CHR ''n''] else if n = 12 then [CHR 0x5C, CHR ''f''] else if n = 13 then [CHR 0x5C, CHR ''r'']
     else if n < 32 \<or> 126 < n then [CHR 0x5C, CHR ''u'', CHR ''0'', CHR ''0''] @ hex2 n
     else [c])"

definition json_body :: "string \<Rightarrow> string" where
  "json_body s = concat (map json_char s)"

definition utf8 :: "char \<Rightarrow> nat list" where
  "utf8 c = (let n = (of_char c :: nat) in if n < 128 then [n] else [192 + n div 64, 128 + n mod 64])"

definition byte_text :: "char \<Rightarrow> nat \<Rightarrow> string" where
  "byte_text quote n =
     (if n = 92 \<or> n = of_char quote then [CHR 0x5C, char_of n] else if n = 9 then [CHR 0x5C, CHR ''t'']
      else if n = 10 then [CHR 0x5C, CHR ''n''] else if n = 13 then [CHR 0x5C, CHR ''r'']
      else if n < 32 \<or> 126 < n then [CHR 0x5C, CHR ''x''] @ hex2 n
      else [char_of n])"

definition bytes_body :: "string \<Rightarrow> string" where
  "bytes_body s =
     (let quote = (if CHR 0x27 \<in> set s \<and> CHR 0x22 \<notin> set s then CHR 0x22 else CHR 0x27)
      in concat (map (byte_text quote) (concat (map utf8 s))))"

section \<open>One pass\<close>

definition secret_variants :: "string list \<Rightarrow> string list" where
  "secret_variants secrets = remdups (concat (map (\<lambda>v. if v = [] then [] else [v, repr_body v, json_body v, bytes_body v]) secrets))"

text \<open>The first position at which some form starts: the text before it, and the text behind the form matched.\<close>

fun next_match :: "string list \<Rightarrow> string \<Rightarrow> string \<times> string option" where
  "next_match vs [] = ([], None)"
| "next_match vs (c # s) =
     (case List.find (\<lambda>v. v \<noteq> [] \<and> take (length v) (c # s) = v) vs of
        Some v \<Rightarrow> ([], Some (drop (length v) (c # s)))
      | None \<Rightarrow> (case next_match vs s of (k, r) \<Rightarrow> (c # k, r)))"

lemma next_match_shorter: "next_match vs s = (k, Some r) \<Longrightarrow> length r < length s"
proof (induction vs s arbitrary: k rule: next_match.induct)
  case (2 vs c s)
  then show ?case by (auto simp: find_Some_iff split: option.splits prod.splits)
qed simp

function redact_from :: "string list \<Rightarrow> string \<Rightarrow> string" where
  "redact_from vs s = (case next_match vs s of (k, None) \<Rightarrow> k | (k, Some r) \<Rightarrow> k @ ''***'' @ redact_from vs r)"
  by pat_completeness auto
termination by (relation "measure (\<lambda>(vs, s). length s)") (auto dest: next_match_shorter [OF sym])

declare redact_from.simps [simp del]

definition redact_text :: "string \<Rightarrow> string list \<Rightarrow> string" where
  "redact_text s secrets =
     (let variants = secret_variants secrets
      in if variants = [] then s else redact_from (rev (sort_key length variants)) s)"

section \<open>Leftmost and longest\<close>

text \<open>
  What a scrubbed text is, without the patterns of the code: a secret is sought as it is and as Python, JSON and
  bytes literals spell it. The text is cut where a spelling starts; nothing before the cut starts one, not even
  one that runs on behind it, and of the spellings that start there the longest is replaced.
\<close>

definition spelling :: "string list \<Rightarrow> string \<Rightarrow> bool" where
  "spelling secrets w \<longleftrightarrow> list_ex (\<lambda>v. v \<noteq> [] \<and> (w = v \<or> w = repr_body v \<or> w = json_body v \<or> w = bytes_body v)) secrets"

definition starts :: "string \<Rightarrow> string \<Rightarrow> bool" where
  "starts w s \<longleftrightarrow> w \<noteq> [] \<and> take (length w) s = w"

inductive scrubbed :: "(string \<Rightarrow> bool) \<Rightarrow> string \<Rightarrow> string \<Rightarrow> bool" for P where
  clean: "\<forall>w i. P w \<longrightarrow> i < length s \<longrightarrow> \<not> starts w (drop i s) \<Longrightarrow> scrubbed P s s"
| hide: "P v \<Longrightarrow> v \<noteq> [] \<Longrightarrow> s = k @ v @ t \<Longrightarrow> \<forall>w i. P w \<longrightarrow> i < length k \<longrightarrow> \<not> starts w (drop i s) \<Longrightarrow>
    \<forall>w. P w \<longrightarrow> starts w (v @ t) \<longrightarrow> length w \<le> length v \<Longrightarrow> scrubbed P t u \<Longrightarrow> scrubbed P s (k @ ''***'' @ u)"

text \<open>The answer of the scan: the text before the first match, which is a longest one.\<close>

lemma find_longest:
  assumes "List.find Q (rev (sort_key length vs)) = Some v" "w \<in> set vs" "Q w"
  shows "length w \<le> length v"
proof -
  let ?r = "rev (sort_key length vs)"
  obtain i where i: "i < length ?r" "v = ?r ! i" "\<forall>j < i. \<not> Q (?r ! j)" using assms(1) by (auto simp: find_Some_iff)
  obtain j where j: "j < length ?r" "w = ?r ! j" using assms(2) by (metis in_set_conv_nth set_rev set_sort)
  then have "i \<le> j" using i(3) assms(3) not_less by blast
  moreover have "sorted (rev (map length ?r))" by (simp add: rev_map)
  ultimately show ?thesis using i j sorted_rev_nth_mono [of "map length ?r" i j] by simp
qed

lemma next_match_first:
  "next_match vs s = (k, r) \<Longrightarrow> w \<in> set vs \<Longrightarrow> i < length k \<Longrightarrow> \<not> starts w (drop i s)"
proof (induction vs s arbitrary: k r i rule: next_match.induct)
  case (2 vs c s)
  show ?case
  proof (cases "List.find (\<lambda>v. v \<noteq> [] \<and> take (length v) (c # s) = v) vs")
    case None
    obtain k' r' where n: "next_match vs s = (k', r')" by fastforce
    with 2(2) None have k: "k = c # k'" by simp
    have "\<not> starts w (c # s)" using None 2(3) by (auto simp: find_None_iff starts_def)
    then show ?thesis using 2(1) [OF None n 2(3)] 2(4) k by (cases i) auto
  qed (use 2 in auto)
qed simp

lemma next_match_found:
  "next_match (rev (sort_key length vs)) s = (k, r) \<Longrightarrow> (case r of None \<Rightarrow> s = k
     | Some t \<Rightarrow> \<exists>v \<in> set vs. v \<noteq> [] \<and> s = k @ v @ t \<and> (\<forall>w \<in> set vs. starts w (v @ t) \<longrightarrow> length w \<le> length v))"
proof (induction "rev (sort_key length vs)" s arbitrary: k r rule: next_match.induct)
  case (2 c s)
  let ?Q = "\<lambda>v. v \<noteq> [] \<and> take (length v) (c # s) = v"
  show ?case
  proof (cases "List.find ?Q (rev (sort_key length vs))")
    case None
    then show ?thesis using 2 by (auto split: prod.splits option.splits)
  next
    case (Some v)
    then have "v \<in> set (rev (sort_key length vs))" "?Q v" by (auto simp only: find_Some_iff in_set_conv_nth)
    then have v: "v \<in> set vs" "v \<noteq> []" "take (length v) (c # s) = v" by simp_all
    moreover from this have cs: "c # s = v @ drop (length v) (c # s)" by (metis append_take_drop_id)
    moreover have "\<forall>w \<in> set vs. starts w (c # s) \<longrightarrow> length w \<le> length v"
      using find_longest [OF Some] by (simp add: starts_def)
    moreover have "k = []" "r = Some (drop (length v) (c # s))" using 2(2) Some by simp_all
    ultimately show ?thesis by (simp only: option.case append_Nil) (metis cs)
  qed
qed simp

lemma redact_from_scrubbed:
  "scrubbed (\<lambda>w. w \<in> set vs) s (redact_from (rev (sort_key length vs)) s)"
proof (induction "rev (sort_key length vs)" s rule: redact_from.induct)
  case (1 s)
  let ?r = "rev (sort_key length vs)"
  obtain k r where n: "next_match ?r s = (k, r)" by fastforce
  have first: "\<forall>w i. w \<in> set vs \<longrightarrow> i < length k \<longrightarrow> \<not> starts w (drop i s)" using next_match_first [OF n] by simp
  show ?case
  proof (cases r)
    case None
    have "redact_from ?r s = k" using n None by (simp add: redact_from.simps [of ?r s])
    moreover have "s = k" using next_match_found [OF n] None by simp
    ultimately show ?thesis using first by (simp only:) (rule scrubbed.clean)
  next
    case (Some t)
    obtain v where v: "v \<in> set vs" "v \<noteq> []" "s = k @ v @ t" "\<forall>w \<in> set vs. starts w (v @ t) \<longrightarrow> length w \<le> length v"
      using next_match_found [OF n] Some by auto
    have "scrubbed (\<lambda>w. w \<in> set vs) s (k @ ''***'' @ redact_from ?r t)"
      using v(4) by (intro scrubbed.hide [OF v(1-3) first _ 1 [OF n [symmetric] Some]]) simp
    then show ?thesis using n Some by (simp add: redact_from.simps [of ?r s])
  qed
qed

lemma secret_variants_spelling: "w \<in> set (secret_variants secrets) \<longleftrightarrow> spelling secrets w"
  by (auto simp: secret_variants_def spelling_def list_ex_iff split: if_splits)

text \<open>What a scrubbed text keeps holds no spelling: every stretch between the stars.\<close>

lemma contains_starts: "w \<noteq> [] \<Longrightarrow> str_contains w s \<Longrightarrow> \<exists>i < length s. starts w (drop i s)"
proof (induction s)
  case (Cons c s)
  show ?case
  proof (cases "take (length w) (c # s) = w")
    case True
    then show ?thesis using Cons.prems(1) by (intro exI [of _ 0]) (simp add: starts_def)
  next
    case False
    with Cons obtain i where "i < length s" "starts w (drop i s)" by auto
    then show ?thesis by (intro exI [of _ "Suc i"]) simp
  qed
qed simp

lemma starts_append: "starts w s \<Longrightarrow> starts w (s @ t)"
  by (auto simp: starts_def) (metis append_Nil2 cancel_comm_monoid_add_class.diff_cancel diff_is_0_eq length_take min_def nat_le_linear take_all_iff take_append)

fun weave :: "string list \<Rightarrow> string list \<Rightarrow> string" where
  "weave (k # ks) (v # vs) = k @ v @ weave ks vs"
| "weave (k # ks) [] = k @ weave ks []"
| "weave [] vs = []"

lemma scrubbed_weave:
  assumes "scrubbed P s u" "\<forall>w. P w \<longrightarrow> w \<noteq> []"
  shows "\<exists>ks hs. length ks = length hs + 1 \<and> u = weave ks (map (\<lambda>_. ''***'') hs) \<and> s = weave ks hs
    \<and> list_all P hs \<and> list_all (\<lambda>k. \<forall>w. P w \<longrightarrow> \<not> str_contains w k) ks"
  using assms
proof (induction rule: scrubbed.induct)
  case (clean s)
  then have "\<forall>w. P w \<longrightarrow> \<not> str_contains w s" by (meson contains_starts)
  then show ?case by - (rule exI [of _ "[s]"], rule exI [of _ "[]"], simp)
next
  case (hide v s k t u)
  then obtain ks hs where ih: "length ks = length hs + 1" "u = weave ks (map (\<lambda>_. ''***'') hs)" "t = weave ks hs"
    "list_all P hs" "list_all (\<lambda>k. \<forall>w. P w \<longrightarrow> \<not> str_contains w k) ks" by blast
  have "\<not> str_contains w k" if w: "P w" for w
  proof
    assume "str_contains w k"
    then obtain i where "i < length k" "starts w (drop i k)" using contains_starts [of w k] hide.prems w by blast
    then have "starts w (drop i s)" using starts_append [of w "drop i k" "v @ t"] hide.hyps(3) by simp
    then show False using hide.hyps(4) w \<open>i < length k\<close> by blast
  qed
  then show ?case using ih hide.hyps(1,3)
    by - (rule exI [of _ "k # ks"], rule exI [of _ "v # hs"], simp)
qed

lemma byte_text_nonempty: "byte_text q n \<noteq> []"
  by (simp add: byte_text_def)

lemma escaped_nonempty:
  assumes "v \<noteq> []"
  shows "repr_body v \<noteq> []" "json_body v \<noteq> []" "bytes_body v \<noteq> []"
proof -
  obtain c t where v: "v = c # t" using assms by (cases v) auto
  have "json_char c \<noteq> []" by (simp add: json_char_def Let_def)
  then show "json_body v \<noteq> []" by (simp add: v json_body_def)
  have "utf8 c \<noteq> []" by (simp add: utf8_def Let_def)
  then obtain n ns where "utf8 c = n # ns" by (cases "utf8 c") auto
  then show "bytes_body v \<noteq> []" by (simp add: v bytes_body_def Let_def byte_text_nonempty)
  show "repr_body v \<noteq> []" by (simp add: v repr_body_def str_repr_def Let_def butlast_append)
qed

lemma spelling_nonempty: "spelling secrets w \<Longrightarrow> w \<noteq> []"
  by (auto simp: spelling_def list_ex_iff dest: escaped_nonempty)

text \<open>
  C14: no secret survives redaction. A secret is sought as it is and as \<open>repr\<close>, \<open>json.dumps\<close> and \<open>repr\<close> of its bytes
  spell it. The result is the scrubbed text: from the left, the first place where a spelling of a secret starts, and
  there the longest spelling, becomes three stars, and so on behind it. So the text falls into stretches that are kept
  and pieces that are replaced; each piece replaced is a spelling of a non-empty secret, and no stretch that is kept
  contains a non-empty secret in any of the four spellings. Without secrets the text is unchanged.
\<close>

theorem no_secret_survives_redaction:
  "scrubbed (spelling secrets) s (redact_text s secrets)
   \<and> (\<exists>ks hs. length ks = length hs + 1 \<and> redact_text s secrets = weave ks (map (\<lambda>_. ''***'') hs) \<and> s = weave ks hs
     \<and> list_all (spelling secrets) hs
     \<and> list_all (\<lambda>k. list_all (\<lambda>v. v = [] \<or> list_all (\<lambda>w. \<not> str_contains w k) [v, repr_body v, json_body v, bytes_body v]) secrets) ks)"
proof -
  have vs: "(\<lambda>w. w \<in> set (secret_variants secrets)) = spelling secrets" by (simp only: secret_variants_spelling)
  have s: "scrubbed (spelling secrets) s (redact_text s secrets)"
  proof (cases "secret_variants secrets = []")
    case True
    then have "\<not> spelling secrets w" for w using secret_variants_spelling [of w secrets] by simp
    then show ?thesis using True by (simp add: redact_text_def scrubbed.clean)
  next
    case False
    then show ?thesis using redact_from_scrubbed [of "secret_variants secrets" s] by (simp add: redact_text_def Let_def vs)
  qed
  obtain ks hs where w: "length ks = length hs + 1" "redact_text s secrets = weave ks (map (\<lambda>_. ''***'') hs)" "s = weave ks hs"
    "list_all (spelling secrets) hs" "list_all (\<lambda>k. \<forall>w. spelling secrets w \<longrightarrow> \<not> str_contains w k) ks"
    using scrubbed_weave [OF s] spelling_nonempty by blast
  have "list_all (\<lambda>v. v = [] \<or> list_all (\<lambda>w. \<not> str_contains w k) [v, repr_body v, json_body v, bytes_body v]) secrets"
    if "\<forall>w. spelling secrets w \<longrightarrow> \<not> str_contains w k" for k
    using that unfolding list_all_iff spelling_def list_ex_iff by auto
  then have "list_all (\<lambda>k. list_all (\<lambda>v. v = [] \<or> list_all (\<lambda>w. \<not> str_contains w k) [v, repr_body v, json_body v, bytes_body v]) secrets) ks"
    using w(5) by (simp only: list_all_iff [of _ ks]) blast
  with s w(1-4) show ?thesis by blast
qed

text \<open>Secrets that overlap otherwise than as prefixes still show the end of the second one.\<close>

lemma overlapping_secrets_leave_a_suffix: "redact_text ''abcde'' [''abc'', ''cde''] = ''***de''"
  by code_simp

end
