(* ===== verification/Verify.thy ===== *)
theory Verify
  imports Instruments GatewayConfig
begin

text \<open>
  The live check (\<open>verify.py\<close>): record the trades of the front month for a while, load the same window from history,
  compare the two, and report. Prices are numbers (a NaN, which is unequal to itself, does not occur). A recording
  with a deadline takes the number of tests made before it passes; writing the recording is a call of the session.
\<close>

section \<open>Recorded trades\<close>

record recorded_tick =
  rt_ts_event_ns :: int
  rt_price :: pyfloat
  rt_size :: pyfloat
  rt_source :: string

text \<open>\<open>round(x, n)\<close>: the exact value rounded to \<open>n\<close> decimals, ties to even, then to a double.\<close>

definition round_to :: "nat \<Rightarrow> pyfloat \<Rightarrow> pyfloat" where
  "round_to n f = (case f of Fin x \<Rightarrow> to_double (of_int (round_half_even (x * 10 ^ n)) / 10 ^ n) | _ \<Rightarrow> f)"

fun float_le :: "pyfloat \<Rightarrow> pyfloat \<Rightarrow> bool" where
  "float_le (Fin x) (Fin y) \<longleftrightarrow> x \<le> y"
| "float_le NaN _ \<longleftrightarrow> False"
| "float_le _ NaN \<longleftrightarrow> False"
| "float_le NInf _ \<longleftrightarrow> True"
| "float_le _ PInf \<longleftrightarrow> True"
| "float_le _ _ \<longleftrightarrow> False"

type_synonym tick_key = "int \<times> pyfloat"

definition tick_key_of :: "recorded_tick \<Rightarrow> tick_key" where
  "tick_key_of t = (rt_ts_event_ns t, round_to 6 (rt_price t))"

definition dict_repr :: "pydict \<Rightarrow> string" where
  "dict_repr d = ''{'' @ join_with '', '' (map (\<lambda>(k, v). str_repr k @ '': '' @ py_repr v) d) @ ''}''"

definition event_to_recorded :: "string \<Rightarrow> pydict \<Rightarrow> recorded_tick option res" where
  "event_to_recorded source event =
     (let etype = dget event ''type'' in
      if etype \<notin> {PStr ''last_trade'', PStr ''history_tick''} then Inr None
      else
        let price = dget event ''trade_price''; size1 = dget event ''trade_size''; ts0 = dget event ''ts_event_ns''; ssboe = dget event ''ssboe'';
            usecs = (if dget event ''usecs'' = PNone then PInt 0 else dget event ''usecs'')
        in bindR (if ts0 = PNone \<and> ssboe \<noteq> PNone
                  then bindR (py_int ssboe) (\<lambda>a. bindR (py_int usecs) (\<lambda>b. Inr (PInt (a * 1000000000 + b * 1000))))
                  else Inr ts0) (\<lambda>ts.
           if price = PNone \<or> size1 = PNone \<or> ts = PNone
           then Inl (exn_of ValueError (source @ '' '' @ py_str etype @ '' missing trade_price/trade_size/timestamp: '' @ dict_repr event))
           else bindR (py_int ts) (\<lambda>n. bindR (py_float price) (\<lambda>p. bindR (py_float size1) (\<lambda>z.
                  Inr (Some \<lparr>rt_ts_event_ns = n, rt_price = p, rt_size = z, rt_source = source\<rparr>))))))"

record 's verify_session = "'s md_session" +
  vs_subscribe :: "string \<Rightarrow> string \<Rightarrow> ('s, exn, unit) em"
  vs_unsubscribe :: "string \<Rightarrow> string \<Rightarrow> ('s, exn, unit) em"
  vs_poll_event :: "('s, exn, pydict option) em"
  vs_time :: "('s, exn, int) em" \<comment> \<open>\<open>int(time.time())\<close>\<close>
  vs_write :: "string \<Rightarrow> recorded_tick list \<Rightarrow> ('s, exn, unit) em" \<comment> \<open>one JSON line per tick\<close>

text \<open>\<open>n\<close> is the number of times the deadline is tested before it passes.\<close>

fun record_loop :: "('s, 'x) verify_session_scheme \<Rightarrow> nat \<Rightarrow> nat \<Rightarrow> recorded_tick list \<Rightarrow> ('s, exn, recorded_tick list) em" where
  "record_loop ses max_events 0 out = returnE out"
| "record_loop ses max_events (Suc n) out =
     (if max_events \<le> length out then returnE out
      else bindE (vs_poll_event ses) (\<lambda>event. case event of
        None \<Rightarrow> record_loop ses max_events n out
      | Some d \<Rightarrow> bindE (liftE (event_to_recorded ''live'' d)) (\<lambda>t.
          record_loop ses max_events n (case t of None \<Rightarrow> out | Some x \<Rightarrow> out @ [x]))))"

definition record_live_trades :: "('s, 'x) verify_session_scheme \<Rightarrow> string \<Rightarrow> string \<Rightarrow> pyfloat \<Rightarrow> nat \<Rightarrow> nat
    \<Rightarrow> ('s, exn, recorded_tick list) em" where
  "record_live_trades ses symbol exchange duration_sec max_events n =
     (if float_nonpos duration_sec then raiseE (exn_of ValueError (''duration_sec must be > 0, got '' @ float_repr duration_sec))
      else
        thenE (vs_subscribe ses symbol exchange)
        (bindE (record_loop ses max_events n []) (\<lambda>out.
         thenE (vs_unsubscribe ses symbol exchange)
         (returnE (sort_key rt_ts_event_ns out)))))"

fun history_ticks :: "pydict list \<Rightarrow> recorded_tick list res" where
  "history_ticks [] = Inr []"
| "history_ticks (d # ds) =
     bindR (event_to_recorded ''history'' d) (\<lambda>t. case t of
       None \<Rightarrow> Inl (exn_of ValueError (''unexpected history payload type: '' @ dict_repr d))
     | Some x \<Rightarrow> bindR (history_ticks ds) (\<lambda>xs. Inr (x # xs)))"

definition load_history_trades :: "('s, 'x) verify_session_scheme \<Rightarrow> string \<Rightarrow> string \<Rightarrow> int \<Rightarrow> int \<Rightarrow> ('s, exn, recorded_tick list) em" where
  "load_history_trades ses symbol exchange start_sec end_sec =
     bindE (ms_load_ticks ses symbol exchange start_sec end_sec) (\<lambda>raw.
     bindE (liftE (history_ticks raw)) (\<lambda>out. returnE (sort_key rt_ts_event_ns out)))"

section \<open>Comparison\<close>

text \<open>A dictionary by key, filled tick by tick.\<close>

definition key_map :: "recorded_tick list \<Rightarrow> (tick_key \<times> recorded_tick) list" where
  "key_map ts = fold (\<lambda>t m. dict_set (tick_key_of t) t m) ts []"

text \<open>The rounded prices at each time, a set per time.\<close>

definition prices_at :: "recorded_tick list \<Rightarrow> int \<Rightarrow> pyfloat list" where
  "prices_at ts n = remdups (map (\<lambda>t. round_to 6 (rt_price t)) (filter (\<lambda>t. rt_ts_event_ns t = n) ts))"

definition near :: "pyfloat \<Rightarrow> pyfloat \<Rightarrow> pyfloat \<Rightarrow> bool" where
  "near tol p q \<longleftrightarrow> float_le (float_abs (float_sub p q)) tol"

definition float_min :: "pyfloat list \<Rightarrow> pyfloat" where
  "float_min xs = (case xs of [] \<Rightarrow> NaN | y # ys \<Rightarrow> fold (\<lambda>x m. if float_le m x then m else x) ys y)"

text \<open>Live prices that history has at the same time, but not within the tolerance: how far the nearest one is.\<close>

definition misses_at :: "pyfloat \<Rightarrow> recorded_tick list \<Rightarrow> recorded_tick list \<Rightarrow> int \<Rightarrow> pyfloat list" where
  "misses_at tol live hist n =
     (let hp = prices_at hist n
      in if hp = [] then []
         else map (\<lambda>p. float_min (map (\<lambda>q. float_abs (float_sub p q)) hp))
                (filter (\<lambda>p. \<not> list_ex (near tol p) hp) (prices_at live n)))"

definition key_le :: "tick_key \<Rightarrow> tick_key \<Rightarrow> bool" where
  "key_le a b \<longleftrightarrow> fst a < fst b \<or> (fst a = fst b \<and> float_le (snd a) (snd b))"

fun insert_by :: "('a \<Rightarrow> 'a \<Rightarrow> bool) \<Rightarrow> 'a \<Rightarrow> 'a list \<Rightarrow> 'a list" where
  "insert_by le x [] = [x]"
| "insert_by le x (y # ys) = (if le x y then x # y # ys else y # insert_by le x ys)"

definition sample :: "tick_key list \<Rightarrow> (tick_key \<times> recorded_tick) list \<Rightarrow> recorded_tick list" where
  "sample ks m = concat (map (\<lambda>k. case map_of m k of Some t \<Rightarrow> [t] | None \<Rightarrow> []) (take 5 (foldr (insert_by key_le) ks [])))"

record compare_report =
  cr_matched :: nat
  cr_mismatched :: nat
  cr_live_only :: nat
  cr_history_only :: nat
  cr_fuzzy :: "nat option"
  cr_live_count :: nat
  cr_history_in_window :: nat
  cr_unique_live :: nat
  cr_unique_history :: nat
  cr_max_price_diff :: "pyfloat option"
  cr_overlap_ratio :: pyfloat
  cr_window :: "(int \<times> int) option"
  cr_live_only_samples :: "recorded_tick list"
  cr_history_only_samples :: "recorded_tick list"
  cr_notes :: "string list"

definition empty_compare :: compare_report where
  "empty_compare = \<lparr>cr_matched = 0, cr_mismatched = 0, cr_live_only = 0, cr_history_only = 0, cr_fuzzy = None, cr_live_count = 0,
     cr_history_in_window = 0, cr_unique_live = 0, cr_unique_history = 0, cr_max_price_diff = None, cr_overlap_ratio = Fin 0,
     cr_window = None, cr_live_only_samples = [], cr_history_only_samples = [], cr_notes = []\<rparr>"

definition compare_notes :: "nat \<Rightarrow> nat \<Rightarrow> nat \<Rightarrow> string list" where
  "compare_notes events uniques fuzzy =
     (if uniques < events then [int_str (int (events - uniques)) @ '' duplicate live rows collapsed by (ts,price) key (''
          @ int_str (int events) @ '' events '' @ [CHR 0xE2, CHR 0x86, CHR 0x92] @ '' '' @ int_str (int uniques) @ '' unique)''] else [])
     @ (if fuzzy > 0 then [int_str (int fuzzy) @ '' live_only key(s) match history_only on same ''
          @ ''UTC second+price (likely live usecs truncated to 0)''] else [])"

definition in_window :: "recorded_tick list \<Rightarrow> recorded_tick list \<Rightarrow> recorded_tick list" where
  "in_window live history =
     (let a = Min (rt_ts_event_ns ` set live); b = Max (rt_ts_event_ns ` set live)
      in filter (\<lambda>h. a \<le> rt_ts_event_ns h \<and> rt_ts_event_ns h \<le> b) history)"

definition compare_ticks :: "recorded_tick list \<Rightarrow> recorded_tick list \<Rightarrow> pyfloat \<Rightarrow> compare_report" where
  "compare_ticks live history tol =
     (if live = [] then empty_compare
      else
        let hist = in_window live history; lm = key_map live; hm = key_map hist;
            matched = filter (\<lambda>k. k \<in> set (map fst hm)) (map fst lm);
            live_only = filter (\<lambda>k. k \<notin> set (map fst hm)) (map fst lm);
            hist_only = filter (\<lambda>k. k \<notin> set (map fst lm)) (map fst hm);
            misses = concat (map (misses_at tol live hist) (remdups (map rt_ts_event_ns live)));
            fuzzy = length (filter (\<lambda>(ts, p). list_ex (\<lambda>(hts, hp). hts div 1000000000 = ts div 1000000000 \<and> near tol p hp) hist_only) live_only)
        in \<lparr>cr_matched = length matched, cr_mismatched = length misses, cr_live_only = length live_only,
            cr_history_only = length hist_only, cr_fuzzy = Some fuzzy, cr_live_count = length live,
            cr_history_in_window = length hist, cr_unique_live = length lm, cr_unique_history = length hm,
            cr_max_price_diff = Some (fold (\<lambda>x m. if float_le x m then m else x) misses (Fin 0)),
            cr_overlap_ratio = round_to 4 (to_double (of_nat (length matched) / of_nat (max (length lm) 1))),
            cr_window = Some (Min (rt_ts_event_ns ` set live), Max (rt_ts_event_ns ` set live)),
            cr_live_only_samples = sample live_only lm, cr_history_only_samples = sample hist_only hm,
            cr_notes = compare_notes (length live) (length lm) fuzzy\<rparr>)"

section \<open>The report\<close>

text \<open>The report's counts, first and last times and samples of the two lists are computed from \<open>vr_live\<close> and \<open>vr_history\<close>.\<close>

record verify_report =
  vr_ok :: bool
  vr_summary :: string
  vr_root :: string
  vr_exchange :: string
  vr_front :: front_month
  vr_window :: "int \<times> int"
  vr_live :: "recorded_tick list"
  vr_history :: "recorded_tick list"
  vr_compare :: compare_report
  vr_recorded_live_path :: "string option"
  vr_errors :: "string list"

definition verify_window :: "('s, 'x) verify_session_scheme \<Rightarrow> recorded_tick list \<Rightarrow> pyfloat \<Rightarrow> int \<Rightarrow> ('s, exn, int \<times> int) em" where
  "verify_window ses live record_sec pad =
     (if live = [] then
        bindE (vs_time ses) (\<lambda>a.
        bindE (liftE (py_int (PFloat record_sec))) (\<lambda>r.
        bindE (vs_time ses) (\<lambda>b. returnE (a - r - pad, b + pad))))
      else returnE (rt_ts_event_ns (hd live) div 1000000000 - pad, rt_ts_event_ns (last live) div 1000000000 + pad))"

definition verify_summary :: "bool \<Rightarrow> front_month \<Rightarrow> nat \<Rightarrow> compare_report \<Rightarrow> string list \<Rightarrow> string" where
  "verify_summary ok front n c errors =
     ''VERIFY '' @ (if ok then ''OK'' else ''FAIL'') @ '': front='' @ fm_trading_symbol front @ ''.'' @ fm_trading_exchange front
     @ '' live='' @ int_str (int n) @ '' hist_window='' @ int_str (int (cr_history_in_window c)) @ '' matched='' @ int_str (int (cr_matched c))
     @ '' overlap='' @ float_repr (cr_overlap_ratio c) @ (if errors = [] then [] else '' errors='' @ join_with '';'' errors)"

definition run_front_month_verify :: "('s, 'x) verify_session_scheme \<Rightarrow> string \<Rightarrow> string \<Rightarrow> pyfloat \<Rightarrow> int \<Rightarrow> nat \<Rightarrow> pyfloat
    \<Rightarrow> string option \<Rightarrow> nat \<Rightarrow> ('s, exn, verify_report) em" where
  "run_front_month_verify ses rt exchange record_sec pad min_live min_overlap record_dir n =
     bindE (resolve_front_month (md_session.truncate ses) rt exchange) (\<lambda>front.
     (let symbol = fm_trading_symbol front; xch = fm_trading_exchange front in
     bindE (record_live_trades ses symbol xch record_sec 500 n) (\<lambda>live.
     bindE (verify_window ses live record_sec pad) (\<lambda>window.
     bindE (load_history_trades ses symbol xch (fst window) (snd window)) (\<lambda>history.
     (let c = compare_ticks live history (to_double (1 / 1000000)) in
     bindE (case record_dir of
              None \<Rightarrow> returnE None
            | Some dir \<Rightarrow> bindE (vs_time ses) (\<lambda>stamp.
                let path = path_join dir (''live_'' @ symbol @ ''_'' @ int_str stamp @ ''.jsonl'')
                in thenE (vs_write ses path live) (returnE (Some path)))) (\<lambda>recorded.
       let errors0 = (if live = [] then [''no live last_trade events recorded''] else []);
           ok = (errors0 = [] \<and> min_live \<le> length live \<and> float_le min_overlap (cr_overlap_ratio c));
           errors = errors0 @ (if length live < min_live then [''live trades '' @ int_str (int (length live)) @ '' < min_live_trades ''
             @ int_str (int min_live)] else [])
       in returnE \<lparr>vr_ok = ok, vr_summary = verify_summary ok front (length live) c errors, vr_root = rt, vr_exchange = exchange,
            vr_front = front, vr_window = window, vr_live = live, vr_history = history, vr_compare = c,
            vr_recorded_live_path = recorded, vr_errors = errors\<rparr>)))))))"

section \<open>A concrete session\<close>

definition demo_verify :: "unit verify_session" where
  "demo_verify = md_session.extend (demo_session\<lparr>ms_load_ticks := (\<lambda>_ _ _ _. returnE [[(''type'', PStr ''history_tick''),
       (''trade_price'', PInt 20), (''trade_size'', PInt 1), (''ssboe'', PInt 9)]])\<rparr>)
     (verify_session.fields (\<lambda>_ _. returnE ()) (\<lambda>_ _. returnE ())
       (returnE (Some [(''type'', PStr ''last_trade''), (''trade_price'', PInt 20), (''trade_size'', PInt 1), (''ssboe'', PInt 9)]))
       (returnE 10) (\<lambda>_ _. returnE ()))"

section \<open>Counts and sets\<close>

lemma key_map_keys: "distinct (map fst (key_map ts)) \<and> set (map fst (key_map ts)) = tick_key_of ` set ts"
proof -
  have "distinct (map fst (fold (\<lambda>t m. dict_set (tick_key_of t) t m) ts m))
      \<and> fst ` set (fold (\<lambda>t m. dict_set (tick_key_of t) t m) ts m) = fst ` set m \<union> tick_key_of ` set ts"
    if "distinct (map fst m)" for m :: "(tick_key \<times> recorded_tick) list"
    using that by (induction ts arbitrary: m) auto
  from this [of "[]"] show ?thesis by (simp add: key_map_def)
qed

lemma length_filter_keys: "length (filter P (map fst (key_map ts))) = card {k \<in> tick_key_of ` set ts. P k}"
proof -
  have "distinct (filter P (map fst (key_map ts)))" using key_map_keys [of ts] by simp
  then have "length (filter P (map fst (key_map ts))) = card (set (filter P (map fst (key_map ts))))" by (simp only: distinct_card)
  also have "set (filter P (map fst (key_map ts))) = {k \<in> tick_key_of ` set ts. P k}" using key_map_keys [of ts] by auto
  finally show ?thesis .
qed

lemma compare_counts:
  assumes "live \<noteq> []"
  shows "cr_matched (compare_ticks live history tol) = card (tick_key_of ` set live \<inter> tick_key_of ` set (in_window live history))"
    and "cr_live_only (compare_ticks live history tol) = card (tick_key_of ` set live - tick_key_of ` set (in_window live history))"
    and "cr_history_only (compare_ticks live history tol) = card (tick_key_of ` set (in_window live history) - tick_key_of ` set live)"
proof -
  have k: "set (map fst (key_map ts)) = tick_key_of ` set ts" for ts using key_map_keys by blast
  have i: "{k \<in> A. k \<in> B} = A \<inter> B" "{k \<in> A. k \<notin> B} = A - B" for A B :: "tick_key set" by auto
  show "cr_matched (compare_ticks live history tol) = card (tick_key_of ` set live \<inter> tick_key_of ` set (in_window live history))"
    and "cr_live_only (compare_ticks live history tol) = card (tick_key_of ` set live - tick_key_of ` set (in_window live history))"
    and "cr_history_only (compare_ticks live history tol) = card (tick_key_of ` set (in_window live history) - tick_key_of ` set live)"
    using assms by (simp_all only: compare_ticks_def Let_def if_False compare_report.simps length_filter_keys k i)
qed

lemma no_match_ratio:
  assumes "cr_matched (compare_ticks live history tol) = 0"
  shows "cr_overlap_ratio (compare_ticks live history tol) = Fin 0"
proof (cases "live = []")
  case False
  let ?n = "length (filter (\<lambda>k. k \<in> set (map fst (key_map (in_window live history)))) (map fst (key_map live)))"
  have "?n = 0" using assms False by (simp only: compare_ticks_def Let_def if_False compare_report.simps)
  moreover have "cr_overlap_ratio (compare_ticks live history tol) = round_to 4 (to_double (of_nat ?n / of_nat (max (length (key_map live)) 1)))"
    using False by (simp only: compare_ticks_def Let_def if_False compare_report.simps)
  ultimately show ?thesis by (simp only:) (simp add: round_to_def to_double_def round_half_even_def round_div_def)
qed (simp add: compare_ticks_def empty_compare_def)

lemma verify_returned:
  assumes "run_front_month_verify ses rt exchange sec pad min_live min_overlap dir n s = (Inr r, s')"
  shows "vr_compare r = compare_ticks (vr_live r) (vr_history r) (to_double (1 / 1000000))
    \<and> vr_ok r = (vr_live r \<noteq> [] \<and> min_live \<le> length (vr_live r) \<and> float_le min_overlap (cr_overlap_ratio (vr_compare r)))
    \<and> (vr_ok r \<longrightarrow> vr_errors r = [])"
  using assms by (auto simp: run_front_month_verify_def em_returned Let_def)

text \<open>The trades of a recording as the check sees them: their times, and their prices rounded to six decimals.\<close>

definition trades_seen :: "recorded_tick list \<Rightarrow> (int \<times> pyfloat) set" where
  "trades_seen ts = (\<lambda>t. (rt_ts_event_ns t, round_to 6 (rt_price t))) ` set ts"

lemma trades_seen_keys: "trades_seen ts = tick_key_of ` set ts"
  unfolding trades_seen_def by (rule image_cong) (simp_all only: tick_key_of_def)

text \<open>The window of the recording loses no match.\<close>

lemma in_window_matches: "trades_seen live \<inter> trades_seen (in_window live history) = trades_seen live \<inter> trades_seen history"
proof -
  have "h \<in> set (in_window live history)" if "l \<in> set live" "h \<in> set history" "rt_ts_event_ns l = rt_ts_event_ns h" for l h
  proof -
    have "rt_ts_event_ns h \<in> rt_ts_event_ns ` set live" using that by (metis image_eqI)
    then show ?thesis using that(2) by (simp add: in_window_def Let_def)
  qed
  moreover have "set (in_window live history) \<subseteq> set history" by (auto simp: in_window_def Let_def)
  ultimately show ?thesis unfolding trades_seen_def by (auto simp: image_iff)
qed

lemma overlap_ratio:
  assumes "live \<noteq> []"
  shows "cr_overlap_ratio (compare_ticks live history tol)
    = round_to 4 (to_double (of_nat (card (trades_seen live \<inter> trades_seen history)) / of_nat (card (trades_seen live))))"
proof -
  have r: "cr_overlap_ratio (compare_ticks live history tol) = round_to 4 (to_double (of_nat (cr_matched (compare_ticks live history tol))
      / of_nat (max (length (key_map live)) 1)))"
    using assms by (simp only: compare_ticks_def Let_def if_False compare_report.simps)
  have n: "length (key_map live) = card (trades_seen live)"
    using key_map_keys [of live] distinct_card [of "map fst (key_map live)"] by (simp only: trades_seen_keys length_map)
  have "trades_seen live \<noteq> {}" "finite (trades_seen live)" using assms by (simp_all add: trades_seen_def)
  then have "0 < card (trades_seen live)" by (simp add: card_gt_0_iff)
  then have "max (length (key_map live)) 1 = card (trades_seen live)" unfolding n by simp
  moreover have "cr_matched (compare_ticks live history tol) = card (trades_seen live \<inter> trades_seen history)"
    using compare_counts(1) [OF assms] in_window_matches by (simp only: trades_seen_keys)
  ultimately show ?thesis using r by (simp only:)
qed

text \<open>
  C25: a report that says OK has evidence. If the check runs to the end and its report is OK, with a positive overlap
  asked for, then the report lists no errors, at least the required number of trades was recorded, and of the distinct
  trades recorded (by time, and price rounded to six decimals) at least the share asked for, the share rounded to four
  decimals, is among the trades of history. In particular a recorded trade has one in history at the same nanosecond
  whose price, rounded to six decimals, is the same.
\<close>

theorem verify_ok_has_evidence:
  assumes "run_front_month_verify ses rt exchange sec pad min_live (Fin x) dir n s = (Inr r, s')" "vr_ok r" "0 < x"
  shows "vr_errors r = [] \<and> min_live \<le> length (vr_live r)
    \<and> float_le (Fin x) (round_to 4 (to_double (of_nat (card (trades_seen (vr_live r) \<inter> trades_seen (vr_history r)))
        / of_nat (card (trades_seen (vr_live r))))))
    \<and> (\<exists>l h. l \<in> set (vr_live r) \<and> h \<in> set (vr_history r) \<and> rt_ts_event_ns l = rt_ts_event_ns h
        \<and> round_to 6 (rt_price l) = round_to 6 (rt_price h))"
proof -
  note v = verify_returned [OF assms(1)]
  let ?tol = "to_double (1 / 1000000)"
  have ne: "vr_live r \<noteq> []" and le: "float_le (Fin x) (cr_overlap_ratio (compare_ticks (vr_live r) (vr_history r) ?tol))"
    using v assms(2) by auto
  have "cr_matched (compare_ticks (vr_live r) (vr_history r) ?tol) \<noteq> 0"
    using le assms(3) no_match_ratio by fastforce
  then have "trades_seen (vr_live r) \<inter> trades_seen (vr_history r) \<noteq> {}"
    using compare_counts(1) [OF ne] in_window_matches [of "vr_live r" "vr_history r"] by (metis card.empty trades_seen_keys)
  then obtain k where "k \<in> trades_seen (vr_live r)" "k \<in> trades_seen (vr_history r)" by blast
  then have "\<exists>l h. l \<in> set (vr_live r) \<and> h \<in> set (vr_history r) \<and> rt_ts_event_ns l = rt_ts_event_ns h
        \<and> round_to 6 (rt_price l) = round_to 6 (rt_price h)"
    unfolding trades_seen_def by (auto simp only: image_iff prod.inject)
  with v assms(2) le [unfolded overlap_ratio [OF ne]] show ?thesis by blast
qed

lemma demo_verify_ok:
  "map_sum (\<lambda>_. ()) vr_ok (fst (run_front_month_verify demo_verify ''NQ'' ''CME'' (Fin 1) 2 1 (Fin 1) None 1 ())) = Inr True"
  by code_simp

theorem verify_ok_has_evidence_witness:
  "\<exists>r l h. fst (run_front_month_verify demo_verify ''NQ'' ''CME'' (Fin 1) 2 1 (Fin 1) None 1 ()) = Inr r
     \<and> l \<in> set (vr_live r) \<and> h \<in> set (vr_history r) \<and> rt_ts_event_ns l = rt_ts_event_ns h
     \<and> round_to 6 (rt_price l) = round_to 6 (rt_price h)"
proof -
  let ?run = "run_front_month_verify demo_verify ''NQ'' ''CME'' (Fin 1) 2 1 (Fin 1) None 1 ()"
  obtain r where r: "fst ?run = Inr r" "vr_ok r" using demo_verify_ok by (cases "fst ?run") auto
  then have "?run = (Inr r, snd ?run)" by (simp add: prod_eq_iff)
  from verify_ok_has_evidence [OF this r(2)] r(1) show ?thesis by auto
qed

end
