(* ===== verification/Spec2Isabelle.thy ===== *)
theory Spec2Isabelle
  imports Recovery Inventory Convert MarketData Replays Exchange Sessions Redact Verify
begin

text \<open>
  A verification development for the Rithmic adapter of Nautilus Trader (Python package
  \<open>src/python/rithmic_nt_connect\<close>, rules in the Rust crate \<open>src/crates/rithmic-exec\<close>).

  \<^bold>\<open>The program.\<close> The adapter connects a trading platform (Nautilus) to a futures venue (Rithmic). Its core is
  the execution client (\<open>execution.py\<close>): the platform sends it order commands and queries; it calls a wire
  session, and feeds order notifications, account and position rows of two venue streams back into the
  platform. What can go wrong is money: a command sent while nobody watches the order stream, a fill counted
  twice, an order whose outcome is unknown reported as settled, a position reported flat because it could not
  be read. The client therefore keeps an order plant state machine (\<open>_order_plant.py\<close>, \<open>plant.rs\<close>) whose latch
  closes the order path, and re-arms it only behind a barrier that re-reads venue state. This development
  models that client operation by operation and proves that the rules hold, whatever the order of events.

  \<^bold>\<open>Parts, theories and sources.\<close>
  \<^item> \<open>Prelude\<close>: the state-and-exception monad (\<open>bindE\<close>, \<open>tryE\<close>, \<open>keeps\<close>), Python dictionaries as association lists.
  \<^item> \<open>PyValue\<close>: the Python values of the wire (None, bool, int, float as rounded rationals, str, list), their
    conversions (\<open>int\<close>, \<open>float\<close>, \<open>str\<close>, \<open>Decimal\<close>), exceptions with class, code and message, and the 64-bit
    boundary of the extension.
  \<^item> \<open>OrderPlant\<close>: \<open>_order_plant.py\<close> on \<open>plant.rs\<close>. \<open>Lru\<close>: \<open>lru.rs\<close> and the two stores of \<open>_orders.py\<close>
    (locale \<open>recency_map\<close>, interpreted on the map and on both stores). \<open>Ident\<close>: instrument ids and event time.
    \<open>Exposure\<close>: \<open>exposure.py\<close>, \<open>exposure.rs\<close>. \<open>Convert\<close>: the message converters of \<open>_convert.py\<close>.
  \<^item> \<open>Nautilus\<close>: the enums and objects of the platform, and the platform itself as a parameter, the record
    \<open>nt_env\<close> of the calls the adapter makes (cache, clock, identifiers, report constructors). \<open>Orders\<close>: the
    mappings and notification classification of \<open>_orders.py\<close>. \<open>OrderRows\<close>: \<open>order_rows.py\<close>. \<open>Commission\<close>:
    \<open>commission.py\<close>.
  \<^item> \<open>Coro\<close>: coroutines. An \<open>async\<close> method runs without interruption between two awaits; a task is a function
    from the state to its first step. \<open>segments\<close> and \<open>sat\<close> are triples over its uninterrupted segments under
    arbitrary interference, \<open>co_run\<close> its runs, \<open>replay\<close> a concrete run.
  \<^item> \<open>Host\<close>: the state of \<open>RithmicExecutionClient\<close> (record \<open>host\<close>, one field per attribute), a trace of emitted
    events, session calls and venue-id bindings, the synchronous helpers, the PnL handlers; the frame locales
    (\<open>read_frame\<close>, \<open>passive_frame\<close>, \<open>binding_frame\<close>) that later theories extend and interpret.
  \<^item> \<open>Recon\<close>: \<open>recon.py\<close> (working-orders drain). \<open>Intake\<close>: \<open>notification_intake.py\<close>. \<open>Commands\<close>: the order
    commands. \<open>Lifecycle\<close>: connect, disconnect, restore, resync, gap recovery, the re-arm barrier. \<open>Queries\<close>:
    order, fill, position and mass status, exposure requests.
  \<^item> \<open>Polling\<close>: \<open>polling.py\<close>, \<open>errors.py\<close> (locale \<open>poller_frame\<close>). \<open>Streams\<close>: the order and PnL pollers of the client.
    \<open>Recovery\<close>: \<open>recovery_bridge.py\<close> on an explicit event loop. \<open>Tasks\<close>: any number of tasks over one shared
    state, their step relation and reachable states (locale \<open>task_relation\<close>). \<open>Client\<close>: all entry points of the
    execution client as such tasks. \<open>Inventory\<close>: \<open>inventory.py\<close>, \<open>inventory.rs\<close>.
  \<^item> The market data client, \<open>data.py\<close>: \<open>Market\<close> (ticks and rows of a history reply), \<open>Books\<close> (\<open>BookAssembler\<close>, with
    a book as a map on the abstract side), \<open>Bars\<close> (bar types, registry, \<open>closed_bars\<close>, \<open>BarSequenceGuard\<close>),
    \<open>DataClient\<close> (the state of \<open>RithmicDataClient\<close>, record \<open>md\<close>, and its methods), \<open>MarketData\<close> (its entry points as
    tasks of one system, locale \<open>md_frame\<close>), \<open>History\<close> and \<open>Replays\<close> (what finished requests, streams and
    connects have done). \<open>Instruments\<close>: \<open>providers.py\<close>, \<open>front_month.py\<close> and \<open>historical.py\<close>. \<open>Verify\<close>: \<open>verify.py\<close>.
  \<^item> \<open>Config\<close>: \<open>config.py\<close> and \<open>_redact.py\<close> (environment, dotenv files, credential sources, session settings).
    \<open>GatewayConfig\<close>: \<open>rithmic_gateway/config.py\<close>, with its 64-bit hash on words. \<open>Redact\<close>: \<open>redact_text\<close>. \<open>Sessions\<close>:
    \<open>session.py\<close> and \<open>factories.py\<close>.
  \<^item> The gateway client, package \<open>rithmic_gateway\<close>: \<open>Framing\<close> (length-prefixed frames and buffered reading),
    \<open>Windows\<close> (\<open>history_window.py\<close>), \<open>Gateway\<close> (the state of \<open>GatewayClient\<close>, record \<open>gw\<close>, calls, event queue, polls,
    all requests, attach and handshake), \<open>Exchange\<close> (what calls and polls guarantee; locale \<open>gateway_law\<close> for what
    every operation keeps, interpreted on the conservation of events and on the numbers of requests).

  \<^bold>\<open>What is shown.\<close>
  \<^item> Order path: in every reachable state of the system each order call was issued with its gates open; a
    submit announces the order first and carries its own terms, on the route of its cached instrument; a failure
    of unknown outcome latches and rejects nothing; a bracket is placed whole or denied whole.
  \<^item> Arming: only connect, restore and gap recovery arm the plant, each after a drain it read and applied and
    an observation of the PnL stream; a bring-up that fails its barrier leaves the plant latched; a restore
    that returns has armed it; a break of the session is never overtaken by an older restore.
  \<^item> Streams: an order stream that stops leaves the plant un-armed; transient failures end it after five; a
    PnL batch of an invalidated stream changes nothing.
  \<^item> Notifications and drain: a fill is emitted once while its key is in the dedup window; events go only to
    open orders; a doubtful fill latches; a drain publishes before it binds, never reopens a closed order, and
    uses the freshest row; terminal states and terms need evidence in the row.
  \<^item> Answers: mass status invents nothing; a complete exposure is proven, with the exact count of open baskets; an
    in-flight order is never answered by guess. The inventory tool implements a stateless reference.
  \<^item> Market data: in every reachable state the bars of a bar type only move forward, from history to live
    data; the books the platform sees follow the venue's, and each batch is closed once; the bar registry is
    the set of subscriptions; a connect replays every subscription; a bar request that returns has been
    answered with bars of its own reply, for the route of its instrument; a stream ends only when the session is closed.
  \<^item> Settings: a session read from the environment is well formed; in gateway mode no password variable is read;
    a test system is never run as live; secrets are not shown; redaction replaces every spelling of a secret (plain,
    \<open>repr\<close>, JSON, bytes) from left to right, the longest first; the default socket path fits the system's bound; the
    gateway facade broadcasts session events over one registration, up to the listener that raises.
  \<^item> Gateway client: frames survive any chunking and interruption of the socket; a call returns the reply to its
    own request, whose number no other request of the client's life had; every event received is delivered, queued or counted in a loss report; a load in slices is the
    load of the whole window.
  \<^item> Instruments: every listed contract configured is found under its id; an expiration is exactly midnight; a live
    check that says OK has the share of recorded trades asked for in history, by time and rounded price.
  \<^item> Findings, as theorems about the code as it is: a malformed average price aborts the whole drain; a bracket
    exit off the tick grid is rounded; isolated transient failures add up; a subscribe during an unsubscribe is
    lost; bars of minutes reach the subscribers of as many hours; an unreadable history row fails its whole reply; a poll
    of one gateway stream reorders the queued events of the others; a tick of tens loses its zeros; the guard of
    the live tests reads another variable than the session.

  \<^bold>\<open>Bounds.\<close> Two loops of the poller, one of the recovery bridge and the data poll loop have no bound in the source; the model
  takes the number of rounds as an argument, and the theorems hold for every number. Each round awaits, so every
  finite prefix of the real loop is a prefix of a bounded one. Waits with a deadline take the number of tests
  made before it passes. The bounded stores have the source's 10,000 entries in \<open>host_init\<close>; the theorems are
  about any bound.

  \<^bold>\<open>Not modelled.\<close> Log lines; the wall-clock length of sleeps; the cancellation of a task other than by dropping
  it at an await (the client has no handler that runs on cancellation apart from the teardown of a connect); the window
  between the two statements of the transport thread that latch the plant and schedule the recovery handler. The
  protocol classes of \<open>session.py\<close> and the methods of its direct facade that only forward. Outside the scope: the
  native session host and its plants (network and threads; the client sees them as session calls with arbitrary
  replies), generated protocol code, file locks and process launching, patches of third-party libraries, scripts
  and examples.
\<close>

end
